(* ===== verification/Prelude.thy ===== *)
theory Prelude
  imports Main "HOL-Library.Multiset"
begin

text \<open>
  The shared part of the development: results of code that may raise, first-match search,
  ordered de-duplication (\<open>dict.fromkeys\<close>), slices, and the lemmas about them that the
  component theories use through the simplifier.

  A call that may raise is a value of \<open>'e + 'a\<close>: \<open>Inl e\<close> is the raised exception,
  \<open>Inr v\<close> the returned value.
\<close>

section \<open>Collections of facts\<close>

named_theorems enum_simps \<open>case distinctions on the enumerations of the program\<close>
named_theorems frame_simps \<open>fields an operation leaves alone\<close>

section \<open>Results\<close>

fun is_ok :: "'e + 'a \<Rightarrow> bool" where
  "is_ok (Inl _) = False"
| "is_ok (Inr _) = True"

fun res_bind :: "'e + 'a \<Rightarrow> ('a \<Rightarrow> 'e + 'b) \<Rightarrow> 'e + 'b" where
  "res_bind (Inl e) f = Inl e"
| "res_bind (Inr x) f = f x"

fun res_list :: "('e + 'a) list \<Rightarrow> 'e + 'a list" where
  "res_list [] = Inr []"
| "res_list (Inl e # rs) = Inl e"
| "res_list (Inr x # rs) = (case res_list rs of Inl e \<Rightarrow> Inl e | Inr xs \<Rightarrow> Inr (x # xs))"

lemma is_ok_iff: "is_ok r \<longleftrightarrow> (\<exists>x. r = Inr x)"
  by (cases r) auto

lemma res_bind_Inr [simp]: "res_bind r f = Inr y \<longleftrightarrow> (\<exists>x. r = Inr x \<and> f x = Inr y)"
  by (cases r) auto

lemma res_bind_Inl [simp]:
  "res_bind r f = Inl e \<longleftrightarrow> r = Inl e \<or> (\<exists>x. r = Inr x \<and> f x = Inl e)"
  by (cases r) auto

lemma res_list_Inr_map: "res_list (map (\<lambda>x. Inr (f x)) xs) = Inr (map f xs)"
  by (induction xs) auto

lemma res_list_Inr_iff: "res_list rs = Inr xs \<longleftrightarrow> rs = map Inr xs"
proof (induction rs arbitrary: xs)
  case Nil
  then show ?case by auto
next
  case (Cons r rs)
  show ?case
  proof (cases r)
    case (Inl e)
    then show ?thesis by (cases xs) auto
  next
    case (Inr x)
    show ?thesis
    proof (cases "res_list rs")
      case (Inl e)
      then have "\<forall>ys. rs \<noteq> map Inr ys" using Cons by simp
      with Inl \<open>r = Inr x\<close> show ?thesis by (auto simp: Cons_eq_map_conv)
    next
      case (Inr ys)
      then have "rs = map Inr ys" using Cons by simp
      with Inr \<open>r = Inr x\<close> show ?thesis by (cases xs) (auto dest: map_injective simp: inj_def)
    qed
  qed
qed

lemma res_list_length: "res_list rs = Inr xs \<Longrightarrow> length xs = length rs"
  by (auto simp: res_list_Inr_iff)

section \<open>Searching a list\<close>

lemma find_SomeD: "List.find P xs = Some x \<Longrightarrow> x \<in> set xs \<and> P x"
  by (induction xs) (auto split: if_splits)

lemma find_None_conv: "List.find P xs = None \<longleftrightarrow> (\<forall>x\<in>set xs. \<not> P x)"
  by (auto simp: find_None_iff)

lemma find_unique:
  assumes "x \<in> set xs" "P x" "\<And>y. y \<in> set xs \<Longrightarrow> P y \<Longrightarrow> y = x"
  shows "List.find P xs = Some x"
proof (cases "List.find P xs")
  case None
  with assms(1,2) show ?thesis by (simp add: find_None_conv)
next
  case (Some y)
  then have "y \<in> set xs" "P y" by (auto dest: find_SomeD)
  then have "y = x" by (rule assms(3))
  with Some show ?thesis by simp
qed

section \<open>Ordered de-duplication: dict.fromkeys and append-if-new\<close>

fun dedup_acc :: "'a list \<Rightarrow> 'a list \<Rightarrow> 'a list" where
  "dedup_acc acc [] = acc"
| "dedup_acc acc (x # xs) = (if x \<in> set acc then dedup_acc acc xs else dedup_acc (acc @ [x]) xs)"

definition dict_fromkeys :: "'a list \<Rightarrow> 'a list" where
  "dict_fromkeys xs = dedup_acc [] xs"

lemma set_dedup_acc [simp]: "set (dedup_acc acc xs) = set acc \<union> set xs"
  by (induction acc xs rule: dedup_acc.induct) auto

lemma distinct_dedup_acc: "distinct acc \<Longrightarrow> distinct (dedup_acc acc xs)"
  by (induction acc xs rule: dedup_acc.induct) auto

lemma dedup_acc_distinct:
  "distinct (acc @ xs) \<Longrightarrow> dedup_acc acc xs = acc @ xs"
proof (induction xs arbitrary: acc)
  case Nil
  then show ?case by simp
next
  case (Cons x xs)
  then have "dedup_acc (acc @ [x]) xs = (acc @ [x]) @ xs" by (intro Cons.IH) auto
  with Cons.prems show ?case by auto
qed

lemma set_dict_fromkeys [simp]: "set (dict_fromkeys xs) = set xs"
  by (simp add: dict_fromkeys_def)

lemma distinct_dict_fromkeys [simp]: "distinct (dict_fromkeys xs)"
  by (simp add: dict_fromkeys_def distinct_dedup_acc)

lemma dict_fromkeys_id: "distinct xs \<Longrightarrow> dict_fromkeys xs = xs"
  by (simp add: dict_fromkeys_def dedup_acc_distinct)

lemma dict_fromkeys_idem [simp]: "dict_fromkeys (dict_fromkeys xs) = dict_fromkeys xs"
  by (simp add: dict_fromkeys_id)

section \<open>Removing the first occurrence\<close>

lemma mset_remove1_find:
  "List.find P xs = Some x \<Longrightarrow> add_mset x (mset (remove1 x xs)) = mset xs"
  by (auto dest: find_SomeD)

end
