(* ===== verification/PyStr.thy ===== *)
theory PyStr
  imports Prelude
begin

text \<open>
  The string operations of Python that the program uses. A Python \<open>str\<close> is a list of
  \<open>char\<close>, read as the code points U+0000 to U+00FF (Latin-1); code points above are outside
  the model. The operations treat the whole of Latin-1 as Python does: \<open>strip\<close> removes its
  white space (not only the ASCII one), \<open>isdigit\<close> accepts the superscript digits,
  \<open>splitlines\<close> breaks at the vertical tab, form feed, the three separators and NEL.
\<close>

section \<open>Characters\<close>

abbreviation cp :: "char \<Rightarrow> int" where
  "cp c \<equiv> of_char c"

definition is_space :: "char \<Rightarrow> bool" where
  "is_space c \<longleftrightarrow> (let n = cp c in (9 \<le> n \<and> n \<le> 13) \<or> (28 \<le> n \<and> n \<le> 32) \<or> n = 133 \<or> n = 160)"

definition is_dec :: "char \<Rightarrow> bool" where
  "is_dec c \<longleftrightarrow> 48 \<le> cp c \<and> cp c \<le> 57"

definition is_lower :: "char \<Rightarrow> bool" where
  "is_lower c \<longleftrightarrow> 97 \<le> cp c \<and> cp c \<le> 122"

definition is_upper :: "char \<Rightarrow> bool" where
  "is_upper c \<longleftrightarrow> 65 \<le> cp c \<and> cp c \<le> 90"

definition is_hex :: "char \<Rightarrow> bool" where
  "is_hex c \<longleftrightarrow> is_dec c \<or> (97 \<le> cp c \<and> cp c \<le> 102) \<or> (65 \<le> cp c \<and> cp c \<le> 70)"

definition is_alnum :: "char \<Rightarrow> bool" where
  "is_alnum c \<longleftrightarrow> is_dec c \<or> is_lower c \<or> is_upper c"

definition is_superscript_digit :: "char \<Rightarrow> bool" where
  "is_superscript_digit c \<longleftrightarrow> cp c = 178 \<or> cp c = 179 \<or> cp c = 185"

definition lower_char :: "char \<Rightarrow> char" where
  "lower_char c = (if is_upper c \<or> (192 \<le> cp c \<and> cp c \<le> 222 \<and> cp c \<noteq> 215)
     then char_of (cp c + 32) else c)"

definition upper_chars :: "char \<Rightarrow> string" where
  "upper_chars c = (if cp c = 223 then ''SS''
     else if is_lower c \<or> (224 \<le> cp c \<and> cp c \<le> 254 \<and> cp c \<noteq> 247)
     then [char_of (cp c - 32)] else [c])"

section \<open>str methods\<close>

definition py_lower :: "string \<Rightarrow> string" where
  "py_lower = map lower_char"

definition py_upper :: "string \<Rightarrow> string" where
  "py_upper s = concat (map upper_chars s)"

definition rstrip_if :: "(char \<Rightarrow> bool) \<Rightarrow> string \<Rightarrow> string" where
  "rstrip_if P s = rev (dropWhile P (rev s))"

definition strip_if :: "(char \<Rightarrow> bool) \<Rightarrow> string \<Rightarrow> string" where
  "strip_if P s = rstrip_if P (dropWhile P s)"

definition py_strip :: "string \<Rightarrow> string" where
  "py_strip = strip_if is_space"

definition strip_char :: "char \<Rightarrow> string \<Rightarrow> string" where
  "strip_char c = strip_if (\<lambda>x. x = c)"

definition rstrip_char :: "char \<Rightarrow> string \<Rightarrow> string" where
  "rstrip_char c = rstrip_if (\<lambda>x. x = c)"

definition py_isdigit :: "string \<Rightarrow> bool" where
  "py_isdigit s \<longleftrightarrow> s \<noteq> [] \<and> list_all (\<lambda>c. is_dec c \<or> is_superscript_digit c) s"

definition startswith :: "string \<Rightarrow> string \<Rightarrow> bool" where
  "startswith pre s \<longleftrightarrow> take (length pre) s = pre"

definition endswith :: "string \<Rightarrow> string \<Rightarrow> bool" where
  "endswith suf s \<longleftrightarrow> startswith (rev suf) (rev s)"

fun has_sub :: "string \<Rightarrow> string \<Rightarrow> bool" where
  "has_sub p [] = (p = [])"
| "has_sub p (c # s) = (startswith p (c # s) \<or> has_sub p s)"

fun split_on :: "char \<Rightarrow> string \<Rightarrow> string list" where
  "split_on c [] = [[]]"
| "split_on c (x # xs) = (if x = c then [] # split_on c xs
     else (case split_on c xs of [] \<Rightarrow> [[x]] | p # ps \<Rightarrow> (x # p) # ps))"

fun partition_on :: "char \<Rightarrow> string \<Rightarrow> string \<times> bool \<times> string" where
  "partition_on c [] = ([], False, [])"
| "partition_on c (x # xs) = (if x = c then ([], True, xs)
     else (case partition_on c xs of (a, f, b) \<Rightarrow> (x # a, f, b)))"

definition rpartition_on :: "char \<Rightarrow> string \<Rightarrow> string \<times> bool \<times> string" where
  "rpartition_on c s = (case partition_on c (rev s) of
     (a, f, b) \<Rightarrow> if f then (rev b, True, rev a) else ([], False, s))"

fun join_with :: "string \<Rightarrow> string list \<Rightarrow> string" where
  "join_with sep [] = []"
| "join_with sep [p] = p"
| "join_with sep (p # q # ps) = p @ sep @ join_with sep (q # ps)"

definition replace_char :: "char \<Rightarrow> string \<Rightarrow> string \<Rightarrow> string" where
  "replace_char c r s = concat (map (\<lambda>x. if x = c then r else [x]) s)"

text \<open>\<open>s.replace(old, new)\<close> for a nonempty \<open>old\<close>.\<close>

function replace_all :: "string \<Rightarrow> string \<Rightarrow> string \<Rightarrow> string" where
  "replace_all old new [] = []"
| "replace_all old new (c # s) =
     (if old \<noteq> [] \<and> startswith old (c # s) then new @ replace_all old new (drop (length old) (c # s))
      else c # replace_all old new s)"
  by pat_completeness auto
termination
proof (relation "measure (\<lambda>(old, new, s). length s)", goal_cases)
  case (2 old new c s)
  then show ?case by (cases old) auto
qed auto

definition has_any :: "char list \<Rightarrow> string \<Rightarrow> bool" where
  "has_any bad s \<longleftrightarrow> list_ex (\<lambda>c. c \<in> set bad) s"

definition LF :: char where "LF = char_of (10 :: int)"
definition CR :: char where "CR = char_of (13 :: int)"
definition NUL :: char where "NUL = char_of (0 :: int)"
definition QUOTE :: char where "QUOTE = char_of (34 :: int)"
definition BACKSLASH :: char where "BACKSLASH = char_of (92 :: int)"

definition is_line_break :: "char \<Rightarrow> bool" where
  "is_line_break c \<longleftrightarrow> (let n = cp c in (10 \<le> n \<and> n \<le> 13) \<or> (28 \<le> n \<and> n \<le> 30) \<or> n = 133)"

fun splitlines_acc :: "string \<Rightarrow> string \<Rightarrow> string list" where
  "splitlines_acc acc [] = (if acc = [] then [] else [rev acc])"
| "splitlines_acc acc (c # s) =
     (if is_line_break c
      then (case s of d # s' \<Rightarrow> if c = CR \<and> d = LF then rev acc # splitlines_acc [] s'
                                else rev acc # splitlines_acc [] s
            | [] \<Rightarrow> [rev acc])
      else splitlines_acc (c # acc) s)"

definition splitlines :: "string \<Rightarrow> string list" where
  "splitlines s = splitlines_acc [] s"

section \<open>Numbers\<close>

definition digit_char :: "int \<Rightarrow> char" where
  "digit_char d = (if d < 10 then char_of (48 + d) else char_of (87 + d))"

definition digit_val :: "char \<Rightarrow> int" where
  "digit_val c = (if is_dec c then cp c - 48 else if 97 \<le> cp c then cp c - 87 else cp c - 55)"

function num_str :: "int \<Rightarrow> int \<Rightarrow> string" where
  "num_str b n = (if b < 2 \<or> n < b then [digit_char n]
     else num_str b (n div b) @ [digit_char (n mod b)])"
  by pat_completeness auto
termination
proof (relation "measure (\<lambda>(b, n). nat n)", goal_cases)
  case (2 b n)
  then have "n div b < n" by (intro int_div_less_self) auto
  with 2 show ?case by simp
qed simp

declare num_str.simps [simp del]

definition num_val :: "int \<Rightarrow> string \<Rightarrow> int" where
  "num_val b s = foldl (\<lambda>a c. a * b + digit_val c) 0 s"

abbreviation hex_str :: "int \<Rightarrow> string" where
  "hex_str n \<equiv> num_str 16 n"

definition int_str :: "int \<Rightarrow> string" where
  "int_str i = (if i < 0 then ''-'' @ num_str 10 (- i) else num_str 10 i)"

text \<open>
  \<open>int(text)\<close>: surrounding white space, one sign, decimal digits with single underscores
  between digits; anything else is the ValueError, \<open>None\<close> here.
\<close>

fun int_digits :: "string \<Rightarrow> bool" where
  "int_digits [] = False"
| "int_digits [c] = is_dec c"
| "int_digits (c # d # s) = (is_dec c \<and>
     (if d = CHR ''_'' then int_digits s else int_digits (d # s)))"

definition py_int :: "string \<Rightarrow> int option" where
  "py_int s = (let t = py_strip s;
       (neg, body) = (case t of [] \<Rightarrow> (False, []) | c # r \<Rightarrow>
          if c = CHR ''-'' then (True, r) else if c = CHR ''+'' then (False, r) else (False, t))
     in if int_digits body
        then (let v = num_val 10 (filter is_dec body) in Some (if neg then - v else v))
        else None)"

section \<open>Facts about splitting and joining\<close>

lemma split_on_ne [simp]: "split_on c s \<noteq> []"
  by (induction s) (auto split: list.splits)

lemma split_on_free: "c \<notin> set s \<Longrightarrow> split_on c s = [s]"
  by (induction s) auto

lemma split_on_append: "c \<notin> set p \<Longrightarrow> split_on c (p @ c # s) = p # split_on c s"
  by (induction p) auto

lemma split_on_join:
  "ps \<noteq> [] \<Longrightarrow> \<forall>p\<in>set ps. c \<notin> set p \<Longrightarrow> split_on c (join_with [c] ps) = ps"
proof (induction "[c]" ps rule: join_with.induct)
  case 1
  then show ?case by simp
next
  case (2 p)
  then show ?case by (simp add: split_on_free)
next
  case (3 p q ps)
  then show ?case by (simp add: split_on_append)
qed

lemma split_on_pieces: "p \<in> set (split_on c s) \<Longrightarrow> c \<notin> set p"
proof (induction s arbitrary: p)
  case Nil
  then show ?case by simp
next
  case (Cons x s)
  then show ?case by (cases "split_on c s") (auto split: if_splits)
qed

lemma join_split: "join_with [c] (split_on c s) = s"
proof (induction s)
  case Nil
  then show ?case by simp
next
  case (Cons x s)
  note IH = Cons
  show ?case
  proof (cases "split_on c s")
    case Nil
    then show ?thesis by simp
  next
    case (Cons p ps)
    with IH show ?thesis by (cases ps) auto
  qed
qed

lemma partition_on_free: "c \<notin> set s \<Longrightarrow> partition_on c s = (s, False, [])"
  by (induction s) auto

lemma partition_on_append: "c \<notin> set p \<Longrightarrow> partition_on c (p @ c # s) = (p, True, s)"
  by (induction p) auto

lemma partition_on_found:
  "partition_on c s = (a, True, b) \<Longrightarrow> s = a @ c # b \<and> c \<notin> set a"
  by (induction s arbitrary: a) (auto split: if_splits prod.splits)

lemma partition_on_not_found:
  "partition_on c s = (a, False, b) \<Longrightarrow> a = s \<and> b = [] \<and> c \<notin> set s"
  by (induction s arbitrary: a) (auto split: if_splits prod.splits)

lemma startswith_append [simp]: "startswith p (p @ s)"
  by (simp add: startswith_def)

lemma startswith_iff: "startswith p s \<longleftrightarrow> (\<exists>r. s = p @ r)"
  by (auto simp: startswith_def) (metis append_take_drop_id)

lemma endswith_iff: "endswith p s \<longleftrightarrow> (\<exists>r. s = r @ p)"
proof -
  have "(\<exists>r. rev s = rev p @ r) \<longleftrightarrow> (\<exists>r. s = r @ p)"
    by (metis rev_append rev_rev_ident)
  then show ?thesis by (simp add: endswith_def startswith_iff)
qed

lemma has_sub_iff: "has_sub p s \<longleftrightarrow> (\<exists>a b. s = a @ p @ b)"
proof (induction s)
  case Nil
  then show ?case by auto
next
  case (Cons c s)
  have "(\<exists>a b. c # s = a @ p @ b) \<longleftrightarrow> (\<exists>b. c # s = p @ b) \<or> (\<exists>a b. s = a @ p @ b)"
  proof
    assume "\<exists>a b. c # s = a @ p @ b"
    then obtain a b where ab: "c # s = a @ p @ b" by blast
    then show "(\<exists>b. c # s = p @ b) \<or> (\<exists>a b. s = a @ p @ b)" by (cases a) auto
  next
    assume "(\<exists>b. c # s = p @ b) \<or> (\<exists>a b. s = a @ p @ b)"
    then show "\<exists>a b. c # s = a @ p @ b"
    proof
      assume "\<exists>b. c # s = p @ b"
      then show ?thesis by (metis append_Nil)
    next
      assume "\<exists>a b. s = a @ p @ b"
      then show ?thesis by (metis append_Cons)
    qed
  qed
  then show ?case by (simp add: Cons startswith_iff)
qed

section \<open>Stripping\<close>

lemma rstrip_if_append_end: "\<not> P c \<Longrightarrow> rstrip_if P (s @ [c]) = s @ [c]"
  by (simp add: rstrip_if_def)

lemma rstrip_if_id: "s = [] \<or> \<not> P (last s) \<Longrightarrow> rstrip_if P s = s"
  by (cases s rule: rev_cases) (auto simp: rstrip_if_def)

lemma strip_if_id: "s = [] \<or> (\<not> P (hd s) \<and> \<not> P (last s)) \<Longrightarrow> strip_if P s = s"
  by (cases s) (auto simp: strip_if_def intro: rstrip_if_id)

lemma rstrip_if_last: "rstrip_if P s = [] \<or> \<not> P (last (rstrip_if P s))"
  using hd_dropWhile [of P "rev s"] by (auto simp: rstrip_if_def last_rev)

lemma set_rstrip_if: "set (rstrip_if P s) \<subseteq> set s"
  by (auto simp: rstrip_if_def dest: set_dropWhileD)

lemma strip_if_no: "\<forall>c\<in>set s. \<not> P c \<Longrightarrow> strip_if P s = s"
  by (rule strip_if_id) auto

section \<open>Numerals\<close>

lemma digit_val_char: "0 \<le> d \<Longrightarrow> d < 16 \<Longrightarrow> digit_val (digit_char d) = d"
  by (simp add: digit_val_def digit_char_def is_dec_def)

lemma is_dec_digit_char: "0 \<le> d \<Longrightarrow> d < 10 \<Longrightarrow> is_dec (digit_char d)"
  by (simp add: digit_char_def is_dec_def)

lemma is_hex_digit_char: "0 \<le> d \<Longrightarrow> d < 16 \<Longrightarrow> is_hex (digit_char d)"
  by (simp add: digit_char_def is_dec_def is_hex_def)

lemma digit_char_0 [simp]: "digit_char 0 = CHR ''0''"
  by code_simp

lemma digit_val_nonneg: "is_hex c \<Longrightarrow> 0 \<le> digit_val c"
  by (auto simp: digit_val_def is_hex_def is_dec_def)

lemma num_val_nonneg: "0 \<le> b \<Longrightarrow> list_all is_hex s \<Longrightarrow> 0 \<le> num_val b s"
proof (induction s rule: rev_induct)
  case Nil
  then show ?case by (simp add: num_val_def)
next
  case (snoc c s)
  then show ?case
    by (simp add: num_val_def digit_val_nonneg)
qed

lemma is_dec_is_hex: "is_dec c \<Longrightarrow> is_hex c"
  by (simp add: is_hex_def)

lemma num_str_ne [simp]: "num_str b n \<noteq> []"
  by (subst num_str.simps) simp

lemma num_str_ne2 [simp]: "[] \<noteq> num_str b n"
  by (metis num_str_ne)

lemma num_val_snoc: "num_val b (s @ [c]) = num_val b s * b + digit_val c"
  by (simp add: num_val_def)

lemma num_val_str: "2 \<le> b \<Longrightarrow> b \<le> 16 \<Longrightarrow> 0 \<le> n \<Longrightarrow> num_val b (num_str b n) = n"
proof (induction b n rule: num_str.induct)
  case (1 b n)
  show ?case
  proof (cases "n < b")
    case True
    with "1.prems" show ?thesis
      by (subst num_str.simps) (simp add: num_val_def digit_val_char)
  next
    case False
    have m: "0 \<le> n mod b" "n mod b < b" using "1.prems" by auto
    then have "n mod b < 16" using "1.prems" by linarith
    with m have "digit_val (digit_char (n mod b)) = n mod b" by (intro digit_val_char)
    moreover have "0 \<le> n div b" using "1.prems" by (simp add: pos_imp_zdiv_nonneg_iff)
    ultimately show ?thesis using 1 False
      by (subst num_str.simps) (simp add: num_val_snoc)
  qed
qed

lemma num_str_chars:
  "2 \<le> b \<Longrightarrow> b \<le> 16 \<Longrightarrow> 0 \<le> n \<Longrightarrow> c \<in> set (num_str b n) \<Longrightarrow> \<exists>d. 0 \<le> d \<and> d < b \<and> c = digit_char d"
proof (induction b n rule: num_str.induct)
  case (1 b n)
  show ?case
  proof (cases "n < b")
    case True
    with 1 show ?thesis by (auto simp: num_str.simps [of b n])
  next
    case False
    have "0 \<le> n mod b" "n mod b < b" "0 \<le> n div b"
      using "1.prems" by (auto simp: pos_imp_zdiv_nonneg_iff)
    moreover have "c \<in> set (num_str b (n div b)) \<or> c = digit_char (n mod b)"
      using "1.prems" False by (auto simp: num_str.simps [of b n] split: if_splits)
    ultimately show ?thesis using 1 False by (metis not_less)
  qed
qed

lemma num_str_dec: "0 \<le> n \<Longrightarrow> c \<in> set (num_str 10 n) \<Longrightarrow> is_dec c"
  using num_str_chars [of 10 n c] is_dec_digit_char by auto

lemma num_str_hex: "0 \<le> n \<Longrightarrow> c \<in> set (num_str 16 n) \<Longrightarrow> is_hex c"
  using num_str_chars [of 16 n c] is_hex_digit_char by auto

lemma num_str_hd_zero:
  "2 \<le> b \<Longrightarrow> b \<le> 16 \<Longrightarrow> 0 < n \<Longrightarrow> hd (num_str b n) \<noteq> digit_char 0"
proof (induction b n rule: num_str.induct)
  case (1 b n)
  show ?case
  proof (cases "n < b")
    case True
    have "digit_char n \<noteq> digit_char 0"
      using digit_val_char [of n] digit_val_char [of 0] True "1.prems" by force
    with True show ?thesis by (simp add: num_str.simps [of b n])
  next
    case False
    then have "0 < n div b" using "1.prems" by (simp add: pos_imp_zdiv_pos_iff)
    with 1 False show ?thesis by (simp add: num_str.simps [of b n])
  qed
qed

lemma num_str_length:
  "2 \<le> b \<Longrightarrow> 0 \<le> n \<Longrightarrow> n < b ^ k \<Longrightarrow> 0 < k \<Longrightarrow> length (num_str b n) \<le> k"
proof (induction k arbitrary: n)
  case 0
  then show ?case by simp
next
  case (Suc k)
  show ?case
  proof (cases "n < b")
    case True
    then show ?thesis by (simp add: num_str.simps [of b n])
  next
    case False
    then have k: "0 < k" using Suc.prems by (cases k) auto
    have "n div b < b ^ k"
    proof (rule ccontr)
      assume "\<not> n div b < b ^ k"
      then have "b ^ k * b \<le> n div b * b" using Suc.prems(1) by (intro mult_right_mono) auto
      also have "\<dots> = n - n mod b" by (simp add: minus_mod_eq_div_mult)
      also have "\<dots> \<le> n" using Suc.prems(1) by simp
      finally show False using Suc.prems(3) by (simp add: mult.commute)
    qed
    moreover have "0 \<le> n div b" using Suc.prems by (simp add: pos_imp_zdiv_nonneg_iff)
    ultimately have "length (num_str b (n div b)) \<le> k" using Suc.IH Suc.prems(1) k by simp
    with False Suc.prems(1) show ?thesis by (simp add: num_str.simps [of b n])
  qed
qed

lemma num_str_inject:
  "2 \<le> b \<Longrightarrow> b \<le> 16 \<Longrightarrow> 0 \<le> m \<Longrightarrow> 0 \<le> n \<Longrightarrow> num_str b m = num_str b n \<longleftrightarrow> m = n"
  by (metis num_val_str)

end
