(* ===== verification/IpAddr.thy ===== *)
theory IpAddr
  imports PyStr
begin

text \<open>
  The part of Python's \<open>ipaddress\<close> module (CPython 3.10 to 3.12) that the program uses: parsing
  and printing of IPv4 and IPv6 addresses (scope identifiers included), the loopback and
  unspecified predicates, CIDR networks and membership. An address is its integer, as in the
  library (\<open>_ip\<close>), tagged with its version.

  The theorem at the end, \<open>ip_address_ip_str\<close>, says that the printed form of a well-formed
  address parses back to it, compressed IPv6 forms included.
\<close>

datatype ip = V4 int | V6 int "string option"

fun ip_version :: "ip \<Rightarrow> nat" where
  "ip_version (V4 _) = 4"
| "ip_version (V6 _ _) = 6"

fun ip_int :: "ip \<Rightarrow> int" where
  "ip_int (V4 n) = n"
| "ip_int (V6 n _) = n"

fun ip_bits :: "ip \<Rightarrow> nat" where
  "ip_bits (V4 _) = 32"
| "ip_bits (V6 _ _) = 128"

fun ip_wf :: "ip \<Rightarrow> bool" where
  "ip_wf (V4 n) = (0 \<le> n \<and> n < 2 ^ 32)"
| "ip_wf (V6 n sc) = (0 \<le> n \<and> n < 2 ^ 128 \<and> (case sc of None \<Rightarrow> True
     | Some s \<Rightarrow> s \<noteq> [] \<and> CHR ''%'' \<notin> set s \<and> CHR ''/'' \<notin> set s))"

section \<open>IPv4\<close>

definition v4_octet :: "string \<Rightarrow> int option" where
  "v4_octet s = (if s = [] \<or> \<not> list_all is_dec s \<or> 3 < length s
       \<or> (s \<noteq> ''0'' \<and> hd s = CHR ''0'') \<or> 255 < num_val 10 s
     then None else Some (num_val 10 s))"

definition v4_parse :: "string \<Rightarrow> int option" where
  "v4_parse s = (case split_on (CHR ''.'') s of
     [a, b, c, d] \<Rightarrow>
       (case (v4_octet a, v4_octet b, v4_octet c, v4_octet d) of
          (Some w, Some x, Some y, Some z) \<Rightarrow> Some (w * 2 ^ 24 + x * 2 ^ 16 + y * 2 ^ 8 + z)
        | _ \<Rightarrow> None)
   | _ \<Rightarrow> None)"

definition v4_str :: "int \<Rightarrow> string" where
  "v4_str n = join_with ''.'' (map (num_str 10)
     [n div 2 ^ 24 mod 256, n div 2 ^ 16 mod 256, n div 2 ^ 8 mod 256, n mod 256])"

section \<open>IPv6\<close>

definition v6_hextet :: "string \<Rightarrow> int option" where
  "v6_hextet s = (if s = [] \<or> \<not> list_all is_hex s \<or> 4 < length s then None else Some (num_val 16 s))"

fun v6_hextet_list :: "string list \<Rightarrow> int list option" where
  "v6_hextet_list [] = Some []"
| "v6_hextet_list (p # ps) = (case (v6_hextet p, v6_hextet_list ps) of
     (Some h, Some hs) \<Rightarrow> Some (h # hs) | _ \<Rightarrow> None)"

definition v6_int :: "int list \<Rightarrow> int" where
  "v6_int hs = foldl (\<lambda>a h. a * 65536 + h) 0 hs"

text \<open>The positions of the empty parts strictly inside the list: at most one may exist.\<close>

definition v6_skips :: "string list \<Rightarrow> nat list" where
  "v6_skips ps = filter (\<lambda>i. ps ! i = []) [1..<length ps - 1]"

definition v6_parts :: "string list \<Rightarrow> int list option" where
  "v6_parts ps = (case v6_skips ps of
     [] \<Rightarrow> if length ps \<noteq> 8 \<or> hd ps = [] \<or> last ps = [] then None else v6_hextet_list ps
   | [i] \<Rightarrow>
       (let hi = (if hd ps = [] then i - 1 else i);
            lo = (if last ps = [] then length ps - i - 2 else length ps - i - 1)
        in if (hd ps = [] \<and> hi \<noteq> 0) \<or> (last ps = [] \<and> lo \<noteq> 0) \<or> 8 < hi + lo + 1 then None
           else (case (v6_hextet_list (take hi ps), v6_hextet_list (drop (length ps - lo) ps)) of
             (Some xs, Some ys) \<Rightarrow> Some (xs @ replicate (8 - (hi + lo)) 0 @ ys)
           | _ \<Rightarrow> None))
   | _ \<Rightarrow> None)"

text \<open>A dotted IPv4 tail replaces the last part by two hexadecimal ones.\<close>

definition v6_expand_v4 :: "string list \<Rightarrow> string list option" where
  "v6_expand_v4 ps = (if CHR ''.'' \<in> set (last ps)
     then (case v4_parse (last ps) of None \<Rightarrow> None
       | Some n \<Rightarrow> Some (butlast ps @ [hex_str (n div 65536 mod 65536), hex_str (n mod 65536)]))
     else Some ps)"

definition v6_parse_addr :: "string \<Rightarrow> int option" where
  "v6_parse_addr s = (let ps = split_on (CHR '':'') s in
     if s = [] \<or> length ps < 3 then None
     else (case v6_expand_v4 ps of None \<Rightarrow> None
       | Some qs \<Rightarrow> if 9 < length qs then None else map_option v6_int (v6_parts qs)))"

definition v6_parse :: "string \<Rightarrow> ip option" where
  "v6_parse s = (if CHR ''/'' \<in> set s then None
     else (case partition_on (CHR ''%'') s of (a, sep, sc) \<Rightarrow>
       if sep \<and> (sc = [] \<or> CHR ''%'' \<in> set sc) then None
       else map_option (\<lambda>n. V6 n (if sep then Some sc else None)) (v6_parse_addr a)))"

definition v6_hextets :: "int \<Rightarrow> int list" where
  "v6_hextets n = map (\<lambda>i. n div 65536 ^ (7 - i) mod 65536) [0..<8]"

text \<open>
  \<open>_compress_hextets\<close>: the first longest run of zero hextets, as (start, length). The loop
  state is (index, current run start, current run length, best start, best length).
\<close>

fun zero_run :: "int list \<Rightarrow> nat \<Rightarrow> nat \<Rightarrow> nat \<Rightarrow> nat \<Rightarrow> nat \<Rightarrow> nat \<times> nat" where
  "zero_run [] i st ln bst bln = (bst, bln)"
| "zero_run (h # hs) i st ln bst bln =
     (if h = 0
      then (let st' = (if ln = 0 then i else st); ln' = Suc ln
            in if bln < ln' then zero_run hs (Suc i) st' ln' st' ln'
               else zero_run hs (Suc i) st' ln' bst bln)
      else zero_run hs (Suc i) st 0 bst bln)"

definition v6_compress :: "int list \<Rightarrow> string list" where
  "v6_compress hs = (case zero_run hs 0 0 0 0 0 of (st, ln) \<Rightarrow>
     if 1 < ln
     then (if st = 0 then [[]] else []) @ map hex_str (take st hs) @ [[]]
          @ map hex_str (drop (st + ln) hs) @ (if st + ln = length hs then [[]] else [])
     else map hex_str hs)"

definition v6_str :: "int \<Rightarrow> string" where
  "v6_str n = join_with '':'' (v6_compress (v6_hextets n))"

section \<open>Addresses\<close>

definition ip_address :: "string \<Rightarrow> ip option" where
  "ip_address s = (case v4_parse s of Some n \<Rightarrow> Some (V4 n) | None \<Rightarrow> v6_parse s)"

fun ip_str :: "ip \<Rightarrow> string" where
  "ip_str (V4 n) = v4_str n"
| "ip_str (V6 n sc) = (case sc of None \<Rightarrow> v6_str n | Some s \<Rightarrow> v6_str n @ ''%'' @ s)"

fun ip_is_loopback :: "ip \<Rightarrow> bool" where
  "ip_is_loopback (V4 n) = (n div 2 ^ 24 = 127)"
| "ip_is_loopback (V6 n _) = (n = 1)"

fun ip_is_unspecified :: "ip \<Rightarrow> bool" where
  "ip_is_unspecified (V4 n) = (n = 0)"
| "ip_is_unspecified (V6 n _) = (n = 0)"

fun ip_is_link_local :: "ip \<Rightarrow> bool" where
  "ip_is_link_local (V4 n) = (n div 2 ^ 16 = 169 * 256 + 254)"
| "ip_is_link_local (V6 n _) = (n div 2 ^ 118 = 1018)"

section \<open>Networks\<close>

datatype net = Net (net_addr: ip) (net_prefix: nat)

definition mask_to :: "nat \<Rightarrow> nat \<Rightarrow> int \<Rightarrow> int" where
  "mask_to bits p n = n div 2 ^ (bits - p) * 2 ^ (bits - p)"

definition prefix_from_digits :: "nat \<Rightarrow> string \<Rightarrow> nat option" where
  "prefix_from_digits bits s = (if s \<noteq> [] \<and> list_all is_dec s \<and> num_val 10 s \<le> int bits
     then Some (nat (num_val 10 s)) else None)"

definition prefix_from_mask_int :: "int \<Rightarrow> nat option" where
  "prefix_from_mask_int m = List.find (\<lambda>p. m = 2 ^ 32 - 2 ^ (32 - p)) [0..<33]"

definition v4_prefix :: "string \<Rightarrow> nat option" where
  "v4_prefix s = (case prefix_from_digits 32 s of Some p \<Rightarrow> Some p
     | None \<Rightarrow> (case v4_parse s of None \<Rightarrow> None
        | Some m \<Rightarrow> (case prefix_from_mask_int m of Some p \<Rightarrow> Some p
            | None \<Rightarrow> prefix_from_mask_int (2 ^ 32 - 1 - m))))"

definition net_make :: "bool \<Rightarrow> ip \<Rightarrow> nat \<Rightarrow> net option" where
  "net_make strict a p = (let m = mask_to (ip_bits a) p (ip_int a) in
     if m = ip_int a then Some (Net a p)
     else if strict then None
     else Some (Net (case a of V4 _ \<Rightarrow> V4 m | V6 _ _ \<Rightarrow> V6 m None) p))"

definition ip_network :: "bool \<Rightarrow> string \<Rightarrow> net option" where
  "ip_network strict s = (case split_on (CHR ''/'') s of
     [a] \<Rightarrow> (case v4_parse a of Some n \<Rightarrow> net_make strict (V4 n) 32
            | None \<Rightarrow> (case v6_parse a of None \<Rightarrow> None | Some x \<Rightarrow> net_make strict x 128))
   | [a, m] \<Rightarrow>
       (case (case (v4_parse a, v4_prefix m) of
                (Some n, Some p) \<Rightarrow> net_make strict (V4 n) p | _ \<Rightarrow> None) of
          Some x \<Rightarrow> Some x
        | None \<Rightarrow> (case (v6_parse a, prefix_from_digits 128 m) of
                (Some x, Some p) \<Rightarrow> net_make strict x p | _ \<Rightarrow> None))
   | _ \<Rightarrow> None)"

definition net_contains :: "net \<Rightarrow> ip \<Rightarrow> bool" where
  "net_contains nw a \<longleftrightarrow> mask_to (ip_bits a) (net_prefix nw) (ip_int a) = ip_int (net_addr nw)"

definition net_num_addresses :: "net \<Rightarrow> int" where
  "net_num_addresses nw = 2 ^ (ip_bits (net_addr nw) - net_prefix nw)"

definition net_broadcast :: "net \<Rightarrow> ip" where
  "net_broadcast nw = (let b = ip_int (net_addr nw) + 2 ^ (ip_bits (net_addr nw) - net_prefix nw) - 1
     in case net_addr nw of V4 _ \<Rightarrow> V4 b | V6 _ _ \<Rightarrow> V6 b None)"

definition net_is_loopback :: "net \<Rightarrow> bool" where
  "net_is_loopback nw \<longleftrightarrow> ip_is_loopback (net_addr nw) \<and> ip_is_loopback (net_broadcast nw)"

definition ip_le :: "ip \<Rightarrow> ip \<Rightarrow> bool" where
  "ip_le a b \<longleftrightarrow> ip_int a < ip_int b \<or> a = b"

definition net_subnet_of :: "net \<Rightarrow> net \<Rightarrow> bool" where
  "net_subnet_of a b \<longleftrightarrow> ip_le (net_addr b) (net_addr a) \<and> ip_le (net_broadcast a) (net_broadcast b)"

definition net_str :: "net \<Rightarrow> string" where
  "net_str nw = ip_str (net_addr nw) @ ''/'' @ num_str 10 (int (net_prefix nw))"

section \<open>Printing and parsing back\<close>

lemma v4_octet_str: "0 \<le> n \<Longrightarrow> n < 256 \<Longrightarrow> v4_octet (num_str 10 n) = Some n"
proof -
  assume n: "0 \<le> n" "n < 256"
  then have "length (num_str 10 n) \<le> 3" by (intro num_str_length) auto
  moreover have "list_all is_dec (num_str 10 n)"
    using n num_str_dec by (auto simp: list_all_iff)
  moreover have "num_str 10 n = ''0'' \<or> hd (num_str 10 n) \<noteq> CHR ''0''"
  proof (cases "n = 0")
    case True
    then show ?thesis by (simp add: num_str.simps [of 10 0])
  next
    case False
    then show ?thesis using n num_str_hd_zero [of 10 n] by simp
  qed
  ultimately show ?thesis using n by (auto simp: v4_octet_def num_val_str)
qed

lemma v4_octet_range: "v4_octet s = Some n \<Longrightarrow> n \<le> 255"
  by (auto simp: v4_octet_def split: if_splits)

lemma dot_not_dec [simp]: "\<not> is_dec (CHR ''.'')" by (simp add: is_dec_def)
lemma colon_not_dec [simp]: "\<not> is_dec (CHR '':'')" by (simp add: is_dec_def)
lemma colon_not_hex [simp]: "\<not> is_hex (CHR '':'')" by (simp add: is_dec_def is_hex_def)
lemma dot_not_hex [simp]: "\<not> is_hex (CHR ''.'')" by (simp add: is_dec_def is_hex_def)
lemma percent_not_hex [simp]: "\<not> is_hex (CHR ''%'')" by (simp add: is_dec_def is_hex_def)
lemma slash_not_hex [simp]: "\<not> is_hex (CHR ''/'')" by (simp add: is_dec_def is_hex_def)
lemma percent_not_dec [simp]: "\<not> is_dec (CHR ''%'')" by (simp add: is_dec_def)
lemma slash_not_dec [simp]: "\<not> is_dec (CHR ''/'')" by (simp add: is_dec_def)

lemma v4_digits_sum:
  fixes n :: int
  assumes "0 \<le> n" "n < 2 ^ 32"
  shows "n div 2 ^ 24 mod 256 * 2 ^ 24 + n div 2 ^ 16 mod 256 * 2 ^ 16
     + n div 2 ^ 8 mod 256 * 2 ^ 8 + n mod 256 = n"
proof -
  define a b c where "a = n div 256" and "b = a div 256" and "c = b div 256"
  have split: "n = a * 256 + n mod 256" "a = b * 256 + a mod 256" "b = c * 256 + b mod 256"
    unfolding a_def b_def c_def by (simp_all only: div_mult_mod_eq)
  have div: "n div 2 ^ 8 = a" "n div 2 ^ 16 = b" "n div 2 ^ 24 = c"
    by (simp_all add: a_def b_def c_def zdiv_zmult2_eq [symmetric])
  then have "c mod 256 = c" using assms by (intro mod_pos_pos_trivial) auto
  with split show ?thesis unfolding div by simp
qed

lemma v4_parse_str:
  assumes "0 \<le> n" "n < 2 ^ 32"
  shows "v4_parse (v4_str n) = Some n"
proof -
  let ?ps = "map (num_str 10) [n div 2 ^ 24 mod 256, n div 2 ^ 16 mod 256, n div 2 ^ 8 mod 256, n mod 256]"
  have "CHR ''.'' \<notin> set (num_str 10 (x mod 256))" for x :: int
    using num_str_dec [of "x mod 256" "CHR ''.''"] by auto
  then have "split_on (CHR ''.'') (v4_str n) = ?ps"
    unfolding v4_str_def by (intro split_on_join) simp_all
  moreover have "v4_octet (num_str 10 (x mod 256)) = Some (x mod 256)" for x
    by (simp add: v4_octet_str)
  ultimately show ?thesis
    using v4_digits_sum [OF assms]
    by (simp only: v4_parse_def list.map list.case option.case prod.case)
qed

lemma v4_parse_chars:
  assumes "v4_parse s = Some n"
  shows "\<forall>c\<in>set s. is_dec c \<or> c = CHR ''.''"
proof -
  have oct: "v4_octet p = Some m \<Longrightarrow> \<forall>c\<in>set p. is_dec c" for p m
    by (auto simp: v4_octet_def list_all_iff split: if_splits)
  obtain a b c d where sp: "split_on (CHR ''.'') s = [a, b, c, d]"
    and o: "\<exists>w. v4_octet a = Some w" "\<exists>w. v4_octet b = Some w" "\<exists>w. v4_octet c = Some w"
      "\<exists>w. v4_octet d = Some w"
    using assms by (auto simp: v4_parse_def split: list.splits option.splits)
  have "s = join_with ''.'' [a, b, c, d]" using join_split [of "CHR ''.''" s] sp by simp
  then show ?thesis using o by (auto dest!: oct)
qed

lemma v4_parse_range:
  assumes "v4_parse s = Some n"
  shows "0 \<le> n \<and> n < 2 ^ 32"
proof -
  have oct: "v4_octet p = Some m \<Longrightarrow> 0 \<le> m \<and> m \<le> 255" for p m
    using num_val_nonneg [of 10 p] is_dec_is_hex
    by (auto simp: v4_octet_def list_all_iff split: if_splits)
  then show ?thesis using assms
    by (auto simp: v4_parse_def split: list.splits option.splits dest!: oct)
qed

lemma v6_int_snoc: "v6_int (xs @ [x]) = v6_int xs * 65536 + x"
  by (simp add: v6_int_def)

lemma v6_int_pieces:
  fixes n :: int
  shows "v6_int (map (\<lambda>i. n div 65536 ^ (k - 1 - i) mod 65536) [0..<k]) = n mod 65536 ^ k"
proof (induction k arbitrary: n)
  case 0
  then show ?case by (simp add: v6_int_def)
next
  case (Suc k)
  have "map (\<lambda>i. n div 65536 ^ (Suc k - 1 - i) mod 65536) [0..<Suc k]
      = map (\<lambda>i. (n div 65536) div 65536 ^ (k - 1 - i) mod 65536) [0..<k] @ [n mod 65536]"
    by (auto simp: zdiv_zmult2_eq [symmetric] Suc_diff_Suc simp flip: power_Suc)
  then have "v6_int (map (\<lambda>i. n div 65536 ^ (Suc k - 1 - i) mod 65536) [0..<Suc k])
      = (n div 65536 mod 65536 ^ k) * 65536 + n mod 65536"
    by (simp only: v6_int_snoc Suc.IH)
  also have "\<dots> = n mod 65536 ^ Suc k"
    by (simp add: zmod_zmult2_eq [of "65536 ^ k" n 65536] mult.commute)
  finally show ?case .
qed

lemma v6_int_hextets: "0 \<le> n \<Longrightarrow> n < 2 ^ 128 \<Longrightarrow> v6_int (v6_hextets n) = n"
  using v6_int_pieces [of n 8] by (simp add: v6_hextets_def)

lemma length_v6_hextets [simp]: "length (v6_hextets n) = 8"
  by (simp add: v6_hextets_def)

lemma v6_hextets_range: "h \<in> set (v6_hextets n) \<Longrightarrow> 0 \<le> h \<and> h < 65536"
  by (auto simp: v6_hextets_def)

lemma v6_hextet_str: "0 \<le> h \<Longrightarrow> h < 65536 \<Longrightarrow> v6_hextet (hex_str h) = Some h"
proof -
  assume h: "0 \<le> h" "h < 65536"
  then have "length (hex_str h) \<le> 4" by (intro num_str_length) auto
  moreover have "list_all is_hex (hex_str h)"
    using h num_str_hex by (auto simp: list_all_iff)
  ultimately show ?thesis using h by (simp add: v6_hextet_def num_val_str)
qed

lemma v6_hextet_list_map:
  "\<forall>h\<in>set hs. 0 \<le> h \<and> h < 65536 \<Longrightarrow> v6_hextet_list (map hex_str hs) = Some hs"
  by (induction hs) (auto simp: v6_hextet_str)

lemma zero_run_inv:
  assumes "zero_run hs i st ln bst bln = (rst, rln)" "xs = pre @ hs" "length pre = i"
    "0 < ln \<Longrightarrow> st + ln = i" "\<forall>j. st \<le> j \<and> j < st + ln \<longrightarrow> xs ! j = 0"
    "bst + bln \<le> i" "\<forall>j. bst \<le> j \<and> j < bst + bln \<longrightarrow> xs ! j = 0"
  shows "rst + rln \<le> length xs \<and> (\<forall>j. rst \<le> j \<and> j < rst + rln \<longrightarrow> xs ! j = 0)"
  using assms
proof (induction hs i st ln bst bln arbitrary: pre rule: zero_run.induct)
  case (1 i st ln bst bln)
  then show ?case by auto
next
  case (2 h hs i st ln bst bln)
  have xs: "xs = (pre @ [h]) @ hs" "length (pre @ [h]) = Suc i" "xs ! i = h"
    using "2.prems" by (auto simp: nth_append)
  define st' where "st' = (if ln = 0 then i else st)"
  have run: "h = 0 \<Longrightarrow> st' + Suc ln = Suc i"
    "h = 0 \<Longrightarrow> \<forall>j. st' \<le> j \<and> j < st' + Suc ln \<longrightarrow> xs ! j = 0"
    using "2.prems"(4,5) xs(3) by (auto simp: st'_def less_Suc_eq)
  show ?case
  proof (cases "h = 0")
    case False
    with "2.prems" show ?thesis by (intro "2.IH"(3) [OF False _ xs(1,2)]) auto
  next
    case True
    show ?thesis
    proof (cases "bln < Suc ln")
      case less: True
      with "2.prems" True run xs show ?thesis
        by (intro "2.IH"(1) [OF True st'_def refl less _ xs(1,2)]) (auto simp: st'_def Let_def)
    next
      case notless: False
      with "2.prems" True run xs show ?thesis
        by (intro "2.IH"(2) [OF True st'_def refl notless _ xs(1,2)]) (auto simp: st'_def Let_def)
    qed
  qed
qed

lemma zero_run_slice:
  assumes "zero_run hs 0 0 0 0 0 = (st, ln)"
  shows "st + ln \<le> length hs" "hs = take st hs @ replicate ln 0 @ drop (st + ln) hs"
proof -
  have *: "st + ln \<le> length hs \<and> (\<forall>j. st \<le> j \<and> j < st + ln \<longrightarrow> hs ! j = 0)"
    by (rule zero_run_inv [OF assms, of hs "[]"]) auto
  then show "st + ln \<le> length hs" ..
  have "take ln (drop st hs) = replicate ln 0"
    by (rule nth_equalityI) (use * in auto)
  then show "hs = take st hs @ replicate ln 0 @ drop (st + ln) hs"
    by (metis append_take_drop_id drop_drop add.commute)
qed

lemma filter_upt_single:
  assumes "a \<le> k" "k < b" "\<And>i. a \<le> i \<Longrightarrow> i < b \<Longrightarrow> P i \<longleftrightarrow> i = k"
  shows "filter P [a..<b] = [k]"
proof -
  have "[a..<b] = [a..<k] @ k # [Suc k..<b]"
    using assms upt_add_eq_append [of a k "b - k"] upt_conv_Cons [of k b] by simp
  then show ?thesis using assms by (auto simp: filter_empty_conv)
qed

lemma v6_skips_one:
  assumes "P \<noteq> []" "Q \<noteq> []" "\<forall>p\<in>set (tl P). p \<noteq> []" "\<forall>q\<in>set (butlast Q). q \<noteq> []"
  shows "v6_skips (P @ [] # Q) = [length P]"
  unfolding v6_skips_def
proof (rule filter_upt_single)
  show "1 \<le> length P" "length P < length (P @ [] # Q) - 1"
    using assms(1,2) by (auto simp: Suc_le_eq)
next
  fix i assume i: "1 \<le> i" "i < length (P @ [] # Q) - 1"
  consider "i < length P" | "i = length P" | "length P < i" by linarith
  then show "(P @ [] # Q) ! i = [] \<longleftrightarrow> i = length P"
  proof cases
    case 1
    then have "(P @ [] # Q) ! i = tl P ! (i - 1)" using i by (simp add: nth_append nth_tl)
    moreover have "tl P ! (i - 1) \<in> set (tl P)" using 1 i by (intro nth_mem) auto
    ultimately show ?thesis using 1 assms(3) by auto
  next
    case 3
    define j where "j = i - Suc (length P)"
    have j: "i = Suc (length P) + j" using 3 by (simp add: j_def)
    have "(P @ [] # Q) ! i = Q ! j" by (simp add: j nth_append)
    also have "\<dots> = butlast Q ! j" using i by (simp add: j nth_butlast)
    finally have "(P @ [] # Q) ! i = butlast Q ! j" .
    moreover have "butlast Q ! j \<in> set (butlast Q)" using i by (intro nth_mem) (simp add: j)
    ultimately show ?thesis using 3 assms(4) by auto
  qed simp
qed

lemma v6_parts_run:
  assumes len: "length xs + ln + length ys = 8" and run: "1 < ln"
    and ok: "\<forall>h\<in>set xs \<union> set ys. 0 \<le> h \<and> h < 65536"
  shows "v6_parts ((if xs = [] then [[]] else []) @ map hex_str xs @ [[]]
      @ map hex_str ys @ (if ys = [] then [[]] else []))
    = Some (xs @ replicate ln 0 @ ys)"
proof -
  let ?P = "(if xs = [] then [[]] else []) @ map hex_str xs"
  let ?Q = "map hex_str ys @ (if ys = [] then [[]] else [])"
  have "[] \<notin> set (butlast (map hex_str ys))" by (auto dest!: in_set_butlastD)
  then have "\<forall>q\<in>set (butlast ?Q). q \<noteq> []" by (auto simp: butlast_append)
  then have skips: "v6_skips (?P @ [] # ?Q) = [length ?P]"
    by (intro v6_skips_one) (auto simp flip: map_tl)
  have xs: "v6_hextet_list (map hex_str xs) = Some xs" and ys: "v6_hextet_list (map hex_str ys) = Some ys"
    using ok by (auto intro: v6_hextet_list_map)
  have "last ?Q = [] \<longleftrightarrow> ys = []" by (cases ys rule: rev_cases) auto
  then have last: "last (?P @ [] # ?Q) = [] \<longleftrightarrow> ys = []" by simp
  have hd: "hd (?P @ [] # ?Q) = [] \<longleftrightarrow> xs = []" by (cases xs) auto
  have skip: "8 - (length xs + length ys) = ln" using len by simp
  have "v6_parts (?P @ [] # ?Q) = Some (xs @ replicate ln 0 @ ys)"
    unfolding v6_parts_def skips Let_def hd last using xs ys len run skip
    by (cases "xs = []"; cases "ys = []") auto
  then show ?thesis by simp
qed

lemma v6_skips_none: "\<forall>p\<in>set ps. p \<noteq> [] \<Longrightarrow> v6_skips ps = []"
  by (auto simp: v6_skips_def filter_empty_conv)

lemma v6_compress_parse:
  assumes len: "length hs = 8" and ok: "\<forall>h\<in>set hs. 0 \<le> h \<and> h < 65536"
  shows "v6_parts (v6_compress hs) = Some hs"
proof -
  obtain st ln where zr: "zero_run hs 0 0 0 0 0 = (st, ln)" by (cases "zero_run hs 0 0 0 0 0") auto
  note sl = zero_run_slice [OF zr]
  show ?thesis
  proof (cases "1 < ln")
    case True
    let ?xs = "take st hs" and ?ys = "drop (st + ln) hs"
    have "?xs = [] \<longleftrightarrow> st = 0" "?ys = [] \<longleftrightarrow> st + ln = length hs" using sl(1) len True by auto
    then have "v6_compress hs = (if ?xs = [] then [[]] else []) @ map hex_str ?xs @ [[]]
        @ map hex_str ?ys @ (if ?ys = [] then [[]] else [])"
      using zr True by (simp add: v6_compress_def)
    moreover have "length ?xs + ln + length ?ys = 8" using sl(1) len by simp
    moreover have "\<forall>h\<in>set ?xs \<union> set ?ys. 0 \<le> h \<and> h < 65536"
      using ok by (auto dest: in_set_takeD in_set_dropD)
    ultimately show ?thesis using v6_parts_run [OF _ True] sl(2) by metis
  next
    case False
    have "hs \<noteq> []" using len by auto
    with False show ?thesis using zr len ok
      by (simp add: v6_compress_def v6_parts_def v6_skips_none v6_hextet_list_map hd_map last_map)
  qed
qed

lemma v6_compress_chars:
  assumes "\<forall>h\<in>set hs. 0 \<le> h" "p \<in> set (v6_compress hs)" "c \<in> set p"
  shows "is_hex c"
  using assms num_str_hex
  by (auto simp: v6_compress_def split: prod.splits if_splits dest!: in_set_takeD in_set_dropD)

lemma v6_compress_length:
  assumes "length hs = 8"
  shows "3 \<le> length (v6_compress hs) \<and> length (v6_compress hs) \<le> 9"
proof -
  obtain st ln where zr: "zero_run hs 0 0 0 0 0 = (st, ln)" by (cases "zero_run hs 0 0 0 0 0") auto
  then show ?thesis using zero_run_slice(1) [OF zr] assms
    by (auto simp: v6_compress_def)
qed

lemma join_chars: "c \<in> set (join_with sep ps) \<Longrightarrow> c \<in> set sep \<or> (\<exists>p\<in>set ps. c \<in> set p)"
  by (induction sep ps rule: join_with.induct) auto

lemma v6_str_chars: "c \<in> set (v6_str n) \<Longrightarrow> is_hex c \<or> c = CHR '':''"
proof -
  assume "c \<in> set (v6_str n)"
  then consider "c = CHR '':''" | p where "p \<in> set (v6_compress (v6_hextets n))" "c \<in> set p"
    unfolding v6_str_def by (auto dest: join_chars)
  then show ?thesis
    by cases (use v6_compress_chars [of "v6_hextets n"] v6_hextets_range in blast)+
qed

lemma v6_parse_addr_str:
  assumes "0 \<le> n" "n < 2 ^ 128"
  shows "v6_parse_addr (v6_str n) = Some n"
proof -
  let ?ps = "v6_compress (v6_hextets n)"
  have ne: "?ps \<noteq> []" using v6_compress_length [of "v6_hextets n"] by auto
  have hex: "\<forall>p\<in>set ?ps. \<forall>c\<in>set p. is_hex c"
    using v6_compress_chars v6_hextets_range by blast
  then have split: "split_on (CHR '':'') (v6_str n) = ?ps"
    unfolding v6_str_def by (intro split_on_join ne) (use hex colon_not_hex in blast)
  have "CHR ''.'' \<notin> set (last ?ps)" using hex ne last_in_set dot_not_hex by blast
  then have "v6_expand_v4 ?ps = Some ?ps" by (simp add: v6_expand_v4_def)
  moreover have "v6_parts ?ps = Some (v6_hextets n)"
    by (rule v6_compress_parse) (auto dest: v6_hextets_range)
  moreover have "length (split_on (CHR '':'') (v6_str n)) \<noteq> 1"
    using split v6_compress_length [of "v6_hextets n"] by simp
  then have "v6_str n \<noteq> []" by auto
  ultimately show ?thesis
    using v6_compress_length [of "v6_hextets n"] assms
    by (simp add: v6_parse_addr_def split v6_int_hextets)
qed

lemma v6_str_no_v4: "v4_parse (v6_str n @ s) = None"
proof (rule ccontr)
  assume "v4_parse (v6_str n @ s) \<noteq> None"
  then have *: "\<forall>c\<in>set (v6_str n). is_dec c \<or> c = CHR ''.''" using v4_parse_chars by fastforce
  have "CHR '':'' \<in> set (v6_str n)"
  proof (rule ccontr)
    assume "CHR '':'' \<notin> set (v6_str n)"
    then have "v6_parse_addr (v6_str n) = None" by (simp add: v6_parse_addr_def split_on_free)
    have hex: "\<forall>p\<in>set (v6_compress (v6_hextets n)). CHR '':'' \<notin> set p"
      using v6_compress_chars v6_hextets_range colon_not_hex by blast
    have "v6_compress (v6_hextets n) \<noteq> []" using v6_compress_length [of "v6_hextets n"] by auto
    with hex have "split_on (CHR '':'') (v6_str n) = v6_compress (v6_hextets n)"
      unfolding v6_str_def by (intro split_on_join) (use hex in auto)
    then have "length (split_on (CHR '':'') (v6_str n)) = length (v6_compress (v6_hextets n))"
      by (rule arg_cong)
    then show False using \<open>CHR '':'' \<notin> set (v6_str n)\<close> v6_compress_length [of "v6_hextets n"]
      by (simp add: split_on_free)
  qed
  with * show False by auto
qed

theorem ip_address_ip_str: "ip_wf a \<Longrightarrow> ip_address (ip_str a) = Some a"
proof (cases a)
  case (V4 n)
  assume "ip_wf a"
  with V4 show ?thesis by (simp add: ip_address_def v4_parse_str)
next
  case (V6 n sc)
  assume wf: "ip_wf a"
  have no: "CHR ''%'' \<notin> set (v6_str n)" "CHR ''/'' \<notin> set (v6_str n)"
    using v6_str_chars by fastforce+
  show ?thesis
  proof (cases sc)
    case None
    with V6 wf no v6_str_no_v4 [of n "[]"] show ?thesis
      by (simp add: ip_address_def v6_parse_def partition_on_free v6_parse_addr_str)
  next
    case (Some s)
    with V6 wf no v6_str_no_v4 [of n "CHR ''%'' # s"] show ?thesis
      by (simp add: ip_address_def v6_parse_def partition_on_append v6_parse_addr_str)
  qed
qed

text \<open>Only well-formed addresses are parsed, so printing a parsed address is a normal form.\<close>

section \<open>Parsed addresses are well formed\<close>

lemma digit_val_hex: "is_hex c \<Longrightarrow> digit_val c < 16"
  by (auto simp: is_hex_def is_dec_def digit_val_def)

lemma num_val_hex_bound: "list_all is_hex s \<Longrightarrow> num_val 16 s < 16 ^ length s"
proof (induction s rule: rev_induct)
  case Nil
  then show ?case by (simp add: num_val_def)
next
  case (snoc c s)
  then have "num_val 16 s + 1 \<le> 16 ^ length s" "digit_val c < 16" by (auto simp: digit_val_hex)
  then have "num_val 16 s * 16 + digit_val c < 16 ^ length s * 16" by linarith
  then show ?case by (simp add: num_val_snoc mult.commute)
qed

lemma v6_hextet_range: "v6_hextet s = Some h \<Longrightarrow> 0 \<le> h \<and> h < 65536"
proof -
  assume "v6_hextet s = Some h"
  then have s: "list_all is_hex s" "length s \<le> 4" "h = num_val 16 s"
    by (auto simp: v6_hextet_def split: if_splits)
  have "num_val 16 s < 16 ^ length s" by (rule num_val_hex_bound [OF s(1)])
  also have "\<dots> \<le> (16 :: int) ^ 4" using s(2) by (intro power_increasing) auto
  finally show ?thesis using num_val_nonneg [OF _ s(1), of 16] s(3) by simp
qed

lemma v6_hextet_list_range:
  "v6_hextet_list ps = Some hs \<Longrightarrow> length hs = length ps \<and> (\<forall>h\<in>set hs. 0 \<le> h \<and> h < 65536)"
  by (induction ps arbitrary: hs) (auto split: option.splits dest: v6_hextet_range)

lemma v6_parts_range:
  assumes "v6_parts ps = Some hs"
  shows "length hs = 8 \<and> (\<forall>h\<in>set hs. 0 \<le> h \<and> h < 65536)"
proof (cases "v6_skips ps")
  case Nil
  then show ?thesis using assms v6_hextet_list_range by (auto simp: v6_parts_def split: if_splits)
next
  case (Cons i js)
  then have one: "js = []" using assms by (auto simp: v6_parts_def split: list.splits)
  then have "i \<in> set (v6_skips ps)" using Cons by simp
  then have i: "i < length ps - 1" by (auto simp: v6_skips_def)
  then show ?thesis using assms Cons one
    by (auto simp: v6_parts_def Let_def split: if_splits option.splits dest!: v6_hextet_list_range)
qed

lemma v6_int_range:
  "\<forall>h\<in>set hs. 0 \<le> h \<and> h < 65536 \<Longrightarrow> 0 \<le> v6_int hs \<and> v6_int hs < 65536 ^ length hs"
proof (induction hs rule: rev_induct)
  case Nil
  then show ?case by (simp add: v6_int_def)
next
  case (snoc h hs)
  then have "0 \<le> v6_int hs" "v6_int hs + 1 \<le> 65536 ^ length hs" "0 \<le> h" "h < 65536" by auto
  then have "v6_int hs * 65536 + h < 65536 ^ length hs * 65536" by linarith
  then show ?case using \<open>0 \<le> v6_int hs\<close> \<open>0 \<le> h\<close> by (simp add: v6_int_snoc mult.commute)
qed

lemma v6_parse_addr_range: "v6_parse_addr s = Some n \<Longrightarrow> 0 \<le> n \<and> n < 2 ^ 128"
  using v6_int_range v6_parts_range
  by (fastforce simp: v6_parse_addr_def Let_def split: if_splits option.splits)

lemma v6_parse_wf: "v6_parse s = Some a \<Longrightarrow> ip_wf a"
  by (auto simp: v6_parse_def split: if_splits prod.splits option.splits
      dest!: v6_parse_addr_range partition_on_found partition_on_not_found)

theorem ip_address_wf: "ip_address s = Some a \<Longrightarrow> ip_wf a"
  by (auto simp: ip_address_def split: option.splits dest: v4_parse_range v6_parse_wf)

theorem ip_normal_form: "ip_address s = Some a \<Longrightarrow> ip_address (ip_str a) = Some a"
  by (blast intro: ip_address_ip_str ip_address_wf)

end
