(* ===== verification/Url.thy ===== *)
theory Url
  imports IpAddr
begin

text \<open>
  \<open>urllib.parse.urlsplit\<close> and the properties of its result the program reads (hostname, port,
  username, password), and \<open>urlunsplit\<close>, as in CPython 3.11. A ValueError is \<open>None\<close>; the port,
  which the library only parses when asked, is an option of its own.
\<close>

record url =
  u_scheme :: string
  u_netloc :: string
  u_path :: string
  u_query :: string
  u_fragment :: string

definition c0_or_space :: "char \<Rightarrow> bool" where
  "c0_or_space c \<longleftrightarrow> cp c \<le> 32"

definition url_unsafe :: "char \<Rightarrow> bool" where
  "url_unsafe c \<longleftrightarrow> cp c = 9 \<or> cp c = 10 \<or> cp c = 13"

definition scheme_char :: "char \<Rightarrow> bool" where
  "scheme_char c \<longleftrightarrow> is_alnum c \<or> c = CHR ''+'' \<or> c = CHR ''-'' \<or> c = CHR ''.''"

definition split_scheme :: "string \<Rightarrow> string \<times> string" where
  "split_scheme s = (case partition_on (CHR '':'') s of (a, sep, b) \<Rightarrow>
     if sep \<and> a \<noteq> [] \<and> (is_lower (hd s) \<or> is_upper (hd s)) \<and> list_all scheme_char a
     then (py_lower a, b) else ([], s))"

definition netloc_end :: "char \<Rightarrow> bool" where
  "netloc_end c \<longleftrightarrow> c = CHR ''/'' \<or> c = CHR ''?'' \<or> c = CHR ''#''"

definition split_netloc :: "string \<Rightarrow> string \<times> string" where
  "split_netloc s = (if startswith ''//'' s
     then (takeWhile (\<lambda>c. \<not> netloc_end c) (drop 2 s), dropWhile (\<lambda>c. \<not> netloc_end c) (drop 2 s))
     else ([], s))"

definition bracketed_host_ok :: "string \<Rightarrow> bool" where
  "bracketed_host_ok h =
     (if startswith ''v'' h
      then (case partition_on (CHR ''.'') (drop 1 h) of (a, sep, b) \<Rightarrow>
              sep \<and> a \<noteq> [] \<and> list_all is_hex a \<and> b \<noteq> [] \<and> LF \<notin> set b)
      else (case ip_address h of Some (V6 _ _) \<Rightarrow> True | _ \<Rightarrow> False))"

definition netloc_ok :: "string \<Rightarrow> bool" where
  "netloc_ok nl \<longleftrightarrow>
     (CHR ''['' \<in> set nl \<longleftrightarrow> CHR '']'' \<in> set nl) \<and>
     (CHR ''['' \<in> set nl \<longrightarrow>
        bracketed_host_ok (fst (partition_on (CHR '']'') (snd (snd (partition_on (CHR ''['') nl))))))"

definition urlsplit :: "string \<Rightarrow> url option" where
  "urlsplit s0 =
     (let s1 = filter (\<lambda>c. \<not> url_unsafe c) (dropWhile c0_or_space s0);
          (sch, s2) = split_scheme s1;
          (nl, s3) = split_netloc s2;
          (s4, _, frag) = partition_on (CHR ''#'') s3;
          (pth, _, qry) = partition_on (CHR ''?'') s4
      in if netloc_ok nl
         then Some \<lparr>u_scheme = sch, u_netloc = nl, u_path = pth, u_query = qry, u_fragment = frag\<rparr>
         else None)"

definition url_userinfo :: "url \<Rightarrow> string option \<times> string option" where
  "url_userinfo u = (case rpartition_on (CHR ''@'') (u_netloc u) of (ui, have, _) \<Rightarrow>
     if have then (case partition_on (CHR '':'') ui of (n, hp, pw) \<Rightarrow>
                     (Some n, if hp then Some pw else None))
     else (None, None))"

definition url_username :: "url \<Rightarrow> string option" where
  "url_username u = fst (url_userinfo u)"

definition url_password :: "url \<Rightarrow> string option" where
  "url_password u = snd (url_userinfo u)"

definition url_hostinfo :: "url \<Rightarrow> string \<times> string option" where
  "url_hostinfo u =
     (let hostinfo = snd (snd (rpartition_on (CHR ''@'') (u_netloc u)));
          (_, br, bracketed) = partition_on (CHR ''['') hostinfo;
          (h, p) = (if br
             then (case partition_on (CHR '']'') bracketed of (h, _, r) \<Rightarrow>
                     (h, snd (snd (partition_on (CHR '':'') r))))
             else (case partition_on (CHR '':'') hostinfo of (h, _, r) \<Rightarrow> (h, r)))
      in (h, if p = [] then None else Some p))"

definition url_hostname :: "url \<Rightarrow> string option" where
  "url_hostname u = (let h = fst (url_hostinfo u) in
     if h = [] then None
     else (case partition_on (CHR ''%'') h of (a, sep, z) \<Rightarrow>
             Some (py_lower a @ (if sep then ''%'' else []) @ z)))"

text \<open>\<open>None\<close> is the ValueError of the port property, \<open>Some None\<close> an absent port.\<close>

definition url_port :: "url \<Rightarrow> int option option" where
  "url_port u = (case snd (url_hostinfo u) of None \<Rightarrow> Some None
     | Some p \<Rightarrow> if list_all is_dec p \<and> num_val 10 p \<le> 65535 then Some (Some (num_val 10 p)) else None)"

text \<open>
  \<open>uses_netloc\<close> is the library's list of schemes written with two slashes; the program only
  prints http and https URLs.
\<close>

definition urlunsplit_http :: "string \<Rightarrow> string \<Rightarrow> string \<Rightarrow> string \<Rightarrow> string" where
  "urlunsplit_http sch nl pth qry =
     sch @ ''://'' @ nl @ (if pth \<noteq> [] \<and> \<not> startswith ''/'' pth then ''/'' @ pth else pth)
     @ (if qry = [] then [] else ''?'' @ qry)"

end
