(* ===== verification/Paths.thy ===== *)
theory Paths
  imports PyStr
begin

text \<open>
  \<open>pathlib.PurePosixPath\<close> (root and parts, dots and empty parts dropped, exactly two leading
  slashes kept as a root of their own) and the view the program has of the file system: what
  \<open>resolve\<close>, \<open>is_dir\<close> and \<open>is_file\<close> answer. The file system itself is not part of the
  repository, so its answers are a parameter, the record \<open>host_fs\<close>.
\<close>

datatype path = Path (path_root: string) (path_parts: "string list")

definition path_of :: "string \<Rightarrow> path" where
  "path_of s =
     (let root = (if startswith ''///'' s then ''/'' else if startswith ''//'' s then ''//''
                  else if startswith ''/'' s then ''/'' else [])
      in Path root (filter (\<lambda>p. p \<noteq> [] \<and> p \<noteq> ''.'') (split_on (CHR ''/'') s)))"

definition path_str :: "path \<Rightarrow> string" where
  "path_str p = (if path_root p = [] \<and> path_parts p = [] then ''.''
     else path_root p @ join_with ''/'' (path_parts p))"

definition path_name :: "path \<Rightarrow> string" where
  "path_name p = (if path_parts p = [] then [] else last (path_parts p))"

definition path_is_absolute :: "path \<Rightarrow> bool" where
  "path_is_absolute p \<longleftrightarrow> path_root p \<noteq> []"

definition path_join :: "path \<Rightarrow> path \<Rightarrow> path" where
  "path_join p q = (if path_is_absolute q then q else Path (path_root p) (path_parts p @ path_parts q))"

definition path_parent :: "path \<Rightarrow> path" where
  "path_parent p = Path (path_root p) (butlast (path_parts p))"

definition path_relative_to :: "path \<Rightarrow> path \<Rightarrow> bool" where
  "path_relative_to p q \<longleftrightarrow> path_root p = path_root q
     \<and> take (length (path_parts q)) (path_parts p) = path_parts q"

record host_fs =
  fs_resolve :: "path \<Rightarrow> path"
  fs_is_dir :: "path \<Rightarrow> bool"
  fs_is_file :: "path \<Rightarrow> bool"

lemma path_relative_to_refl [simp]: "path_relative_to p p"
  by (simp add: path_relative_to_def)

lemma path_relative_to_iff:
  "path_relative_to p q \<longleftrightarrow> path_root p = path_root q \<and> (\<exists>r. path_parts p = path_parts q @ r)"
  by (auto simp: path_relative_to_def) (metis append_take_drop_id)

lemma path_relative_to_trans:
  "path_relative_to p q \<Longrightarrow> path_relative_to q r \<Longrightarrow> path_relative_to p r"
  by (auto simp: path_relative_to_iff)

lemma path_relative_to_join:
  "\<not> path_is_absolute q \<Longrightarrow> path_relative_to (path_join p q) p"
  by (auto simp: path_relative_to_iff path_join_def)

end
