(* ===== verification/Config.thy ===== *)
theory Config
  imports Url Paths
begin

text \<open>
  \<open>app/config.py\<close>: reading the TOML configuration and the environment into the settings the
  rest of the program uses. The parsed TOML document is an association list of sections; the
  environment is a lookup. A \<open>RuntimeError\<close> is its message.

  \<open>str()\<close> of a TOML array, table or date, which only ever appears in values the checks refuse,
  is a parameter (\<open>rp\<close>).
\<close>

datatype toml = TStr string | TInt int | TBool bool | TFloat string int
  | TArr "toml list" | TTable "(string \<times> toml) list" | TOther string

type_synonym toml_doc = "(string \<times> toml) list"
type_synonym environ = "string \<Rightarrow> string option"

fun toml_str :: "(toml \<Rightarrow> string) \<Rightarrow> toml \<Rightarrow> string" where
  "toml_str rp (TStr s) = s"
| "toml_str rp (TInt i) = int_str i"
| "toml_str rp (TBool b) = (if b then ''True'' else ''False'')"
| "toml_str rp (TFloat s _) = s"
| "toml_str rp v = rp v"

fun toml_int :: "toml \<Rightarrow> int option" where
  "toml_int (TStr s) = py_int s"
| "toml_int (TInt i) = Some i"
| "toml_int (TBool b) = Some (if b then 1 else 0)"
| "toml_int (TFloat _ i) = Some i"
| "toml_int _ = None"

definition cfg_value :: "toml_doc \<Rightarrow> string \<Rightarrow> string \<Rightarrow> toml \<Rightarrow> toml" where
  "cfg_value cfg section name d = (case map_of cfg section of
     Some (TTable t) \<Rightarrow> (case map_of t name of Some v \<Rightarrow> v | None \<Rightarrow> d)
   | _ \<Rightarrow> d)"

definition getenv_or :: "environ \<Rightarrow> string \<Rightarrow> toml \<Rightarrow> toml" where
  "getenv_or env name d = (case env name of Some s \<Rightarrow> TStr s | None \<Rightarrow> d)"

section \<open>Access mode, bind address, port, cookie policy\<close>

definition access_mode :: "(toml \<Rightarrow> string) \<Rightarrow> toml_doc \<Rightarrow> environ \<Rightarrow> string + string" where
  "access_mode rp cfg env =
     (let configured_host = py_strip (toml_str rp (cfg_value cfg ''server'' ''host'' (TStr ''127.0.0.1'')));
          inferred = (if configured_host = ''0.0.0.0'' \<or> configured_host = ''::'' then ''lan'' else ''local'');
          value = getenv_or env ''MACHINEDECK_ACCESS_MODE'' (cfg_value cfg ''server'' ''mode'' (TStr inferred));
          normalized = py_lower (py_strip (toml_str rp value))
      in if normalized \<in> {''local'', ''lan'', ''proxy''} then Inr normalized
         else Inl ''server.mode must be one of: local, lan, proxy'')"

definition bind_host :: "(toml \<Rightarrow> string) \<Rightarrow> toml_doc \<Rightarrow> environ \<Rightarrow> string \<Rightarrow> string + string" where
  "bind_host rp cfg env mode =
     (let default_host = (if mode = ''lan'' then ''0.0.0.0'' else ''127.0.0.1'');
          value = py_strip (toml_str rp (getenv_or env ''MACHINEDECK_BIND_HOST''
                    (cfg_value cfg ''server'' ''host'' (TStr default_host))))
      in case ip_address value of
           None \<Rightarrow> Inl ''server.host must be a literal IP address''
         | Some a \<Rightarrow>
             if mode \<in> {''local'', ''proxy''} \<and> \<not> ip_is_loopback a
             then Inl (''server.mode='' @ mode @ '' requires a loopback host'')
             else if mode = ''lan'' \<and> \<not> ip_is_unspecified a
             then Inl ''server.mode=lan requires host 0.0.0.0 or ::''
             else Inr (ip_str a))"

definition bind_port :: "toml_doc \<Rightarrow> environ \<Rightarrow> string + int" where
  "bind_port cfg env =
     (case toml_int (getenv_or env ''MACHINEDECK_BIND_PORT'' (cfg_value cfg ''server'' ''port'' (TInt 8080))) of
        None \<Rightarrow> Inl ''server.port must be an integer''
      | Some p \<Rightarrow> if 1 \<le> p \<and> p \<le> 65535 then Inr p
          else Inl ''server.port must be between 1 and 65535'')"

definition cookie_alias :: "string \<Rightarrow> string" where
  "cookie_alias s =
     (if s \<in> {''true'', ''yes'', ''1''} then ''secure''
      else if s \<in> {''false'', ''no'', ''0''} then ''insecure'' else s)"

definition cookie_security ::
  "(toml \<Rightarrow> string) \<Rightarrow> toml_doc \<Rightarrow> environ \<Rightarrow> string \<Rightarrow> string + (string \<times> bool)" where
  "cookie_security rp cfg env mode =
     (let legacy_default = (if cfg \<noteq> [] \<and> map_of cfg ''security'' = None then TBool True else TStr ''auto'')
      in case getenv_or env ''MACHINEDECK_COOKIE_SECURE''
                (cfg_value cfg ''security'' ''cookie_secure'' legacy_default) of
           TBool b \<Rightarrow> Inr (if b then ''secure'' else ''insecure'', b)
         | v \<Rightarrow>
             (let normalized = cookie_alias (py_lower (py_strip (toml_str rp v)))
              in if normalized \<notin> {''auto'', ''secure'', ''insecure''}
                 then Inl ''security.cookie_secure must be auto, secure, insecure, true, or false''
                 else Inr (normalized,
                   if normalized = ''auto'' then mode = ''proxy'' else normalized = ''secure'')))"

section \<open>Trusted origins and networks\<close>

fun toml_list :: "toml \<Rightarrow> toml list" where
  "toml_list (TArr vs) = vs"
| "toml_list v = [v]"

definition env_list :: "environ \<Rightarrow> string \<Rightarrow> toml \<Rightarrow> toml list" where
  "env_list env name d = (case env name of
     Some s \<Rightarrow> if s \<noteq> [] then map TStr (split_on (CHR '','') s) else toml_list d
   | None \<Rightarrow> toml_list d)"

definition exact_http_origin :: "url \<Rightarrow> bool" where
  "exact_http_origin u \<longleftrightarrow> u_scheme u \<in> {''http'', ''https''} \<and> url_hostname u \<noteq> None
     \<and> url_username u = None \<and> url_password u = None \<and> u_path u \<in> {[], ''/''}
     \<and> u_query u = [] \<and> u_fragment u = []"

fun trusted_origins_loop :: "string list \<Rightarrow> string list \<Rightarrow> string + string list" where
  "trusted_origins_loop acc [] = Inr acc"
| "trusted_origins_loop acc (v # vs) =
     (let origin = rstrip_char (CHR ''/'') (py_strip v)
      in if origin = [] then trusted_origins_loop acc vs
         else case urlsplit origin of
             None \<Rightarrow> Inl ''server.trusted_origins contains an invalid Origin''
           | Some u \<Rightarrow>
               if url_port u = None then Inl ''server.trusted_origins contains an invalid Origin''
               else if \<not> exact_http_origin u \<or> CHR ''*'' \<in> set origin
               then Inl ''server.trusted_origins must contain exact HTTP or HTTPS Origins''
               else trusted_origins_loop (if origin \<in> set acc then acc else acc @ [origin]) vs)"

definition default_origins :: "string list" where
  "default_origins = [''http://127.0.0.1:8080'', ''http://localhost:8080'',
     ''https://127.0.0.1:8080'', ''https://localhost:8080'']"

definition load_trusted_origins :: "(toml \<Rightarrow> string) \<Rightarrow> toml_doc \<Rightarrow> environ \<Rightarrow> string + string list" where
  "load_trusted_origins rp cfg env =
     trusted_origins_loop [] (map (toml_str rp) (env_list env ''MACHINEDECK_TRUSTED_ORIGINS''
       (cfg_value cfg ''server'' ''trusted_origins'' (TArr (map TStr default_origins)))))"

fun networks_loop :: "string \<Rightarrow> net list \<Rightarrow> string list \<Rightarrow> string + net list" where
  "networks_loop name acc [] = Inr acc"
| "networks_loop name acc (v # vs) =
     (case ip_network True (py_strip v) of
        None \<Rightarrow> Inl (''network.'' @ name @ '' must contain canonical IPv4 or IPv6 CIDRs'')
      | Some nw \<Rightarrow>
          (let acc' = (if nw \<in> set acc then acc else acc @ [nw])
           in if name = ''trusted_proxies'' \<and> 65536 < net_num_addresses nw
              then Inl ''network.trusted_proxies entries cannot contain more than 65536 addresses''
              else networks_loop name acc' vs))"

definition load_networks ::
  "(toml \<Rightarrow> string) \<Rightarrow> toml_doc \<Rightarrow> environ \<Rightarrow> string \<Rightarrow> string list \<Rightarrow> string + net list" where
  "load_networks rp cfg env name d =
     networks_loop name [] (map (toml_str rp) (env_list env (''MACHINEDECK_'' @ py_upper name)
       (cfg_value cfg ''network'' name (TArr (map TStr d)))))"

section \<open>The settings object\<close>

text \<open>
  The part of \<open>Settings\<close> the modelled components read, and how the module computes it. The
  remaining fields (paths, intervals, the database URL) are plain reads with a default and come
  in as arguments.
\<close>

record settings =
  allowed_roots :: "path list"
  allow_privileged_ports :: bool
  public_host_local :: "string option"
  public_host_lan :: "string option"
  access_mode_of :: string
  bind_host_of :: string
  bind_port_of :: int
  auth_cookie_secure :: bool
  auth_session_hours :: int
  trusted_origins :: "string list"
  trusted_proxies :: "net list"
  trusted_networks :: "net list"
  forwarded_hop_limit :: int
  login_max_failures :: int
  login_window_minutes :: int

definition load_settings :: "(toml \<Rightarrow> string) \<Rightarrow> toml_doc \<Rightarrow> environ \<Rightarrow> settings \<Rightarrow> string + settings" where
  "load_settings rp cfg env plain =
     res_bind (access_mode rp cfg env) (\<lambda>mode.
     res_bind (cookie_security rp cfg env mode) (\<lambda>(_, secure).
     res_bind (load_networks rp cfg env ''trusted_proxies'' []) (\<lambda>proxies.
     res_bind (load_networks rp cfg env ''trusted_networks'' [''127.0.0.0/8'', ''::1/128'']) (\<lambda>networks.
     res_bind (bind_host rp cfg env mode) (\<lambda>host.
     res_bind (bind_port cfg env) (\<lambda>port.
     res_bind (load_trusted_origins rp cfg env) (\<lambda>origins.
       Inr (plain\<lparr>access_mode_of := mode, auth_cookie_secure := secure, trusted_proxies := proxies,
         trusted_networks := networks, bind_host_of := host, bind_port_of := port,
         trusted_origins := origins, forwarded_hop_limit := 8\<rparr>))))))))"

section \<open>What a loaded configuration guarantees\<close>

lemma access_mode_values: "access_mode rp cfg env = Inr m \<Longrightarrow> m \<in> {''local'', ''lan'', ''proxy''}"
  by (auto simp: access_mode_def Let_def split: if_splits)

lemma bind_host_ok:
  assumes "bind_host rp cfg env m = Inr h"
  shows "\<exists>a. ip_address h = Some a \<and> (m \<in> {''local'', ''proxy''} \<longrightarrow> ip_is_loopback a)
    \<and> (m = ''lan'' \<longrightarrow> ip_is_unspecified a)"
  using assms ip_normal_form
  by (auto simp: bind_host_def Let_def split: option.splits if_splits)

lemma bind_port_range: "bind_port cfg env = Inr p \<Longrightarrow> 1 \<le> p \<and> p \<le> 65535"
  by (auto simp: bind_port_def split: option.splits if_splits)

lemma cookie_security_auto:
  "cookie_security rp cfg env m = Inr (''auto'', b) \<Longrightarrow> b = (m = ''proxy'')"
  by (auto simp: cookie_security_def Let_def split: toml.splits if_splits)

lemma trusted_origins_loop_ok:
  assumes "trusted_origins_loop acc vs = Inr os" "distinct acc"
    "\<forall>s\<in>set acc. \<exists>u. urlsplit s = Some u \<and> exact_http_origin u \<and> CHR ''*'' \<notin> set s"
  shows "distinct os \<and> (\<forall>s\<in>set os. \<exists>u. urlsplit s = Some u \<and> exact_http_origin u \<and> CHR ''*'' \<notin> set s)"
  using assms
proof (induction acc vs rule: trusted_origins_loop.induct)
  case (1 acc)
  then show ?case by simp
next
  case (2 acc v vs)
  define s where "s = rstrip_char (CHR ''/'') (py_strip v)"
  show ?case
  proof (cases "s = []")
    case True
    then show ?thesis using 2 by (simp add: Let_def s_def)
  next
    case False
    with "2.prems"(1) obtain u where u: "urlsplit s = Some u" "url_port u \<noteq> None"
      "exact_http_origin u" "CHR ''*'' \<notin> set s"
      by (auto simp: Let_def s_def split: option.splits if_splits)
    let ?acc = "if s \<in> set acc then acc else acc @ [s]"
    have "trusted_origins_loop ?acc vs = Inr os"
      using "2.prems"(1) False u by (auto simp: Let_def s_def split: if_splits)
    moreover have "distinct ?acc" using "2.prems"(2) by auto
    moreover have "\<forall>s\<in>set ?acc. \<exists>u. urlsplit s = Some u \<and> exact_http_origin u \<and> CHR ''*'' \<notin> set s"
      using "2.prems"(3) u by auto
    ultimately show ?thesis
      using "2.IH"(2) [OF s_def False u(1)] u by auto
  qed
qed

lemma networks_loop_ok:
  assumes "networks_loop name acc vs = Inr ns" "distinct acc"
    "name = ''trusted_proxies'' \<Longrightarrow> \<forall>n\<in>set acc. net_num_addresses n \<le> 65536"
  shows "distinct ns \<and> (name = ''trusted_proxies'' \<longrightarrow> (\<forall>n\<in>set ns. net_num_addresses n \<le> 65536))"
  using assms
proof (induction name acc vs rule: networks_loop.induct)
  case (1 name acc)
  then show ?case by simp
next
  case (2 name acc v vs)
  then obtain nw where nw: "ip_network True (py_strip v) = Some nw"
    by (auto split: option.splits)
  show ?case
    using "2.prems" nw by (intro "2.IH" [OF nw refl]) (auto simp: Let_def split: if_splits)
qed

definition sample_settings :: settings where
  "sample_settings = \<lparr>allowed_roots = [path_of ''/srv''], allow_privileged_ports = False,
     public_host_local = Some ''localhost'', public_host_lan = None, access_mode_of = ''local'',
     bind_host_of = ''127.0.0.1'', bind_port_of = 8100, auth_cookie_secure = False,
     auth_session_hours = 12, trusted_origins = [], trusted_proxies = [], trusted_networks = [],
     forwarded_hop_limit = 5, login_max_failures = 5, login_window_minutes = 15\<rparr>"

text \<open>
  Property C30. When the module loads, its settings are safe to serve with: the bind address is a
  literal address, loopback unless the mode is lan and the wildcard when it is; the port is in
  range; with an automatic cookie policy cookies are marked secure exactly behind a proxy; trusted
  origins are distinct exact HTTP origins; and no trusted proxy network has more than 65536
  addresses.
\<close>

theorem loaded_settings_safe:
  assumes "load_settings rp cfg env plain = Inr st"
  shows "access_mode_of st \<in> {''local'', ''lan'', ''proxy''}
    \<and> (\<exists>a. ip_address (bind_host_of st) = Some a
          \<and> (if access_mode_of st = ''lan'' then ip_is_unspecified a else ip_is_loopback a))
    \<and> 1 \<le> bind_port_of st \<and> bind_port_of st \<le> 65535
    \<and> (\<exists>policy. cookie_security rp cfg env (access_mode_of st) = Inr (policy, auth_cookie_secure st)
          \<and> (policy = ''auto'' \<longrightarrow> (auth_cookie_secure st \<longleftrightarrow> access_mode_of st = ''proxy'')))
    \<and> distinct (trusted_origins st)
    \<and> (\<forall>s\<in>set (trusted_origins st). \<exists>u. urlsplit s = Some u \<and> exact_http_origin u \<and> CHR ''*'' \<notin> set s)
    \<and> (\<forall>n\<in>set (trusted_proxies st). net_num_addresses n \<le> 65536)"
proof -
  obtain mode policy secure proxies networks host port origins where l:
      "access_mode rp cfg env = Inr mode" "cookie_security rp cfg env mode = Inr (policy, secure)"
      "load_networks rp cfg env ''trusted_proxies'' [] = Inr proxies"
      "bind_host rp cfg env mode = Inr host" "bind_port cfg env = Inr port"
      "load_trusted_origins rp cfg env = Inr origins"
      "st = plain\<lparr>access_mode_of := mode, auth_cookie_secure := secure, trusted_proxies := proxies,
         trusted_networks := networks, bind_host_of := host, bind_port_of := port,
         trusted_origins := origins, forwarded_hop_limit := 8\<rparr>"
    using assms unfolding load_settings_def by auto
  have m: "mode \<in> {''local'', ''lan'', ''proxy''}" using l(1) by (rule access_mode_values)
  have h: "\<exists>a. ip_address host = Some a \<and> (if mode = ''lan'' then ip_is_unspecified a else ip_is_loopback a)"
    using bind_host_ok [OF l(4)] m by auto
  have o: "distinct origins \<and> (\<forall>s\<in>set origins. \<exists>u. urlsplit s = Some u \<and> exact_http_origin u \<and> CHR ''*'' \<notin> set s)"
    using l(6) unfolding load_trusted_origins_def by (rule trusted_origins_loop_ok) auto
  have n: "\<forall>n\<in>set proxies. net_num_addresses n \<le> 65536"
    using networks_loop_ok [OF l(3) [unfolded load_networks_def]] by auto
  have c: "policy = ''auto'' \<longrightarrow> (secure \<longleftrightarrow> mode = ''proxy'')"
    using cookie_security_auto [of rp cfg env mode secure] l(2) by auto
  show ?thesis using m h o n c bind_port_range [OF l(5)] l(2) by (simp add: l(7))
qed

theorem loaded_settings_safe_witness:
  "\<exists>st. load_settings (\<lambda>_. []) [] (\<lambda>_. None) sample_settings = Inr st
    \<and> 1 \<le> bind_port_of st \<and> distinct (trusted_origins st)"
proof -
  have "is_ok (load_settings (\<lambda>_. []) [] (\<lambda>_. None) sample_settings)" by code_simp
  then obtain st where "load_settings (\<lambda>_. []) [] (\<lambda>_. None) sample_settings = Inr st"
    by (auto simp: is_ok_iff)
  with loaded_settings_safe [OF this] show ?thesis by blast
qed

end
