(* ===== verification/Settings.thy ===== *)
theory Settings
  imports Config
begin

text \<open>
  The rest of \<open>app/config.py\<close>: finding and reading the configuration file, the paths, and the
  remaining fields of \<open>Settings\<close>, in the order in which the module evaluates them. The user's home
  (\<open>expanduser\<close>), the file system and the TOML reader are parameters. \<open>public_host_local\<close> and
  \<open>public_host_lan\<close> are taken over from the argument: a value that is no string fails only where it is used.
\<close>

record home_env =
  he_expand :: "path \<Rightarrow> path"
  he_resolve :: "path \<Rightarrow> path"
  he_home :: path
  he_project :: path
  he_backend :: path
  he_read :: "path \<Rightarrow> string + toml_doc"

definition configuration :: "home_env \<Rightarrow> environ \<Rightarrow> string + toml_doc" where
  "configuration he env = (case env ''MACHINEDECK_CONFIG'' of
     None \<Rightarrow> Inr []
   | Some c \<Rightarrow> if c = [] then Inr []
       else let p = he_expand he (path_of c)
            in map_sum (\<lambda>e. ''Cannot read MachineDeck configuration: '' @ path_str p @ '': '' @ e) id (he_read he p))"

fun toml_truthy :: "toml \<Rightarrow> bool" where
  "toml_truthy (TStr s) = (s \<noteq> [])"
| "toml_truthy (TInt n) = (n \<noteq> 0)"
| "toml_truthy (TBool b) = b"
| "toml_truthy (TArr vs) = (vs \<noteq> [])"
| "toml_truthy (TTable kvs) = (kvs \<noteq> [])"
| "toml_truthy (TFloat s n) = (s \<notin> {''0.0'', ''-0.0''})"
| "toml_truthy (TOther _) = True"

text \<open>\<open>Path(value)\<close> of what is no string raises a TypeError.\<close>

fun toml_path :: "toml \<Rightarrow> string + path" where
  "toml_path (TStr s) = Inr (path_of s)"
| "toml_path _ = Inl ''TypeError''"

definition toml_values :: "string option \<Rightarrow> toml \<Rightarrow> toml list" where
  "toml_values configured d = (case configured of
     Some s \<Rightarrow> if s \<noteq> [] then map TStr (split_on (CHR '':'') s) else (case d of TArr vs \<Rightarrow> vs | v \<Rightarrow> [v])
   | None \<Rightarrow> (case d of TArr vs \<Rightarrow> vs | v \<Rightarrow> [v]))"

definition load_paths :: "home_env \<Rightarrow> toml list \<Rightarrow> string + path list" where
  "load_paths he vs = res_list (map (\<lambda>v. res_bind (toml_path v) (\<lambda>p. Inr (he_expand he p))) (filter toml_truthy vs))"

definition load_allowed_roots :: "home_env \<Rightarrow> toml_doc \<Rightarrow> environ \<Rightarrow> string + path list" where
  "load_allowed_roots he cfg env = res_bind
     (load_paths he (toml_values (env ''MACHINEDECK_ALLOWED_ROOTS'')
        (cfg_value cfg ''paths'' ''allowed_roots'' (TArr [TStr (path_str (path_parent (he_project he)))]))))
     (\<lambda>ps. Inr (map (he_resolve he) ps))"

definition load_monitor_disks :: "home_env \<Rightarrow> toml_doc \<Rightarrow> environ \<Rightarrow> string + path list" where
  "load_monitor_disks he cfg env = res_bind
     (load_paths he (toml_values (env ''MACHINEDECK_MONITOR_DISKS'')
        (cfg_value cfg ''paths'' ''monitor_disks'' (TArr [TStr ''/'', TStr (path_str (he_home he)),
           TStr (path_str (path_parent (path_parent (he_project he))))]))))
     (\<lambda>ps. Inr (dict_fromkeys ps))"

definition env_int :: "environ \<Rightarrow> string \<Rightarrow> string \<Rightarrow> string + int" where
  "env_int env n d = (case py_int (case env n of Some s \<Rightarrow> s | None \<Rightarrow> d) of Some i \<Rightarrow> Inr i | None \<Rightarrow> Inl ''ValueError'')"

record full_settings = settings +
  database_url :: toml
  user_unit_dir :: path
  dashboard_interval :: string
  monitor_disks :: "path list"

text \<open>\<open>is_float\<close>: what \<open>float()\<close> accepts.\<close>

definition load_all_settings ::
    "(toml \<Rightarrow> string) \<Rightarrow> (string \<Rightarrow> bool) \<Rightarrow> home_env \<Rightarrow> environ \<Rightarrow> full_settings \<Rightarrow> string + full_settings"
where
  "load_all_settings rp is_float he env base =
     res_bind (configuration he env) (\<lambda>cfg.
     res_bind (access_mode rp cfg env) (\<lambda>mode.
     res_bind (cookie_security rp cfg env mode) (\<lambda>(_, secure).
     res_bind (load_networks rp cfg env ''trusted_proxies'' []) (\<lambda>proxies.
     res_bind (load_networks rp cfg env ''trusted_networks'' [''127.0.0.0/8'', ''::1/128'']) (\<lambda>networks.
     res_bind (load_allowed_roots he cfg env) (\<lambda>roots.
     res_bind (bind_host rp cfg env mode) (\<lambda>host.
     res_bind (bind_port cfg env) (\<lambda>port.
     res_bind (toml_path (getenv_or env ''MACHINEDECK_USER_UNIT_DIR''
        (cfg_value cfg ''paths'' ''user_unit_dir'' (TStr (path_str (path_join (he_home he) (path_of ''.config/systemd/user'')))))))
       (\<lambda>unit_dir.
     res_bind (env_int env ''MACHINEDECK_AUTH_SESSION_HOURS'' ''12'') (\<lambda>hours.
     res_bind (load_trusted_origins rp cfg env) (\<lambda>origins.
     res_bind (env_int env ''MACHINEDECK_LOGIN_MAX_FAILURES'' ''5'') (\<lambda>failures.
     res_bind (env_int env ''MACHINEDECK_LOGIN_WINDOW_MINUTES'' ''15'') (\<lambda>window.
     (let interval = (case env ''MACHINEDECK_DASHBOARD_INTERVAL_SECONDS'' of Some s \<Rightarrow> s | None \<Rightarrow> ''2'') in
     if \<not> is_float interval then Inl ''ValueError'' else
     res_bind (load_monitor_disks he cfg env) (\<lambda>disks_of.
       Inr (base\<lparr>access_mode_of := mode, auth_cookie_secure := secure, trusted_proxies := proxies,
         trusted_networks := networks, bind_host_of := host, bind_port_of := port, trusted_origins := origins,
         forwarded_hop_limit := 8, allowed_roots := roots, auth_session_hours := hours,
         login_max_failures := failures, login_window_minutes := window,
         allow_privileged_ports := (case env ''MACHINEDECK_ALLOW_PRIVILEGED_PORTS'' of
            Some s \<Rightarrow> py_lower s \<in> {''1'', ''true'', ''yes''} | None \<Rightarrow> False),
         database_url := getenv_or env ''MACHINEDECK_DATABASE_URL'' (cfg_value cfg ''state'' ''database_url''
            (TStr (''sqlite:///'' @ path_str (path_join (he_backend he) (path_of ''data/machinedeck.db''))))),
         user_unit_dir := he_expand he unit_dir, dashboard_interval := interval, monitor_disks := disks_of\<rparr>))))))))))))))))"

section \<open>What a start of the server has checked\<close>

lemma load_allowed_roots_resolved: "load_allowed_roots he cfg env = Inr rs \<Longrightarrow> set rs \<subseteq> range (he_resolve he)"
  by (auto simp: load_allowed_roots_def)

lemma load_monitor_disks_distinct: "load_monitor_disks he cfg env = Inr ds \<Longrightarrow> distinct ds"
  by (auto simp: load_monitor_disks_def)

text \<open>The modelled fields are those of \<open>load_settings\<close> on the configuration that was read.\<close>

lemma load_all_settings_refines:
  assumes "load_all_settings rp is_float he env base = Inr s"
  shows "\<exists>cfg s0. configuration he env = Inr cfg \<and> load_settings rp cfg env (settings.truncate base) = Inr s0
    \<and> access_mode_of s0 = access_mode_of s \<and> bind_host_of s0 = bind_host_of s \<and> bind_port_of s0 = bind_port_of s
    \<and> auth_cookie_secure s0 = auth_cookie_secure s \<and> trusted_origins s0 = trusted_origins s
    \<and> trusted_proxies s0 = trusted_proxies s \<and> trusted_networks s0 = trusted_networks s
    \<and> load_allowed_roots he cfg env = Inr (allowed_roots s) \<and> load_monitor_disks he cfg env = Inr (monitor_disks s)"
  using assms
  by (auto simp: load_all_settings_def load_settings_def Let_def split: prod.splits if_splits)

end
