(* ===== verification/Manifest.thy ===== *)
theory Manifest
  imports Config
begin

text \<open>
  \<open>schemas/applications.py\<close>: the application manifest, its validators and
  \<open>validate_manifest_paths\<close>. The \<open>Field\<close> constraints and the validators of a model are one
  function from the decoded fields to the validated model, \<open>None\<close> being pydantic's
  ValidationError; the decoding of JSON or YAML into fields is the library's.

  Validation normalises (it resolves the working directory, prints addresses canonically, fills
  in a Web path, drops duplicate tags). The main lemma, \<open>validate_manifest_idem\<close>, says a
  validated manifest is a fixed point of validation, which is what lets the registry re-validate
  the stored text on every read.
\<close>

datatype protocol = HTTP | HTTPS | TCP | UDP

datatype runtime =
    ProcessRuntime (working_dir: path) (command: "string list")
  | ComposeRuntime (working_dir: path) (compose_file: string) (project_name: "string option")

record port_definition =
  port_id :: string
  port_name :: string
  port_protocol :: protocol
  port_host :: int
  port_bind :: string
  port_path :: "string option"
  port_primary :: bool
  port_browser :: bool
  port_health :: "string option"

record manifest =
  man_version :: int
  man_id :: string
  man_name :: string
  man_description :: string
  man_enabled :: bool
  man_runtime :: runtime
  man_environment :: "(string \<times> string) list"
  man_ports :: "port_definition list"
  man_tags :: "string list"

section \<open>The patterns\<close>

definition low_alnum :: "char \<Rightarrow> bool" where
  "low_alnum c \<longleftrightarrow> is_lower c \<or> is_dec c"

definition app_id_ok :: "string \<Rightarrow> bool" where
  "app_id_ok s \<longleftrightarrow> s \<noteq> [] \<and> length s \<le> 64 \<and> low_alnum (hd s) \<and> low_alnum (last s)
     \<and> list_all (\<lambda>c. low_alnum c \<or> c = CHR ''-'') s"

definition env_name_ok :: "string \<Rightarrow> bool" where
  "env_name_ok s \<longleftrightarrow> s \<noteq> [] \<and> (is_upper (hd s) \<or> hd s = CHR ''_'')
     \<and> list_all (\<lambda>c. is_upper c \<or> is_dec c \<or> c = CHR ''_'') (tl s)"

definition port_id_ok :: "string \<Rightarrow> bool" where
  "port_id_ok s \<longleftrightarrow> s \<noteq> [] \<and> low_alnum (hd s)
     \<and> list_all (\<lambda>c. low_alnum c \<or> c = CHR ''-'') (tl s)"

definition project_name_ok :: "string \<Rightarrow> bool" where
  "project_name_ok s \<longleftrightarrow> s \<noteq> [] \<and> low_alnum (hd s)
     \<and> list_all (\<lambda>c. low_alnum c \<or> c = CHR ''_'' \<or> c = CHR ''-'') (tl s)"

definition tag_ok :: "string \<Rightarrow> bool" where
  "tag_ok s \<longleftrightarrow> s \<noteq> [] \<and> length s \<le> 63 \<and> low_alnum (hd s)
     \<and> list_all (\<lambda>c. low_alnum c \<or> c = CHR ''-'') (tl s)"

section \<open>Validators\<close>

definition validate_process_runtime :: "host_fs \<Rightarrow> path \<Rightarrow> string list \<Rightarrow> runtime option" where
  "validate_process_runtime fs wd cmd =
     (if 1 \<le> length cmd \<and> length cmd \<le> 128 \<and> path_is_absolute wd
         \<and> list_all (\<lambda>a. a \<noteq> [] \<and> NUL \<notin> set a) cmd \<and> path_is_absolute (path_of (hd cmd))
      then Some (ProcessRuntime (fs_resolve fs wd) cmd) else None)"

definition validate_compose_runtime :: "host_fs \<Rightarrow> path \<Rightarrow> string \<Rightarrow> string option \<Rightarrow> runtime option" where
  "validate_compose_runtime fs wd cf pn =
     (if path_is_absolute wd \<and> path_name (path_of cf) = cf \<and> cf \<noteq> ''.'' \<and> cf \<noteq> ''..''
         \<and> (endswith ''.yaml'' cf \<or> endswith ''.yml'' cf)
         \<and> (case pn of None \<Rightarrow> True | Some p \<Rightarrow> project_name_ok p)
      then Some (ComposeRuntime (fs_resolve fs wd) cf pn) else None)"

fun validate_runtime :: "host_fs \<Rightarrow> runtime \<Rightarrow> runtime option" where
  "validate_runtime fs (ProcessRuntime wd cmd) = validate_process_runtime fs wd cmd"
| "validate_runtime fs (ComposeRuntime wd cf pn) = validate_compose_runtime fs wd cf pn"

definition web_path_ok :: "string option \<Rightarrow> bool" where
  "web_path_ok v = (case v of None \<Rightarrow> True
     | Some s \<Rightarrow> startswith ''/'' s
         \<and> (case urlsplit s of None \<Rightarrow> False | Some u \<Rightarrow> u_scheme u = [] \<and> u_netloc u = []))"

definition validate_bind_address :: "string \<Rightarrow> string option" where
  "validate_bind_address v = map_option ip_str (ip_address v)"

definition is_web :: "protocol \<Rightarrow> bool" where
  "is_web p \<longleftrightarrow> p = HTTP \<or> p = HTTPS"

definition protocol_specific_fields :: "port_definition \<Rightarrow> port_definition option" where
  "protocol_specific_fields p =
     (if \<not> is_web (port_protocol p) \<and>
         (port_path p \<noteq> None \<or> port_health p \<noteq> None \<or> port_primary p \<or> port_browser p)
      then None
      else if is_web (port_protocol p) \<and> port_path p = None then Some (p\<lparr>port_path := Some ''/''\<rparr>)
      else Some p)"

definition validate_port :: "port_definition \<Rightarrow> port_definition option" where
  "validate_port p =
     (case validate_bind_address (port_bind p) of None \<Rightarrow> None
      | Some b \<Rightarrow>
          if port_id_ok (port_id p) \<and> 1 \<le> length (port_name p) \<and> length (port_name p) \<le> 100
             \<and> 1 \<le> port_host p \<and> port_host p \<le> 65535
             \<and> web_path_ok (port_path p) \<and> web_path_ok (port_health p)
          then protocol_specific_fields (p\<lparr>port_bind := b\<rparr>) else None)"

definition environment_ok :: "(string \<times> string) list \<Rightarrow> bool" where
  "environment_ok e \<longleftrightarrow> list_all (\<lambda>(n, _). env_name_ok n) e
     \<and> list_all (\<lambda>(_, v). \<not> has_any [LF, CR, NUL] v) e"

definition unique_ports :: "manifest \<Rightarrow> bool" where
  "unique_ports m \<longleftrightarrow> distinct (map port_id (man_ports m)) \<and> distinct (map port_host (man_ports m))
     \<and> length (filter (\<lambda>p. port_primary p \<and> is_web (port_protocol p)) (man_ports m)) \<le> 1"

fun opt_list :: "'a option list \<Rightarrow> 'a list option" where
  "opt_list [] = Some []"
| "opt_list (x # xs) = (case (x, opt_list xs) of (Some y, Some ys) \<Rightarrow> Some (y # ys) | _ \<Rightarrow> None)"

definition validate_manifest :: "host_fs \<Rightarrow> manifest \<Rightarrow> manifest option" where
  "validate_manifest fs m =
     (case (validate_runtime fs (man_runtime m), opt_list (map validate_port (man_ports m))) of
        (Some rt, Some ps) \<Rightarrow>
          if man_version m = 1 \<and> app_id_ok (man_id m) \<and> 1 \<le> length (man_name m) \<and> length (man_name m) \<le> 200
             \<and> length (man_description m) \<le> 4000 \<and> environment_ok (man_environment m)
             \<and> length (man_ports m) \<le> 64 \<and> length (man_tags m) \<le> 64 \<and> list_all tag_ok (man_tags m)
          then (let m' = m\<lparr>man_runtime := rt, man_ports := ps, man_tags := dict_fromkeys (man_tags m)\<rparr>
                in if unique_ports m' then Some m' else None)
          else None
      | _ \<Rightarrow> None)"

section \<open>Path and port policy\<close>

record issue =
  issue_field :: string
  issue_code :: string
  issue_message :: string

record validation_response =
  vr_valid :: bool
  vr_errors :: "issue list"
  vr_warnings :: "issue list"

definition under_roots :: "path \<Rightarrow> path list \<Rightarrow> bool" where
  "under_roots p roots \<longleftrightarrow> list_ex (\<lambda>r. p = r \<or> path_relative_to p r) roots"

definition privileged_issues :: "port_definition list \<Rightarrow> issue list" where
  "privileged_issues ps =
     map (\<lambda>(i, _). \<lparr>issue_field = ''ports['' @ int_str (int i) @ ''].host_port'',
            issue_code = ''PRIVILEGED_PORT_NOT_ALLOWED'',
            issue_message = ''Ports below 1024 require an explicit host policy opt-in.''\<rparr>)
       (filter (\<lambda>(_, p). port_host p < 1024) (zip [0..<length ps] ps))"

definition validate_manifest_paths :: "settings \<Rightarrow> host_fs \<Rightarrow> path list \<Rightarrow> manifest \<Rightarrow> validation_response" where
  "validate_manifest_paths st fs roots m =
     (let privileged = (if allow_privileged_ports st then [] else privileged_issues (man_ports m));
          wd = working_dir (man_runtime m);
          wd_issues =
            (if \<not> under_roots wd roots
             then [\<lparr>issue_field = ''runtime.working_dir'', issue_code = ''PATH_NOT_ALLOWED'',
                    issue_message = ''Working directory is outside configured allowed roots.''\<rparr>]
             else if \<not> fs_is_dir fs wd
             then [\<lparr>issue_field = ''runtime.working_dir'', issue_code = ''WORKING_DIR_NOT_FOUND'',
                    issue_message = ''Working directory does not exist.''\<rparr>]
             else []);
          rt_issues =
            (case man_runtime m of
               ProcessRuntime _ cmd \<Rightarrow>
                 (let exe = fs_resolve fs (path_of (hd cmd))
                  in if \<not> under_roots exe roots
                     then [\<lparr>issue_field = ''runtime.command[0]'', issue_code = ''PATH_NOT_ALLOWED'',
                            issue_message = ''Executable is outside configured allowed roots.''\<rparr>]
                     else if \<not> fs_is_file fs exe
                     then [\<lparr>issue_field = ''runtime.command[0]'', issue_code = ''EXECUTABLE_NOT_FOUND'',
                            issue_message = ''Executable does not exist.''\<rparr>]
                     else [])
             | ComposeRuntime d cf _ \<Rightarrow>
                 if \<not> fs_is_file fs (path_join d (path_of cf))
                 then [\<lparr>issue_field = ''runtime.compose_file'', issue_code = ''FILE_NOT_FOUND'',
                        issue_message = ''Compose file does not exist.''\<rparr>]
                 else []);
          errors = privileged @ wd_issues @ rt_issues;
          warnings = (if man_environment m \<noteq> []
            then [\<lparr>issue_field = ''environment'', issue_code = ''SECRETS_NOT_CLASSIFIED'',
                   issue_message = ''Environment values are stored as configuration; do not include unprotected secrets.''\<rparr>]
            else [])
      in \<lparr>vr_valid = (errors = []), vr_errors = errors, vr_warnings = warnings\<rparr>)"

section \<open>What validation guarantees\<close>

text \<open>
  \<open>manifest_valid\<close> is the well-formedness the rest of the program relies on: everything the
  validators check, stated of the validated value.
\<close>

definition port_valid :: "port_definition \<Rightarrow> bool" where
  "port_valid p \<longleftrightarrow> port_id_ok (port_id p) \<and> 1 \<le> length (port_name p) \<and> length (port_name p) \<le> 100
     \<and> 1 \<le> port_host p \<and> port_host p \<le> 65535
     \<and> (\<exists>a. ip_address (port_bind p) = Some a \<and> port_bind p = ip_str a)
     \<and> web_path_ok (port_path p) \<and> web_path_ok (port_health p)
     \<and> (if is_web (port_protocol p) then port_path p \<noteq> None
        else port_path p = None \<and> port_health p = None \<and> \<not> port_primary p \<and> \<not> port_browser p)"

fun runtime_valid :: "host_fs \<Rightarrow> runtime \<Rightarrow> bool" where
  "runtime_valid fs (ProcessRuntime wd cmd) \<longleftrightarrow>
     path_is_absolute wd \<and> fs_resolve fs wd = wd \<and> cmd \<noteq> [] \<and> length cmd \<le> 128
     \<and> list_all (\<lambda>a. a \<noteq> [] \<and> NUL \<notin> set a) cmd \<and> path_is_absolute (path_of (hd cmd))"
| "runtime_valid fs (ComposeRuntime wd cf pn) \<longleftrightarrow>
     path_is_absolute wd \<and> fs_resolve fs wd = wd
     \<and> path_name (path_of cf) = cf \<and> cf \<noteq> ''.'' \<and> cf \<noteq> ''..''
     \<and> (endswith ''.yaml'' cf \<or> endswith ''.yml'' cf)
     \<and> (case pn of None \<Rightarrow> True | Some p \<Rightarrow> project_name_ok p)"

definition manifest_valid :: "host_fs \<Rightarrow> manifest \<Rightarrow> bool" where
  "manifest_valid fs m \<longleftrightarrow> man_version m = 1 \<and> app_id_ok (man_id m)
     \<and> 1 \<le> length (man_name m) \<and> length (man_name m) \<le> 200 \<and> length (man_description m) \<le> 4000
     \<and> runtime_valid fs (man_runtime m) \<and> environment_ok (man_environment m)
     \<and> length (man_ports m) \<le> 64 \<and> list_all port_valid (man_ports m) \<and> unique_ports m
     \<and> length (man_tags m) \<le> 64 \<and> list_all tag_ok (man_tags m) \<and> distinct (man_tags m)"

text \<open>\<open>Path.resolve\<close> of an absolute path is absolute, and resolving twice is resolving once.\<close>

definition resolves :: "host_fs \<Rightarrow> bool" where
  "resolves fs \<longleftrightarrow> (\<forall>p. path_is_absolute p \<longrightarrow>
     path_is_absolute (fs_resolve fs p) \<and> fs_resolve fs (fs_resolve fs p) = fs_resolve fs p)"

lemma resolvesD:
  "resolves fs \<Longrightarrow> path_is_absolute p \<Longrightarrow> path_is_absolute (fs_resolve fs p)"
  "resolves fs \<Longrightarrow> path_is_absolute p \<Longrightarrow> fs_resolve fs (fs_resolve fs p) = fs_resolve fs p"
  by (auto simp: resolves_def)

lemma web_path_slash [simp]: "web_path_ok (Some ''/'')"
  by code_simp

lemma web_path_None [simp]: "web_path_ok None"
  by (simp add: web_path_ok_def)

lemma opt_list_map_Some [simp]: "opt_list (map Some xs) = Some xs"
  by (induction xs) auto

lemma opt_list_SomeD: "opt_list os = Some xs \<Longrightarrow> os = map Some xs"
  by (induction os arbitrary: xs) (auto split: option.splits)

lemma opt_list_iff: "opt_list os = Some xs \<longleftrightarrow> os = map Some xs"
  by (auto dest: opt_list_SomeD)

lemma opt_list_mapE:
  assumes "opt_list (map f xs) = Some ys"
  shows "length ys = length xs" "list_all2 (\<lambda>x y. f x = Some y) xs ys"
  using assms by (auto simp: opt_list_iff list_all2_conv_all_nth dest: arg_cong [of _ _ length])
    (metis length_map nth_map)

lemma validate_port_valid:
  assumes "validate_port p = Some q"
  shows "port_valid q"
  using assms ip_normal_form [of "port_bind p"]
  by (auto simp: validate_port_def protocol_specific_fields_def port_valid_def validate_bind_address_def
       split: option.splits if_splits)

lemma validate_port_fixed:
  assumes "port_valid p"
  shows "validate_port p = Some p"
  using assms
  by (auto simp: validate_port_def protocol_specific_fields_def port_valid_def validate_bind_address_def
       split: option.splits if_splits)

lemma validate_runtime_valid:
  assumes "resolves fs" "validate_runtime fs r = Some q"
  shows "runtime_valid fs q"
  using assms(2)
  by (cases r)
    (auto simp: validate_process_runtime_def validate_compose_runtime_def resolvesD [OF assms(1)]
       split: if_splits)

lemma validate_runtime_fixed:
  assumes "runtime_valid fs r"
  shows "validate_runtime fs r = Some r"
  using assms
  by (cases r) (auto simp: validate_process_runtime_def validate_compose_runtime_def Suc_le_eq)

lemma validated_ports:
  assumes "opt_list (map validate_port ps) = Some qs"
  shows "list_all port_valid qs"
  using opt_list_mapE(2) [OF assms] validate_port_valid
  by (auto simp: list_all2_conv_all_nth list_all_length)

lemma length_dict_fromkeys: "length (dict_fromkeys xs) \<le> length xs"
  by (metis card_length distinct_card distinct_dict_fromkeys set_dict_fromkeys)

lemma validate_manifest_valid:
  assumes fs: "resolves fs" and v: "validate_manifest fs m = Some w"
  shows "manifest_valid fs w"
proof -
  obtain rt ps where rt: "validate_runtime fs (man_runtime m) = Some rt"
      and ps: "opt_list (map validate_port (man_ports m)) = Some ps"
    using v by (auto simp: validate_manifest_def split: option.splits)
  have "runtime_valid fs rt" "list_all port_valid ps" "length ps = length (man_ports m)"
    using validate_runtime_valid [OF fs rt] validated_ports [OF ps] opt_list_mapE(1) [OF ps] by auto
  then show ?thesis
    using v length_dict_fromkeys [of "man_tags m"]
    by (auto simp: validate_manifest_def rt ps manifest_valid_def Let_def list_all_iff split: if_splits)
qed

lemma validate_manifest_fixed:
  assumes "manifest_valid fs m"
  shows "validate_manifest fs m = Some m"
proof -
  have "opt_list (map validate_port (man_ports m)) = Some (man_ports m)"
    using assms by (auto simp: manifest_valid_def opt_list_iff list_all_iff validate_port_fixed)
  moreover have "validate_runtime fs (man_runtime m) = Some (man_runtime m)"
    using assms by (auto simp: manifest_valid_def validate_runtime_fixed)
  ultimately show ?thesis
    using assms by (auto simp: validate_manifest_def manifest_valid_def dict_fromkeys_id Let_def)
qed

lemma manifest_valid_web_paths:
  "manifest_valid fs m \<Longrightarrow> p \<in> set (man_ports m) \<Longrightarrow> port_valid p"
  by (auto simp: manifest_valid_def list_all_iff)

section \<open>Path policy\<close>

lemma privileged_issues_Nil: "privileged_issues ps = [] \<longleftrightarrow> (\<forall>p\<in>set ps. 1024 \<le> port_host p)"
proof -
  have snds: "set ps = snd ` set (zip [0..<length ps] ps)"
    by (metis length_upt map_snd_zip list.set_map minus_nat.diff_0)
  have "privileged_issues ps = [] \<longleftrightarrow> (\<forall>x\<in>set (zip [0..<length ps] ps). 1024 \<le> port_host (snd x))"
    by (force simp: privileged_issues_def filter_empty_conv)
  then show ?thesis by (simp add: snds)
qed

lemma under_roots_iff: "under_roots p roots \<longleftrightarrow> (\<exists>r\<in>set roots. path_relative_to p r)"
  unfolding under_roots_def list_ex_iff by (metis path_relative_to_refl)

lemma under_roots_below:
  "under_roots p roots \<Longrightarrow> path_relative_to q p \<Longrightarrow> under_roots q roots"
  by (auto simp: under_roots_iff intro: path_relative_to_trans)

fun runtime_files_ok :: "host_fs \<Rightarrow> path list \<Rightarrow> runtime \<Rightarrow> bool" where
  "runtime_files_ok fs roots (ProcessRuntime wd cmd) \<longleftrightarrow>
     under_roots (fs_resolve fs (path_of (hd cmd))) roots \<and> fs_is_file fs (fs_resolve fs (path_of (hd cmd)))"
| "runtime_files_ok fs roots (ComposeRuntime wd cf pn) \<longleftrightarrow> fs_is_file fs (path_join wd (path_of cf))"

lemma validate_manifest_paths_valid:
  "vr_valid (validate_manifest_paths st fs roots m) \<longleftrightarrow>
     (allow_privileged_ports st \<or> (\<forall>p\<in>set (man_ports m). 1024 \<le> port_host p))
     \<and> under_roots (working_dir (man_runtime m)) roots \<and> fs_is_dir fs (working_dir (man_runtime m))
     \<and> runtime_files_ok fs roots (man_runtime m)"
  by (auto simp: validate_manifest_paths_def Let_def privileged_issues_Nil split: runtime.splits if_splits)

lemma plain_name_relative:
  assumes "path_name (path_of cf) = cf" "cf \<noteq> []"
  shows "\<not> path_is_absolute (path_of cf)"
proof
  assume "path_is_absolute (path_of cf)"
  then have s: "startswith ''/'' cf"
    by (auto simp: path_of_def path_is_absolute_def Let_def startswith_iff split: if_splits)
  have "cf \<in> set (path_parts (path_of cf))"
    using assms by (metis last_in_set path_name_def)
  then have "cf \<in> set (split_on (CHR ''/'') cf)" by (simp add: path_of_def Let_def)
  then have "CHR ''/'' \<notin> set cf" by (rule split_on_pieces)
  with s show False by (auto simp: startswith_iff)
qed


section \<open>The sample application used as a concrete input\<close>

definition plain_fs :: host_fs where
  "plain_fs = \<lparr>fs_resolve = (\<lambda>p. p), fs_is_dir = (\<lambda>p. p = path_of ''/srv/demo''),
     fs_is_file = (\<lambda>p. p = path_of ''/srv/demo/compose.yaml'' \<or> p = path_of ''/srv/demo/run'')\<rparr>"

definition sample_port :: port_definition where
  "sample_port = \<lparr>port_id = ''web'', port_name = ''Web'', port_protocol = HTTP, port_host = 8080,
     port_bind = ''127.0.0.1'', port_path = Some ''/'', port_primary = True, port_browser = True,
     port_health = None\<rparr>"

definition sample_manifest :: manifest where
  "sample_manifest = \<lparr>man_version = 1, man_id = ''demo'', man_name = ''Demo'', man_description = [],
     man_enabled = True, man_runtime = ProcessRuntime (path_of ''/srv/demo'') [''/srv/demo/run''],
     man_environment = [(''MODE'', ''x'')], man_ports = [sample_port], man_tags = [''a'']\<rparr>"

definition sample_compose :: manifest where
  "sample_compose = sample_manifest\<lparr>man_runtime :=
     ComposeRuntime (path_of ''/srv/demo'') ''compose.yaml'' None\<rparr>"

lemma plain_fs_resolves [simp]: "resolves plain_fs"
  by (simp add: resolves_def plain_fs_def)

lemma sample_valid [simp]: "validate_manifest plain_fs sample_manifest = Some sample_manifest"
  by code_simp

lemma sample_compose_valid [simp]: "validate_manifest plain_fs sample_compose = Some sample_compose"
  by code_simp

section \<open>Properties\<close>

text \<open>
  Property C28. A manifest that passes validation satisfies every constraint of the schema in
  its normalised form, and validating it again returns it unchanged; conversely the fixed
  points of validation are exactly the manifests that satisfy those constraints. So the text
  stored for an application validates, unchanged, on every later read.
\<close>

theorem validation_normalises:
  assumes "resolves fs"
  shows "(\<forall>w. validate_manifest fs m = Some w \<longrightarrow> manifest_valid fs w \<and> validate_manifest fs w = Some w)
    \<and> (validate_manifest fs m = Some m \<longleftrightarrow> manifest_valid fs m)"
  using validate_manifest_valid [OF assms] validate_manifest_fixed by blast

theorem validation_normalises_witness:
  "manifest_valid plain_fs sample_manifest \<and> validate_manifest plain_fs sample_manifest = Some sample_manifest"
  using validation_normalises [OF plain_fs_resolves, of sample_manifest] sample_valid by blast

text \<open>
  Property C29. The path policy accepts a manifest exactly when its ports respect the privileged
  range, its working directory is an existing directory under an allowed root and what it runs
  exists: the resolved executable, itself under an allowed root, or the Compose file, which for a
  validated manifest always lies under the working directory and so under the same root.
\<close>

theorem path_policy_confines:
  assumes fs: "resolves fs" and v: "validate_manifest fs m0 = Some m"
  shows "vr_valid (validate_manifest_paths st fs roots m) \<longleftrightarrow>
      (allow_privileged_ports st \<or> (\<forall>p\<in>set (man_ports m). 1024 \<le> port_host p))
      \<and> under_roots (working_dir (man_runtime m)) roots \<and> fs_is_dir fs (working_dir (man_runtime m))
      \<and> (case man_runtime m of
           ProcessRuntime wd cmd \<Rightarrow> under_roots (fs_resolve fs (path_of (hd cmd))) roots
             \<and> fs_is_file fs (fs_resolve fs (path_of (hd cmd)))
         | ComposeRuntime wd cf pn \<Rightarrow> under_roots (path_join wd (path_of cf)) roots
             \<and> fs_is_file fs (path_join wd (path_of cf)))"
proof -
  have "under_roots (path_join wd (path_of cf)) roots"
    if "man_runtime m = ComposeRuntime wd cf pn" "under_roots wd roots" for wd cf pn
  proof -
    have "path_name (path_of cf) = cf" "cf \<noteq> []"
      using validate_manifest_valid [OF fs v] that(1) by (auto simp: manifest_valid_def endswith_iff)
    then have "path_relative_to (path_join wd (path_of cf)) wd"
      by (rule path_relative_to_join [OF plain_name_relative])
    then show ?thesis by (rule under_roots_below [OF that(2)])
  qed
  then show ?thesis
    unfolding validate_manifest_paths_valid by (cases "man_runtime m") auto
qed

theorem path_policy_confines_witness:
  "\<forall>st. vr_valid (validate_manifest_paths st plain_fs [path_of ''/srv''] sample_compose)"
proof -
  have "under_roots (path_of ''/srv/demo'') [path_of ''/srv'']" by code_simp
  moreover have "path_join (path_of ''/srv/demo'') (path_of ''compose.yaml'') = path_of ''/srv/demo/compose.yaml''"
    by code_simp
  moreover have "under_roots (path_of ''/srv/demo/compose.yaml'') [path_of ''/srv'']" by code_simp
  ultimately show ?thesis
    unfolding path_policy_confines [OF plain_fs_resolves sample_compose_valid]
    by (simp add: sample_compose_def sample_manifest_def sample_port_def plain_fs_def)
qed

end
