(* ===== verification/Status.thy ===== *)
theory Status
  imports PyStr
begin

text \<open>
  The application state machine: the enumerations of \<open>schemas/lifecycle.py\<close>, the transition
  table and \<open>require_transition\<close> of \<open>orchestration/state_machine.py\<close>, and the step relation
  it allows. The lemmas show which states can be reached from which, that every state can be
  brought back to STOPPED, and that DISABLED is entered and left through STOPPED only.
\<close>

datatype app_status = STOPPED | QUEUED | CHECKING | STARTING | RUNNING | UNHEALTHY | STOPPING
  | FAILED | UNKNOWN | DISABLED

datatype execution_status = EX_RUNNING | EX_SUCCEEDED | EX_FAILED

fun status_value :: "app_status \<Rightarrow> string" where
  "status_value STOPPED = ''STOPPED''"
| "status_value QUEUED = ''QUEUED''"
| "status_value CHECKING = ''CHECKING''"
| "status_value STARTING = ''STARTING''"
| "status_value RUNNING = ''RUNNING''"
| "status_value UNHEALTHY = ''UNHEALTHY''"
| "status_value STOPPING = ''STOPPING''"
| "status_value FAILED = ''FAILED''"
| "status_value UNKNOWN = ''UNKNOWN''"
| "status_value DISABLED = ''DISABLED''"

fun allowed_transitions :: "app_status \<Rightarrow> app_status list" where
  "allowed_transitions STOPPED = [CHECKING, DISABLED]"
| "allowed_transitions CHECKING = [STARTING, QUEUED, FAILED, STOPPED]"
| "allowed_transitions QUEUED = [CHECKING, STOPPED]"
| "allowed_transitions STARTING = [RUNNING, UNHEALTHY, FAILED, STOPPED]"
| "allowed_transitions RUNNING = [STARTING, STOPPING, UNHEALTHY, FAILED, UNKNOWN]"
| "allowed_transitions UNHEALTHY = [RUNNING, STARTING, STOPPING, FAILED]"
| "allowed_transitions STOPPING = [STOPPED, FAILED]"
| "allowed_transitions FAILED = [CHECKING, STOPPING, STOPPED]"
| "allowed_transitions UNKNOWN = [CHECKING, RUNNING, STOPPING, STOPPED, FAILED]"
| "allowed_transitions DISABLED = [STOPPED]"

text \<open>The exception of \<open>require_transition\<close> carries its message.\<close>

datatype transition_error = InvalidStateTransition string

definition require_transition :: "app_status \<Rightarrow> app_status \<Rightarrow> transition_error + unit" where
  "require_transition current target =
     (if current = target then Inr ()
      else if target \<notin> set (allowed_transitions current)
      then Inl (InvalidStateTransition (''Invalid state transition: '' @ status_value current
             @ '' -> '' @ status_value target))
      else Inr ())"

section \<open>The step relation of the table\<close>

inductive status_step :: "app_status \<Rightarrow> app_status \<Rightarrow> bool" where
  move: "require_transition s t = Inr () \<Longrightarrow> s \<noteq> t \<Longrightarrow> status_step s t"

inductive status_reach :: "app_status \<Rightarrow> app_status \<Rightarrow> bool" where
  here: "status_reach s s"
| onward: "status_step s t \<Longrightarrow> status_reach t u \<Longrightarrow> status_reach s u"

inductive_cases status_stepE: "status_step s t"

inductive_simps status_step_iff: "status_step s t"

lemma require_transition_ok [enum_simps]:
  "require_transition s t = Inr () \<longleftrightarrow> s = t \<or> t \<in> set (allowed_transitions s)"
  by (simp add: require_transition_def)

lemma require_transition_err:
  "require_transition s t = Inl e \<longleftrightarrow> s \<noteq> t \<and> t \<notin> set (allowed_transitions s)
     \<and> e = InvalidStateTransition (''Invalid state transition: '' @ status_value s
             @ '' -> '' @ status_value t)"
  by (auto simp: require_transition_def)

lemma status_step_allowed: "status_step s t \<longleftrightarrow> s \<noteq> t \<and> t \<in> set (allowed_transitions s)"
  by (auto simp: status_step_iff require_transition_ok)

lemma status_reach_trans: "status_reach s t \<Longrightarrow> status_reach t u \<Longrightarrow> status_reach s u"
  by (induction rule: status_reach.induct) (auto intro: onward)

lemma status_reach_step: "status_step s t \<Longrightarrow> status_reach s t"
  by (blast intro: here onward)

lemma reach_via: "status_step s t \<Longrightarrow> status_step t u \<Longrightarrow> status_reach s u"
  by (blast intro: here onward)

lemma reach_stopped: "status_reach s STOPPED"
proof (cases "s = STOPPED \<or> STOPPED \<in> set (allowed_transitions s)")
  case True
  then show ?thesis
    by (cases "s = STOPPED") (auto intro: here status_reach_step simp: status_step_allowed)
next
  case False
  then have "s = RUNNING \<or> s = UNHEALTHY" by (cases s) auto
  then have "status_step s STARTING" "status_step STARTING STOPPED"
    by (auto simp: status_step_allowed)
  then show ?thesis by (rule reach_via)
qed

lemma reach_step:
  "status_reach s t \<Longrightarrow> t \<noteq> u \<Longrightarrow> u \<in> set (allowed_transitions t) \<Longrightarrow> status_reach s u"
  by (rule status_reach_trans) (auto intro: status_reach_step simp: status_step_allowed)

lemma stopped_reaches_all: "status_reach STOPPED s"
proof -
  have c: "status_reach STOPPED CHECKING" and d: "status_reach STOPPED DISABLED"
    by (rule reach_step [OF here]; simp)+
  have st: "status_reach STOPPED STARTING" and q: "status_reach STOPPED QUEUED"
      and f: "status_reach STOPPED FAILED"
    by (rule reach_step [OF c]; simp)+
  have r: "status_reach STOPPED RUNNING" and u: "status_reach STOPPED UNHEALTHY"
    by (rule reach_step [OF st]; simp)+
  have s: "status_reach STOPPED STOPPING" and k: "status_reach STOPPED UNKNOWN"
    by (rule reach_step [OF r]; simp)+
  show ?thesis using c d st q f r u s k here by (cases s) auto
qed

lemma disabled_only_stopped: "status_step s DISABLED \<longleftrightarrow> s = STOPPED"
  and disabled_to_stopped: "status_step DISABLED t \<longleftrightarrow> t = STOPPED"
  by (cases s; simp add: status_step_allowed) (cases t; simp add: status_step_allowed)

lemma running_not_from_stopped: "\<not> status_step STOPPED RUNNING"
  by (simp add: status_step_allowed)

lemma into_running: "status_step s RUNNING \<longleftrightarrow> s \<in> {STARTING, UNHEALTHY, UNKNOWN}"
  by (cases s) (auto simp: status_step_allowed)

end
