(* ===== verification/Database.thy ===== *)
theory Database
  imports Manifest Status
begin

text \<open>
  \<open>database/models.py\<close> and \<open>database/session.py\<close>: the rows, the tables, and one request's
  session over them. A JSON column is a \<open>json\<close> value, a timestamp an integer, a status column
  the enumeration whose \<open>.value\<close> the code stores.

  A \<open>store\<close> holds the committed database, the session's working copy and the two supplies the
  code draws from: \<open>utc_now\<close> (parameter \<open>clock\<close>, indexed by the number of readings) and \<open>uuid4\<close>
  (parameter \<open>fresh\<close>, indexed by the number drawn). \<open>commit\<close> publishes the working copy,
  \<open>rollback\<close> and the close at the end of a request discard it. A column default is evaluated when
  the row is added. Foreign keys are enforced (\<open>PRAGMA foreign_keys=ON\<close>), so deleting an
  application or administrator cascades.

  The locale \<open>keyed_rows\<close> is the interface of a table with a primary key and an \<open>onupdate\<close>
  column; the tables of the program are its interpretations.
\<close>

datatype json = JNull | JBool bool | JInt int | JStr string | JList "json list"
  | JObj "(string \<times> json) list"

fun opt_str :: "string option \<Rightarrow> json" where
  "opt_str None = JNull"
| "opt_str (Some s) = JStr s"

section \<open>Rows\<close>

record app_row =
  ap_id :: string
  ap_name :: string
  ap_description :: string
  ap_runtime_type :: string
  ap_config :: string
  ap_enabled :: bool
  ap_created :: int
  ap_updated :: int

record audit_row =
  au_id :: string
  au_actor :: string
  au_action :: string
  au_target_type :: string
  au_target_id :: string
  au_result :: string
  au_details :: json
  au_created :: int

record inst_row =
  in_id :: string
  in_app :: string
  in_status :: app_status
  in_runtime :: "string option"
  in_started :: "int option"
  in_stopped :: "int option"
  in_exit :: "int option"
  in_error :: "string option"
  in_gpu :: "int option"
  in_metadata :: json
  in_created :: int
  in_updated :: int

record exec_row =
  ex_id :: string
  ex_app :: string
  ex_action :: string
  ex_status :: execution_status
  ex_by :: string
  ex_requested :: int
  ex_started :: "int option"
  ex_finished :: "int option"
  ex_exit :: "int option"
  ex_error_code :: "string option"
  ex_error :: "string option"
  ex_log :: "string option"

record admin_row =
  ad_id :: string
  ad_singleton :: int
  ad_username :: string
  ad_hash :: string
  ad_created :: int
  ad_updated :: int

record session_row =
  se_id :: string
  se_admin :: string
  se_token :: string
  se_csrf :: string
  se_created :: int
  se_expires :: int
  se_revoked :: "int option"

record failure_row =
  lf_id :: string
  lf_remote :: string
  lf_at :: int

record db =
  applications :: "app_row list"
  audit_events :: "audit_row list"
  instances :: "inst_row list"
  executions :: "exec_row list"
  administrators :: "admin_row list"
  auth_sessions :: "session_row list"
  login_failures :: "failure_row list"

definition empty_db :: db where
  "empty_db = \<lparr>applications = [], audit_events = [], instances = [], executions = [],
     administrators = [], auth_sessions = [], login_failures = []\<rparr>"

section \<open>Tables with a primary key\<close>

definition row_get :: "('r \<Rightarrow> string) \<Rightarrow> string \<Rightarrow> 'r list \<Rightarrow> 'r option" where
  "row_get key k rows = List.find (\<lambda>r. key r = k) rows"

text \<open>The UPDATE of one object: nothing when it has no net change, else \<open>onupdate\<close> applies.\<close>

definition row_save :: "('r \<Rightarrow> string) \<Rightarrow> (int \<Rightarrow> 'r \<Rightarrow> 'r) \<Rightarrow> int \<Rightarrow> 'r \<Rightarrow> 'r list \<Rightarrow> 'r list" where
  "row_save key touch t r rows =
     map (\<lambda>x. if key x = key r \<and> x \<noteq> r then touch t r else x) rows"

definition row_delete :: "('r \<Rightarrow> string) \<Rightarrow> string \<Rightarrow> 'r list \<Rightarrow> 'r list" where
  "row_delete key k rows = filter (\<lambda>r. key r \<noteq> k) rows"

lemma row_get_Some: "row_get key k rows = Some r \<Longrightarrow> r \<in> set rows \<and> key r = k"
  unfolding row_get_def by (rule find_SomeD)

lemma row_get_None: "row_get key k rows = None \<longleftrightarrow> k \<notin> key ` set rows"
  by (auto simp: row_get_def find_None_conv)

lemma row_get_append:
  "row_get key k (rows @ rs) = (case row_get key k rows of None \<Rightarrow> row_get key k rs | Some r \<Rightarrow> Some r)"
  by (induction rows) (auto simp: row_get_def)

lemma row_get_single [simp]: "row_get key k [r] = (if key r = k then Some r else None)"
  by (simp add: row_get_def)

lemma row_get_Nil [simp]: "row_get key k [] = None"
  by (simp add: row_get_def)

lemma row_get_mem: "distinct (map key rows) \<Longrightarrow> r \<in> set rows \<Longrightarrow> row_get key (key r) rows = Some r"
  unfolding row_get_def by (rule find_unique) (auto simp: distinct_map inj_on_def)

lemma row_delete_get [simp]: "row_get key k (row_delete key k rows) = None"
  by (auto simp: row_get_None row_delete_def)

lemma row_delete_get_other: "k \<noteq> k' \<Longrightarrow> row_get key k' (row_delete key k rows) = row_get key k' rows"
  by (induction rows) (auto simp: row_get_def row_delete_def)

lemma row_delete_keys: "key ` set (row_delete key k rows) = key ` set rows - {k}"
  by (auto simp: row_delete_def)

lemma row_delete_distinct: "distinct (map key rows) \<Longrightarrow> distinct (map key (row_delete key k rows))"
  by (simp add: row_delete_def distinct_map_filter)

locale keyed_rows =
  fixes key :: "'r \<Rightarrow> string" and touch :: "int \<Rightarrow> 'r \<Rightarrow> 'r"
  assumes touch_key [simp]: "key (touch t r) = key r"
begin

lemma save_keys [simp]: "map key (row_save key touch t r rows) = map key rows"
  by (auto simp: row_save_def)

lemma save_key_set [simp]: "key ` set (row_save key touch t r rows) = key ` set rows"
  using save_keys [of t r rows] by (metis list.set_map)

lemma save_get:
  assumes "row_get key (key r) rows = Some old" "distinct (map key rows)"
  shows "row_get key (key r) (row_save key touch t r rows) = Some (if r = old then r else touch t r)"
proof -
  let ?r = "if r = old then r else touch t r"
  have old: "old \<in> set rows" and k: "key old = key r"
    using row_get_Some [OF assms(1)] by blast+
  have "(\<lambda>x. if key x = key r \<and> x \<noteq> r then touch t r else x) old \<in> set (row_save key touch t r rows)"
    unfolding row_save_def set_map by (rule imageI [OF old])
  moreover have "(\<lambda>x. if key x = key r \<and> x \<noteq> r then touch t r else x) old = ?r"
    using k by metis
  ultimately have "?r \<in> set (row_save key touch t r rows)" by (simp only:)
  moreover have "key ?r = key r" using k by (metis touch_key)
  ultimately show ?thesis
    using row_get_mem [of key "row_save key touch t r rows" ?r] assms(2) by simp
qed

lemma save_get_other:
  assumes "k \<noteq> key r"
  shows "row_get key k (row_save key touch t r rows) = row_get key k rows"
proof (induction rows)
  case Nil
  show ?case by (simp add: row_save_def)
next
  case (Cons x xs)
  then show ?case using assms by (cases "key x = k") (simp_all add: row_get_def row_save_def)
qed

lemma save_absent: "row_get key (key r) rows = None \<Longrightarrow> row_save key touch t r rows = rows"
  unfolding row_get_None row_save_def by (rule map_idI) (metis imageI)

lemma save_mem:
  "x \<in> set (row_save key touch t r rows) \<Longrightarrow> x \<in> set rows \<or> x = touch t r"
  by (auto simp: row_save_def split: if_splits)

end

definition touch_app :: "int \<Rightarrow> app_row \<Rightarrow> app_row" where
  "touch_app t r = r\<lparr>ap_updated := t\<rparr>"

definition touch_inst :: "int \<Rightarrow> inst_row \<Rightarrow> inst_row" where
  "touch_inst t r = r\<lparr>in_updated := t\<rparr>"

text \<open>Executions have no \<open>onupdate\<close> column.\<close>

definition touch_exec :: "int \<Rightarrow> exec_row \<Rightarrow> exec_row" where
  "touch_exec t r = r"

interpretation app_rows: keyed_rows ap_id touch_app
  by unfold_locales (simp add: touch_app_def)

interpretation inst_rows: keyed_rows in_id touch_inst
  by unfold_locales (simp add: touch_inst_def)

interpretation exec_rows: keyed_rows ex_id touch_exec
  by unfold_locales (simp add: touch_exec_def)

section \<open>The session\<close>

record sources =
  clock :: "nat \<Rightarrow> int"
  fresh :: "nat \<Rightarrow> string"

record store =
  committed :: db
  working :: db
  ticks :: nat
  drawn :: nat

definition commit :: "store \<Rightarrow> store" where
  "commit s = s\<lparr>committed := working s\<rparr>"

definition rollback :: "store \<Rightarrow> store" where
  "rollback s = s\<lparr>working := committed s\<rparr>"

text \<open>\<open>get_session\<close>: a request starts from the committed database and the session is closed at
  its end whatever happened.\<close>

definition with_session :: "(store \<Rightarrow> 'a \<times> store) \<Rightarrow> store \<Rightarrow> 'a \<times> store" where
  "with_session f s = (case f (rollback s) of (a, s') \<Rightarrow> (a, rollback s'))"

definition now :: "sources \<Rightarrow> store \<Rightarrow> int" where
  "now su s = clock su (ticks s)"

definition tick :: "store \<Rightarrow> store" where
  "tick s = s\<lparr>ticks := ticks s + 1\<rparr>"

definition next_id :: "sources \<Rightarrow> store \<Rightarrow> string" where
  "next_id su s = fresh su (drawn s)"

definition draw :: "store \<Rightarrow> store" where
  "draw s = s\<lparr>drawn := drawn s + 1\<rparr>"

definition add_app :: "app_row \<Rightarrow> store \<Rightarrow> store" where
  "add_app r s = s\<lparr>working := (working s)\<lparr>applications := applications (working s) @ [r]\<rparr>\<rparr>"

definition add_audit :: "audit_row \<Rightarrow> store \<Rightarrow> store" where
  "add_audit r s = s\<lparr>working := (working s)\<lparr>audit_events := audit_events (working s) @ [r]\<rparr>\<rparr>"

definition add_inst :: "inst_row \<Rightarrow> store \<Rightarrow> store" where
  "add_inst r s = s\<lparr>working := (working s)\<lparr>instances := instances (working s) @ [r]\<rparr>\<rparr>"

definition add_exec :: "exec_row \<Rightarrow> store \<Rightarrow> store" where
  "add_exec r s = s\<lparr>working := (working s)\<lparr>executions := executions (working s) @ [r]\<rparr>\<rparr>"

definition save_app :: "sources \<Rightarrow> app_row \<Rightarrow> store \<Rightarrow> store" where
  "save_app su r s = tick (s\<lparr>working := (working s)\<lparr>applications :=
     row_save ap_id touch_app (now su s) r (applications (working s))\<rparr>\<rparr>)"

definition save_inst :: "sources \<Rightarrow> inst_row \<Rightarrow> store \<Rightarrow> store" where
  "save_inst su r s = tick (s\<lparr>working := (working s)\<lparr>instances :=
     row_save in_id touch_inst (now su s) r (instances (working s))\<rparr>\<rparr>)"

definition save_exec :: "sources \<Rightarrow> exec_row \<Rightarrow> store \<Rightarrow> store" where
  "save_exec su r s = s\<lparr>working := (working s)\<lparr>executions :=
     row_save ex_id touch_exec (now su s) r (executions (working s))\<rparr>\<rparr>"

text \<open>\<open>session.delete\<close> of an application: the \<open>ON DELETE CASCADE\<close> of the instance table.\<close>

definition delete_app :: "string \<Rightarrow> store \<Rightarrow> store" where
  "delete_app k s = s\<lparr>working := (working s)\<lparr>applications := row_delete ap_id k (applications (working s)),
     instances := filter (\<lambda>r. in_app r \<noteq> k) (instances (working s))\<rparr>\<rparr>"

text \<open>\<open>ORDER BY created_at DESC LIMIT 1\<close> over the rows of one application.\<close>

fun newest :: "inst_row list \<Rightarrow> inst_row option" where
  "newest [] = None"
| "newest (r # rs) = (case newest rs of None \<Rightarrow> Some r
     | Some q \<Rightarrow> if in_created q > in_created r then Some q else Some r)"

definition latest_state :: "db \<Rightarrow> string \<Rightarrow> inst_row option" where
  "latest_state d a = newest (filter (\<lambda>r. in_app r = a) (instances d))"

lemma newest_mem: "newest rs = Some r \<Longrightarrow> r \<in> set rs"
  by (induction rs arbitrary: r) (auto split: option.splits if_splits)

lemma newest_None [simp]: "newest rs = None \<longleftrightarrow> rs = []"
  by (cases rs) (auto split: option.splits)

lemma newest_max: "newest rs = Some r \<Longrightarrow> x \<in> set rs \<Longrightarrow> in_created x \<le> in_created r"
  by (induction rs arbitrary: r x) (auto split: option.splits if_splits, fastforce+)

lemma latest_state_mem: "latest_state d a = Some r \<Longrightarrow> r \<in> set (instances d) \<and> in_app r = a"
  by (auto simp: latest_state_def dest: newest_mem)

lemma latest_state_None: "latest_state d a = None \<longleftrightarrow> (\<forall>r\<in>set (instances d). in_app r \<noteq> a)"
  by (auto simp: latest_state_def filter_empty_conv)

section \<open>The integrity the constraints keep\<close>

definition db_wf :: "db \<Rightarrow> bool" where
  "db_wf d \<longleftrightarrow> distinct (map ap_id (applications d))
     \<and> distinct (map in_app (instances d)) \<and> distinct (map in_id (instances d))
     \<and> distinct (map ex_id (executions d))
     \<and> in_app ` set (instances d) \<subseteq> ap_id ` set (applications d)"

lemma db_wf_latest:
  assumes "db_wf d" "r \<in> set (instances d)"
  shows "latest_state d (in_app r) = Some r"
proof -
  have d: "distinct (map in_app (instances d))" using assms(1) by (simp add: db_wf_def)
  obtain q where q: "latest_state d (in_app r) = Some q"
    using assms(2) latest_state_None [of d "in_app r"] by (cases "latest_state d (in_app r)") auto
  then have "q \<in> set (instances d)" "in_app q = in_app r" by (auto dest: latest_state_mem)
  then have "q = r" using d assms(2) by (auto simp: distinct_map inj_on_def)
  with q show ?thesis by simp
qed

text \<open>The identifiers in a database were drawn from the supply, which never repeats one.\<close>

definition ids_drawn :: "sources \<Rightarrow> nat \<Rightarrow> db \<Rightarrow> bool" where
  "ids_drawn su n d \<longleftrightarrow> inj (fresh su)
     \<and> in_id ` set (instances d) \<subseteq> fresh su ` {..<n} \<and> ex_id ` set (executions d) \<subseteq> fresh su ` {..<n}"

lemma ids_drawn_mono: "ids_drawn su n d \<Longrightarrow> n \<le> m \<Longrightarrow> ids_drawn su m d"
  unfolding ids_drawn_def by (meson image_mono lessThan_subset_iff subset_trans)

lemma fresh_new: "inj (fresh su) \<Longrightarrow> fresh su n \<notin> fresh su ` {..<n}"
  by (auto simp: inj_def)

lemma ids_drawn_fresh:
  assumes "ids_drawn su n d"
  shows "fresh su n \<notin> in_id ` set (instances d)" "fresh su n \<notin> ex_id ` set (executions d)"
  using assms fresh_new [of su n] by (auto simp: ids_drawn_def)

lemma ids_drawn_empty [simp]: "ids_drawn su n empty_db \<longleftrightarrow> inj (fresh su)"
  by (simp add: ids_drawn_def empty_db_def)

lemma empty_db_wf [simp]: "db_wf empty_db"
  by (simp add: db_wf_def empty_db_def)

lemma store_simps [simp, frame_simps]:
  "committed (commit s) = working s" "working (commit s) = working s"
  "committed (rollback s) = committed s" "working (rollback s) = committed s"
  "ticks (commit s) = ticks s" "drawn (commit s) = drawn s"
  "ticks (rollback s) = ticks s" "drawn (rollback s) = drawn s"
  "committed (tick s) = committed s" "working (tick s) = working s"
  "committed (draw s) = committed s" "working (draw s) = working s"
  by (simp_all add: commit_def rollback_def tick_def draw_def)

lemma add_simps [simp, frame_simps]:
  "working (add_app r s) = (working s)\<lparr>applications := applications (working s) @ [r]\<rparr>"
  "working (add_audit u s) = (working s)\<lparr>audit_events := audit_events (working s) @ [u]\<rparr>"
  "working (add_inst i s) = (working s)\<lparr>instances := instances (working s) @ [i]\<rparr>"
  "working (add_exec e s) = (working s)\<lparr>executions := executions (working s) @ [e]\<rparr>"
  "committed (add_app r s) = committed s" "committed (add_audit u s) = committed s"
  "committed (add_inst i s) = committed s" "committed (add_exec e s) = committed s"
  by (simp_all add: add_app_def add_audit_def add_inst_def add_exec_def)

lemma save_simps [simp, frame_simps]:
  "working (save_app su r s) = (working s)\<lparr>applications :=
     row_save ap_id touch_app (now su s) r (applications (working s))\<rparr>"
  "working (save_inst su i s) = (working s)\<lparr>instances :=
     row_save in_id touch_inst (now su s) i (instances (working s))\<rparr>"
  "working (save_exec su e s) = (working s)\<lparr>executions :=
     row_save ex_id touch_exec (now su s) e (executions (working s))\<rparr>"
  "committed (save_app su r s) = committed s" "committed (save_inst su i s) = committed s"
  "committed (save_exec su e s) = committed s"
  by (simp_all add: save_app_def save_inst_def save_exec_def)

lemma with_session_clean: "committed (snd (with_session f s)) = working (snd (with_session f s))"
  by (simp add: with_session_def split: prod.splits)

end
