(* ===== verification/Registry.thy ===== *)
theory Registry
  imports Database "HOL-Library.Char_ord" "HOL-Library.List_Lexorder"
begin

text \<open>
  \<open>services/applications.py\<close>: the application registry, and its handlers in
  \<open>api/applications.py\<close>. \<open>yaml.safe_dump\<close> and \<open>yaml.safe_load\<close> with the decoding of the parsed
  document into fields are the parameter \<open>codec\<close>; where a theorem needs the round trip of one
  manifest through the text it says so (\<open>storable\<close>).

  The invariant \<open>registry_ok\<close> says the columns copied out of a manifest agree with the stored
  text. The locale \<open>map_simulation\<close> is the contract of a store that implements a finite map of
  manifests; the registry is its interpretation, so every sequence of requests acts as the same
  sequence on the map.
\<close>

record codec =
  yaml_dump :: "manifest \<Rightarrow> string"
  yaml_load :: "string \<Rightarrow> manifest option"

text \<open>\<open>ApplicationManifest.model_validate(yaml.safe_load(text))\<close>.\<close>

definition decode :: "host_fs \<Rightarrow> codec \<Rightarrow> string \<Rightarrow> manifest option" where
  "decode fs cd s = (case yaml_load cd s of None \<Rightarrow> None | Some m \<Rightarrow> validate_manifest fs m)"

fun runtime_type :: "runtime \<Rightarrow> string" where
  "runtime_type (ProcessRuntime _ _) = ''process''"
| "runtime_type (ComposeRuntime _ _ _) = ''compose''"

datatype registry_error =
    ApplicationExistsError string
  | ApplicationNotFoundError string
  | ApplicationRunningError string
  | RegistryValueError string

text \<open>Who asks: the actor and the request the audit row names.\<close>

record caller =
  call_actor :: string
  call_method :: "string option"
  call_path :: "string option"

record app_response =
  ar_id :: string
  ar_name :: string
  ar_description :: string
  ar_runtime_type :: string
  ar_enabled :: bool
  ar_status :: app_status
  ar_manifest :: manifest
  ar_created :: int
  ar_updated :: int

section \<open>Operations\<close>

definition active_statuses :: "app_status list" where
  "active_statuses = [CHECKING, STARTING, RUNNING, UNHEALTHY, STOPPING]"

definition app_active :: "db \<Rightarrow> string \<Rightarrow> bool" where
  "app_active d k = (case latest_state d k of None \<Rightarrow> False | Some r \<Rightarrow> in_status r \<in> set active_statuses)"

definition reject_active_application :: "db \<Rightarrow> string \<Rightarrow> registry_error + unit" where
  "reject_active_application d k =
     (if app_active d k
      then Inl (ApplicationRunningError
             (''Application must be stopped before its configuration can be changed: '' @ k))
      else Inr ())"

definition response :: "host_fs \<Rightarrow> codec \<Rightarrow> db \<Rightarrow> app_row \<Rightarrow> registry_error + app_response" where
  "response fs cd d r =
     (case decode fs cd (ap_config r) of
        None \<Rightarrow> Inl (RegistryValueError ''ValidationError'')
      | Some m \<Rightarrow> Inr \<lparr>ar_id = ap_id r, ar_name = ap_name r, ar_description = ap_description r,
          ar_runtime_type = ap_runtime_type r, ar_enabled = ap_enabled r,
          ar_status = (if \<not> ap_enabled r then DISABLED
                       else case latest_state d (ap_id r) of Some i \<Rightarrow> in_status i | None \<Rightarrow> STOPPED),
          ar_manifest = m, ar_created = ap_created r, ar_updated = ap_updated r\<rparr>)"

fun truthy :: "string option \<Rightarrow> bool" where
  "truthy None = False"
| "truthy (Some s) = (s \<noteq> [])"

definition request_details :: "caller \<Rightarrow> (string \<times> json) list" where
  "request_details c =
     (if truthy (call_method c) \<and> truthy (call_path c)
      then [(''request'', JObj [(''method'', opt_str (call_method c)), (''path'', opt_str (call_path c))])]
      else [])"

definition audit :: "sources \<Rightarrow> caller \<Rightarrow> string \<Rightarrow> string \<Rightarrow> (string \<times> json) list \<Rightarrow> store \<Rightarrow> store" where
  "audit su c act target details s =
     add_audit \<lparr>au_id = next_id su s, au_actor = call_actor c, au_action = act,
       au_target_type = ''application'', au_target_id = target, au_result = ''success'',
       au_details = JObj (details @ request_details c), au_created = now su s\<rparr> (tick (draw s))"

definition list_applications :: "host_fs \<Rightarrow> codec \<Rightarrow> store \<Rightarrow> registry_error + app_response list" where
  "list_applications fs cd s =
     res_list (map (response fs cd (working s)) (sort_key ap_name (applications (working s))))"

definition app_not_found :: "string \<Rightarrow> registry_error" where
  "app_not_found k = ApplicationNotFoundError (''Application not found: '' @ k)"

definition app_exists :: "string \<Rightarrow> registry_error" where
  "app_exists k = ApplicationExistsError (''Application already exists: '' @ k)"

definition get_application :: "host_fs \<Rightarrow> codec \<Rightarrow> string \<Rightarrow> store \<Rightarrow> registry_error + app_response" where
  "get_application fs cd k s =
     (case row_get ap_id k (applications (working s)) of
        None \<Rightarrow> Inl (app_not_found k)
      | Some r \<Rightarrow> response fs cd (working s) r)"

text \<open>
  \<open>rival\<close> says that another session committed the same id between the lookup and the flush, so
  that the INSERT violates the primary key.
\<close>

definition app_record :: "sources \<Rightarrow> codec \<Rightarrow> manifest \<Rightarrow> store \<Rightarrow> app_row" where
  "app_record su cd m s =
     \<lparr>ap_id = man_id m, ap_name = man_name m, ap_description = man_description m,
      ap_runtime_type = runtime_type (man_runtime m), ap_config = yaml_dump cd m,
      ap_enabled = man_enabled m, ap_created = now su s, ap_updated = now su (tick s)\<rparr>"

definition initial_instance :: "sources \<Rightarrow> manifest \<Rightarrow> store \<Rightarrow> inst_row" where
  "initial_instance su m s =
     \<lparr>in_id = next_id su s, in_app = man_id m,
      in_status = (if man_enabled m then STOPPED else DISABLED),
      in_runtime = None, in_started = None, in_stopped = None, in_exit = None, in_error = None,
      in_gpu = None, in_metadata = JObj [], in_created = now su s, in_updated = now su (tick s)\<rparr>"

definition manifest_details :: "manifest \<Rightarrow> (string \<times> json) list" where
  "manifest_details m =
     [(''runtime_type'', JStr (runtime_type (man_runtime m))), (''target_name'', JStr (man_name m))]"

definition create_application ::
    "sources \<Rightarrow> host_fs \<Rightarrow> codec \<Rightarrow> caller \<Rightarrow> bool \<Rightarrow> manifest \<Rightarrow> store \<Rightarrow> (registry_error + app_response) \<times> store"
where
  "create_application su fs cd c rival m s =
     (if row_get ap_id (man_id m) (applications (working s)) \<noteq> None
      then (Inl (app_exists (man_id m)), s)
      else let r = app_record su cd m s; s1 = tick (tick (add_app r s))
           in if rival then (Inl (app_exists (man_id m)), rollback s1)
              else let s2 = tick (tick (draw (add_inst (initial_instance su m s1) s1)));
                       s3 = commit (audit su c ''application.create'' (man_id m) (manifest_details m) s2)
                   in (response fs cd (working s3) r, s3))"

definition update_record :: "codec \<Rightarrow> manifest \<Rightarrow> app_row \<Rightarrow> app_row" where
  "update_record cd m r =
     r\<lparr>ap_name := man_name m, ap_description := man_description m,
       ap_runtime_type := runtime_type (man_runtime m), ap_config := yaml_dump cd m,
       ap_enabled := man_enabled m\<rparr>"

text \<open>\<open>session.refresh\<close> reads the row back, with the \<open>updated_at\<close> the UPDATE set.\<close>

definition update_application ::
    "sources \<Rightarrow> host_fs \<Rightarrow> codec \<Rightarrow> caller \<Rightarrow> string \<Rightarrow> manifest \<Rightarrow> store \<Rightarrow> (registry_error + app_response) \<times> store"
where
  "update_application su fs cd c k m s =
     (if k \<noteq> man_id m
      then (Inl (RegistryValueError ''Manifest id must match the application id in the URL''), s)
      else case row_get ap_id k (applications (working s)) of
        None \<Rightarrow> (Inl (app_not_found k), s)
      | Some r \<Rightarrow>
          (case reject_active_application (working s) k of
             Inl e \<Rightarrow> (Inl e, s)
           | Inr _ \<Rightarrow>
               let s1 = audit su c ''application.update'' k (manifest_details m) s;
                   s2 = commit (save_app su (update_record cd m r) s1)
               in (get_application fs cd k s2, s2)))"

definition delete_application ::
    "sources \<Rightarrow> caller \<Rightarrow> string \<Rightarrow> store \<Rightarrow> (registry_error + unit) \<times> store"
where
  "delete_application su c k s =
     (case row_get ap_id k (applications (working s)) of
        None \<Rightarrow> (Inl (app_not_found k), s)
      | Some r \<Rightarrow>
          (case reject_active_application (working s) k of
             Inl e \<Rightarrow> (Inl e, s)
           | Inr _ \<Rightarrow>
               (Inr (), commit (audit su c ''application.delete'' k [(''target_name'', JStr (ap_name r))]
                                  (delete_app k s)))))"

section \<open>Handlers\<close>

datatype http_detail = DText string | DCode string string | DValidation validation_response

datatype http_error = HttpError int http_detail

text \<open>An exception no handler names becomes a 500.\<close>

definition unhandled :: http_error where
  "unhandled = HttpError 500 (DText ''Internal Server Error'')"

definition validated :: "settings \<Rightarrow> host_fs \<Rightarrow> path list \<Rightarrow> manifest \<Rightarrow> http_error + validation_response" where
  "validated st fs roots m =
     (let r = validate_manifest_paths st fs roots m
      in if vr_valid r then Inr r else Inl (HttpError 422 (DValidation r)))"

fun get_error :: "registry_error \<Rightarrow> http_error" where
  "get_error (ApplicationNotFoundError t) = HttpError 404 (DText t)"
| "get_error _ = unhandled"

fun create_error :: "registry_error \<Rightarrow> http_error" where
  "create_error (ApplicationExistsError t) = HttpError 409 (DText t)"
| "create_error _ = unhandled"

fun update_error :: "registry_error \<Rightarrow> http_error" where
  "update_error (ApplicationNotFoundError t) = HttpError 404 (DText t)"
| "update_error (ApplicationRunningError t) = HttpError 409 (DText t)"
| "update_error (ApplicationExistsError t) = HttpError 400 (DText t)"
| "update_error (RegistryValueError t) = HttpError 400 (DText t)"

fun delete_error :: "registry_error \<Rightarrow> http_error" where
  "delete_error (ApplicationNotFoundError t) = HttpError 404 (DText t)"
| "delete_error (ApplicationRunningError t) = HttpError 409 (DText t)"
| "delete_error _ = unhandled"

fun map_error :: "('e \<Rightarrow> 'f) \<Rightarrow> 'e + 'a \<Rightarrow> 'f + 'a" where
  "map_error f (Inl e) = Inl (f e)"
| "map_error f (Inr x) = Inr x"

definition api_create ::
    "sources \<Rightarrow> settings \<Rightarrow> host_fs \<Rightarrow> codec \<Rightarrow> caller \<Rightarrow> bool \<Rightarrow> manifest \<Rightarrow> store \<Rightarrow> (http_error + app_response) \<times> store"
where
  "api_create su st fs cd c rival m s =
     (case validated st fs (allowed_roots st) m of
        Inl e \<Rightarrow> (Inl e, s)
      | Inr _ \<Rightarrow> apfst (map_error create_error) (create_application su fs cd c rival m s))"

definition api_get :: "host_fs \<Rightarrow> codec \<Rightarrow> string \<Rightarrow> store \<Rightarrow> http_error + app_response" where
  "api_get fs cd k s = map_error get_error (get_application fs cd k s)"

definition api_update ::
    "sources \<Rightarrow> settings \<Rightarrow> host_fs \<Rightarrow> codec \<Rightarrow> caller \<Rightarrow> string \<Rightarrow> manifest \<Rightarrow> store \<Rightarrow> (http_error + app_response) \<times> store"
where
  "api_update su st fs cd c k m s =
     (case validated st fs (allowed_roots st) m of
        Inl e \<Rightarrow> (Inl e, s)
      | Inr _ \<Rightarrow> apfst (map_error update_error) (update_application su fs cd c k m s))"

definition api_delete :: "sources \<Rightarrow> caller \<Rightarrow> string \<Rightarrow> store \<Rightarrow> (http_error + unit) \<times> store" where
  "api_delete su c k s = apfst (map_error delete_error) (delete_application su c k s)"

definition api_validate_saved ::
    "settings \<Rightarrow> host_fs \<Rightarrow> codec \<Rightarrow> string \<Rightarrow> store \<Rightarrow> http_error + validation_response"
where
  "api_validate_saved st fs cd k s =
     (case get_application fs cd k s of
        Inl e \<Rightarrow> Inl (get_error e)
      | Inr a \<Rightarrow> Inr (validate_manifest_paths st fs (allowed_roots st) (ar_manifest a)))"

section \<open>The invariant\<close>

definition row_ok :: "host_fs \<Rightarrow> codec \<Rightarrow> app_row \<Rightarrow> bool" where
  "row_ok fs cd r \<longleftrightarrow> (case decode fs cd (ap_config r) of None \<Rightarrow> False
     | Some m \<Rightarrow> man_id m = ap_id r \<and> man_name m = ap_name r \<and> man_description m = ap_description r
         \<and> runtime_type (man_runtime m) = ap_runtime_type r \<and> man_enabled m = ap_enabled r)"

definition registry_ok :: "sources \<Rightarrow> host_fs \<Rightarrow> codec \<Rightarrow> nat \<Rightarrow> db \<Rightarrow> bool" where
  "registry_ok su fs cd n d \<longleftrightarrow> db_wf d \<and> ids_drawn su n d \<and> (\<forall>r\<in>set (applications d). row_ok fs cd r)"

definition store_ok :: "sources \<Rightarrow> host_fs \<Rightarrow> codec \<Rightarrow> store \<Rightarrow> bool" where
  "store_ok su fs cd s \<longleftrightarrow> registry_ok su fs cd (drawn s) (working s) \<and> committed s = working s"

text \<open>A validated manifest whose text loads back to it.\<close>

definition storable :: "host_fs \<Rightarrow> codec \<Rightarrow> manifest \<Rightarrow> bool" where
  "storable fs cd m \<longleftrightarrow> yaml_load cd (yaml_dump cd m) = Some m \<and> validate_manifest fs m = Some m"

lemma storable_decode: "storable fs cd m \<Longrightarrow> decode fs cd (yaml_dump cd m) = Some m"
  by (simp add: storable_def decode_def)

lemma record_row_ok: "storable fs cd m \<Longrightarrow> row_ok fs cd (app_record su cd m s)"
  by (simp add: row_ok_def app_record_def storable_decode)

lemma update_row_ok:
  "storable fs cd m \<Longrightarrow> ap_id r = man_id m \<Longrightarrow> row_ok fs cd (update_record cd m r)"
  by (simp add: row_ok_def update_record_def storable_decode)

lemma touch_row_ok [simp]: "row_ok fs cd (touch_app t r) = row_ok fs cd r"
  by (simp add: row_ok_def touch_app_def split: option.splits)

lemma audit_frame [simp, frame_simps]:
  "working (audit su c a k d s) = (working s)\<lparr>audit_events := audit_events (working s) @
     [\<lparr>au_id = next_id su s, au_actor = call_actor c, au_action = a, au_target_type = ''application'',
       au_target_id = k, au_result = ''success'', au_details = JObj (d @ request_details c),
       au_created = now su s\<rparr>]\<rparr>"
  "committed (audit su c a k d s) = committed s" "drawn (audit su c a k d s) = drawn s + 1"
  by (simp_all add: audit_def add_audit_def tick_def draw_def)

lemma drawn_frame [simp, frame_simps]:
  "drawn (tick s) = drawn s" "drawn (draw s) = drawn s + 1" "drawn (add_app r s) = drawn s"
  "drawn (add_inst i s) = drawn s" "drawn (add_exec e s) = drawn s" "drawn (add_audit u s) = drawn s"
  "drawn (save_app su r s) = drawn s" "drawn (save_inst su i s) = drawn s"
  "drawn (save_exec su e s) = drawn s" "drawn (delete_app k s) = drawn s"
  by (simp_all add: tick_def draw_def add_app_def add_inst_def add_exec_def add_audit_def
      save_app_def save_inst_def save_exec_def delete_app_def)

lemma delete_frame [simp, frame_simps]:
  "working (delete_app k s) = (working s)\<lparr>applications := row_delete ap_id k (applications (working s)),
     instances := filter (\<lambda>r. in_app r \<noteq> k) (instances (working s))\<rparr>"
  "committed (delete_app k s) = committed s"
  by (simp_all add: delete_app_def)

lemma registry_ok_audit [simp]:
  "registry_ok su fs cd n (d\<lparr>audit_events := x\<rparr>) = registry_ok su fs cd n d"
  by (simp add: registry_ok_def db_wf_def ids_drawn_def)

lemma registry_ok_audit_save [simp]:
  "registry_ok su fs cd n (d\<lparr>audit_events := x, applications := y\<rparr>)
     = registry_ok su fs cd n (d\<lparr>applications := y\<rparr>)"
  by (simp add: registry_ok_def db_wf_def ids_drawn_def)

lemma registry_ok_mono: "registry_ok su fs cd n d \<Longrightarrow> n \<le> m \<Longrightarrow> registry_ok su fs cd m d"
  by (auto simp: registry_ok_def intro: ids_drawn_mono)

lemma registry_ok_row: "registry_ok su fs cd n d \<Longrightarrow> r \<in> set (applications d) \<Longrightarrow> row_ok fs cd r"
  by (simp add: registry_ok_def)

lemma registry_ok_create:
  assumes ok: "registry_ok su fs cd n d" and r: "row_ok fs cd r"
    and new: "row_get ap_id (ap_id r) (applications d) = None"
    and i: "in_app i = ap_id r" "in_id i = fresh su n"
  shows "registry_ok su fs cd (Suc n) (d\<lparr>applications := applications d @ [r], instances := instances d @ [i]\<rparr>)"
proof -
  have "ap_id r \<notin> ap_id ` set (applications d)" using new by (simp add: row_get_None)
  moreover have "ap_id r \<notin> in_app ` set (instances d)"
    using ok calculation by (auto simp: registry_ok_def db_wf_def)
  moreover have "fresh su n \<notin> in_id ` set (instances d)"
    using ok by (auto simp: registry_ok_def dest: ids_drawn_fresh)
  moreover have "ids_drawn su (Suc n) d" using ok by (auto simp: registry_ok_def intro: ids_drawn_mono)
  ultimately show ?thesis
    using ok r i by (auto simp: registry_ok_def db_wf_def ids_drawn_def image_iff)
qed

lemma registry_ok_save:
  assumes ok: "registry_ok su fs cd n d" and r: "row_ok fs cd r"
  shows "registry_ok su fs cd n (d\<lparr>applications := row_save ap_id touch_app t r (applications d)\<rparr>)"
proof -
  have "\<forall>x\<in>set (row_save ap_id touch_app t r (applications d)). row_ok fs cd x"
    using app_rows.save_mem ok r by (metis registry_ok_def touch_row_ok)
  then show ?thesis using ok by (simp add: registry_ok_def db_wf_def ids_drawn_def)
qed

lemma registry_ok_delete:
  assumes "registry_ok su fs cd n d"
  shows "registry_ok su fs cd n (d\<lparr>applications := row_delete ap_id k (applications d),
           instances := filter (\<lambda>r. in_app r \<noteq> k) (instances d)\<rparr>)"
  using assms
  by (auto simp: registry_ok_def db_wf_def ids_drawn_def row_delete_distinct row_delete_keys
      distinct_map_filter) (auto simp: row_delete_def)

section \<open>Each operation\<close>

lemma commit_registry_ok:
  "registry_ok su fs cd (drawn s) (working s) \<Longrightarrow> store_ok su fs cd (commit s)"
  by (simp add: store_ok_def)

lemma create_ok:
  assumes ok: "store_ok su fs cd s" and m: "storable fs cd m"
  shows "store_ok su fs cd (snd (create_application su fs cd c rival m s))"
proof -
  have R: "registry_ok su fs cd (drawn s) (working s)" using ok by (simp add: store_ok_def)
  show ?thesis
  proof (cases "row_get ap_id (man_id m) (applications (working s)) = None \<and> \<not> rival")
    case True
    have ids: "ap_id (app_record su cd m s) = man_id m" for s by (simp add: app_record_def)
    have ii: "in_app (initial_instance su m s) = man_id m" "in_id (initial_instance su m s) = next_id su s" for s
      by (simp_all add: initial_instance_def)
    have "registry_ok su fs cd (Suc (drawn s)) ((working s)\<lparr>
        applications := applications (working s) @ [app_record su cd m s],
        instances := instances (working s) @ [initial_instance su m (tick (tick (add_app (app_record su cd m s) s)))]\<rparr>)"
      using True by (intro registry_ok_create R record_row_ok m) (simp_all add: ids ii next_id_def)
    then have "registry_ok su fs cd (Suc (Suc (drawn s))) ((working s)\<lparr>
        applications := applications (working s) @ [app_record su cd m s],
        instances := instances (working s) @ [initial_instance su m (tick (tick (add_app (app_record su cd m s) s)))]\<rparr>)"
      by (rule registry_ok_mono) simp
    with True show ?thesis
      by (simp add: create_application_def Let_def store_ok_def)
  next
    case False
    with ok R show ?thesis
      by (auto simp: create_application_def Let_def store_ok_def)
  qed
qed

lemma update_ok:
  assumes ok: "store_ok su fs cd s" and m: "storable fs cd m"
  shows "store_ok su fs cd (snd (update_application su fs cd c k m s))"
proof -
  have R: "registry_ok su fs cd (drawn s) (working s)" using ok by (simp add: store_ok_def)
  then have R': "registry_ok su fs cd (Suc (drawn s)) (working s)" by (rule registry_ok_mono) simp
  have "row_ok fs cd (update_record cd m r)"
    if "k = man_id m" "row_get ap_id k (applications (working s)) = Some r" for r
    using that row_get_Some by (intro update_row_ok m) force
  then show ?thesis
    using ok registry_ok_save [OF R']
    by (auto simp: update_application_def Let_def store_ok_def split: option.splits sum.splits)
qed

lemma delete_ok:
  assumes ok: "store_ok su fs cd s"
  shows "store_ok su fs cd (snd (delete_application su c k s))"
proof -
  have R: "registry_ok su fs cd (drawn s) (working s)" using ok by (simp add: store_ok_def)
  then have R': "registry_ok su fs cd (Suc (drawn s)) (working s)" by (rule registry_ok_mono) simp
  show ?thesis
    using ok registry_ok_delete [OF R']
    by (auto simp: delete_application_def store_ok_def split: option.splits sum.splits)
qed

section \<open>The registry as a finite map\<close>

type_synonym registry_map = "string \<Rightarrow> (manifest \<times> bool) option"

definition registry_abs :: "host_fs \<Rightarrow> codec \<Rightarrow> db \<Rightarrow> registry_map" where
  "registry_abs fs cd d k =
     (case row_get ap_id k (applications d) of None \<Rightarrow> None
      | Some r \<Rightarrow> map_option (\<lambda>m. (m, app_active d k)) (decode fs cd (ap_config r)))"

datatype registry_op =
    OpCreate caller bool manifest
  | OpUpdate caller string manifest
  | OpDelete caller string

fun run_registry :: "sources \<Rightarrow> host_fs \<Rightarrow> codec \<Rightarrow> registry_op \<Rightarrow> store \<Rightarrow> store" where
  "run_registry su fs cd (OpCreate c rival m) s = snd (create_application su fs cd c rival m s)"
| "run_registry su fs cd (OpUpdate c k m) s = snd (update_application su fs cd c k m s)"
| "run_registry su fs cd (OpDelete c k) s = snd (delete_application su c k s)"

text \<open>The specification: an entry is a manifest and whether its application is active.\<close>

fun spec_registry :: "registry_op \<Rightarrow> registry_map \<Rightarrow> registry_map" where
  "spec_registry (OpCreate c rival m) g =
     (if g (man_id m) = None \<and> \<not> rival then g(man_id m \<mapsto> (m, False)) else g)"
| "spec_registry (OpUpdate c k m) g =
     (case g k of Some (_, False) \<Rightarrow> if k = man_id m then g(k \<mapsto> (m, False)) else g | _ \<Rightarrow> g)"
| "spec_registry (OpDelete c k) g = (case g k of Some (_, False) \<Rightarrow> g(k := None) | _ \<Rightarrow> g)"

fun op_storable :: "host_fs \<Rightarrow> codec \<Rightarrow> registry_op \<Rightarrow> bool" where
  "op_storable fs cd (OpCreate c rival m) = storable fs cd m"
| "op_storable fs cd (OpUpdate c k m) = storable fs cd m"
| "op_storable fs cd (OpDelete c k) = True"

locale map_simulation =
  fixes inv :: "'s \<Rightarrow> bool" and absf :: "'s \<Rightarrow> 'k \<Rightarrow> 'v option" and run :: "'op \<Rightarrow> 's \<Rightarrow> 's"
    and good :: "'op \<Rightarrow> bool" and spec :: "'op \<Rightarrow> ('k \<Rightarrow> 'v option) \<Rightarrow> ('k \<Rightarrow> 'v option)"
  assumes run_inv: "inv s \<Longrightarrow> good op \<Longrightarrow> inv (run op s)"
    and run_abs: "inv s \<Longrightarrow> good op \<Longrightarrow> absf (run op s) = spec op (absf s)"
begin

lemma runs_inv: "inv s \<Longrightarrow> list_all good ops \<Longrightarrow> inv (fold run ops s)"
  by (induction ops arbitrary: s) (auto intro: run_inv)

lemma runs_abs: "inv s \<Longrightarrow> list_all good ops \<Longrightarrow> absf (fold run ops s) = fold spec ops (absf s)"
  by (induction ops arbitrary: s) (simp_all add: run_abs run_inv)

end

lemma latest_state_frame [simp, frame_simps]:
  "latest_state (d\<lparr>audit_events := x\<rparr>) k = latest_state d k"
  "latest_state (d\<lparr>applications := a\<rparr>) k = latest_state d k"
  "latest_state (d\<lparr>audit_events := x, applications := a\<rparr>) k = latest_state d k"
  "latest_state (d\<lparr>executions := e\<rparr>) k = latest_state d k"
  by (simp_all add: latest_state_def)

lemma app_active_frame [simp, frame_simps]:
  "app_active (d\<lparr>audit_events := x\<rparr>) k = app_active d k"
  "app_active (d\<lparr>applications := a\<rparr>) k = app_active d k"
  "app_active (d\<lparr>audit_events := x, applications := a\<rparr>) k = app_active d k"
  by (simp_all add: app_active_def)

lemma registry_abs_audit [simp]: "registry_abs fs cd (d\<lparr>audit_events := x\<rparr>) = registry_abs fs cd d"
  by (intro ext) (simp add: registry_abs_def split: option.splits)

lemma registry_abs_Some:
  assumes "registry_ok su fs cd n d" "row_get ap_id k (applications d) = Some r"
  obtains m where "registry_abs fs cd d k = Some (m, app_active d k)" "decode fs cd (ap_config r) = Some m"
    "man_id m = k" "man_name m = ap_name r" "man_enabled m = ap_enabled r"
    "man_description m = ap_description r" "runtime_type (man_runtime m) = ap_runtime_type r"
proof -
  have r: "r \<in> set (applications d)" "ap_id r = k" using row_get_Some [OF assms(2)] by auto
  then obtain m where "decode fs cd (ap_config r) = Some m" "man_id m = ap_id r" "man_name m = ap_name r"
      "man_enabled m = ap_enabled r" "man_description m = ap_description r"
      "runtime_type (man_runtime m) = ap_runtime_type r"
    using registry_ok_row [OF assms(1)] by (force simp: row_ok_def split: option.splits)
  with r assms(2) show thesis by (intro that [of m]) (auto simp: registry_abs_def)
qed

lemma registry_abs_None:
  assumes "registry_ok su fs cd n d"
  shows "registry_abs fs cd d k = None \<longleftrightarrow> row_get ap_id k (applications d) = None"
proof (cases "row_get ap_id k (applications d)")
  case None
  then show ?thesis by (simp add: registry_abs_def)
next
  case (Some r)
  then obtain m where "registry_abs fs cd d k = Some (m, app_active d k)"
    by (rule registry_abs_Some [OF assms])
  with Some show ?thesis by simp
qed

lemma no_instance_inactive: "(\<forall>r\<in>set (instances d). in_app r \<noteq> k) \<Longrightarrow> \<not> app_active d k"
  using latest_state_None [of d k] by (simp add: app_active_def)

lemma new_app_inactive:
  assumes "registry_ok su fs cd n d" "row_get ap_id k (applications d) = None"
  shows "\<forall>r\<in>set (instances d). in_app r \<noteq> k"
  using assms by (auto simp: registry_ok_def db_wf_def row_get_None)

lemma latest_append_other:
  "in_app i \<noteq> k \<Longrightarrow> latest_state (d\<lparr>applications := a, instances := instances d @ [i]\<rparr>) k = latest_state d k"
  by (simp add: latest_state_def)

lemma latest_append_new:
  "\<forall>r\<in>set (instances d). in_app r \<noteq> in_app i \<Longrightarrow>
     latest_state (d\<lparr>applications := a, instances := instances d @ [i]\<rparr>) (in_app i) = Some i"
  by (simp add: latest_state_def filter_empty_conv)

lemma create_abs:
  assumes ok: "store_ok su fs cd s" and m: "storable fs cd m"
  shows "registry_abs fs cd (working (snd (create_application su fs cd c rival m s))) =
    spec_registry (OpCreate c rival m) (registry_abs fs cd (working s))"
proof -
  let ?d = "working s" and ?k = "man_id m"
  have R: "registry_ok su fs cd (drawn s) ?d" and C: "committed s = working s"
    using ok by (simp_all add: store_ok_def)
  show ?thesis
  proof (cases "row_get ap_id ?k (applications ?d) = None \<and> \<not> rival")
    case True
    let ?r = "app_record su cd m s"
    let ?i = "initial_instance su m (tick (tick (add_app ?r s)))"
    let ?e = "?d\<lparr>applications := applications ?d @ [?r], instances := instances ?d @ [?i]\<rparr>"
    have ri: "ap_id ?r = ?k" "in_app ?i = ?k" "ap_config ?r = yaml_dump cd m"
      and st: "in_status ?i = (if man_enabled m then STOPPED else DISABLED)"
      by (simp_all add: app_record_def initial_instance_def)
    have none: "\<forall>r\<in>set (instances ?d). in_app r \<noteq> in_app ?i"
      using new_app_inactive [OF R] True ri by simp
    have "registry_abs fs cd ?e ?k = Some (m, False)"
      using True latest_append_new [OF none] st
      by (simp add: registry_abs_def row_get_append ri storable_decode [OF m] app_active_def active_statuses_def)
    moreover have "registry_abs fs cd ?e k = registry_abs fs cd ?d k" if "k \<noteq> ?k" for k
    proof -
      have i: "in_app ?i \<noteq> k" and r: "ap_id ?r \<noteq> k" using that ri by auto
      show ?thesis using r
        by (simp add: registry_abs_def row_get_append app_active_def latest_append_other [OF i] split: option.splits)
    qed
    ultimately have "registry_abs fs cd ?e = (registry_abs fs cd ?d)(?k \<mapsto> (m, False))"
      by (intro ext) simp
    moreover have "registry_abs fs cd ?d ?k = None" using True registry_abs_None [OF R] by simp
    ultimately show ?thesis using True by (simp add: create_application_def Let_def)
  next
    case False
    then have "rival \<or> registry_abs fs cd ?d ?k \<noteq> None" using registry_abs_None [OF R] by auto
    with False C show ?thesis by (auto simp: create_application_def Let_def)
  qed
qed

lemma update_abs:
  assumes ok: "store_ok su fs cd s" and m: "storable fs cd m"
  shows "registry_abs fs cd (working (snd (update_application su fs cd c k m s))) =
    spec_registry (OpUpdate c k m) (registry_abs fs cd (working s))"
proof (cases "k = man_id m \<and> row_get ap_id k (applications (working s)) \<noteq> None \<and> \<not> app_active (working s) k")
  case False
  have R: "registry_ok su fs cd (drawn s) (working s)" using ok by (simp add: store_ok_def)
  have "update_application su fs cd c k m s = (Inl (RegistryValueError
       ''Manifest id must match the application id in the URL''), s) \<or>
      snd (update_application su fs cd c k m s) = s"
    using False by (auto simp: update_application_def reject_active_application_def split: option.splits)
  then have id: "snd (update_application su fs cd c k m s) = s" by auto
  have "spec_registry (OpUpdate c k m) (registry_abs fs cd (working s)) = registry_abs fs cd (working s)"
  proof (cases "row_get ap_id k (applications (working s))")
    case None
    then have "registry_abs fs cd (working s) k = None" using registry_abs_None [OF R] by simp
    then show ?thesis by simp
  next
    case (Some r)
    then obtain q where q: "registry_abs fs cd (working s) k = Some (q, app_active (working s) k)"
      by (rule registry_abs_Some [OF R])
    have "k \<noteq> man_id m \<or> app_active (working s) k" using False Some by auto
    then show ?thesis using q by (cases "app_active (working s) k") auto
  qed
  with id show ?thesis by simp
next
  case True
  let ?d = "working s"
  have R: "registry_ok su fs cd (drawn s) ?d" using ok by (simp add: store_ok_def)
  obtain r where r: "row_get ap_id k (applications ?d) = Some r" using True by auto
  then obtain q where q: "registry_abs fs cd ?d k = Some (q, app_active ?d k)"
    by (rule registry_abs_Some [OF R])
  let ?u = "update_record cd m r"
  have u: "ap_id ?u = k" "ap_config ?u = yaml_dump cd m"
    using row_get_Some [OF r] by (auto simp: update_record_def)
  have dist: "distinct (map ap_id (applications ?d))" using R by (simp add: registry_ok_def db_wf_def)
  have upd: "registry_abs fs cd (?d\<lparr>audit_events := x, applications := row_save ap_id touch_app t ?u (applications ?d)\<rparr>)
      = (registry_abs fs cd ?d)(k \<mapsto> (m, False))" for x t
  proof (rule ext)
    fix j
    show "registry_abs fs cd (?d\<lparr>audit_events := x, applications := row_save ap_id touch_app t ?u (applications ?d)\<rparr>) j
      = ((registry_abs fs cd ?d)(k \<mapsto> (m, False))) j"
    proof (cases "j = k")
      case False
      then show ?thesis using app_rows.save_get_other [of j ?u t "applications ?d"] u
        by (simp add: registry_abs_def split: option.splits)
    next
      case j: True
      have "row_get ap_id (ap_id ?u) (applications ?d) = Some r" using r u by simp
      from app_rows.save_get [OF this dist, of t]
      have "row_get ap_id k (row_save ap_id touch_app t ?u (applications ?d)) =
          Some (if ?u = r then ?u else touch_app t ?u)" using u by simp
      moreover have "ap_config (if ?u = r then ?u else touch_app t ?u) = yaml_dump cd m"
      proof -
        have "ap_config (touch_app t ?u) = yaml_dump cd m" using u by (simp add: touch_app_def)
        with u(2) show ?thesis by metis
      qed
      moreover have "\<not> app_active ?d k" using True by blast
      ultimately show ?thesis using j
        by (simp add: registry_abs_def storable_decode [OF m])
    qed
  qed
  have "snd (update_application su fs cd c k m s) =
      commit (save_app su ?u (audit su c ''application.update'' k (manifest_details m) s))"
  proof -
    have "reject_active_application ?d k = Inr ()" "k = man_id m"
      using True by (auto simp: reject_active_application_def)
    then show ?thesis using r by (simp add: update_application_def Let_def)
  qed
  then have "registry_abs fs cd (working (snd (update_application su fs cd c k m s))) =
      (registry_abs fs cd ?d)(k \<mapsto> (m, False))"
    by (simp add: upd)
  moreover have "k = man_id m" "registry_abs fs cd ?d k = Some (q, False)" using True q by auto
  ultimately show ?thesis by simp
qed


lemma app_active_delete_other:
  "j \<noteq> k \<Longrightarrow> app_active (d\<lparr>applications := a, instances := filter (\<lambda>r. in_app r \<noteq> k) (instances d)\<rparr>) j
     = app_active d j"
proof -
  assume "j \<noteq> k"
  then have "filter (\<lambda>r. in_app r = j) (filter (\<lambda>r. in_app r \<noteq> k) (instances d))
      = filter (\<lambda>r. in_app r = j) (instances d)"
    by (induction "instances d") (auto intro: filter_cong)
  then show ?thesis by (simp add: app_active_def latest_state_def)
qed

lemma delete_abs:
  assumes ok: "store_ok su fs cd s"
  shows "registry_abs fs cd (working (snd (delete_application su c k s))) =
    spec_registry (OpDelete c k) (registry_abs fs cd (working s))"
proof -
  let ?d = "working s"
  have R: "registry_ok su fs cd (drawn s) ?d" using ok by (simp add: store_ok_def)
  show ?thesis
  proof (cases "row_get ap_id k (applications ?d)")
    case None
    then have "registry_abs fs cd ?d k = None" using registry_abs_None [OF R] by simp
    with None show ?thesis by (simp add: delete_application_def)
  next
    case (Some r)
    then obtain q where q: "registry_abs fs cd ?d k = Some (q, app_active ?d k)"
      by (rule registry_abs_Some [OF R])
    show ?thesis
    proof (cases "app_active ?d k")
      case True
      with Some q show ?thesis by (simp add: delete_application_def reject_active_application_def)
    next
      case False
      have "registry_abs fs cd (?d\<lparr>applications := row_delete ap_id k (applications ?d),
          instances := filter (\<lambda>r. in_app r \<noteq> k) (instances ?d)\<rparr>) j = ((registry_abs fs cd ?d)(k := None)) j" for j
        using app_active_delete_other [of j k] row_delete_get_other [of k j ap_id "applications ?d"]
        by (cases "j = k") (simp_all add: registry_abs_def split: option.splits)
      then have "registry_abs fs cd (?d\<lparr>applications := row_delete ap_id k (applications ?d),
          instances := filter (\<lambda>r. in_app r \<noteq> k) (instances ?d)\<rparr>) = (registry_abs fs cd ?d)(k := None)"
        by (rule ext)
      moreover have "working (snd (delete_application su c k s)) = (?d\<lparr>applications := row_delete ap_id k (applications ?d),
          instances := filter (\<lambda>r. in_app r \<noteq> k) (instances ?d)\<rparr>)\<lparr>audit_events :=
          audit_events (working (snd (delete_application su c k s)))\<rparr>"
        using Some False by (simp add: delete_application_def reject_active_application_def)
      ultimately have "registry_abs fs cd (working (snd (delete_application su c k s))) = (registry_abs fs cd ?d)(k := None)"
        by (metis registry_abs_audit)
      with q False show ?thesis by simp
    qed
  qed
qed

text \<open>The contract holds of the registry's own operations.\<close>

interpretation reg: map_simulation "store_ok su fs cd" "\<lambda>s. registry_abs fs cd (working s)"
    "run_registry su fs cd" "op_storable fs cd" spec_registry
  for su fs cd
proof (unfold_locales, goal_cases)
  case (1 s op)
  then show ?case by (cases op) (simp_all add: create_ok update_ok delete_ok)
next
  case (2 s op)
  then show ?case by (cases op) (simp_all add: create_abs update_abs delete_abs del: spec_registry.simps)
qed

section \<open>What the callers see\<close>

lemma get_ok:
  assumes "registry_ok su fs cd (drawn s) (working s)" "row_get ap_id k (applications (working s)) = Some r"
  obtains m where "get_application fs cd k s = Inr \<lparr>ar_id = k, ar_name = man_name m,
      ar_description = man_description m, ar_runtime_type = runtime_type (man_runtime m),
      ar_enabled = man_enabled m,
      ar_status = (if \<not> man_enabled m then DISABLED else case latest_state (working s) k of
                     Some i \<Rightarrow> in_status i | None \<Rightarrow> STOPPED),
      ar_manifest = m, ar_created = ap_created r, ar_updated = ap_updated r\<rparr>"
    "registry_abs fs cd (working s) k = Some (m, app_active (working s) k)" "man_id m = k"
proof -
  obtain m where m: "registry_abs fs cd (working s) k = Some (m, app_active (working s) k)"
    "decode fs cd (ap_config r) = Some m" "man_id m = k" "man_name m = ap_name r" "man_enabled m = ap_enabled r"
    "man_description m = ap_description r" "runtime_type (man_runtime m) = ap_runtime_type r"
    using assms by (rule registry_abs_Some)
  then show thesis
    using assms(2) row_get_Some [OF assms(2)] by (intro that [of m]) (auto simp: get_application_def response_def)
qed

lemma create_result:
  assumes m: "storable fs cd m" and ok: "store_ok su fs cd s"
    and new: "row_get ap_id (man_id m) (applications (working s)) = None"
  shows "fst (create_application su fs cd c False m s) =
      get_application fs cd (man_id m) (snd (create_application su fs cd c False m s))"
    and "\<exists>a. fst (create_application su fs cd c False m s) = Inr a \<and> ar_id a = man_id m \<and> ar_manifest a = m
      \<and> ar_status a = (if man_enabled m then STOPPED else DISABLED)"
proof -
  let ?r = "app_record su cd m s"
  let ?s1 = "tick (tick (add_app ?r s))"
  let ?i = "initial_instance su m ?s1"
  have ri: "ap_id ?r = man_id m" "in_app ?i = man_id m" "ap_config ?r = yaml_dump cd m" "ap_enabled ?r = man_enabled m"
      and st: "in_status ?i = (if man_enabled m then STOPPED else DISABLED)"
    by (simp_all add: app_record_def initial_instance_def)
  have none: "\<forall>r\<in>set (instances (working s)). in_app r \<noteq> in_app ?i"
    using ok new ri new_app_inactive by (metis store_ok_def)
  let ?d = "working (snd (create_application su fs cd c False m s))"
  have f: "fst (create_application su fs cd c False m s) = response fs cd ?d ?r"
    using new by (simp add: create_application_def Let_def)
  have a: "row_get ap_id (man_id m) (applications ?d) = Some ?r"
    using new ri by (simp add: create_application_def Let_def row_get_append)
  show "fst (create_application su fs cd c False m s) =
      get_application fs cd (man_id m) (snd (create_application su fs cd c False m s))"
    by (simp add: f a get_application_def)
  have "latest_state ?d (in_app ?i) = Some ?i"
    using new latest_append_new [OF none] by (simp add: create_application_def Let_def)
  then show "\<exists>a. fst (create_application su fs cd c False m s) = Inr a \<and> ar_id a = man_id m \<and> ar_manifest a = m
      \<and> ar_status a = (if man_enabled m then STOPPED else DISABLED)"
    using ri st by (simp add: f response_def storable_decode [OF m])
qed

lemma update_result:
  assumes m: "storable fs cd m" and ok: "store_ok su fs cd s"
    and old: "row_get ap_id (man_id m) (applications (working s)) \<noteq> None"
    and idle: "\<not> app_active (working s) (man_id m)"
  shows "\<exists>a. fst (update_application su fs cd c (man_id m) m s) = Inr a \<and> ar_manifest a = m"
proof -
  let ?s = "snd (update_application su fs cd c (man_id m) m s)"
  have R: "registry_ok su fs cd (drawn ?s) (working ?s)"
    using update_ok [OF ok m] by (simp add: store_ok_def)
  have f: "fst (update_application su fs cd c (man_id m) m s) = get_application fs cd (man_id m) ?s"
    using old idle by (auto simp: update_application_def Let_def reject_active_application_def)
  have "registry_abs fs cd (working s) (man_id m) \<noteq> None"
    using old ok registry_abs_None [of su fs cd "drawn s" "working s" "man_id m"] by (simp add: store_ok_def)
  then obtain q where "registry_abs fs cd (working s) (man_id m) = Some (q, False)"
    using idle by (auto simp: registry_abs_def split: option.splits)
  then have g: "registry_abs fs cd (working ?s) (man_id m) = Some (m, False)"
    using update_abs [OF ok m, of c "man_id m"] by simp
  then obtain r where "row_get ap_id (man_id m) (applications (working ?s)) = Some r"
    by (auto simp: registry_abs_def split: option.splits)
  from get_ok [OF R this] g f show ?thesis by (metis app_response.select_convs(7) option.inject prod.inject)
qed

lemma sorted_by_name: "sorted (map ap_name (sort_key ap_name rs))"
  by simp

section \<open>A sample store\<close>

definition sample_sources :: sources where
  "sample_sources = \<lparr>clock = int, fresh = (\<lambda>n. replicate n (CHR ''x''))\<rparr>"

definition sample_codec :: codec where
  "sample_codec = \<lparr>yaml_dump = man_id,
     yaml_load = (\<lambda>s. if s = ''demo'' then Some sample_manifest else None)\<rparr>"

definition sample_caller :: caller where
  "sample_caller = \<lparr>call_actor = ''admin'', call_method = Some ''POST'', call_path = Some ''/api''\<rparr>"

definition empty_store :: store where
  "empty_store = \<lparr>committed = empty_db, working = empty_db, ticks = 0, drawn = 0\<rparr>"

definition sample_store :: store where
  "sample_store = snd (create_application sample_sources plain_fs sample_codec sample_caller False
     sample_manifest empty_store)"

lemma sample_sources_inj [simp]: "inj (fresh sample_sources)"
  by (auto simp: sample_sources_def inj_def dest: arg_cong [of _ _ length])

lemma sample_storable [simp]: "storable plain_fs sample_codec sample_manifest"
proof -
  have "man_id sample_manifest = ''demo''" by (simp add: sample_manifest_def)
  then show ?thesis by (simp add: storable_def sample_codec_def)
qed

lemma empty_store_ok [simp]: "store_ok sample_sources plain_fs sample_codec empty_store"
  by (simp add: store_ok_def registry_ok_def empty_store_def) (simp add: empty_db_def)

lemma empty_store_app [simp]: "row_get ap_id k (applications (working empty_store)) = None"
  by (simp add: empty_store_def empty_db_def)

lemma sample_store_ok [simp]: "store_ok sample_sources plain_fs sample_codec sample_store"
  unfolding sample_store_def by (rule create_ok) simp_all

lemma sample_id [simp]: "man_id sample_manifest = ''demo''"
  by (simp add: sample_manifest_def)

lemma sample_store_app: "\<exists>r. row_get ap_id ''demo'' (applications (working sample_store)) = Some r \<and> ap_name r = ''Demo''"
  by (simp add: sample_store_def create_application_def Let_def empty_store_def empty_db_def app_record_def)
    (simp add: sample_manifest_def)

lemma sample_store_idle: "\<not> app_active (working sample_store) ''demo''"
  by (simp add: sample_store_def create_application_def Let_def empty_store_def empty_db_def app_active_def
      latest_state_def initial_instance_def active_statuses_def)

text \<open>The same store with the application running.\<close>

definition set_statuses :: "app_status \<Rightarrow> db \<Rightarrow> db" where
  "set_statuses st d = d\<lparr>instances := map (\<lambda>i. i\<lparr>in_status := st\<rparr>) (instances d)\<rparr>"

definition running_store :: store where
  "running_store = commit (sample_store\<lparr>working := set_statuses RUNNING (working sample_store)\<rparr>)"

lemma set_statuses_ok: "registry_ok su fs cd n d \<Longrightarrow> registry_ok su fs cd n (set_statuses st d)"
  by (auto simp: registry_ok_def db_wf_def ids_drawn_def set_statuses_def o_def image_image)

lemma running_store_ok [simp]: "store_ok sample_sources plain_fs sample_codec running_store"
  using sample_store_ok set_statuses_ok unfolding running_store_def
  by (intro commit_registry_ok) (auto simp: store_ok_def)

lemma newest_set: "newest (map (\<lambda>i. i\<lparr>in_status := st\<rparr>) rs) = map_option (\<lambda>i. i\<lparr>in_status := st\<rparr>) (newest rs)"
  by (induction rs) (auto split: option.splits)

lemma running_store_app:
  "row_get ap_id ''demo'' (applications (working running_store)) \<noteq> None"
  "app_active (working running_store) ''demo''"
  using sample_store_app
  by (auto simp: running_store_def set_statuses_def)
   (simp add: sample_store_def create_application_def Let_def empty_store_def empty_db_def app_active_def
      latest_state_def initial_instance_def active_statuses_def)


section \<open>Properties\<close>

text \<open>
  Property C5. The registry implements a finite map from application ids to manifests. After any
  sequence of create, update and delete requests, refused ones included, the stored manifests are
  those of the same sequence on the map, where creation never overwrites and an active
  application is neither changed nor removed; and the tables keep their integrity (unique ids,
  one state row per application, no orphan state row, columns in agreement with the stored text).
\<close>

theorem registry_refines_map:
  assumes "store_ok su fs cd s" "list_all (op_storable fs cd) ops"
  shows "store_ok su fs cd (fold (run_registry su fs cd) ops s)
    \<and> registry_abs fs cd (working (fold (run_registry su fs cd) ops s))
      = fold spec_registry ops (registry_abs fs cd (working s))"
  using reg.runs_inv [OF assms] reg.runs_abs [OF assms] by auto

theorem registry_refines_map_witness:
  "registry_abs plain_fs sample_codec (working (fold (run_registry sample_sources plain_fs sample_codec)
     [OpCreate sample_caller False sample_manifest, OpDelete sample_caller ''demo''] empty_store)) ''demo'' = None"
proof -
  have "list_all (op_storable plain_fs sample_codec)
      [OpCreate sample_caller False sample_manifest, OpDelete sample_caller ''demo'']" by simp
  from registry_refines_map [OF empty_store_ok this] show ?thesis
    by (simp add: registry_abs_def)
qed

text \<open>
  Creating a new application succeeds with a response that carries the manifest and
  the state STOPPED (DISABLED when the manifest is not enabled), a later lookup gives that same
  response, and an update of an application that is not active is answered with the new manifest.
\<close>

theorem create_then_get:
  assumes "store_ok su fs cd s" "storable fs cd m" "row_get ap_id (man_id m) (applications (working s)) = None"
  shows "\<exists>a s'. create_application su fs cd c False m s = (Inr a, s')
    \<and> ar_id a = man_id m \<and> ar_manifest a = m \<and> ar_status a = (if man_enabled m then STOPPED else DISABLED)
    \<and> get_application fs cd (man_id m) s' = Inr a
    \<and> (\<forall>c' m'. storable fs cd m' \<longrightarrow> man_id m' = man_id m \<longrightarrow>
         (\<exists>b. fst (update_application su fs cd c' (man_id m) m' s') = Inr b \<and> ar_manifest b = m'))"
proof -
  obtain a s' where e: "create_application su fs cd c False m s = (Inr a, s')" "ar_id a = man_id m"
      "ar_manifest a = m" "ar_status a = (if man_enabled m then STOPPED else DISABLED)"
    using create_result(2) [OF assms(2,1,3), of c] by (metis prod.collapse)
  have g: "get_application fs cd (man_id m) s' = Inr a"
    using create_result(1) [OF assms(2,1,3), of c] e(1) by simp
  have ok: "store_ok su fs cd s'" using create_ok [OF assms(1,2), of c False] e(1) by simp
  have "registry_abs fs cd (working s') (man_id m) = Some (m, False)"
    using create_abs [OF assms(1,2), of c False] e(1) assms(3) by (simp add: registry_abs_def)
  then have "row_get ap_id (man_id m) (applications (working s')) \<noteq> None" "\<not> app_active (working s') (man_id m)"
    by (auto simp: registry_abs_def split: option.splits)
  with update_result [OF _ ok] e g show ?thesis by metis
qed

theorem create_then_get_witness:
  "\<exists>a s'. create_application sample_sources plain_fs sample_codec sample_caller False sample_manifest empty_store
      = (Inr a, s') \<and> ar_status a = STOPPED \<and> get_application plain_fs sample_codec ''demo'' s' = Inr a"
proof -
  have "man_enabled sample_manifest" by (simp add: sample_manifest_def)
  with create_then_get [OF empty_store_ok sample_storable empty_store_app, of sample_caller]
  show ?thesis by auto
qed

text \<open>
  Property C22. While the newest state of a registered application is CHECKING, STARTING, RUNNING,
  UNHEALTHY or STOPPING, the update and delete handlers answer 409 and change nothing; in any
  other state a storable update and a delete both go through.
\<close>

theorem active_application_locked:
  assumes ok: "store_ok su fs cd s" and r: "row_get ap_id k (applications (working s)) \<noteq> None"
    and v: "vr_valid (validate_manifest_paths st fs (allowed_roots st) m)" and k: "man_id m = k"
    and m: "storable fs cd m"
  shows "if app_active (working s) k
    then \<exists>t. api_update su st fs cd c k m s = (Inl (HttpError 409 (DText t)), s)
         \<and> api_delete su c k s = (Inl (HttpError 409 (DText t)), s)
    else is_ok (fst (api_update su st fs cd c k m s)) \<and> is_ok (fst (api_delete su c k s))"
proof -
  have "\<exists>t. api_update su st fs cd c k m s = (Inl (HttpError 409 (DText t)), s)
      \<and> api_delete su c k s = (Inl (HttpError 409 (DText t)), s)" if "app_active (working s) k"
    using that r v k
    by (auto simp: api_update_def api_delete_def validated_def Let_def update_application_def
        delete_application_def reject_active_application_def)
  moreover have "is_ok (fst (api_update su st fs cd c k m s)) \<and> is_ok (fst (api_delete su c k s))"
    if "\<not> app_active (working s) k"
  proof -
    have "\<exists>a. fst (update_application su fs cd c k m s) = Inr a"
      using update_result [OF m ok] that r k by blast
    moreover have "fst (delete_application su c k s) = Inr ()"
      using that r by (auto simp: delete_application_def reject_active_application_def)
    ultimately show ?thesis using v by (auto simp: api_update_def api_delete_def validated_def Let_def)
  qed
  ultimately show ?thesis by simp
qed

theorem active_application_locked_witness:
  "\<exists>t. api_delete sample_sources sample_caller ''demo'' running_store = (Inl (HttpError 409 (DText t)), running_store)"
proof -
  have "under_roots (path_of ''/srv/demo'') [path_of ''/srv'']" by code_simp
  moreover have "under_roots (path_of ''/srv/demo/run'') [path_of ''/srv'']" by code_simp
  ultimately have "vr_valid (validate_manifest_paths sample_settings plain_fs (allowed_roots sample_settings) sample_manifest)"
    unfolding validate_manifest_paths_valid
    by (simp add: sample_manifest_def sample_port_def plain_fs_def sample_settings_def)
  from active_application_locked [OF running_store_ok running_store_app(1) this _ sample_storable]
  show ?thesis using running_store_app(2) by auto
qed

text \<open>
  Deleting an application that is not active removes it and every state row of it,
  leaves all other applications and their states as they were, appends exactly one audit event
  naming the request, and a later lookup reports it as not found.
\<close>

theorem delete_removes:
  assumes "row_get ap_id k (applications (working s)) = Some r" "\<not> app_active (working s) k"
    and "delete_application su c k s = (res, s')"
  shows "res = Inr () \<and> get_application fs cd k s' = Inl (app_not_found k)
    \<and> (\<forall>i\<in>set (instances (working s')). in_app i \<noteq> k)
    \<and> (\<forall>j. j \<noteq> k \<longrightarrow> row_get ap_id j (applications (working s')) = row_get ap_id j (applications (working s))
         \<and> latest_state (working s') j = latest_state (working s) j)
    \<and> (\<exists>e. audit_events (working s') = audit_events (working s) @ [e] \<and> au_action e = ''application.delete''
         \<and> au_target_id e = k \<and> au_actor e = call_actor c \<and> au_result e = ''success'')
    \<and> committed s' = working s'"
proof -
  let ?d = "working s"
  have e: "res = Inr ()" "working s' = ?d\<lparr>applications := row_delete ap_id k (applications ?d),
      instances := filter (\<lambda>r. in_app r \<noteq> k) (instances ?d), audit_events := audit_events (working s')\<rparr>"
      "committed s' = working s'"
    using assms by (auto simp: delete_application_def reject_active_application_def)
  have a: "applications (working s') = row_delete ap_id k (applications ?d)"
    "instances (working s') = filter (\<lambda>r. in_app r \<noteq> k) (instances ?d)"
    using e(2) by (metis (no_types) db.select_convs db.surjective db.update_convs)+
  have "\<exists>e. audit_events (working s') = audit_events ?d @ [e] \<and> au_action e = ''application.delete''
         \<and> au_target_id e = k \<and> au_actor e = call_actor c \<and> au_result e = ''success''"
    using assms by (auto simp: delete_application_def reject_active_application_def)
  moreover have "latest_state (working s') j = latest_state ?d j" if "j \<noteq> k" for j
  proof -
    have "filter (\<lambda>r. in_app r = j) (filter (\<lambda>r. in_app r \<noteq> k) (instances ?d)) = filter (\<lambda>r. in_app r = j) (instances ?d)"
      using that by (induction "instances ?d") (auto intro: filter_cong)
    then show ?thesis by (simp add: latest_state_def a)
  qed
  moreover have "row_get ap_id j (applications (working s')) = row_get ap_id j (applications ?d)" if "j \<noteq> k" for j
    using that row_delete_get_other [of k j] by (simp add: a)
  ultimately show ?thesis using e(1,3) by (simp add: get_application_def a)
qed

theorem delete_removes_witness:
  "get_application plain_fs sample_codec ''demo''
     (snd (delete_application sample_sources sample_caller ''demo'' sample_store)) = Inl (app_not_found ''demo'')"
proof -
  obtain r where "row_get ap_id ''demo'' (applications (working sample_store)) = Some r"
    using sample_store_app by blast
  from delete_removes [OF this sample_store_idle surjective_pairing] show ?thesis by blast
qed

end
