(* ===== verification/Network.thy ===== *)
theory Network
  imports Registry
begin

text \<open>
  The network half of \<open>security/auth.py\<close>: where a request comes from and which origins are
  trusted. Behind a trusted proxy the client address is read from the Forwarded or X-Forwarded-For
  header; the properties say that a client cannot choose it.

  A request's headers are the pairs of the ASGI scope, names in lower case, and a lookup returns
  the first, as in Starlette. A ValueError inside the module is \<open>None\<close> here, since every caller
  catches it; an HTTPException is an \<open>http_error\<close>.
\<close>

record request =
  rq_peer :: "string option"
  rq_scheme :: string
  rq_method :: string
  rq_headers :: "(string \<times> string) list"
  rq_cookies :: "(string \<times> string) list"

definition header :: "request \<Rightarrow> string \<Rightarrow> string option" where
  "header rq n = map_of (rq_headers rq) (py_lower n)"

section \<open>Hosts and origins\<close>

definition is_loopback :: "string option \<Rightarrow> bool" where
  "is_loopback h = (case h of None \<Rightarrow> False | Some t \<Rightarrow>
     if t = [] then False
     else case ip_address t of Some a \<Rightarrow> ip_is_loopback a | None \<Rightarrow> py_lower t = ''localhost'')"

definition origin_is_trusted :: "settings \<Rightarrow> string option \<Rightarrow> bool" where
  "origin_is_trusted st o1 = (case o1 of None \<Rightarrow> False
     | Some t \<Rightarrow> rstrip_char (CHR ''/'') t \<in> set (trusted_origins st))"

definition origin_is_local :: "string option \<Rightarrow> bool" where
  "origin_is_local o1 = (case o1 of None \<Rightarrow> False | Some t \<Rightarrow>
     (case urlsplit t of None \<Rightarrow> False | Some u \<Rightarrow>
        url_port u \<noteq> None \<and> u_scheme u \<in> {''http'', ''https''} \<and> url_hostname u \<notin> {None, Some []}
        \<and> is_loopback (url_hostname u) \<and> url_username u = None \<and> url_password u = None
        \<and> u_path u \<in> {[], ''/''} \<and> u_query u = [] \<and> u_fragment u = []))"

definition require_trusted_origin :: "settings \<Rightarrow> string option \<Rightarrow> bool \<Rightarrow> http_error + unit" where
  "require_trusted_origin st o1 allow_missing =
     (if o1 = None \<and> allow_missing then Inr ()
      else if \<not> origin_is_trusted st o1
      then Inl (HttpError 403 (DCode ''ORIGIN_NOT_ALLOWED'' ''Request origin is not trusted''))
      else Inr ())"

section \<open>Forwarded addresses\<close>

definition unwrap :: "string \<Rightarrow> string" where
  "unwrap v = strip_char QUOTE (py_strip v)"

definition address :: "string \<Rightarrow> ip option" where
  "address v =
     (let cand = unwrap v
      in if cand = [] \<or> py_lower cand = ''unknown'' \<or> startswith ''_'' cand then None
         else if startswith ''['' cand
         then (case partition_on (CHR '']'') (drop 1 cand) of (text, closing, suffix) \<Rightarrow>
                 if \<not> closing then None
                 else if suffix \<noteq> [] \<and> (\<not> startswith '':'' suffix \<or> \<not> py_isdigit (drop 1 suffix)) then None
                 else ip_address text)
         else (case ip_address cand of
                 Some a \<Rightarrow> Some a
               | None \<Rightarrow> (case rpartition_on (CHR '':'') cand of (text, sep, port) \<Rightarrow>
                   if \<not> sep \<or> \<not> py_isdigit port then None else ip_address text)))"

definition valid_forwarded_host :: "string \<Rightarrow> string option" where
  "valid_forwarded_host v =
     (let host = unwrap v
      in if host = [] \<or> 255 < length host
            \<or> has_any [CHR ''/'', BACKSLASH, CHR ''@'', CHR ''#'', CHR ''?'', CR, LF] host
         then None else Some host)"

text \<open>The items of a comma list, refused when one is empty or there are too many.\<close>

definition chain_items :: "int \<Rightarrow> string \<Rightarrow> string list option" where
  "chain_items limit v =
     (let items = map py_strip (split_on (CHR '','') v)
      in if limit < int (length items) \<or> [] \<in> set items then None else Some items)"

definition address_text :: "string \<Rightarrow> string option" where
  "address_text v = (case address v of None \<Rightarrow> None | Some a \<Rightarrow> Some (ip_str a))"

fun forwarded_parameters :: "(string \<times> string) list \<Rightarrow> string list \<Rightarrow> (string \<times> string) list option" where
  "forwarded_parameters ps [] = Some ps"
| "forwarded_parameters ps (part # parts) =
     (case partition_on (CHR ''='') (py_strip part) of (k, sep, raw) \<Rightarrow>
        let key = py_lower k
        in if \<not> sep \<or> key = [] \<or> raw = [] \<or> map_of ps key \<noteq> None then None
           else forwarded_parameters ((key, py_strip raw) # ps) parts)"

definition forwarded_element :: "string \<Rightarrow> (string \<times> (string \<times> string) list) option" where
  "forwarded_element e =
     (case forwarded_parameters [] (split_on (CHR '';'') e) of None \<Rightarrow> None | Some ps \<Rightarrow>
        (case map_of ps ''for'' of None \<Rightarrow> None | Some f \<Rightarrow>
           (case address_text f of None \<Rightarrow> None | Some a \<Rightarrow> Some (a, ps))))"

definition checked_proto :: "string \<Rightarrow> string option" where
  "checked_proto p = (if p \<in> {''http'', ''https''} then Some p else None)"

text \<open>\<open>None\<close> of the inner options: the parameter is absent.\<close>

fun opt_check :: "('a \<Rightarrow> 'b option) \<Rightarrow> 'a option \<Rightarrow> 'b option option" where
  "opt_check f None = Some None"
| "opt_check f (Some x) = (case f x of None \<Rightarrow> None | Some y \<Rightarrow> Some (Some y))"

definition forwarded_chain :: "string \<Rightarrow> int \<Rightarrow> (string list \<times> string option \<times> string option) option" where
  "forwarded_chain v limit =
     (case chain_items limit v of None \<Rightarrow> None | Some items \<Rightarrow>
      (case opt_list (map forwarded_element items) of None \<Rightarrow> None | Some es \<Rightarrow>
        let ps = snd (hd es)
        in (case opt_check (\<lambda>p. checked_proto (py_lower (unwrap p))) (map_of ps ''proto'') of None \<Rightarrow> None | Some proto \<Rightarrow>
           (case opt_check (\<lambda>h. if h = [] then Some None else map_option Some (valid_forwarded_host h)) (map_of ps ''host'') of None \<Rightarrow> None
            | Some host \<Rightarrow> Some (map fst es, proto, (case host of Some (Some h) \<Rightarrow> Some h | _ \<Rightarrow> None))))))"

definition single_value :: "(string \<Rightarrow> string option) \<Rightarrow> string \<Rightarrow> string option" where
  "single_value f v = (if CHR '','' \<in> set v then None else f v)"

definition x_forwarded_chain :: "request \<Rightarrow> int \<Rightarrow> (string list \<times> string option \<times> string option) option" where
  "x_forwarded_chain rq limit =
     (case header rq ''x-forwarded-for'' of None \<Rightarrow> None | Some v \<Rightarrow>
      if v = [] then None
      else (case chain_items limit v of None \<Rightarrow> None | Some items \<Rightarrow>
       (case opt_list (map address_text items) of None \<Rightarrow> None | Some as \<Rightarrow>
        (case opt_check (single_value (\<lambda>p. checked_proto (py_lower (py_strip p)))) (header rq ''x-forwarded-proto'') of
           None \<Rightarrow> None
         | Some proto \<Rightarrow>
           (case opt_check (single_value valid_forwarded_host) (header rq ''x-forwarded-host'') of
              None \<Rightarrow> None
            | Some host \<Rightarrow> Some (as, proto, host))))))"

section \<open>The network context of a request\<close>

record network_context =
  nc_peer :: string
  nc_client :: string
  nc_scheme :: string
  nc_host :: "string option"
  nc_forwarded :: bool

definition in_networks :: "ip \<Rightarrow> net list \<Rightarrow> bool" where
  "in_networks a ns \<longleftrightarrow> list_ex (\<lambda>n. ip_version a = ip_version (net_addr n) \<and> net_contains n a) ns"

definition forwarded_headers :: "string list" where
  "forwarded_headers = [''forwarded'', ''x-forwarded-for'', ''x-forwarded-host'', ''x-forwarded-proto'']"

definition trusted_hop :: "settings \<Rightarrow> string \<Rightarrow> bool" where
  "trusted_hop st h = (case ip_address h of None \<Rightarrow> False | Some a \<Rightarrow> in_networks a (trusted_proxies st))"

text \<open>The last hop that is not a proxy of ours, else the first.\<close>

definition chain_client :: "settings \<Rightarrow> string list \<Rightarrow> string" where
  "chain_client st chain =
     (case List.find (\<lambda>h. \<not> trusted_hop st h) (rev chain) of Some h \<Rightarrow> h | None \<Rightarrow> hd chain)"

definition forwarding_chain :: "settings \<Rightarrow> request \<Rightarrow> (string list \<times> string option \<times> string option) option" where
  "forwarding_chain st rq =
     (let present = filter (\<lambda>n. header rq n \<noteq> None) forwarded_headers
      in if ''forwarded'' \<in> set present
         then (if set present - {''forwarded''} \<noteq> {} then None
               else case header rq ''forwarded'' of
                   Some v \<Rightarrow> forwarded_chain v (forwarded_hop_limit st) | None \<Rightarrow> None)
         else x_forwarded_chain rq (forwarded_hop_limit st))"

definition request_network_context :: "settings \<Rightarrow> request \<Rightarrow> http_error + network_context" where
  "request_network_context st rq =
     (let raw = (case rq_peer rq of Some h \<Rightarrow> h | None \<Rightarrow> ''unknown'')
      in case address raw of
           None \<Rightarrow> Inr \<lparr>nc_peer = raw, nc_client = raw, nc_scheme = rq_scheme rq, nc_host = None, nc_forwarded = False\<rparr>
         | Some a \<Rightarrow>
             let direct = \<lparr>nc_peer = ip_str a, nc_client = ip_str a, nc_scheme = rq_scheme rq,
                   nc_host = header rq ''host'', nc_forwarded = False\<rparr>
             in if \<not> in_networks a (trusted_proxies st) then Inr direct
                else if list_all (\<lambda>n. header rq n = None) forwarded_headers then Inr direct
                else (case forwarding_chain st rq of
                        None \<Rightarrow> Inl (HttpError 400 (DCode ''FORWARDED_HEADERS_INVALID''
                                  ''Trusted proxy supplied malformed forwarding headers''))
                      | Some (chain, proto, host) \<Rightarrow>
                          Inr \<lparr>nc_peer = ip_str a, nc_client = chain_client st chain,
                            nc_scheme = (case proto of Some p \<Rightarrow> p | None \<Rightarrow> rq_scheme rq),
                            nc_host = (case host of Some h \<Rightarrow> Some h | None \<Rightarrow> header rq ''host''),
                            nc_forwarded = True\<rparr>))"

definition client_is_trusted_network :: "settings \<Rightarrow> network_context \<Rightarrow> bool" where
  "client_is_trusted_network st c =
     (case ip_address (nc_client c) of None \<Rightarrow> False | Some a \<Rightarrow> in_networks a (trusted_networks st))"

section \<open>A forwarded chain grows to the left\<close>

lemma split_on_split: "split_on c (a @ c # b) = split_on c a @ split_on c b"
proof (induction a)
  case Nil
  then show ?case by simp
next
  case (Cons x a)
  then show ?case by (cases "split_on c a") auto
qed

lemma chain_items_append:
  assumes "chain_items limit (spoof @ CHR '','' # v) = Some items"
  obtains front rear where "items = front @ rear" "chain_items limit v = Some rear" "rear \<noteq> []"
proof
  let ?f = "map py_strip (split_on (CHR '','') spoof)" and ?b = "map py_strip (split_on (CHR '','') v)"
  have e: "map py_strip (split_on (CHR '','') (spoof @ CHR '','' # v)) = ?f @ ?b" by (simp add: split_on_split)
  have i: "items = ?f @ ?b" "\<not> limit < int (length (?f @ ?b))" "[] \<notin> set (?f @ ?b)"
    using assms unfolding chain_items_def e Let_def by (auto simp del: map_append split: if_splits)
  then show "items = ?f @ ?b" by simp
  have "int (length ?b) \<le> int (length (?f @ ?b))" by simp
  then show "chain_items limit v = Some ?b" using i(2,3) by (simp add: chain_items_def Let_def)
  show "?b \<noteq> []" by simp
qed

lemma chain_client_append:
  assumes "\<not> trusted_hop st (chain_client st chain)" "chain \<noteq> []"
  shows "chain_client st (front @ chain) = chain_client st chain"
proof (cases "List.find (\<lambda>h. \<not> trusted_hop st h) (rev chain)")
  case None
  then have "\<forall>h\<in>set chain. trusted_hop st h" by (simp add: find_None_conv)
  moreover have "chain_client st chain = hd chain" using None by (simp add: chain_client_def)
  ultimately show ?thesis using assms by simp
next
  case (Some h)
  have "List.find P (xs @ ys) = Some h" if "List.find P xs = Some h" for P :: "string \<Rightarrow> bool" and xs ys
    using that by (induction xs) (auto split: if_splits)
  then show ?thesis using Some by (simp add: chain_client_def)
qed

lemma forwarded_chain_append:
  assumes "forwarded_chain (spoof @ CHR '','' # v) limit = Some (chain', p', h')" "forwarded_chain v limit = Some (chain, p, h)"
  obtains front where "chain' = front @ chain" "chain \<noteq> []"
proof -
  obtain items es where 1: "chain_items limit (spoof @ CHR '','' # v) = Some items"
      "map forwarded_element items = map Some es" "chain' = map fst es"
    using assms(1) by (auto simp: forwarded_chain_def opt_list_iff Let_def split: option.splits)
  obtain items2 es2 where 2: "chain_items limit v = Some items2" "map forwarded_element items2 = map Some es2" "chain = map fst es2"
    using assms(2) by (auto simp: forwarded_chain_def opt_list_iff Let_def split: option.splits)
  obtain front where f: "items = front @ items2" "items2 \<noteq> []"
    using chain_items_append [OF 1(1)] 2(1) by (metis option.inject)
  have l: "length es = length items" "length es2 = length items2" using 1(2) 2(2) by (metis length_map)+
  have "map Some es = map forwarded_element front @ map Some es2" using 1(2) 2(2) f by simp
  then obtain e1 where "es = e1 @ es2" by (auto simp: map_eq_append_conv append_eq_map_conv inj_on_def dest: map_injective)
  then have "chain' = map fst e1 @ chain" using 1(3) 2(3) by simp
  moreover have "chain \<noteq> []" using 2(3) l(2) f(2) by auto
  ultimately show thesis by (rule that)
qed

lemma x_forwarded_chain_append:
  assumes "x_forwarded_chain rq' limit = Some (chain', p', h')" "header rq' ''x-forwarded-for'' = Some (spoof @ CHR '','' # v)"
    and "x_forwarded_chain rq limit = Some (chain, p, h)" "header rq ''x-forwarded-for'' = Some v"
  obtains front where "chain' = front @ chain" "chain \<noteq> []"
proof -
  obtain items where 1: "chain_items limit (spoof @ CHR '','' # v) = Some items" "map address_text items = map Some chain'"
    using assms(1,2) by (auto simp: x_forwarded_chain_def opt_list_iff split: option.splits if_splits)
  obtain items2 where 2: "chain_items limit v = Some items2" "map address_text items2 = map Some chain"
    using assms(3,4) by (auto simp: x_forwarded_chain_def opt_list_iff split: option.splits if_splits)
  obtain front where f: "items = front @ items2" "items2 \<noteq> []"
    using chain_items_append [OF 1(1)] 2(1) by (metis option.inject)
  have "map Some chain' = map address_text front @ map Some chain" using 1(2) 2(2) f by simp
  then obtain e1 where "chain' = e1 @ chain" by (auto simp: map_eq_append_conv append_eq_map_conv inj_on_def dest: map_injective)
  moreover have "chain \<noteq> []" using 2(2) f(2) by (metis list.map_disc_iff)
  ultimately show thesis by (rule that)
qed

definition with_header :: "string \<Rightarrow> string \<Rightarrow> request \<Rightarrow> request" where
  "with_header n v rq = rq\<lparr>rq_headers := (n, v) # rq_headers rq\<rparr>"

lemma header_names [simp]:
  "py_lower ''forwarded'' = ''forwarded''" "py_lower ''x-forwarded-for'' = ''x-forwarded-for''"
  "py_lower ''x-forwarded-host'' = ''x-forwarded-host''" "py_lower ''x-forwarded-proto'' = ''x-forwarded-proto''"
  "py_lower ''host'' = ''host''"
  by code_simp+

lemma with_header_other: "py_lower m \<noteq> n \<Longrightarrow> header (with_header n v rq) m = header rq m"
  by (simp add: header_def with_header_def)

lemma with_header_same: "py_lower m = n \<Longrightarrow> header (with_header n v rq) m = Some v"
  by (simp add: header_def with_header_def)

lemma with_header_rest [simp]: "rq_peer (with_header n v rq) = rq_peer rq" "rq_scheme (with_header n v rq) = rq_scheme rq"
  by (simp_all add: with_header_def)

lemma present_names:
  "set (filter (\<lambda>n. header rq n \<noteq> None) forwarded_headers) = {n \<in> set forwarded_headers. header rq n \<noteq> None}"
  by auto

lemma forwarding_chain_append:
  assumes n: "n = ''forwarded'' \<or> n = ''x-forwarded-for''" and v: "header rq n = Some v"
    and rq': "rq' = with_header n (spoof @ CHR '','' # v) rq"
    and c': "forwarding_chain st rq' = Some (chain', p', h')" and c: "forwarding_chain st rq = Some (chain, p, h)"
  obtains front where "chain' = front @ chain" "chain \<noteq> []"
proof -
  have ln: "py_lower n = n" using n by auto
  have h: "header rq' n = Some (spoof @ CHR '','' # v)" unfolding rq' by (rule with_header_same [OF ln])
  have keep: "(header rq' m \<noteq> None) = (header rq m \<noteq> None)" for m
    using v h with_header_other [of m n] unfolding rq' by (cases "py_lower m = n") (auto simp: header_def with_header_def ln)
  show thesis
  proof (cases "header rq ''forwarded'' = None")
    case True
    then have nx: "n = ''x-forwarded-for''" using n v by auto
    have "header rq' ''forwarded'' = None" using True keep by blast
    then have "x_forwarded_chain rq' (forwarded_hop_limit st) = Some (chain', p', h')"
      "x_forwarded_chain rq (forwarded_hop_limit st) = Some (chain, p, h)"
      using True c c' unfolding forwarding_chain_def Let_def present_names by simp_all
    then show thesis using x_forwarded_chain_append h v nx that by metis
  next
    case False
    then have present: "''forwarded'' \<in> {n \<in> set forwarded_headers. header rq n \<noteq> None}"
      "''forwarded'' \<in> {n \<in> set forwarded_headers. header rq' n \<noteq> None}"
      using keep by (auto simp: forwarded_headers_def)
    have only: "{n \<in> set forwarded_headers. header rq n \<noteq> None} - {''forwarded''} = {}"
      using c present unfolding forwarding_chain_def Let_def present_names by (simp split: if_splits)
    have nf: "n = ''forwarded''"
    proof (rule ccontr)
      assume "n \<noteq> ''forwarded''"
      then have "n \<in> {n \<in> set forwarded_headers. header rq n \<noteq> None} - {''forwarded''}"
        using n v by (auto simp: forwarded_headers_def)
      then show False using only by blast
    qed
    have only': "{n \<in> set forwarded_headers. header rq' n \<noteq> None} - {''forwarded''} = {}"
      using only keep by blast
    have "forwarded_chain (spoof @ CHR '','' # v) (forwarded_hop_limit st) = Some (chain', p', h')"
      using c' present(2) only' h nf unfolding forwarding_chain_def Let_def present_names by simp
    moreover have "forwarded_chain v (forwarded_hop_limit st) = Some (chain, p, h)"
      using c present(1) only v nf unfolding forwarding_chain_def Let_def present_names by simp
    ultimately show thesis using forwarded_chain_append that by metis
  qed
qed

section \<open>Properties\<close>

definition proxied_settings :: settings where
  "proxied_settings = sample_settings\<lparr>trusted_proxies := [Net (V4 (10 * 2 ^ 24)) 8]\<rparr>"

definition proxied_request :: request where
  "proxied_request = \<lparr>rq_peer = Some ''10.0.0.1'', rq_scheme = ''http'', rq_method = ''POST'',
     rq_headers = [(''x-forwarded-for'', ''203.0.113.9'')], rq_cookies = []\<rparr>"

text \<open>
  Property C21. A client cannot choose the address it is known by. Whatever it prepends to the
  forwarding header that reaches the trusted proxy, the request is refused or has the same client
  address, as soon as that address is not one of our proxies; and forwarding headers count only
  when the peer itself is a trusted proxy.
\<close>

theorem client_not_spoofable:
  assumes "n = ''forwarded'' \<or> n = ''x-forwarded-for''" "header rq n = Some v"
    and "request_network_context st rq = Inr c" "\<not> trusted_hop st (nc_client c)"
    and "request_network_context st (with_header n (spoof @ CHR '','' # v) rq) = Inr c'"
  shows "nc_client c' = nc_client c \<and> nc_peer c' = nc_peer c \<and> (nc_forwarded c \<longrightarrow> trusted_hop st (nc_peer c))"
proof -
  let ?rq = "with_header n (spoof @ CHR '','' # v) rq"
  let ?raw = "case rq_peer rq of Some h \<Rightarrow> h | None \<Rightarrow> ''unknown''"
  show ?thesis
  proof (cases "address ?raw")
    case None
    then show ?thesis using assms(3,5) by (auto simp: request_network_context_def Let_def)
  next
    case (Some a)
    then obtain t where "ip_address t = Some a" by (auto simp: address_def Let_def split: if_splits option.splits prod.splits)
    then have rt: "ip_address (ip_str a) = Some a" by (rule ip_normal_form)
    show ?thesis
    proof (cases "in_networks a (trusted_proxies st)")
      case False
      then show ?thesis using assms(3,5) Some by (auto simp: request_network_context_def Let_def)
    next
      case True
      have m: "n \<in> set forwarded_headers" using assms(1) by (auto simp: forwarded_headers_def)
      have "py_lower n = n" using assms(1) by auto
      then have "header ?rq n \<noteq> None" by (simp add: with_header_same)
      with m have hs: "\<not> list_all (\<lambda>n. header rq n = None) forwarded_headers"
        "\<not> list_all (\<lambda>n. header ?rq n = None) forwarded_headers"
        using m assms(2) unfolding list_all_iff by auto
      obtain chain p h where c: "forwarding_chain st rq = Some (chain, p, h)" "nc_client c = chain_client st chain" "nc_peer c = ip_str a"
        using assms(3) Some True hs(1) by (auto simp: request_network_context_def split: option.splits)
      obtain chain' p' h' where c': "forwarding_chain st ?rq = Some (chain', p', h')" "nc_client c' = chain_client st chain'" "nc_peer c' = ip_str a"
        using assms(5) Some True hs(2) by (auto simp: request_network_context_def split: option.splits)
      obtain front where "chain' = front @ chain" "chain \<noteq> []"
        using forwarding_chain_append [OF assms(1,2) refl c'(1) c(1)] by blast
      then have "nc_client c' = nc_client c"
        using chain_client_append assms(4) c(2) c'(2) by metis
      then show ?thesis using c(3) c'(3) True rt by (simp add: trusted_hop_def)
    qed
  qed
qed

theorem client_not_spoofable_witness:
  "\<exists>c c'. request_network_context proxied_settings proxied_request = Inr c
    \<and> request_network_context proxied_settings
        (with_header ''x-forwarded-for'' (''127.0.0.1'' @ CHR '','' # ''203.0.113.9'') proxied_request) = Inr c'
    \<and> nc_client c' = nc_client c"
proof -
  have h: "header proxied_request ''x-forwarded-for'' = Some ''203.0.113.9''" by code_simp
  have "(case request_network_context proxied_settings proxied_request of
      Inr c \<Rightarrow> \<not> trusted_hop proxied_settings (nc_client c) | Inl _ \<Rightarrow> False)" by code_simp
  then obtain c where c: "request_network_context proxied_settings proxied_request = Inr c"
      "\<not> trusted_hop proxied_settings (nc_client c)" by (auto split: sum.splits)
  have "is_ok (request_network_context proxied_settings
        (with_header ''x-forwarded-for'' (''127.0.0.1'' @ CHR '','' # ''203.0.113.9'') proxied_request))" by code_simp
  then obtain c' where c': "request_network_context proxied_settings
        (with_header ''x-forwarded-for'' (''127.0.0.1'' @ CHR '','' # ''203.0.113.9'') proxied_request) = Inr c'"
    by (auto simp: is_ok_iff)
  from client_not_spoofable [OF disjI2 [OF refl] h c c'] c(1) c' show ?thesis by blast
qed

end
