(* ===== verification/Auth.thy ===== *)
theory Auth
  imports Network
begin

text \<open>
  \<open>security/auth.py\<close> and \<open>api/auth.py\<close>: the administrator, login sessions, CSRF tokens and the
  throttling of failed logins, over the \<open>store\<close> of the database theory. The cryptography is a
  parameter, the record \<open>crypto\<close>: SHA-256 (\<open>cr_digest\<close>), Argon2 (\<open>cr_hash\<close>, \<open>cr_verify\<close>,
  \<open>cr_stale\<close>) and \<open>secrets.token_urlsafe\<close> (\<open>cr_token\<close>); a random value is indexed by the number of
  values drawn so far. Timestamps count microseconds.
\<close>

record crypto =
  cr_digest :: "string \<Rightarrow> string"
  cr_hash :: "nat \<Rightarrow> string \<Rightarrow> string"
  cr_verify :: "string \<Rightarrow> string \<Rightarrow> bool"
  cr_stale :: "string \<Rightarrow> bool"
  cr_token :: "nat \<Rightarrow> string"
  cr_dummy :: string

section \<open>The tables\<close>

definition touch_admin :: "int \<Rightarrow> admin_row \<Rightarrow> admin_row" where
  "touch_admin t r = r\<lparr>ad_updated := t\<rparr>"

text \<open>Sessions have no \<open>onupdate\<close> column.\<close>

definition touch_session :: "int \<Rightarrow> session_row \<Rightarrow> session_row" where
  "touch_session t r = r"

interpretation admin_rows: keyed_rows ad_id touch_admin
  by unfold_locales (simp add: touch_admin_def)

interpretation session_rows: keyed_rows se_id touch_session
  by unfold_locales (simp add: touch_session_def)

definition add_admin :: "admin_row \<Rightarrow> store \<Rightarrow> store" where
  "add_admin r s = s\<lparr>working := (working s)\<lparr>administrators := administrators (working s) @ [r]\<rparr>\<rparr>"

definition add_session :: "session_row \<Rightarrow> store \<Rightarrow> store" where
  "add_session r s = s\<lparr>working := (working s)\<lparr>auth_sessions := auth_sessions (working s) @ [r]\<rparr>\<rparr>"

definition add_failure :: "failure_row \<Rightarrow> store \<Rightarrow> store" where
  "add_failure r s = s\<lparr>working := (working s)\<lparr>login_failures := login_failures (working s) @ [r]\<rparr>\<rparr>"

definition save_admin :: "sources \<Rightarrow> admin_row \<Rightarrow> store \<Rightarrow> store" where
  "save_admin su r s = tick (s\<lparr>working := (working s)\<lparr>administrators :=
     row_save ad_id touch_admin (now su s) r (administrators (working s))\<rparr>\<rparr>)"

definition save_session :: "session_row \<Rightarrow> store \<Rightarrow> store" where
  "save_session r s = s\<lparr>working := (working s)\<lparr>auth_sessions :=
     row_save se_id touch_session 0 r (auth_sessions (working s))\<rparr>\<rparr>"

text \<open>\<open>DELETE FROM login_failures WHERE NOT keep\<close>.\<close>

definition keep_failures :: "(failure_row \<Rightarrow> bool) \<Rightarrow> store \<Rightarrow> store" where
  "keep_failures keep s = s\<lparr>working := (working s)\<lparr>login_failures := filter keep (login_failures (working s))\<rparr>\<rparr>"

section \<open>Sessions\<close>

definition second :: int where "second = 1000000"

definition administrator :: "db \<Rightarrow> admin_row option" where
  "administrator d = (case administrators d of [] \<Rightarrow> None | a # _ \<Rightarrow> Some a)"

definition remote_digest :: "crypto \<Rightarrow> string \<Rightarrow> string" where
  "remote_digest cr h = cr_digest cr (if h = [] then ''unknown'' else h)"

record authed =
  ah_admin :: admin_row
  ah_session :: session_row

definition authenticate_token :: "crypto \<Rightarrow> sources \<Rightarrow> string option \<Rightarrow> store \<Rightarrow> authed option \<times> store" where
  "authenticate_token cr su tok s =
     (case tok of None \<Rightarrow> (None, s)
      | Some t \<Rightarrow> if t = [] then (None, s)
          else (case List.find (\<lambda>r. se_token r = cr_digest cr t) (auth_sessions (working s)) of
              None \<Rightarrow> (None, s)
            | Some r \<Rightarrow> if se_revoked r \<noteq> None then (None, s)
                else if se_expires r \<le> now su s then (None, tick s)
                else (map_option (\<lambda>a. \<lparr>ah_admin = a, ah_session = r\<rparr>)
                        (row_get ad_id (se_admin r) (administrators (working s))), tick s)))"

definition auth_audit :: "sources \<Rightarrow> string \<Rightarrow> string \<Rightarrow> string \<Rightarrow> string \<Rightarrow> (string \<times> json) list \<Rightarrow> store \<Rightarrow> store" where
  "auth_audit su actor act result target details s =
     add_audit \<lparr>au_id = next_id su s, au_actor = actor, au_action = act, au_target_type = ''authentication'',
       au_target_id = target, au_result = result, au_details = JObj details, au_created = now su s\<rparr> (tick (draw s))"

definition setup_complete :: http_error where
  "setup_complete = HttpError 409 (DCode ''SETUP_COMPLETE'' ''Administrator setup is already complete'')"

text \<open>\<open>rival\<close>: another request committed an administrator first, so the unique key refuses ours.\<close>

definition create_administrator ::
    "crypto \<Rightarrow> sources \<Rightarrow> bool \<Rightarrow> string \<Rightarrow> string \<Rightarrow> store \<Rightarrow> (http_error + admin_row) \<times> store"
where
  "create_administrator cr su rival u p s =
     (if administrator (working s) \<noteq> None then (Inl setup_complete, s)
      else let a = \<lparr>ad_id = next_id su s, ad_singleton = 1, ad_username = u,
                    ad_hash = cr_hash cr (drawn (draw s)) p, ad_created = now su s, ad_updated = now su (tick s)\<rparr>;
               s1 = auth_audit su u ''auth.setup'' ''success'' (ad_id a) [] (tick (tick (draw (draw (add_admin a s)))))
           in if rival then (Inl setup_complete, rollback s1) else (Inr a, commit s1))"

text \<open>The session row with the two tokens handed to the client.\<close>

definition create_auth_session ::
    "settings \<Rightarrow> crypto \<Rightarrow> sources \<Rightarrow> admin_row \<Rightarrow> store \<Rightarrow> (session_row \<times> string \<times> string) \<times> store"
where
  "create_auth_session st cr su a s =
     (let tok = cr_token cr (drawn s); csrf = cr_token cr (drawn (draw s)); s1 = draw (draw s);
          r = \<lparr>se_id = next_id su s1, se_admin = ad_id a, se_token = cr_digest cr tok, se_csrf = cr_digest cr csrf,
               se_created = now su (tick s1), se_expires = now su s1 + auth_session_hours st * 3600 * second,
               se_revoked = None\<rparr>
      in ((r, tok, csrf), commit (add_session r (tick (tick (draw s1))))))"

definition rotate_csrf :: "crypto \<Rightarrow> session_row \<Rightarrow> store \<Rightarrow> string \<times> store" where
  "rotate_csrf cr r s =
     (let csrf = cr_token cr (drawn s)
      in (csrf, commit (save_session (r\<lparr>se_csrf := cr_digest cr csrf\<rparr>) (draw s))))"

record cookie =
  ck_value :: string
  ck_max_age :: int
  ck_secure :: bool

definition set_session_cookie :: "settings \<Rightarrow> sources \<Rightarrow> string \<Rightarrow> int \<Rightarrow> store \<Rightarrow> cookie \<times> store" where
  "set_session_cookie st su tok expires s =
     (\<lparr>ck_value = tok, ck_max_age = max 0 ((expires - now su s) div second), ck_secure = auth_cookie_secure st\<rparr>, tick s)"

definition clear_session_cookie :: "settings \<Rightarrow> cookie" where
  "clear_session_cookie st = \<lparr>ck_value = [], ck_max_age = 0, ck_secure = auth_cookie_secure st\<rparr>"

section \<open>Throttling and credentials\<close>

definition login_window :: "settings \<Rightarrow> int" where
  "login_window st = login_window_minutes st * 60 * second"

definition rate_limited :: "settings \<Rightarrow> crypto \<Rightarrow> sources \<Rightarrow> string \<Rightarrow> store \<Rightarrow> bool \<times> store" where
  "rate_limited st cr su remote s =
     (let cutoff = now su s - login_window st;
          s1 = commit (keep_failures (\<lambda>f. \<not> lf_at f < cutoff) (tick s));
          count = length (filter (\<lambda>f. lf_remote f = remote_digest cr remote \<and> cutoff \<le> lf_at f) (login_failures (working s1)))
      in (login_max_failures st \<le> int count, s1))"

definition record_login_failure :: "crypto \<Rightarrow> sources \<Rightarrow> string \<Rightarrow> string \<Rightarrow> store \<Rightarrow> store" where
  "record_login_failure cr su remote reason s =
     (let f = \<lparr>lf_id = next_id su s, lf_remote = remote_digest cr remote, lf_at = now su s\<rparr>
      in commit (auth_audit su ''anonymous'' ''auth.login'' ''failure'' ''administrator'' [(''reason'', JStr reason)]
           (tick (draw (add_failure f s)))))"

definition clear_login_failures :: "crypto \<Rightarrow> string \<Rightarrow> store \<Rightarrow> store" where
  "clear_login_failures cr remote s = commit (keep_failures (\<lambda>f. lf_remote f \<noteq> remote_digest cr remote) s)"

definition verify_credentials ::
    "crypto \<Rightarrow> sources \<Rightarrow> string \<Rightarrow> string \<Rightarrow> store \<Rightarrow> admin_row option \<times> store"
where
  "verify_credentials cr su u p s =
     (let adm = administrator (working s);
          cand = (case adm of Some a \<Rightarrow> if ad_username a = u then ad_hash a else cr_dummy cr | None \<Rightarrow> cr_dummy cr)
      in if \<not> cr_verify cr cand p then (None, s)
         else case adm of None \<Rightarrow> (None, s)
           | Some a \<Rightarrow>
               if ad_username a \<noteq> u then (None, s)
               else if cr_stale cr (ad_hash a)
               then (let a' = a\<lparr>ad_hash := cr_hash cr (drawn s) p\<rparr>
                     in (Some a', commit (save_admin su a' (draw s))))
               else (Some a, s))"

section \<open>The guard of the other handlers\<close>

definition auth_cookie_name :: string where
  "auth_cookie_name = ''machinedeck_session''"

definition session_token :: "request \<Rightarrow> string option" where
  "session_token rq = map_of (rq_cookies rq) auth_cookie_name"

definition require_http_auth ::
    "settings \<Rightarrow> crypto \<Rightarrow> sources \<Rightarrow> request \<Rightarrow> store \<Rightarrow> (http_error + authed) \<times> store"
where
  "require_http_auth st cr su rq s =
     (case authenticate_token cr su (session_token rq) s of
        (None, s1) \<Rightarrow> (Inl (HttpError 401 (DCode ''AUTHENTICATION_REQUIRED'' ''Authentication is required'')), s1)
      | (Some a, s1) \<Rightarrow>
          if rq_method rq \<in> {''GET'', ''HEAD'', ''OPTIONS''} then (Inr a, s1)
          else (case require_trusted_origin st (header rq ''origin'') True of
                  Inl e \<Rightarrow> (Inl e, s1)
                | Inr _ \<Rightarrow>
                    (case header rq ''X-CSRF-Token'' of
                       Some t \<Rightarrow> if t \<noteq> [] \<and> cr_digest cr t = se_csrf (ah_session a) then (Inr a, s1)
                                 else (Inl (HttpError 403 (DCode ''CSRF_INVALID'' ''A valid CSRF token is required'')), s1)
                     | None \<Rightarrow> (Inl (HttpError 403 (DCode ''CSRF_INVALID'' ''A valid CSRF token is required'')), s1))))"

text \<open>A WebSocket is closed with a code; \<open>up\<close> is False when the database raises an SQLAlchemyError.\<close>

definition authenticate_websocket ::
    "settings \<Rightarrow> crypto \<Rightarrow> sources \<Rightarrow> bool \<Rightarrow> request \<Rightarrow> store \<Rightarrow> (int + string) \<times> store"
where
  "authenticate_websocket st cr su up rq s =
     (if \<not> origin_is_trusted st (header rq ''origin'') then (Inl 4403, s)
      else if \<not> up then (Inl 1011, s)
      else (case authenticate_token cr su (session_token rq) s of
              (None, s1) \<Rightarrow> (Inl 4401, s1)
            | (Some a, s1) \<Rightarrow> (Inr (se_id (ah_session a)), s1)))"

definition websocket_session_active :: "sources \<Rightarrow> bool \<Rightarrow> string \<Rightarrow> store \<Rightarrow> bool" where
  "websocket_session_active su up k s \<longleftrightarrow> up \<and> (case row_get se_id k (auth_sessions (working s)) of
     None \<Rightarrow> False | Some r \<Rightarrow> se_revoked r = None \<and> now su s < se_expires r)"

section \<open>Handlers\<close>

record session_response =
  sr_username :: string
  sr_expires :: int
  sr_csrf :: string

definition api_auth_status :: "crypto \<Rightarrow> sources \<Rightarrow> request \<Rightarrow> store \<Rightarrow> (bool \<times> bool) \<times> store" where
  "api_auth_status cr su rq s =
     (case authenticate_token cr su (session_token rq) s of (a, s1) \<Rightarrow>
        ((administrator (working s) = None, a \<noteq> None), s1))"

definition open_session ::
    "settings \<Rightarrow> crypto \<Rightarrow> sources \<Rightarrow> admin_row \<Rightarrow> store \<Rightarrow> (session_response \<times> cookie) \<times> store"
where
  "open_session st cr su a s =
     (case create_auth_session st cr su a s of ((r, tok, csrf), s1) \<Rightarrow>
      (case set_session_cookie st su tok (se_expires r) s1 of (ck, s2) \<Rightarrow>
        ((\<lparr>sr_username = ad_username a, sr_expires = se_expires r, sr_csrf = csrf\<rparr>, ck), s2)))"

definition local_setup_required :: http_error where
  "local_setup_required = HttpError 403 (DCode ''LOCAL_SETUP_REQUIRED''
     (''Initial administrator setup is allowed only from this host. ''
      @ ''Open MachineDeck through 127.0.0.1 or localhost on the server.''))"

definition api_setup ::
    "settings \<Rightarrow> crypto \<Rightarrow> sources \<Rightarrow> bool \<Rightarrow> request \<Rightarrow> string \<Rightarrow> string \<Rightarrow> store
       \<Rightarrow> (http_error + session_response \<times> cookie) \<times> store"
where
  "api_setup st cr su rival rq u p s =
     (case request_network_context st rq of
        Inl e \<Rightarrow> (Inl e, s)
      | Inr nc \<Rightarrow>
          let o1 = header rq ''origin''
          in if \<not> is_loopback (Some (nc_peer nc)) \<or> \<not> is_loopback (Some (nc_client nc)) \<or> (o1 \<noteq> None \<and> \<not> origin_is_local o1)
             then (Inl local_setup_required, s)
             else (case require_trusted_origin st o1 True of
                     Inl e \<Rightarrow> (Inl e, s)
                   | Inr _ \<Rightarrow>
                       (case create_administrator cr su rival u p s of
                          (Inl e, s1) \<Rightarrow> (Inl e, s1)
                        | (Inr a, s1) \<Rightarrow> apfst Inr (open_session st cr su a s1))))"

definition login_failed :: http_error where
  "login_failed = HttpError 401 (DCode ''LOGIN_FAILED'' ''Invalid username or password'')"

definition login_rate_limited :: http_error where
  "login_rate_limited = HttpError 429 (DCode ''LOGIN_RATE_LIMITED'' ''Too many failed login attempts'')"

definition api_login ::
    "settings \<Rightarrow> crypto \<Rightarrow> sources \<Rightarrow> request \<Rightarrow> string \<Rightarrow> string \<Rightarrow> store
       \<Rightarrow> (http_error + session_response \<times> cookie) \<times> store"
where
  "api_login st cr su rq u p s =
     (case require_trusted_origin st (header rq ''origin'') True of
        Inl e \<Rightarrow> (Inl e, s)
      | Inr _ \<Rightarrow>
        (case request_network_context st rq of
           Inl e \<Rightarrow> (Inl e, s)
         | Inr nc \<Rightarrow>
             (case rate_limited st cr su (nc_client nc) s of
                (True, s1) \<Rightarrow>
                  (Inl login_rate_limited,
                   commit (auth_audit su ''anonymous'' ''auth.login'' ''failure'' ''administrator''
                             [(''reason'', JStr ''rate_limited'')] s1))
              | (False, s1) \<Rightarrow>
                  (case verify_credentials cr su u p s1 of
                     (None, s2) \<Rightarrow> (Inl login_failed, record_login_failure cr su (nc_client nc) ''invalid_credentials'' s2)
                   | (Some a, s2) \<Rightarrow>
                       apfst Inr (open_session st cr su a
                         (auth_audit su (ad_username a) ''auth.login'' ''success'' (ad_id a) []
                            (clear_login_failures cr (nc_client nc) s2)))))))"

definition api_session ::
    "settings \<Rightarrow> crypto \<Rightarrow> sources \<Rightarrow> request \<Rightarrow> store \<Rightarrow> (http_error + session_response) \<times> store"
where
  "api_session st cr su rq s =
     (case require_http_auth st cr su rq s of
        (Inl e, s1) \<Rightarrow> (Inl e, s1)
      | (Inr a, s1) \<Rightarrow>
          (case rotate_csrf cr (ah_session a) s1 of (csrf, s2) \<Rightarrow>
             (Inr \<lparr>sr_username = ad_username (ah_admin a), sr_expires = se_expires (ah_session a), sr_csrf = csrf\<rparr>, s2)))"

definition api_logout ::
    "settings \<Rightarrow> crypto \<Rightarrow> sources \<Rightarrow> request \<Rightarrow> store \<Rightarrow> (http_error + cookie) \<times> store"
where
  "api_logout st cr su rq s =
     (case require_http_auth st cr su rq s of
        (Inl e, s1) \<Rightarrow> (Inl e, s1)
      | (Inr a, s1) \<Rightarrow>
          (Inr (clear_session_cookie st),
           commit (auth_audit su (ad_username (ah_admin a)) ''auth.logout'' ''success'' (ad_id (ah_admin a)) []
             (save_session ((ah_session a)\<lparr>se_revoked := Some (now su s1)\<rparr>) (tick s1)))))"

section \<open>Frame lemmas\<close>

lemma auth_table_simps [simp, frame_simps]:
  "working (add_admin a s) = (working s)\<lparr>administrators := administrators (working s) @ [a]\<rparr>"
  "working (add_session r s) = (working s)\<lparr>auth_sessions := auth_sessions (working s) @ [r]\<rparr>"
  "working (add_failure f s) = (working s)\<lparr>login_failures := login_failures (working s) @ [f]\<rparr>"
  "working (save_admin su a s) = (working s)\<lparr>administrators :=
     row_save ad_id touch_admin (now su s) a (administrators (working s))\<rparr>"
  "working (save_session r s) = (working s)\<lparr>auth_sessions :=
     row_save se_id touch_session 0 r (auth_sessions (working s))\<rparr>"
  "working (keep_failures P s) = (working s)\<lparr>login_failures := filter P (login_failures (working s))\<rparr>"
  "committed (add_admin a s) = committed s" "committed (add_session r s) = committed s"
  "committed (add_failure f s) = committed s" "committed (save_admin su a s) = committed s"
  "committed (save_session r s) = committed s" "committed (keep_failures P s) = committed s"
  by (simp_all add: add_admin_def add_session_def add_failure_def save_admin_def save_session_def keep_failures_def)

lemma supply_simps [simp, frame_simps]:
  "drawn (tick s) = drawn s" "ticks (tick s) = Suc (ticks s)" "drawn (draw s) = Suc (drawn s)" "ticks (draw s) = ticks s"
  "drawn (add_audit u s) = drawn s" "ticks (add_audit u s) = ticks s"
  "drawn (add_admin a s) = drawn s" "ticks (add_admin a s) = ticks s"
  "drawn (add_session r s) = drawn s" "ticks (add_session r s) = ticks s"
  "drawn (add_failure f s) = drawn s" "ticks (add_failure f s) = ticks s"
  "drawn (save_session r s) = drawn s" "ticks (save_session r s) = ticks s"
  "drawn (save_admin su a s) = drawn s" "ticks (save_admin su a s) = Suc (ticks s)"
  "drawn (keep_failures P s) = drawn s" "ticks (keep_failures P s) = ticks s"
  by (simp_all add: tick_def draw_def add_audit_def add_admin_def add_session_def add_failure_def
      save_session_def save_admin_def keep_failures_def)

lemma auth_audit_simps [simp, frame_simps]:
  "administrators (working (auth_audit su a b c d e s)) = administrators (working s)"
  "auth_sessions (working (auth_audit su a b c d e s)) = auth_sessions (working s)"
  "login_failures (working (auth_audit su a b c d e s)) = login_failures (working s)"
  "committed (auth_audit su a b c d e s) = committed s"
  "drawn (auth_audit su a b c d e s) = Suc (drawn s)" "ticks (auth_audit su a b c d e s) = Suc (ticks s)"
  by (simp_all add: auth_audit_def)

section \<open>The invariant\<close>

text \<open>The supplies never repeat a value: what \<open>uuid4\<close>, \<open>token_urlsafe\<close> and SHA-256 promise.\<close>

definition random_ok :: "crypto \<Rightarrow> sources \<Rightarrow> bool" where
  "random_ok cr su \<longleftrightarrow> inj (fresh su) \<and> inj (\<lambda>i. cr_digest cr (cr_token cr i)) \<and> (\<forall>i. cr_token cr i \<noteq> [])
     \<and> mono (clock su)"

definition sessions_ok :: "crypto \<Rightarrow> sources \<Rightarrow> nat \<Rightarrow> db \<Rightarrow> bool" where
  "sessions_ok cr su n d \<longleftrightarrow> length (administrators d) \<le> 1
     \<and> distinct (map se_id (auth_sessions d)) \<and> distinct (map se_token (auth_sessions d))
     \<and> se_admin ` set (auth_sessions d) \<subseteq> ad_id ` set (administrators d)
     \<and> se_id ` set (auth_sessions d) \<subseteq> fresh su ` {..<n}
     \<and> se_token ` set (auth_sessions d) \<subseteq> (\<lambda>i. cr_digest cr (cr_token cr i)) ` {..<n}"

text \<open>The failed logins of one remote in a window of the given length from \<open>x\<close> on.\<close>

definition failures_from :: "string \<Rightarrow> int \<Rightarrow> int \<Rightarrow> failure_row list \<Rightarrow> failure_row list" where
  "failures_from key x w fs = filter (\<lambda>f. lf_remote f = key \<and> x \<le> lf_at f \<and> lf_at f \<le> x + w) fs"

definition throttled :: "settings \<Rightarrow> sources \<Rightarrow> nat \<Rightarrow> failure_row list \<Rightarrow> bool" where
  "throttled st su t fs \<longleftrightarrow> (\<forall>f\<in>set fs. lf_at f \<le> clock su t)
     \<and> (\<forall>key x. int (length (failures_from key x (login_window st) fs)) \<le> max 0 (login_max_failures st))"

definition auth_inv :: "settings \<Rightarrow> crypto \<Rightarrow> sources \<Rightarrow> nat \<Rightarrow> nat \<Rightarrow> db \<Rightarrow> bool" where
  "auth_inv st cr su n t d \<longleftrightarrow> sessions_ok cr su n d \<and> throttled st su t (login_failures d)"

definition auth_ok :: "settings \<Rightarrow> crypto \<Rightarrow> sources \<Rightarrow> store \<Rightarrow> bool" where
  "auth_ok st cr su s \<longleftrightarrow> random_ok cr su
     \<and> auth_inv st cr su (drawn s) (ticks s) (working s) \<and> auth_inv st cr su (drawn s) (ticks s) (committed s)"

lemma sessions_ok_mono: "sessions_ok cr su n d \<Longrightarrow> n \<le> m \<Longrightarrow> sessions_ok cr su m d"
  unfolding sessions_ok_def by (auto intro: subset_trans [OF _ image_mono])

lemma throttled_mono: "throttled st su t fs \<Longrightarrow> mono (clock su) \<Longrightarrow> t \<le> u \<Longrightarrow> throttled st su u fs"
  unfolding throttled_def by (auto dest!: monoD [of "clock su" t u])

lemma auth_inv_mono:
  "auth_inv st cr su n t d \<Longrightarrow> random_ok cr su \<Longrightarrow> n \<le> m \<Longrightarrow> t \<le> u \<Longrightarrow> auth_inv st cr su m u d"
  unfolding auth_inv_def random_ok_def by (auto intro: sessions_ok_mono throttled_mono)

lemma auth_inv_cong:
  "administrators d = administrators e \<Longrightarrow> auth_sessions d = auth_sessions e \<Longrightarrow> login_failures d = login_failures e
     \<Longrightarrow> auth_inv st cr su n t d = auth_inv st cr su n t e"
  by (simp add: auth_inv_def sessions_ok_def)

text \<open>How an operation keeps \<open>auth_ok\<close>: only its own change of the working copy needs an argument.\<close>

lemma auth_ok_step:
  assumes "auth_ok st cr su s" "drawn s \<le> drawn s'" "ticks s \<le> ticks s'"
    and "committed s' \<in> {committed s, working s'}"
    and "auth_inv st cr su (drawn s') (ticks s') (working s')"
  shows "auth_ok st cr su s'"
  using assms auth_inv_mono [OF _ _ assms(2,3)] unfolding auth_ok_def by auto

lemma auth_ok_keep:
  assumes "auth_ok st cr su s" "drawn s \<le> drawn s'" "ticks s \<le> ticks s'"
    and "committed s' \<in> {committed s, working s'}"
    and "administrators (working s') = administrators (working s)" "auth_sessions (working s') = auth_sessions (working s)"
      "login_failures (working s') = login_failures (working s)"
  shows "auth_ok st cr su s'"
  using auth_ok_step [OF assms(1-4)] auth_inv_mono [OF _ _ assms(2,3)] assms(1) auth_inv_cong [OF assms(5-7)]
  unfolding auth_ok_def by blast

lemma failures_filter: "length (failures_from key x w (filter P fs)) \<le> length (failures_from key x w fs)"
  by (induction fs) (auto simp: failures_from_def)

lemma throttled_filter: "throttled st su t fs \<Longrightarrow> throttled st su t (filter P fs)"
  unfolding throttled_def by (auto intro: order_trans [OF of_nat_mono [OF failures_filter]])

lemma auth_ok_keep_failures: "auth_ok st cr su s \<Longrightarrow> auth_ok st cr su (keep_failures P s)"
  by (rule auth_ok_step) (auto simp: auth_ok_def auth_inv_def sessions_ok_def throttled_filter)

lemma auth_ok_supply [simp]:
  "auth_ok st cr su s \<Longrightarrow> auth_ok st cr su (tick s)" "auth_ok st cr su s \<Longrightarrow> auth_ok st cr su (draw s)"
  "auth_ok st cr su s \<Longrightarrow> auth_ok st cr su (commit s)" "auth_ok st cr su s \<Longrightarrow> auth_ok st cr su (rollback s)"
  "auth_ok st cr su s \<Longrightarrow> auth_ok st cr su (auth_audit su a b c d e s)"
  by (auto intro: auth_ok_keep) (simp add: auth_ok_def)

lemma auth_ok_random: "auth_ok st cr su s \<Longrightarrow> random_ok cr su"
  by (simp add: auth_ok_def)

section \<open>What each operation keeps\<close>

text \<open>A token whose session row is revoked.\<close>

definition revoked_token :: "crypto \<Rightarrow> string \<Rightarrow> db \<Rightarrow> bool" where
  "revoked_token cr t d \<longleftrightarrow> (\<exists>r\<in>set (auth_sessions d). se_token r = cr_digest cr t \<and> se_revoked r \<noteq> None)"

definition sound_step :: "settings \<Rightarrow> crypto \<Rightarrow> sources \<Rightarrow> store \<Rightarrow> store \<Rightarrow> bool" where
  "sound_step st cr su s s' \<longleftrightarrow> auth_ok st cr su s' \<and> (committed s = working s \<longrightarrow> committed s' = working s')
     \<and> (\<forall>t. revoked_token cr t (working s) \<longrightarrow> revoked_token cr t (working s'))"

lemma sound_refl: "auth_ok st cr su s \<Longrightarrow> sound_step st cr su s s"
  by (simp add: sound_step_def)

lemma sound_trans: "sound_step st cr su s s1 \<Longrightarrow> sound_step st cr su s1 s2 \<Longrightarrow> sound_step st cr su s s2"
  by (simp add: sound_step_def)

lemma sound_ok: "sound_step st cr su s s' \<Longrightarrow> auth_ok st cr su s'"
  by (simp add: sound_step_def)

lemma revoked_cong: "auth_sessions d = auth_sessions e \<Longrightarrow> revoked_token cr t d = revoked_token cr t e"
  by (simp add: revoked_token_def)

lemma sound_keep:
  assumes "auth_ok st cr su s'" "auth_sessions (working s') = auth_sessions (working s)"
    and "committed s' = working s' \<or> (working s' = working s \<and> committed s' = committed s)"
  shows "sound_step st cr su s s'"
  using assms by (auto simp: sound_step_def revoked_token_def)

lemma authenticate_spec:
  assumes "authenticate_token cr su tok s = (a, s')"
  shows "working s' = working s \<and> committed s' = committed s \<and> drawn s' = drawn s \<and> ticks s \<le> ticks s'
    \<and> (\<forall>h. a = Some h \<longrightarrow> (\<exists>t. tok = Some t \<and> se_token (ah_session h) = cr_digest cr t)
         \<and> ah_session h \<in> set (auth_sessions (working s)) \<and> se_revoked (ah_session h) = None
         \<and> now su s < se_expires (ah_session h)
         \<and> ah_admin h \<in> set (administrators (working s)) \<and> ad_id (ah_admin h) = se_admin (ah_session h))"
proof -
  have p: "authenticate_token cr su tok s = (a, s')" by (rule assms)
  show ?thesis
  proof (cases "\<exists>t r. tok = Some t \<and> t \<noteq> [] \<and> List.find (\<lambda>r. se_token r = cr_digest cr t) (auth_sessions (working s)) = Some r
      \<and> se_revoked r = None \<and> now su s < se_expires r")
    case False
    then have "a = None \<and> (s' = s \<or> s' = tick s)"
      using p by (auto simp: authenticate_token_def split: option.splits if_splits)
    then show ?thesis by auto
  next
    case True
    then obtain t r where t: "tok = Some t" "t \<noteq> []" and
      f: "List.find (\<lambda>r. se_token r = cr_digest cr t) (auth_sessions (working s)) = Some r" and
      r: "se_revoked r = None" "now su s < se_expires r" by blast
    have e: "s' = tick s" "a = map_option (\<lambda>a. \<lparr>ah_admin = a, ah_session = r\<rparr>)
        (row_get ad_id (se_admin r) (administrators (working s)))"
      using p t f r by (auto simp: authenticate_token_def)
    have "r \<in> set (auth_sessions (working s)) \<and> se_token r = cr_digest cr t" by (rule find_SomeD [OF f])
    then show ?thesis using e t r by (auto dest: row_get_Some)
  qed
qed

lemma authenticate_sound:
  assumes "authenticate_token cr su tok s = (a, s')" "auth_ok st cr su s"
  shows "sound_step st cr su s s'"
  using authenticate_spec [OF assms(1)] assms(2) by (intro sound_keep auth_ok_keep [OF assms(2)]) auto

lemma auth_ok_sessions: "auth_ok st cr su s \<Longrightarrow> sessions_ok cr su (drawn s) (working s)"
  by (simp add: auth_ok_def auth_inv_def)

lemma auth_ok_throttled: "auth_ok st cr su s \<Longrightarrow> throttled st su (ticks s) (login_failures (working s))"
  by (simp add: auth_ok_def auth_inv_def)

lemma create_administrator_sound:
  assumes e: "create_administrator cr su rival u p s = (res, s')" and ok: "auth_ok st cr su s"
  shows "sound_step st cr su s s' \<and> (\<forall>a. res = Inr a \<longrightarrow> administrators (working s) = []
    \<and> administrators (working s') = [a] \<and> ad_username a = u \<and> auth_sessions (working s') = auth_sessions (working s))"
proof (cases "administrators (working s) = []")
  case False
  then have "res = Inl setup_complete \<and> s' = s"
    using e by (auto simp: create_administrator_def administrator_def split: list.splits)
  then show ?thesis using sound_refl [OF ok] by simp
next
  case True
  have S: "sessions_ok cr su (drawn s) (working s)" by (rule auth_ok_sessions [OF ok])
  then have empty: "auth_sessions (working s) = []" using True by (simp add: sessions_ok_def)
  define a where "a = \<lparr>ad_id = next_id su s, ad_singleton = 1, ad_username = u,
      ad_hash = cr_hash cr (drawn (draw s)) p, ad_created = now su s, ad_updated = now su (tick s)\<rparr>"
  define s1 where "s1 = auth_audit su u ''auth.setup'' ''success'' (ad_id a) [] (tick (tick (draw (draw (add_admin a s)))))"
  have c: "create_administrator cr su rival u p s = (if rival then (Inl setup_complete, rollback s1) else (Inr a, commit s1))"
    using True by (simp add: create_administrator_def administrator_def a_def s1_def Let_def)
  have w: "administrators (working s1) = [a]" "auth_sessions (working s1) = []"
    "login_failures (working s1) = login_failures (working s)" "committed s1 = committed s"
    "drawn s \<le> drawn s1" "ticks s \<le> ticks s1"
    using True empty by (simp_all add: s1_def)
  have "throttled st su (ticks s1) (login_failures (working s))"
    using throttled_mono [OF auth_ok_throttled [OF ok] _ w(6)] auth_ok_random [OF ok] by (simp add: random_ok_def)
  then have inv: "auth_inv st cr su (drawn s1) (ticks s1) (working s1)"
    using w by (simp add: auth_inv_def sessions_ok_def)
  have ok1: "auth_ok st cr su s1" by (rule auth_ok_step [OF ok w(5,6) _ inv]) (simp add: w)
  show ?thesis
  proof (cases rival)
    case True
    have "sound_step st cr su s (rollback s1)"
      using ok1 w(4) by (auto simp: sound_step_def revoked_token_def empty)
    then show ?thesis using c e True by auto
  next
    case False
    have "sound_step st cr su s (commit s1)"
      using ok1 w(2) empty by (intro sound_keep) auto
    then show ?thesis using c e False w True empty by (auto simp: a_def)
  qed
qed

lemma create_auth_session_sound:
  assumes e: "create_auth_session st cr su a s = ((r, tok, csrf), s')" and ok: "auth_ok st cr su s"
    and a: "ad_id a \<in> ad_id ` set (administrators (working s))"
  shows "auth_ok st cr su s' \<and> committed s' = working s' \<and> auth_sessions (working s') = auth_sessions (working s) @ [r]
    \<and> administrators (working s') = administrators (working s)
    \<and> tok \<noteq> [] \<and> csrf \<noteq> [] \<and> se_token r = cr_digest cr tok \<and> se_csrf r = cr_digest cr csrf
    \<and> se_revoked r = None \<and> se_admin r = ad_id a \<and> cr_digest cr tok \<notin> se_token ` set (auth_sessions (working s))"
proof -
  have s': "s' = commit (add_session r (tick (tick (draw (draw (draw s))))))"
    and tok: "tok = cr_token cr (drawn s)" "csrf = cr_token cr (Suc (drawn s))"
    and r: "se_id r = fresh su (drawn s + 2)" "se_token r = cr_digest cr tok" "se_csrf r = cr_digest cr csrf"
      "se_revoked r = None" "se_admin r = ad_id a"
    using e by (auto simp: create_auth_session_def Let_def next_id_def)
  have S: "sessions_ok cr su (drawn s) (working s)" by (rule auth_ok_sessions [OF ok])
  have R: "random_ok cr su" by (rule auth_ok_random [OF ok])
  have new1: "cr_digest cr tok \<notin> se_token ` set (auth_sessions (working s))"
  proof
    assume "cr_digest cr tok \<in> se_token ` set (auth_sessions (working s))"
    then obtain i where "cr_digest cr tok = cr_digest cr (cr_token cr i)" "i < drawn s"
      using S by (auto simp: sessions_ok_def)
    then have "drawn s = i" using R unfolding tok random_ok_def by (auto dest: injD)
    then show False using \<open>i < drawn s\<close> by simp
  qed
  have new2: "se_id r \<notin> se_id ` set (auth_sessions (working s))"
  proof
    assume "se_id r \<in> se_id ` set (auth_sessions (working s))"
    then obtain i where "fresh su (drawn s + 2) = fresh su i" "i < drawn s"
      using S r(1) by (auto simp: sessions_ok_def)
    then show False using R by (auto simp: random_ok_def dest: injD)
  qed
  have mono: "drawn s \<le> drawn s'" "ticks s \<le> ticks s'" by (simp_all add: s')
  have S1: "sessions_ok cr su (drawn s') (working s)" by (rule sessions_ok_mono [OF S mono(1)])
  have "se_id r \<in> fresh su ` {..<drawn s'}" "se_token r \<in> (\<lambda>i. cr_digest cr (cr_token cr i)) ` {..<drawn s'}"
    using r tok by (auto simp: s')
  then have "sessions_ok cr su (drawn s') (working s')"
    using S1 new1 new2 r a by (auto simp: sessions_ok_def s')
  moreover have "throttled st su (ticks s') (login_failures (working s'))"
    using throttled_mono [OF auth_ok_throttled [OF ok] _ mono(2)] R by (simp add: random_ok_def s')
  ultimately have "auth_ok st cr su s'" by (intro auth_ok_step [OF ok mono]) (simp_all add: auth_inv_def s')
  then show ?thesis using new1 r R tok by (simp add: s' random_ok_def)
qed

lemma save_session_map:
  assumes "distinct (map se_id xs)" "r \<in> set xs" "se_id r' = se_id r" "g r' = g r"
  shows "map g (row_save se_id touch_session 0 r' xs) = map g xs"
proof -
  have "g (if se_id x = se_id r' \<and> x \<noteq> r' then touch_session 0 r' else x) = g x" if "x \<in> set xs" for x
  proof (cases "se_id x = se_id r'")
    case True
    then have "x = r" using assms that by (auto simp: distinct_map inj_on_def)
    then show ?thesis using assms(4) by (simp add: touch_session_def)
  qed simp
  then show ?thesis by (simp add: row_save_def)
qed

lemma save_session_other:
  "x \<in> set xs \<Longrightarrow> se_id x \<noteq> se_id r' \<Longrightarrow> x \<in> set (row_save se_id touch_session 0 r' xs)"
  by (force simp: row_save_def)

lemma save_session_self:
  assumes "r \<in> set xs" "se_id r' = se_id r"
  shows "r' \<in> set (row_save se_id touch_session 0 r' xs)"
proof -
  have "(if se_id r = se_id r' \<and> r \<noteq> r' then touch_session 0 r' else r) \<in> set (row_save se_id touch_session 0 r' xs)"
    unfolding row_save_def set_map by (rule imageI [OF assms(1)])
  then show ?thesis using assms(2) by (simp add: touch_session_def split: if_splits)
qed

lemma save_session_sound:
  assumes ok: "auth_ok st cr su s" and r: "r \<in> set (auth_sessions (working s))" "se_revoked r = None"
    and r': "se_id r' = se_id r" "se_token r' = se_token r" "se_admin r' = se_admin r"
  shows "auth_ok st cr su (save_session r' s)"
    and "revoked_token cr t (working s) \<Longrightarrow> revoked_token cr t (working (save_session r' s))"
proof -
  let ?xs = "auth_sessions (working s)" and ?ys = "row_save se_id touch_session 0 r' (auth_sessions (working s))"
  have S: "sessions_ok cr su (drawn s) (working s)" by (rule auth_ok_sessions [OF ok])
  then have d: "distinct (map se_id ?xs)" by (simp add: sessions_ok_def)
  have m: "map se_id ?ys = map se_id ?xs" "map se_token ?ys = map se_token ?xs" "map se_admin ?ys = map se_admin ?xs"
    by (rule save_session_map [OF d r(1) r'(1)], use r' in simp)+
  then have i: "se_id ` set ?ys = se_id ` set ?xs" "se_token ` set ?ys = se_token ` set ?xs" "se_admin ` set ?ys = se_admin ` set ?xs"
    by (metis list.set_map)+
  have "sessions_ok cr su (drawn s) (working (save_session r' s))"
    using S by (simp add: sessions_ok_def m i)
  then show "auth_ok st cr su (save_session r' s)"
    using auth_ok_throttled [OF ok] by (intro auth_ok_step [OF ok]) (simp_all add: auth_inv_def)
  assume "revoked_token cr t (working s)"
  then obtain x where x: "x \<in> set ?xs" "se_token x = cr_digest cr t" "se_revoked x \<noteq> None" by (auto simp: revoked_token_def)
  have "se_id x \<noteq> se_id r'"
  proof
    assume "se_id x = se_id r'"
    then have "x = r" using d x(1) r(1) r'(1) by (auto simp: distinct_map inj_on_def)
    then show False using x(3) r(2) by simp
  qed
  then have "x \<in> set ?ys" by (rule save_session_other [OF x(1)])
  then show "revoked_token cr t (working (save_session r' s))" using x by (auto simp: revoked_token_def)
qed

lemma rotate_csrf_sound:
  assumes "rotate_csrf cr r s = (csrf, s')" "auth_ok st cr su s" "r \<in> set (auth_sessions (working s))" "se_revoked r = None"
  shows "sound_step st cr su s s'"
proof -
  have s': "s' = commit (save_session (r\<lparr>se_csrf := cr_digest cr csrf\<rparr>) (draw s))"
    using assms(1) by (auto simp: rotate_csrf_def Let_def)
  have "auth_ok st cr su (draw s)" using assms(2) by simp
  then show ?thesis unfolding s'
    using save_session_sound [of st cr su "draw s" r "r\<lparr>se_csrf := cr_digest cr csrf\<rparr>"] assms(3,4)
    by (auto simp: sound_step_def)
qed

section \<open>Throttling\<close>

lemma rate_limited_spec:
  assumes e: "rate_limited st cr su remote s = (b, s')" and ok: "auth_ok st cr su s"
  shows "sound_step st cr su s s' \<and> auth_sessions (working s') = auth_sessions (working s)
    \<and> administrators (working s') = administrators (working s) \<and> ticks s' = Suc (ticks s)
    \<and> committed s' = working s' \<and> login_failures (working s')
        = filter (\<lambda>f. now su s - login_window st \<le> lf_at f) (login_failures (working s))
    \<and> (b \<longleftrightarrow> login_max_failures st \<le> int (length (filter (\<lambda>f. lf_remote f = remote_digest cr remote)
          (login_failures (working s')))))"
proof -
  have s': "s' = commit (keep_failures (\<lambda>f. \<not> lf_at f < now su s - login_window st) (tick s))"
    using e by (auto simp: rate_limited_def Let_def)
  have f: "login_failures (working s') = filter (\<lambda>f. now su s - login_window st \<le> lf_at f) (login_failures (working s))"
    by (simp add: s' not_less)
  have b: "b \<longleftrightarrow> login_max_failures st \<le> int (length (filter (\<lambda>f. lf_remote f = remote_digest cr remote)
          (login_failures (working s'))))"
  proof -
    have c: "filter (\<lambda>f. P f \<and> Q f \<and> P f) fs = filter (\<lambda>f. P f \<and> Q f) fs" for P Q and fs :: "failure_row list"
      by (rule filter_cong) auto
    show ?thesis using e by (auto simp: rate_limited_def Let_def not_less c)
  qed
  have "auth_ok st cr su s'" unfolding s' by (intro auth_ok_supply auth_ok_keep_failures ok)
  then have "sound_step st cr su s s'" by (rule sound_keep) (simp_all add: s')
  then show ?thesis using b f by (simp add: s' not_less)
qed

lemma throttled_record:
  assumes th: "throttled st su t fs" and mono: "mono (clock su)" "t \<le> u" "t0 \<le> u"
    and fs: "fs = filter (\<lambda>f. clock su t0 - login_window st \<le> lf_at f) gs"
    and few: "int (length (filter (\<lambda>f. lf_remote f = lf_remote f0) fs)) < login_max_failures st"
    and at: "lf_at f0 = clock su u"
  shows "throttled st su (Suc u) (fs @ [f0])"
  unfolding throttled_def
proof (intro conjI ballI allI)
  fix f assume "f \<in> set (fs @ [f0])"
  moreover have "clock su t \<le> clock su u" "clock su u \<le> clock su (Suc u)" using mono by (auto simp: monoD)
  ultimately show "lf_at f \<le> clock su (Suc u)" using th at by (force simp: throttled_def)
next
  fix key x
  have le: "int (length (failures_from key x (login_window st) fs)) \<le> max 0 (login_max_failures st)"
    using th by (simp add: throttled_def)
  show "int (length (failures_from key x (login_window st) (fs @ [f0]))) \<le> max 0 (login_max_failures st)"
  proof (cases "lf_remote f0 = key \<and> x \<le> lf_at f0 \<and> lf_at f0 \<le> x + login_window st")
    case False
    then have "failures_from key x (login_window st) (fs @ [f0]) = failures_from key x (login_window st) fs"
      by (auto simp: failures_from_def)
    then show ?thesis using le by simp
  next
    case True
    have "length (failures_from key x (login_window st) fs) \<le> length (filter (\<lambda>f. lf_remote f = lf_remote f0) fs)"
      using True unfolding failures_from_def by (induction fs) auto
    then show ?thesis using few True by (simp add: failures_from_def)
  qed
qed

section \<open>The handlers\<close>

lemma clear_failures_sound: "auth_ok st cr su s \<Longrightarrow> sound_step st cr su s (clear_login_failures cr remote s)"
  unfolding clear_login_failures_def
  by (rule sound_keep) (simp_all add: auth_ok_keep_failures)

lemma administrator_mem: "administrator d = Some a \<Longrightarrow> a \<in> set (administrators d)"
  by (auto simp: administrator_def split: list.splits)

lemma verify_spec:
  assumes e: "verify_credentials cr su u p s = (res, s')" and ok: "auth_ok st cr su s"
  shows "sound_step st cr su s s' \<and> auth_sessions (working s') = auth_sessions (working s)
    \<and> login_failures (working s') = login_failures (working s) \<and> ticks s \<le> ticks s'
    \<and> (\<forall>a. res = Some a \<longrightarrow> ad_id a \<in> ad_id ` set (administrators (working s')) \<and> ad_username a = u
         \<and> (\<exists>a0. administrator (working s) = Some a0 \<and> ad_username a0 = u \<and> cr_verify cr (ad_hash a0) p))
    \<and> map ad_username (administrators (working s')) = map ad_username (administrators (working s))
    \<and> (res = None \<longrightarrow> s' = s)"
proof (cases "\<exists>a. administrator (working s) = Some a \<and> ad_username a = u \<and> cr_verify cr (ad_hash a) p")
  case False
  then have "res = None \<and> s' = s"
    using e by (auto simp: verify_credentials_def Let_def split: option.splits if_splits)
  then show ?thesis using sound_refl [OF ok] by simp
next
  case True
  then obtain a where a: "administrator (working s) = Some a" "ad_username a = u" "cr_verify cr (ad_hash a) p" by blast
  show ?thesis
  proof (cases "cr_stale cr (ad_hash a)")
    case False
    then have "res = Some a \<and> s' = s" using e a by (simp add: verify_credentials_def)
    then show ?thesis using sound_refl [OF ok] a administrator_mem [OF a(1)] by auto
  next
    case True
    define a' where "a' = a\<lparr>ad_hash := cr_hash cr (drawn s) p\<rparr>"
    have r: "res = Some a'" "s' = commit (save_admin su a' (draw s))"
      using e a True by (auto simp: verify_credentials_def a'_def Let_def)
    have "administrators (working s) = [a]"
      using auth_ok_sessions [OF ok] a(1) by (auto simp: sessions_ok_def administrator_def split: list.splits)
    then have names: "map ad_username (administrators (working s')) = map ad_username (administrators (working s))"
      by (simp add: r row_save_def a'_def touch_admin_def)
    have keys: "ad_id ` set (administrators (working s')) = ad_id ` set (administrators (working s))"
      "length (administrators (working s')) = length (administrators (working s))"
      by (simp add: r, simp add: r row_save_def)
    have S: "sessions_ok cr su (drawn s') (working s)"
      using sessions_ok_mono [OF auth_ok_sessions [OF ok]] by (simp add: r)
    have th: "throttled st su (ticks s') (login_failures (working s))"
      using throttled_mono [OF auth_ok_throttled [OF ok]] auth_ok_random [OF ok] by (simp add: r random_ok_def)
    have ss: "auth_sessions (working s') = auth_sessions (working s)" "login_failures (working s') = login_failures (working s)"
      by (simp_all add: r)
    have "auth_ok st cr su s'"
      using S th keys ss by (intro auth_ok_step [OF ok]) (simp_all add: auth_inv_def sessions_ok_def r)
    then have "sound_step st cr su s s'" by (rule sound_keep) (simp_all add: r)
    moreover have "ad_id a' \<in> ad_id ` set (administrators (working s'))"
      using administrator_mem [OF a(1)] keys by (auto simp: a'_def)
    ultimately show ?thesis using a ss r names by (auto simp: a'_def)
  qed
qed

lemma open_session_sound:
  assumes e: "open_session st cr su a s = ((resp, ck), s')" and ok: "auth_ok st cr su s"
    and a: "ad_id a \<in> ad_id ` set (administrators (working s))"
  shows "sound_step st cr su s s' \<and> committed s' = working s' \<and> sr_username resp = ad_username a
    \<and> (\<exists>r. auth_sessions (working s') = auth_sessions (working s) @ [r]
        \<and> administrators (working s') = administrators (working s)
        \<and> ck_value ck \<noteq> [] \<and> sr_csrf resp \<noteq> [] \<and> se_token r = cr_digest cr (ck_value ck)
        \<and> se_csrf r = cr_digest cr (sr_csrf resp) \<and> se_revoked r = None \<and> se_admin r = ad_id a
        \<and> se_expires r = sr_expires resp \<and> cr_digest cr (ck_value ck) \<notin> se_token ` set (auth_sessions (working s)))"
proof -
  obtain r tok csrf s1 where c: "create_auth_session st cr su a s = ((r, tok, csrf), s1)"
    by (metis prod.collapse)
  note C = create_auth_session_sound [OF c ok a]
  have s': "s' = tick s1" "resp = \<lparr>sr_username = ad_username a, sr_expires = se_expires r, sr_csrf = csrf\<rparr>" "ck_value ck = tok"
    using e c by (auto simp: open_session_def set_session_cookie_def)
  have "sound_step st cr su s s'"
    using C by (auto simp: sound_step_def s' revoked_token_def)
  then show ?thesis using C s' by auto
qed

lemma require_http_auth_spec:
  assumes e: "require_http_auth st cr su rq s = (res, s')" and ok: "auth_ok st cr su s"
  shows "sound_step st cr su s s' \<and> working s' = working s
    \<and> (\<forall>h. res = Inr h \<longrightarrow> ah_session h \<in> set (auth_sessions (working s)) \<and> se_revoked (ah_session h) = None
        \<and> ah_admin h \<in> set (administrators (working s)))"
proof -
  obtain a s1 where a: "authenticate_token cr su (session_token rq) s = (a, s1)" by fastforce
  have "s' = s1 \<and> (\<forall>h. res = Inr h \<longrightarrow> a = Some h)"
    using e a by (auto simp: require_http_auth_def split: option.splits if_splits sum.splits)
  then show ?thesis using authenticate_sound [OF a ok] authenticate_spec [OF a] by blast
qed

lemma api_setup_sound:
  assumes e: "api_setup st cr su rival rq u p s = (res, s')" and ok: "auth_ok st cr su s"
  shows "sound_step st cr su s s'"
proof (cases "\<exists>a s1. create_administrator cr su rival u p s = (Inr a, s1) \<and> res \<in> range Inr \<and> apfst Inr (open_session st cr su a s1) = (res, s')")
  case True
  then obtain a s1 where c: "create_administrator cr su rival u p s = (Inr a, s1)" "apfst Inr (open_session st cr su a s1) = (res, s')"
    by blast
  note C = create_administrator_sound [OF c(1) ok]
  obtain resp ck s2 where o1: "open_session st cr su a s1 = ((resp, ck), s2)" by (metis prod.collapse)
  have "s2 = s'" using c(2) o1 by simp
  moreover have "sound_step st cr su s1 s2" using C by (intro open_session_sound [OF o1, THEN conjunct1]) (auto dest: sound_ok)
  ultimately show ?thesis using C sound_trans by blast
next
  case False
  obtain r1 s1 where c: "create_administrator cr su rival u p s = (r1, s1)" by fastforce
  have "s' = s \<or> s' = s1"
    using e c False by (auto simp: api_setup_def Let_def apfst_def map_prod_def split: sum.splits if_splits prod.splits)
  then show ?thesis using create_administrator_sound [OF c ok] sound_refl [OF ok] by blast
qed

lemma record_failure_sound:
  assumes e: "rate_limited st cr su remote s = (False, s1)" and ok: "auth_ok st cr su s"
  shows "sound_step st cr su s1 (record_login_failure cr su remote reason s1)"
proof -
  note L = rate_limited_spec [OF e ok]
  have ok1: "auth_ok st cr su s1" using L sound_ok by blast
  define f where "f = \<lparr>lf_id = next_id su s1, lf_remote = remote_digest cr remote, lf_at = now su s1\<rparr>"
  define s2 where "s2 = auth_audit su ''anonymous'' ''auth.login'' ''failure'' ''administrator'' [(''reason'', JStr reason)]
      (tick (draw (add_failure f s1)))"
  have r: "record_login_failure cr su remote reason s1 = commit s2"
    by (simp add: record_login_failure_def Let_def s2_def f_def)
  have "throttled st su (Suc (ticks s1)) (login_failures (working s1) @ [f])"
  proof (rule throttled_record [OF auth_ok_throttled [OF ok1], where ?t0.0 = "ticks s" and gs = "login_failures (working s)"])
    show "mono (clock su)" using auth_ok_random [OF ok] by (simp add: random_ok_def)
  qed (use L in \<open>auto simp: f_def now_def\<close>)
  then have "throttled st su (ticks s2) (login_failures (working s1) @ [f])"
    by (rule throttled_mono) (use auth_ok_random [OF ok] in \<open>simp_all add: random_ok_def s2_def\<close>)
  moreover have "sessions_ok cr su (drawn s2) (working s1)"
    using sessions_ok_mono [OF auth_ok_sessions [OF ok1]] by (simp add: s2_def)
  ultimately have "auth_inv st cr su (drawn s2) (ticks s2) (working s2)"
    by (simp add: auth_inv_def sessions_ok_def s2_def)
  then have "auth_ok st cr su s2" by (intro auth_ok_step [OF ok1]) (simp_all add: s2_def)
  then show ?thesis unfolding r by (intro sound_keep) (simp_all add: s2_def)
qed

text \<open>The stages of a login.\<close>

lemma api_login_stages:
  assumes e: "api_login st cr su rq u p s = (res, s')"
  obtains (early) x where "res = Inl x" "x \<noteq> login_failed" "s' = s"
    | (limited) nc s1 where "request_network_context st rq = Inr nc" "rate_limited st cr su (nc_client nc) s = (True, s1)"
        "res = Inl login_rate_limited"
        "s' = commit (auth_audit su ''anonymous'' ''auth.login'' ''failure'' ''administrator'' [(''reason'', JStr ''rate_limited'')] s1)"
    | (failed) nc s1 s2 where "request_network_context st rq = Inr nc" "rate_limited st cr su (nc_client nc) s = (False, s1)"
        "verify_credentials cr su u p s1 = (None, s2)" "res = Inl login_failed"
        "s' = record_login_failure cr su (nc_client nc) ''invalid_credentials'' s2"
    | (opened) nc s1 s2 a resp ck where "request_network_context st rq = Inr nc"
        "rate_limited st cr su (nc_client nc) s = (False, s1)" "verify_credentials cr su u p s1 = (Some a, s2)"
        "res = Inr (resp, ck)"
        "open_session st cr su a (auth_audit su (ad_username a) ''auth.login'' ''success'' (ad_id a) []
           (clear_login_failures cr (nc_client nc) s2)) = ((resp, ck), s')"
proof (cases "require_trusted_origin st (header rq ''origin'') True")
  case (Inl x)
  then have "x \<noteq> login_failed" by (auto simp: require_trusted_origin_def login_failed_def split: if_splits)
  with Inl show thesis using e early by (auto simp: api_login_def)
next
  case o1: (Inr x)
  show thesis
  proof (cases "request_network_context st rq")
    case (Inl y)
    then have "y \<noteq> login_failed"
      by (auto simp: request_network_context_def Let_def login_failed_def split: option.splits if_splits)
    with Inl show thesis using e o1 early by (auto simp: api_login_def)
  next
    case (Inr nc)
    obtain b s1 where rl: "rate_limited st cr su (nc_client nc) s = (b, s1)" by fastforce
    show thesis
    proof (cases b)
      case True
      then show thesis using e o1 Inr rl limited by (simp add: api_login_def)
    next
      case False
      obtain v s2 where v: "verify_credentials cr su u p s1 = (v, s2)" by fastforce
      show thesis
      proof (cases v)
        case None
        then show thesis using e o1 Inr rl v False failed by (simp add: api_login_def)
      next
        case (Some a)
        obtain resp ck s3 where "open_session st cr su a (auth_audit su (ad_username a) ''auth.login'' ''success'' (ad_id a) []
           (clear_login_failures cr (nc_client nc) s2)) = ((resp, ck), s3)" by (metis prod.collapse)
        moreover from this have "res = Inr (resp, ck)" "s3 = s'"
          using e o1 Inr rl v False Some by (auto simp: api_login_def)
        ultimately show thesis using opened Inr rl v False Some by auto
      qed
    qed
  qed
qed

lemma audit_commit_sound:
  "auth_ok st cr su s \<Longrightarrow> sound_step st cr su s (commit (auth_audit su a b c d e s))"
  by (intro sound_keep) simp_all

lemma login_opened:
  assumes rl: "rate_limited st cr su remote s = (False, s1)" and v: "verify_credentials cr su u p s1 = (Some a, s2)"
    and o1: "open_session st cr su a (auth_audit su x ''auth.login'' ''success'' y [] (clear_login_failures cr remote s2)) = ((resp, ck), s')"
    and ok: "auth_ok st cr su s"
  shows "sound_step st cr su s s' \<and> (\<forall>b\<in>set (administrators (working s')). ad_username b = u)
    \<and> (\<exists>r. auth_sessions (working s') = auth_sessions (working s) @ [r]
        \<and> ck_value ck \<noteq> [] \<and> sr_csrf resp \<noteq> [] \<and> se_token r = cr_digest cr (ck_value ck)
        \<and> se_csrf r = cr_digest cr (sr_csrf resp) \<and> se_revoked r = None
        \<and> se_admin r \<in> ad_id ` set (administrators (working s'))
        \<and> se_expires r = sr_expires resp \<and> cr_digest cr (ck_value ck) \<notin> se_token ` set (auth_sessions (working s)))
    \<and> (\<exists>a0. administrator (working s) = Some a0 \<and> ad_username a0 = u \<and> cr_verify cr (ad_hash a0) p)"
proof -
  note L = rate_limited_spec [OF rl ok]
  have ok1: "auth_ok st cr su s1" using L sound_ok by blast
  note V = verify_spec [OF v ok1]
  have ok2: "auth_ok st cr su s2" using V sound_ok by blast
  let ?c = "clear_login_failures cr remote s2" let ?a = "auth_audit su x ''auth.login'' ''success'' y [] ?c"
  have C: "sound_step st cr su s2 ?c" by (rule clear_failures_sound [OF ok2])
  have oka: "auth_ok st cr su ?a" using C sound_ok by auto
  have same: "administrators (working ?a) = administrators (working s2)" "auth_sessions (working ?a) = auth_sessions (working s2)"
    by (simp_all add: clear_login_failures_def)
  have adm: "ad_id a \<in> ad_id ` set (administrators (working ?a))" using V unfolding same(1) by simp
  note O = open_session_sound [OF o1 oka adm]
  have "sound_step st cr su s s2" using L V sound_trans by blast
  moreover have "sound_step st cr su s2 s'"
    using O same by (auto simp: sound_step_def revoked_token_def clear_login_failures_def)
  ultimately have "sound_step st cr su s s'" using sound_trans by blast
  moreover have "auth_sessions (working ?a) = auth_sessions (working s)" "administrator (working s1) = administrator (working s)"
    using same V L by (simp_all add: administrator_def)
  moreover have "ad_username a = u" using V by simp
  moreover have "\<forall>b\<in>set (administrators (working s')). ad_username b = u"
  proof -
    have "map ad_username (administrators (working s')) = map ad_username (administrators (working s1))"
      using O same V by auto
    then have "ad_username ` set (administrators (working s')) = ad_username ` set (administrators (working s1))"
      by (metis list.set_map)
    moreover have "length (administrators (working s1)) \<le> 1"
      using auth_ok_sessions [OF ok1] by (simp add: sessions_ok_def)
    moreover obtain a0 where "administrator (working s1) = Some a0" "ad_username a0 = u" using V by blast
    ultimately have "ad_username ` set (administrators (working s')) = {u}"
      by (auto simp: administrator_def split: list.splits)
    then show ?thesis by blast
  qed
  ultimately show ?thesis using O V adm same(1) by (metis (no_types, lifting))
qed

lemma api_login_sound:
  assumes e: "api_login st cr su rq u p s = (res, s')" and ok: "auth_ok st cr su s"
  shows "sound_step st cr su s s'"
proof (cases rule: api_login_stages [OF e])
  case (1 x)
  then show ?thesis using sound_refl [OF ok] by simp
next
  case (2 nc s1)
  note L = rate_limited_spec [OF 2(2) ok]
  have "auth_ok st cr su s1" using L sound_ok by blast
  from audit_commit_sound [OF this] show ?thesis using L 2 sound_trans by blast
next
  case (3 nc s1 s2)
  note L = rate_limited_spec [OF 3(2) ok]
  have ok1: "auth_ok st cr su s1" using L sound_ok by blast
  have "s2 = s1" using verify_spec [OF 3(3) ok1] by simp
  then show ?thesis using record_failure_sound [OF 3(2) ok] 3(5) L sound_trans by blast
next
  case (4 nc s1 s2 a resp ck)
  then show ?thesis using login_opened [OF 4(2,3,5) ok] by blast
qed

lemma api_session_sound:
  assumes e: "api_session st cr su rq s = (res, s')" and ok: "auth_ok st cr su s"
  shows "sound_step st cr su s s'"
proof -
  obtain r s1 where a: "require_http_auth st cr su rq s = (r, s1)" by fastforce
  note A = require_http_auth_spec [OF a ok]
  show ?thesis
  proof (cases r)
    case (Inl x)
    then show ?thesis using e a A by (simp add: api_session_def)
  next
    case (Inr h)
    obtain csrf s2 where c: "rotate_csrf cr (ah_session h) s1 = (csrf, s2)" by fastforce
    then have "s' = s2" using e a Inr by (simp add: api_session_def)
    moreover have "sound_step st cr su s1 s2"
      using A Inr by (intro rotate_csrf_sound [OF c]) (auto dest: sound_ok)
    ultimately show ?thesis using A sound_trans by blast
  qed
qed

lemma api_logout_spec:
  assumes e: "api_logout st cr su rq s = (res, s')" and ok: "auth_ok st cr su s"
  shows "sound_step st cr su s s' \<and> (\<forall>ck. res = Inr ck \<longrightarrow> (\<exists>t. session_token rq = Some t \<and> revoked_token cr t (working s')))"
proof -
  obtain r s1 where a: "require_http_auth st cr su rq s = (r, s1)" by fastforce
  note A = require_http_auth_spec [OF a ok]
  have ok1: "auth_ok st cr su s1" using A sound_ok by blast
  show ?thesis
  proof (cases r)
    case (Inl x)
    then show ?thesis using e a A by (auto simp: api_logout_def)
  next
    case (Inr h)
    let ?r = "(ah_session h)\<lparr>se_revoked := Some (now su s1)\<rparr>"
    let ?s2 = "save_session ?r (tick s1)"
    let ?s3 = "auth_audit su (ad_username (ah_admin h)) ''auth.logout'' ''success'' (ad_id (ah_admin h)) [] ?s2"
    have s': "s' = commit ?s3" "res = Inr (clear_session_cookie st)" using e a Inr by (auto simp: api_logout_def)
    have m: "ah_session h \<in> set (auth_sessions (working (tick s1)))" "se_revoked (ah_session h) = None"
      using A Inr by auto
    have okt: "auth_ok st cr su (tick s1)" using ok1 by simp
    have sv: "auth_ok st cr su ?s2" "revoked_token cr t (working (tick s1)) \<Longrightarrow> revoked_token cr t (working ?s2)" for t
      by (rule save_session_sound [OF okt m]; simp)+
    have "auth_ok st cr su s'" unfolding s'(1) using sv(1) by (simp only: auth_ok_supply)
    moreover have "revoked_token cr t (working s')" if "revoked_token cr t (working s1)" for t
      using sv(2) [of t] that unfolding s'(1) by (simp add: revoked_token_def)
    ultimately have "sound_step st cr su s1 s'" by (simp add: sound_step_def s'(1))
    moreover have "\<exists>t. session_token rq = Some t \<and> revoked_token cr t (working s')"
    proof -
      obtain x s0 where at: "authenticate_token cr su (session_token rq) s = (x, s0)" by fastforce
      then have "x = Some h" using a Inr by (auto simp: require_http_auth_def split: option.splits if_splits sum.splits)
      then obtain t where t: "session_token rq = Some t" "se_token (ah_session h) = cr_digest cr t"
        using authenticate_spec [OF at] by auto
      have "?r \<in> set (auth_sessions (working s'))"
        using save_session_self [OF m(1), of ?r] by (simp add: s'(1))
      then have "revoked_token cr t (working s')" using t(2) unfolding revoked_token_def by (intro bexI [of _ ?r]) simp_all
      then show ?thesis using t(1) by blast
    qed
    ultimately show ?thesis using A sound_trans s'(2) by blast
  qed
qed

section \<open>Sequences of requests\<close>

datatype auth_op =
    OpSetup bool request string string
  | OpLogin request string string
  | OpSession request
  | OpLogout request
  | OpWhoami request

fun auth_handler :: "settings \<Rightarrow> crypto \<Rightarrow> sources \<Rightarrow> auth_op \<Rightarrow> store \<Rightarrow> store" where
  "auth_handler st cr su (OpSetup rival rq u p) s = snd (api_setup st cr su rival rq u p s)"
| "auth_handler st cr su (OpLogin rq u p) s = snd (api_login st cr su rq u p s)"
| "auth_handler st cr su (OpSession rq) s = snd (api_session st cr su rq s)"
| "auth_handler st cr su (OpLogout rq) s = snd (api_logout st cr su rq s)"
| "auth_handler st cr su (OpWhoami rq) s = snd (api_auth_status cr su rq s)"

text \<open>Each request in a session of its own.\<close>

fun run_auth :: "settings \<Rightarrow> crypto \<Rightarrow> sources \<Rightarrow> auth_op list \<Rightarrow> store \<Rightarrow> store" where
  "run_auth st cr su [] s = s"
| "run_auth st cr su (op # ops) s = run_auth st cr su ops (rollback (auth_handler st cr su op (rollback s)))"

lemma auth_handler_sound:
  assumes "auth_ok st cr su s"
  shows "sound_step st cr su s (auth_handler st cr su op s)"
proof (cases op)
  case (OpWhoami rq)
  obtain a s1 where "authenticate_token cr su (session_token rq) s = (a, s1)" by fastforce
  then show ?thesis using authenticate_sound [OF _ assms] OpWhoami by (simp add: api_auth_status_def)
next
  case (OpLogout rq)
  then show ?thesis using api_logout_spec [OF _ assms] by (cases "api_logout st cr su rq s") simp
qed (use api_setup_sound [OF _ assms] api_login_sound [OF _ assms] api_session_sound [OF _ assms] in
     \<open>simp add: prod_eq_iff\<close>)+

lemma run_auth_sound:
  assumes "auth_ok st cr su s" "committed s = working s"
  shows "sound_step st cr su s (run_auth st cr su ops s)"
  using assms
proof (induction ops arbitrary: s)
  case Nil
  then show ?case by (simp add: sound_refl)
next
  case (Cons op ops)
  have r: "rollback s = s" using Cons.prems(2) by (simp add: rollback_def)
  note H = auth_handler_sound [OF Cons.prems(1), of op]
  let ?s = "auth_handler st cr su op s"
  have c: "committed ?s = working ?s" using H Cons.prems(2) by (simp add: sound_step_def)
  then have r2: "rollback ?s = ?s" by (simp add: rollback_def)
  have "sound_step st cr su ?s (run_auth st cr su ops ?s)" by (rule Cons.IH [OF sound_ok [OF H] c])
  then show ?case using H sound_trans r r2 by simp
qed

section \<open>Samples\<close>

definition sample_crypto :: crypto where
  "sample_crypto = \<lparr>cr_digest = (\<lambda>s. s), cr_hash = (\<lambda>n p. p), cr_verify = (=), cr_stale = (\<lambda>_. False),
     cr_token = (\<lambda>n. replicate (Suc n) (CHR ''t'')), cr_dummy = ''dummy''\<rparr>"

definition local_request :: "string \<Rightarrow> (string \<times> string) list \<Rightarrow> string option \<Rightarrow> request" where
  "local_request meth hs tok = \<lparr>rq_peer = Some ''127.0.0.1'', rq_scheme = ''http'', rq_method = meth, rq_headers = hs,
     rq_cookies = (case tok of None \<Rightarrow> [] | Some t \<Rightarrow> [(auth_cookie_name, t)])\<rparr>"

definition setup_store :: store where
  "setup_store = snd (api_setup sample_settings sample_crypto sample_sources False (local_request ''POST'' [] None)
     ''admin'' ''password'' empty_store)"

lemma sample_random [simp]: "random_ok sample_crypto sample_sources"
  by (auto simp: random_ok_def sample_crypto_def sample_sources_def inj_def mono_def dest: arg_cong [of _ _ length])

lemma empty_auth_ok [simp]: "random_ok cr su \<Longrightarrow> auth_ok st cr su empty_store"
  by (simp add: auth_ok_def auth_inv_def sessions_ok_def throttled_def failures_from_def empty_store_def empty_db_def)

lemma setup_store_ok: "auth_ok sample_settings sample_crypto sample_sources setup_store" "committed setup_store = working setup_store"
proof -
  have "sound_step sample_settings sample_crypto sample_sources empty_store setup_store"
    unfolding setup_store_def by (rule api_setup_sound [OF prod.collapse [symmetric]]) simp
  then show "auth_ok sample_settings sample_crypto sample_sources setup_store" "committed setup_store = working setup_store"
    by (auto simp: sound_step_def empty_store_def)
qed

lemma local_context:
  "request_network_context sample_settings (local_request m hs tok) =
    Inr \<lparr>nc_peer = ''127.0.0.1'', nc_client = ''127.0.0.1'', nc_scheme = ''http'',
      nc_host = header (local_request m hs tok) ''host'', nc_forwarded = False\<rparr>"
proof -
  have "address ''127.0.0.1'' = Some (V4 2130706433)" "ip_str (V4 2130706433) = ''127.0.0.1''" by code_simp+
  then show ?thesis by (simp add: request_network_context_def local_request_def in_networks_def sample_settings_def Let_def)
qed

lemma local_eval:
  "is_loopback (Some ''127.0.0.1'')" "header (local_request m [] tok) n = None"
proof -
  show "is_loopback (Some ''127.0.0.1'')" by code_simp
qed (simp add: header_def local_request_def)

lemma setup_store_admin:
  "administrators (working setup_store) = [\<lparr>ad_id = [], ad_singleton = 1, ad_username = ''admin'', ad_hash = ''password'', ad_created = 0, ad_updated = 1\<rparr>]"
  "login_failures (working setup_store) = []" 
  unfolding setup_store_def
  by (simp_all add: local_context local_eval api_setup_def require_trusted_origin_def create_administrator_def administrator_def
    open_session_def create_auth_session_def set_session_cookie_def Let_def next_id_def now_def)
    (simp_all add: empty_store_def empty_db_def sample_crypto_def sample_sources_def)

lemma sample_login:
  "\<exists>resp ck s'. api_login sample_settings sample_crypto sample_sources (local_request ''POST'' [] None) ''admin'' ''password'' setup_store
      = (Inr (resp, ck), s') \<and> now sample_sources s' < sr_expires resp"
proof -
  let ?s1 = "commit (keep_failures (\<lambda>f. \<not> lf_at f < now sample_sources setup_store - login_window sample_settings) (tick setup_store))"
  have rl: "rate_limited sample_settings sample_crypto sample_sources ''127.0.0.1'' setup_store = (False, ?s1)"
    by (simp add: rate_limited_def Let_def setup_store_admin) (simp add: sample_settings_def)
  have v: "\<exists>a. verify_credentials sample_crypto sample_sources ''admin'' ''password'' ?s1 = (Some a, ?s1)"
    by (simp add: verify_credentials_def Let_def administrator_def setup_store_admin) (simp add: sample_crypto_def)
  then obtain a where v: "verify_credentials sample_crypto sample_sources ''admin'' ''password'' ?s1 = (Some a, ?s1)" by blast
  have "now sample_sources s' < sr_expires resp"
    if "open_session sample_settings sample_crypto sample_sources a s = ((resp, ck), s')" for s s' resp ck
    using that by (auto simp: open_session_def create_auth_session_def set_session_cookie_def Let_def now_def sample_sources_def
      sample_settings_def second_def)
  moreover obtain resp ck s' where "open_session sample_settings sample_crypto sample_sources a
     (auth_audit sample_sources (ad_username a) ''auth.login'' ''success'' (ad_id a) [] (clear_login_failures sample_crypto ''127.0.0.1'' ?s1)) = ((resp, ck), s')"
    by (metis prod.collapse)
  ultimately show ?thesis by (simp add: api_login_def local_context local_eval require_trusted_origin_def rl v)
qed

section \<open>Properties\<close>

lemma find_session:
  assumes "sessions_ok cr su n d" "r \<in> set (auth_sessions d)" "se_token r = cr_digest cr t"
  shows "List.find (\<lambda>r. se_token r = cr_digest cr t) (auth_sessions d) = Some r"
  using assms by (intro find_unique) (auto simp: sessions_ok_def distinct_map inj_on_def)

lemma authenticate_valid:
  assumes "sessions_ok cr su n (working s)" "r \<in> set (auth_sessions (working s))" "se_token r = cr_digest cr t" "t \<noteq> []"
    and "se_revoked r = None" "now su s < se_expires r"
  obtains a where "authenticate_token cr su (Some t) s = (Some \<lparr>ah_admin = a, ah_session = r\<rparr>, tick s)"
    "a \<in> set (administrators (working s))"
proof -
  have "se_admin r \<in> ad_id ` set (administrators (working s))" using assms(1,2) by (auto simp: sessions_ok_def)
  then obtain a where a: "row_get ad_id (se_admin r) (administrators (working s)) = Some a"
    using row_get_None [of ad_id "se_admin r" "administrators (working s)"] by (cases "row_get ad_id (se_admin r) (administrators (working s))") auto
  then have "a \<in> set (administrators (working s))" by (auto dest: row_get_Some)
  moreover have "authenticate_token cr su (Some t) s = (Some \<lparr>ah_admin = a, ah_session = r\<rparr>, tick s)"
    using find_session [OF assms(1-3)] assms(4-6) a by (simp add: authenticate_token_def)
  ultimately show thesis using that by blast
qed

lemma authenticate_revoked:
  assumes "sessions_ok cr su n (working s)" "revoked_token cr t (working s)"
  shows "fst (authenticate_token cr su (Some t) s) = None"
proof -
  obtain r where r: "r \<in> set (auth_sessions (working s))" "se_token r = cr_digest cr t" "se_revoked r \<noteq> None"
    using assms(2) by (auto simp: revoked_token_def)
  show ?thesis using find_session [OF assms(1) r(1,2)] r(3) by (simp add: authenticate_token_def)
qed

lemma login_session_access:
  assumes "auth_ok st cr su s" "api_login st cr su rq u p s = (Inr (resp, ck), s')"
    and "working s2 = working s'" "now su s2 < sr_expires resp" "session_token rq2 = Some (ck_value ck)"
  shows "(is_ok (fst (require_http_auth st cr su rq2 s2)) \<longleftrightarrow> rq_method rq2 \<in> {''GET'', ''HEAD'', ''OPTIONS''}
        \<or> is_ok (require_trusted_origin st (header rq2 ''origin'') True)
          \<and> (\<exists>t. header rq2 ''X-CSRF-Token'' = Some t \<and> t \<noteq> [] \<and> cr_digest cr t = cr_digest cr (sr_csrf resp)))
    \<and> (\<forall>h. fst (require_http_auth st cr su rq2 s2) = Inr h \<longrightarrow> ad_username (ah_admin h) = u) \<and> sr_csrf resp \<noteq> []"
proof (cases rule: api_login_stages [OF assms(2)])
  case (4 nc s1 s2' a resp' ck')
  then have eq: "resp' = resp" "ck' = ck" by simp_all
  note L = login_opened [OF 4(2,3,5) assms(1)]
  have ok': "auth_ok st cr su s'" using L sound_ok by blast
  obtain r where r: "auth_sessions (working s') = auth_sessions (working s) @ [r]" "ck_value ck \<noteq> []" "sr_csrf resp \<noteq> []"
      "se_token r = cr_digest cr (ck_value ck)" "se_csrf r = cr_digest cr (sr_csrf resp)" "se_revoked r = None"
      "se_expires r = sr_expires resp"
    using L eq by auto
  have S: "sessions_ok cr su (drawn s') (working s2)" using auth_ok_sessions [OF ok'] assms(3) by simp
  have m: "r \<in> set (auth_sessions (working s2))" using r(1) assms(3) by simp
  obtain b where b: "authenticate_token cr su (Some (ck_value ck)) s2 = (Some \<lparr>ah_admin = b, ah_session = r\<rparr>, tick s2)"
      "b \<in> set (administrators (working s2))"
    using authenticate_valid [OF S m r(4,2,6)] assms(4) r(7) by metis
  have "ad_username b = u" using L b(2) assms(3) by simp
  then show ?thesis
    using b(1) r assms(5) by (auto simp: require_http_auth_def split: option.splits sum.splits)
qed (use assms(2) in auto)



text \<open>
  Property C13. A logout is final. After it the session's cookie is refused with 401 whatever
  requests follow, including logins, token rotations and other logouts.
\<close>

theorem logout_revokes:
  assumes "auth_ok st cr su s" "committed s = working s" "api_logout st cr su rq s = (Inr ck, s')"
    and "session_token rq2 = session_token rq"
  shows "fst (require_http_auth st cr su rq2 (run_auth st cr su ops s'))
    = Inl (HttpError 401 (DCode ''AUTHENTICATION_REQUIRED'' ''Authentication is required''))"
proof -
  note L = api_logout_spec [OF assms(3,1)]
  then obtain t where t: "session_token rq = Some t" "revoked_token cr t (working s')" by auto
  have ok': "auth_ok st cr su s'" "committed s' = working s'" using L assms(2) by (auto simp: sound_step_def)
  have R: "sound_step st cr su s' (run_auth st cr su ops s')" by (rule run_auth_sound [OF ok'])
  let ?s = "run_auth st cr su ops s'"
  have "sessions_ok cr su (drawn ?s) (working ?s)" by (rule auth_ok_sessions [OF sound_ok [OF R]])
  moreover have "revoked_token cr t (working ?s)" using R t(2) by (simp add: sound_step_def)
  ultimately have "fst (authenticate_token cr su (session_token rq2) ?s) = None"
    unfolding assms(4) t(1) by (rule authenticate_revoked)
  then show ?thesis by (auto simp: require_http_auth_def split: prod.splits)
qed

lemma sample_logout:
  "\<exists>rq ck s s'. auth_ok sample_settings sample_crypto sample_sources s \<and> committed s = working s
    \<and> api_logout sample_settings sample_crypto sample_sources rq s = (Inr ck, s')"
proof -
  obtain resp ck s where l: "api_login sample_settings sample_crypto sample_sources (local_request ''POST'' [] None)
      ''admin'' ''password'' setup_store = (Inr (resp, ck), s)" "now sample_sources s < sr_expires resp"
    using sample_login by blast
  let ?rq = "local_request ''POST'' [(''x-csrf-token'', sr_csrf resp)] (Some (ck_value ck))"
  have t: "session_token ?rq = Some (ck_value ck)" by (simp add: session_token_def local_request_def)
  have "py_lower ''X-CSRF-Token'' = ''x-csrf-token''" by code_simp
  then have h: "header ?rq ''X-CSRF-Token'' = Some (sr_csrf resp)" "header ?rq ''origin'' = None"
    by (simp_all add: header_def local_request_def py_lower_def)
  note A = login_session_access [OF setup_store_ok(1) l(1) refl l(2) t]
  then have "is_ok (fst (require_http_auth sample_settings sample_crypto sample_sources ?rq s))"
    using h by (simp add: require_trusted_origin_def)
  then have "is_ok (fst (api_logout sample_settings sample_crypto sample_sources ?rq s))"
    by (auto simp: api_logout_def split: prod.splits sum.splits)
  then obtain ck2 s2 where "api_logout sample_settings sample_crypto sample_sources ?rq s = (Inr ck2, s2)"
    by (cases "api_logout sample_settings sample_crypto sample_sources ?rq s") (auto simp: is_ok_iff)
  moreover have "auth_ok sample_settings sample_crypto sample_sources s \<and> committed s = working s"
    using api_login_sound [OF l(1) setup_store_ok(1)] setup_store_ok(2) by (simp add: sound_step_def)
  ultimately show ?thesis by blast
qed

theorem logout_revokes_witness:
  "\<exists>rq s ck s'. api_logout sample_settings sample_crypto sample_sources rq s = (Inr ck, s')
    \<and> fst (require_http_auth sample_settings sample_crypto sample_sources rq
        (run_auth sample_settings sample_crypto sample_sources [OpLogin (local_request ''POST'' [] None) ''admin'' ''password''] s'))
      = Inl (HttpError 401 (DCode ''AUTHENTICATION_REQUIRED'' ''Authentication is required''))"
proof -
  obtain rq s ck s' where o1: "auth_ok sample_settings sample_crypto sample_sources s" "committed s = working s"
    and l: "api_logout sample_settings sample_crypto sample_sources rq s = (Inr ck, s')" using sample_logout by blast
  from logout_revokes [OF o1 l refl] l show ?thesis by blast
qed

text \<open>
  Property C14. Password guessing is bounded. After any sequence of requests no remote has more
  recorded failures in any window than the settings allow, a refused password always adds one,
  and a remote that has used up its attempts gets no password checked and no session opened.
\<close>

theorem guessing_bounded:
  assumes "auth_ok st cr su s0" "committed s0 = working s0" "s = run_auth st cr su ops s0"
    and "request_network_context st rq = Inr nc" "api_login st cr su rq u p s = (res, s')"
  shows "(\<forall>key x. int (length (failures_from key x (login_window st) (login_failures (working s')))) \<le> max 0 (login_max_failures st))
    \<and> (res = Inl login_failed \<longrightarrow> (\<exists>f fs. login_failures (working s') = fs @ [f] \<and> lf_remote f = remote_digest cr (nc_client nc)
          \<and> now su s \<le> lf_at f))
    \<and> (login_max_failures st \<le> int (length (filter (\<lambda>f. lf_remote f = remote_digest cr (nc_client nc)
            \<and> now su s - login_window st \<le> lf_at f) (login_failures (working s))))
        \<longrightarrow> \<not> is_ok res \<and> res \<noteq> Inl login_failed \<and> auth_sessions (working s') = auth_sessions (working s))"
proof -
  have ok: "auth_ok st cr su s" using run_auth_sound [OF assms(1,2)] assms(3) sound_ok by blast
  have ok': "auth_ok st cr su s'" by (rule sound_ok [OF api_login_sound [OF assms(5) ok]])
  have M: "mono (clock su)" using auth_ok_random [OF ok] by (simp add: random_ok_def)
  have lim: "b \<longleftrightarrow> login_max_failures st \<le> int (length (filter (\<lambda>f. lf_remote f = remote_digest cr (nc_client nc)
            \<and> now su s - login_window st \<le> lf_at f) (login_failures (working s))))"
    if "rate_limited st cr su (nc_client nc) s = (b, s1)" for b s1
    using rate_limited_spec [OF that ok] by (simp add: conj_commute)
  have nc: "nc1 = nc" if "request_network_context st rq = Inr nc1" for nc1 using that assms(4) by simp
  have A: "\<forall>key x. int (length (failures_from key x (login_window st) (login_failures (working s')))) \<le> max 0 (login_max_failures st)"
    using auth_ok_throttled [OF ok'] by (simp add: throttled_def)
  have B: "\<exists>f fs. login_failures (working s') = fs @ [f] \<and> lf_remote f = remote_digest cr (nc_client nc) \<and> now su s \<le> lf_at f"
    if "res = Inl login_failed"
  proof (cases rule: api_login_stages [OF assms(5)])
    case (1 x)
    then show ?thesis using that by simp
  next
    case (3 nc1 s1 s2)
    have ok1: "auth_ok st cr su s1" using rate_limited_spec [OF 3(2) ok] sound_ok by blast
    have "s2 = s1" using verify_spec [OF 3(3) ok1] by simp
    moreover have "ticks s \<le> ticks s1" using rate_limited_spec [OF 3(2) ok] by simp
    ultimately have "now su s \<le> now su s2" using M by (simp add: now_def monoD)
    then show ?thesis using 3(5) nc [OF 3(1)] by (simp add: record_login_failure_def Let_def)
  qed (use that in \<open>auto simp: login_failed_def login_rate_limited_def\<close>)
  have C: "\<not> is_ok res \<and> res \<noteq> Inl login_failed \<and> auth_sessions (working s') = auth_sessions (working s)"
    if l: "login_max_failures st \<le> int (length (filter (\<lambda>f. lf_remote f = remote_digest cr (nc_client nc)
            \<and> now su s - login_window st \<le> lf_at f) (login_failures (working s))))"
  proof (cases rule: api_login_stages [OF assms(5)])
    case (1 x)
    then show ?thesis using 1 by simp
  next
    case (2 nc1 s1)
    then show ?thesis using rate_limited_spec [OF 2(2) ok] by (simp add: login_failed_def login_rate_limited_def)
  next
    case (3 nc1 s1 s2)
    then show ?thesis using lim l nc by blast
  next
    case (4 nc1 s1 s2 a resp ck)
    then show ?thesis using lim l nc by blast
  qed
  show ?thesis using A B C by blast
qed

theorem guessing_bounded_witness:
  "\<exists>resp ck s'. api_login sample_settings sample_crypto sample_sources (local_request ''POST'' [] None) ''admin'' ''password'' setup_store
      = (Inr (resp, ck), s')
    \<and> (\<forall>key x. int (length (failures_from key x (login_window sample_settings) (login_failures (working s'))))
         \<le> max 0 (login_max_failures sample_settings))"
proof -
  obtain resp ck s' where l: "api_login sample_settings sample_crypto sample_sources (local_request ''POST'' [] None)
      ''admin'' ''password'' setup_store = (Inr (resp, ck), s')" using sample_login by blast
  have "setup_store = run_auth sample_settings sample_crypto sample_sources [] setup_store" by simp
  from guessing_bounded [OF setup_store_ok this local_context l] l show ?thesis by blast
qed

text \<open>
  Property C15. The administrator is set up once and locally. A setup succeeds only when there was
  no administrator, from a loopback peer and client, with no origin or one that is trusted and
  local, and leaves exactly one administrator; with an administrator in place it changes nothing.
\<close>

theorem setup_once_locally:
  assumes "auth_ok st cr su s" "api_setup st cr su rival rq u p s = (res, s')"
  shows "(is_ok res \<longrightarrow> administrators (working s) = [] \<and> (\<exists>a. administrators (working s') = [a] \<and> ad_username a = u)
      \<and> (\<exists>nc. request_network_context st rq = Inr nc \<and> is_loopback (Some (nc_peer nc)) \<and> is_loopback (Some (nc_client nc)))
      \<and> (header rq ''origin'' = None \<or> (origin_is_trusted st (header rq ''origin'') \<and> origin_is_local (header rq ''origin''))))
    \<and> (administrators (working s) \<noteq> [] \<longrightarrow> \<not> is_ok res \<and> s' = s)"
proof -
  obtain r1 s1 where c: "create_administrator cr su rival u p s = (r1, s1)" by fastforce
  note C = create_administrator_sound [OF c assms(1)]
  have busy: "r1 = Inl setup_complete \<and> s1 = s" if "administrators (working s) \<noteq> []"
    using c that by (auto simp: create_administrator_def administrator_def split: list.splits)
  have late: "\<not> is_ok res \<and> s' = s" if "administrators (working s) \<noteq> []"
    using assms(2) c busy [OF that] by (auto simp: api_setup_def Let_def split: sum.splits if_splits)
  have done1: "administrators (working s) = [] \<and> (\<exists>a. administrators (working s') = [a] \<and> ad_username a = u)
      \<and> (\<exists>nc. request_network_context st rq = Inr nc \<and> is_loopback (Some (nc_peer nc)) \<and> is_loopback (Some (nc_client nc)))
      \<and> (header rq ''origin'' = None \<or> (origin_is_trusted st (header rq ''origin'') \<and> origin_is_local (header rq ''origin'')))"
    if ok: "is_ok res"
  proof -
    obtain v where v: "res = Inr v" using ok by (cases res) simp_all
    obtain nc a where g: "request_network_context st rq = Inr nc" "is_loopback (Some (nc_peer nc))" "is_loopback (Some (nc_client nc))"
      "header rq ''origin'' = None \<or> origin_is_local (header rq ''origin'')" "is_ok (require_trusted_origin st (header rq ''origin'') True)"
      "r1 = Inr a" "apfst Inr (open_session st cr su a s1) = (res, s')"
      using assms(2) c unfolding v by (auto simp: api_setup_def Let_def split: sum.splits if_splits)
    have a: "administrators (working s) = []" "administrators (working s1) = [a]" "ad_username a = u" using C g(6) by auto
    obtain resp ck s2 where o1: "open_session st cr su a s1 = ((resp, ck), s2)" by (metis prod.collapse)
    have "administrators (working s2) = administrators (working s1)"
      using open_session_sound [OF o1] C a(2) by (auto dest: sound_ok)
    moreover have "s2 = s'" using g(7) o1 by simp
    moreover have "header rq ''origin'' = None \<or> origin_is_trusted st (header rq ''origin'')"
      using g(5) by (auto simp: require_trusted_origin_def split: if_splits)
    ultimately show ?thesis using a g by auto
  qed
  show ?thesis using late done1 by blast
qed

theorem setup_once_locally_witness:
  "administrators (working (snd (api_setup sample_settings sample_crypto sample_sources False (local_request ''POST'' [] None)
     ''other'' ''password'' setup_store))) = administrators (working setup_store)"
  using setup_once_locally [OF setup_store_ok(1) prod.collapse [symmetric],
      of False "local_request ''POST'' [] None" "''other''" "''password''"] setup_store_admin by simp

text \<open>
  After any sequence of requests there is at most one administrator, every session
  belongs to it, and no two sessions share an identifier or a token digest; the database holds
  digests of the tokens that were handed out, never a token of its own choice.
\<close>

theorem sessions_integrity:
  assumes "random_ok cr su" "s = run_auth st cr su ops empty_store"
  shows "length (administrators (committed s)) \<le> 1
    \<and> se_admin ` set (auth_sessions (committed s)) \<subseteq> ad_id ` set (administrators (committed s))
    \<and> distinct (map se_id (auth_sessions (committed s))) \<and> distinct (map se_token (auth_sessions (committed s)))
    \<and> (\<forall>r\<in>set (auth_sessions (committed s)). \<exists>i<drawn s. se_token r = cr_digest cr (cr_token cr i))"
proof -
  have "auth_ok st cr su s"
    unfolding assms(2)
  proof (rule sound_ok [OF run_auth_sound])
    show "auth_ok st cr su empty_store" by (rule empty_auth_ok [OF assms(1)])
    show "committed empty_store = working empty_store" by (simp add: empty_store_def)
  qed
  then have "sessions_ok cr su (drawn s) (committed s)" by (simp add: auth_ok_def auth_inv_def)
  then show ?thesis unfolding sessions_ok_def by (auto simp: subset_iff image_iff)
qed

theorem sessions_integrity_witness:
  "length (administrators (committed (run_auth sample_settings sample_crypto sample_sources
     [OpSetup False (local_request ''POST'' [] None) ''admin'' ''password''] empty_store))) \<le> 1"
  using sessions_integrity [OF sample_random refl] by blast

end
