(* ===== verification/UserUnits.thy ===== *)
theory UserUnits
  imports Registry
begin

text \<open>
  The first half of \<open>systemd/user_units.py\<close>: the name of the user unit of an application, its
  text, and the validator of a rendered unit. The lemmas show that quoted values read back, that
  the lines of a rendering are those of the template, and that the validator accepts it.
\<close>

datatype unit_exc = UnitError string | OsError string

section \<open>Names and quoting\<close>

definition unit_name_ok :: "string \<Rightarrow> bool" where
  "unit_name_ok a \<longleftrightarrow> a \<noteq> [] \<and> list_all (\<lambda>c. low_alnum c \<or> c = CHR ''-'') a
     \<and> \<not> startswith ''-'' a \<and> \<not> endswith ''-'' a"

definition unit_name_for :: "string \<Rightarrow> unit_exc + string" where
  "unit_name_for a =
     (if unit_name_ok a then Inr (''machinedeck-'' @ a @ ''.service'')
      else Inl (UnitError ''Application id cannot be converted to a safe unit name''))"

definition reject_control :: "string \<Rightarrow> string \<Rightarrow> unit_exc + unit" where
  "reject_control v field =
     (if has_any [LF, CR, NUL] v
      then Inl (UnitError (field @ '' cannot contain newlines or null bytes'')) else Inr ())"

fun esc_char :: "char \<Rightarrow> string" where
  "esc_char c = (if c = BACKSLASH then [BACKSLASH, BACKSLASH]
     else if c = QUOTE then [BACKSLASH, QUOTE]
     else if c = CHR ''%'' then ''%%'' else [c])"

text \<open>The three replacements in a row act on different characters, so they are one pass.\<close>

definition quote :: "bool \<Rightarrow> string \<Rightarrow> unit_exc + string" where
  "quote escape_dollar v =
     (case reject_control v ''systemd value'' of Inl e \<Rightarrow> Inl e
      | Inr _ \<Rightarrow>
          (let escaped = concat (map esc_char v);
               dollars = (if escape_dollar then concat (map (\<lambda>c. if c = CHR ''$'' then ''$$'' else [c]) escaped)
                          else escaped)
           in Inr ([QUOTE] @ dollars @ [QUOTE])))"

fun utf8_char :: "char \<Rightarrow> string" where
  "utf8_char c = (if cp c < 128 then [c]
     else [char_of (192 + nat (cp c) div 64), char_of (128 + nat (cp c) mod 64)])"

definition utf8 :: "string \<Rightarrow> string" where
  "utf8 s = concat (map utf8_char s)"

definition path_safe_char :: "char \<Rightarrow> bool" where
  "path_safe_char c \<longleftrightarrow> is_lower c \<or> is_upper c \<or> is_dec c \<or> c \<in> set ''/._-''"

definition hex_digit :: "int \<Rightarrow> char" where
  "hex_digit n = ''0123456789abcdef'' ! nat n"

fun escape_byte :: "char \<Rightarrow> string" where
  "escape_byte b = (if path_safe_char b then [b]
     else if b = CHR ''%'' then ''%%''
     else [BACKSLASH, CHR ''x'', hex_digit (cp b div 16), hex_digit (cp b mod 16)])"

definition escape_path :: "string \<Rightarrow> unit_exc + string" where
  "escape_path v =
     (case reject_control v ''systemd path'' of Inl e \<Rightarrow> Inl e
      | Inr _ \<Rightarrow> Inr (concat (map escape_byte (utf8 v))))"

section \<open>The validator of a rendered unit\<close>

definition max_unit_bytes :: int where
  "max_unit_bytes = 64 * 1024"

definition allowed_directives :: "string list" where
  "allowed_directives = [''Description'', ''After'', ''Wants'', ''Type'', ''WorkingDirectory'', ''ExecStart'',
     ''Environment'', ''KillMode'', ''TimeoutStartSec'', ''TimeoutStopSec'', ''Restart'', ''NoNewPrivileges'',
     ''WantedBy'']"

text \<open>The loop over the lines: the sections and the directive keys seen, in order.\<close>

fun scan_unit :: "string list \<Rightarrow> string list \<Rightarrow> string list \<Rightarrow> unit_exc + (string list \<times> string list)" where
  "scan_unit secs keys [] = Inr (secs, keys)"
| "scan_unit secs keys (l # ls) =
     (if l = [] \<or> startswith ''#'' l then scan_unit secs keys ls
      else if startswith ''['' l \<and> endswith '']'' l then scan_unit (secs @ [l]) keys ls
      else case partition_on (CHR ''='') l of (key, sep, _) \<Rightarrow>
        if \<not> sep \<or> key \<notin> set allowed_directives
        then Inl (UnitError (''Rendered unit contains an unsupported directive: ''
               @ (if key = [] then l else key)))
        else scan_unit secs (keys @ [key]) ls)"

fun require_single :: "string list \<Rightarrow> string list \<Rightarrow> unit_exc + unit" where
  "require_single keys [] = Inr ()"
| "require_single keys (r # rs) =
     (if length (filter (\<lambda>k. k = r) keys) \<noteq> 1
      then Inl (UnitError (''Rendered unit must contain exactly one '' @ r @ '' directive''))
      else require_single keys rs)"

definition validate_rendered_unit :: "string \<Rightarrow> unit_exc + unit" where
  "validate_rendered_unit content =
     (if int (length (utf8 content)) > max_unit_bytes
      then Inl (UnitError ''Rendered unit exceeds the maximum size'')
      else if \<not> endswith [LF] content \<or> CR \<in> set content \<or> NUL \<in> set content
      then Inl (UnitError ''Rendered unit contains invalid control characters'')
      else case scan_unit [] [] (splitlines content) of
          Inl e \<Rightarrow> Inl e
        | Inr (secs, keys) \<Rightarrow>
            if secs \<noteq> [''[Unit]'', ''[Service]'', ''[Install]'']
            then Inl (UnitError ''Rendered unit has unexpected or out-of-order sections'')
            else require_single keys [''WorkingDirectory'', ''ExecStart'', ''KillMode''])"

section \<open>Rendering\<close>

definition unit_header :: "string \<Rightarrow> string \<Rightarrow> string \<Rightarrow> string list" where
  "unit_header name wd cmd =
     [''# Generated by MachineDeck. Manual changes will be detected and replaced.'',
      ''[Unit]'',
      ''Description=MachineDeck managed application '' @ name,
      ''After=network-online.target'',
      ''Wants=network-online.target'',
      [],
      ''[Service]'',
      ''Type=simple'',
      ''WorkingDirectory='' @ wd,
      ''ExecStart='' @ cmd]"

definition unit_footer :: "string list" where
  "unit_footer =
     [''KillMode=control-group'', ''TimeoutStartSec=120'', ''TimeoutStopSec=30'', ''Restart=no'',
      ''NoNewPrivileges=true'', [], ''[Install]'', ''WantedBy=default.target'', []]"

definition env_line :: "string \<times> string \<Rightarrow> unit_exc + string" where
  "env_line nv = (case nv of (n, v) \<Rightarrow>
     res_bind (reject_control v (''environment variable '' @ n)) (\<lambda>_.
     res_bind (quote False (n @ ''='' @ v)) (\<lambda>q. Inr (''Environment='' @ q))))"

definition unit_lines :: "manifest \<Rightarrow> path \<Rightarrow> string list \<Rightarrow> unit_exc + string list" where
  "unit_lines m wd cmd =
     res_bind (unit_name_for (man_id m)) (\<lambda>name.
     res_bind (res_list (map (quote True) cmd)) (\<lambda>args.
     res_bind (escape_path (path_str wd)) (\<lambda>dir.
     res_bind (res_list (map env_line (sort_key fst (man_environment m)))) (\<lambda>envs.
       Inr (unit_header name dir (join_with '' '' args) @ envs @ unit_footer)))))"

definition render_user_unit :: "settings \<Rightarrow> host_fs \<Rightarrow> manifest \<Rightarrow> unit_exc + string" where
  "render_user_unit st fs m =
     (case man_runtime m of
        ComposeRuntime _ _ _ \<Rightarrow> Inl (UnitError ''Only process manifests can render a systemd user unit'')
      | ProcessRuntime wd cmd \<Rightarrow>
          (let v = validate_manifest_paths st fs (allowed_roots st) m
           in if \<not> vr_valid v
              then Inl (UnitError (join_with ''; '' (map issue_message (vr_errors v))))
              else res_bind (unit_lines m wd cmd) (\<lambda>ls.
                   let rendered = join_with [LF] ls
                   in res_bind (validate_rendered_unit rendered) (\<lambda>_. Inr rendered))))"

section \<open>Lines\<close>

lemma splitlines_acc_line:
  "list_all (\<lambda>c. \<not> is_line_break c) p \<Longrightarrow> splitlines_acc acc (p @ LF # s) = (rev acc @ p) # splitlines_acc [] s"
proof (induction p arbitrary: acc)
  case Nil
  have "is_line_break LF" "LF \<noteq> CR" by code_simp+
  then show ?case by (cases s) auto
next
  case (Cons c p)
  then show ?case by simp
qed

lemma splitlines_line:
  "list_all (\<lambda>c. \<not> is_line_break c) p \<Longrightarrow> splitlines (p @ LF # s) = p # splitlines s"
  by (simp add: splitlines_def splitlines_acc_line)

lemma join_with_Cons: "ps \<noteq> [] \<Longrightarrow> join_with sep (p # ps) = p @ sep @ join_with sep ps"
  by (cases ps) auto

lemma splitlines_join:
  "list_all (list_all (\<lambda>c. \<not> is_line_break c)) ls \<Longrightarrow> splitlines (join_with [LF] (ls @ [[]])) = ls"
proof (induction ls)
  case Nil
  show ?case by (simp add: splitlines_def)
next
  case (Cons l ls)
  then show ?case by (simp add: join_with_Cons splitlines_line)
qed

lemma join_ends: "ls \<noteq> [] \<Longrightarrow> \<exists>r. join_with [LF] (ls @ [[]]) = r @ [LF]"
proof (induction ls)
  case (Cons l ls)
  show ?case
  proof (cases "ls = []")
    case False
    with Cons.IH obtain r where "join_with [LF] (ls @ [[]]) = r @ [LF]" by blast
    then have "join_with [LF] ((l # ls) @ [[]]) = (l @ [LF] @ r) @ [LF]" by (simp add: join_with_Cons)
    then show ?thesis by blast
  qed simp
qed simp

lemma lf_join_chars: "set (join_with [LF] ls) \<subseteq> \<Union> (set ` set ls) \<union> {LF}"
  by (induction "[LF]" ls rule: join_with.induct) auto

section \<open>Reading quoted words back\<close>

text \<open>
  \<open>read_word\<close> reads one double-quoted word after its opening quote: a backslash takes the next
  character literally, a doubled percent sign (and, in a command, a doubled dollar) is one.
\<close>

fun read_word :: "bool \<Rightarrow> string \<Rightarrow> (string \<times> string) option" where
  "read_word d [] = None"
| "read_word d (c # s) =
     (if c = QUOTE then Some ([], s)
      else if c = BACKSLASH then
        (case s of [] \<Rightarrow> None | e # s' \<Rightarrow> map_option (apfst ((#) e)) (read_word d s'))
      else if c = CHR ''%'' \<or> (d \<and> c = CHR ''$'') then
        (case s of [] \<Rightarrow> None | e # s' \<Rightarrow> if e = c then map_option (apfst ((#) c)) (read_word d s') else None)
      else map_option (apfst ((#) c)) (read_word d s))"

fun read_words :: "nat \<Rightarrow> string \<Rightarrow> string list option" where
  "read_words n [] = None"
| "read_words n (c # s) =
     (if n = 0 \<or> c \<noteq> QUOTE then None
      else case read_word True s of None \<Rightarrow> None
        | Some (w, r) \<Rightarrow> if r = [] then Some [w]
            else if hd r = CHR '' '' then map_option ((#) w) (read_words (n - 1) (tl r)) else None)"

definition quoted_body :: "bool \<Rightarrow> string \<Rightarrow> string" where
  "quoted_body d v = (let escaped = concat (map esc_char v) in
     if d then concat (map (\<lambda>c. if c = CHR ''$'' then ''$$'' else [c]) escaped) else escaped)"

lemma quote_Inr: "quote d v = Inr q \<longleftrightarrow> \<not> has_any [LF, CR, NUL] v \<and> q = [QUOTE] @ quoted_body d v @ [QUOTE]"
  by (auto simp: quote_def reject_control_def quoted_body_def Let_def)

lemma quoted_body_Nil [simp]: "quoted_body d [] = []"
  by (simp add: quoted_body_def)

lemma special_distinct [simp]:
  "BACKSLASH \<noteq> QUOTE" "CHR ''%'' \<noteq> QUOTE" "CHR ''%'' \<noteq> BACKSLASH" "CHR ''$'' \<noteq> QUOTE" "CHR ''$'' \<noteq> BACKSLASH"
  "QUOTE \<noteq> BACKSLASH" "QUOTE \<noteq> CHR ''%''" "BACKSLASH \<noteq> CHR ''%''" "QUOTE \<noteq> CHR ''$''" "BACKSLASH \<noteq> CHR ''$''"
  by code_simp+

lemma quoted_body_Cons:
  "quoted_body d (c # v) =
     (if c = BACKSLASH then [BACKSLASH, BACKSLASH] else if c = QUOTE then [BACKSLASH, QUOTE]
      else if c = CHR ''%'' then ''%%'' else if d \<and> c = CHR ''$'' then ''$$'' else [c]) @ quoted_body d v"
  by (cases d) (simp_all add: quoted_body_def Let_def)

lemma read_quoted: "read_word d (quoted_body d v @ QUOTE # rest) = Some (v, rest)"
proof (induction v)
  case (Cons c v)
  then show ?case by (cases d) (simp_all add: quoted_body_Cons)
qed simp

lemma read_quoted_words:
  assumes "res_list (map (quote True) vs) = Inr qs" "vs \<noteq> []" "length vs \<le> n"
  shows "read_words n (join_with '' '' qs) = Some vs"
  using assms
proof (induction vs arbitrary: qs n)
  case Nil
  then show ?case by simp
next
  case (Cons v vs)
  obtain q rs where qs: "qs = q # rs" "quote True v = Inr q" "res_list (map (quote True) vs) = Inr rs"
    using Cons.prems(1) by (auto simp: res_list_Inr_iff)
  have q: "q = QUOTE # quoted_body True v @ [QUOTE]" using qs(2) by (simp add: quote_Inr)
  have n: "n \<noteq> 0" using Cons.prems(3) by simp
  show ?case
  proof (cases "vs = []")
    case True
    then have "rs = []" using qs(3) by simp
    with n show ?thesis by (simp add: qs(1) q read_quoted True)
  next
    case False
    have "length rs = length vs" using res_list_length [OF qs(3)] by simp
    then have "rs \<noteq> []" using False by auto
    moreover have "read_words (n - 1) (join_with '' '' rs) = Some vs"
      using qs(3) False Cons.prems(3) by (intro Cons.IH) auto
    ultimately show ?thesis
      using n read_quoted [of True v "CHR '' '' # join_with '' '' rs"]
      by (simp add: qs(1) q join_with_Cons)
  qed
qed

section \<open>What the lines contain\<close>

definition is_ctrl :: "char \<Rightarrow> bool" where
  "is_ctrl c \<longleftrightarrow> is_line_break c \<or> c = NUL"

lemma is_ctrl_cp: "is_ctrl c \<longleftrightarrow> cp c \<in> {0, 10, 11, 12, 13, 28, 29, 30, 133}"
proof -
  have "c = NUL \<longleftrightarrow> cp c = 0" unfolding NUL_def by (metis char_of_char of_char_of mod_0)
  moreover have "10 \<le> n \<and> n \<le> 13 \<or> 28 \<le> n \<and> n \<le> 30 \<or> n = 133 \<longleftrightarrow> n \<in> {10, 11, 12, 13, 28, 29, 30, 133}" for n :: int
    by auto
  ultimately show ?thesis by (simp add: is_ctrl_def is_line_break_def Let_def) blast
qed

lemma low_alnum_no_break: "low_alnum c \<Longrightarrow> \<not> is_ctrl c"
  by (auto simp: low_alnum_def is_lower_def is_dec_def is_ctrl_cp)

lemma quoted_body_set: "set (quoted_body d v) \<subseteq> set v \<union> {BACKSLASH, QUOTE, CHR ''%'', CHR ''$''}"
  by (induction v) (auto simp: quoted_body_Cons split: if_splits)

definition unbroken :: "string \<Rightarrow> bool" where
  "unbroken s \<longleftrightarrow> list_all (\<lambda>c. \<not> is_ctrl c) s"

lemma unbroken_simps [simp]:
  "unbroken []" "unbroken (c # s) \<longleftrightarrow> \<not> is_ctrl c \<and> unbroken s"
  "unbroken (s @ t) \<longleftrightarrow> unbroken s \<and> unbroken t"
  by (simp_all add: unbroken_def)

lemma unbroken_concat: "unbroken (concat ss) \<longleftrightarrow> (\<forall>s\<in>set ss. unbroken s)"
  by (induction ss) auto

lemma unbroken_subset: "unbroken s \<Longrightarrow> set t \<subseteq> set s \<union> {c. \<not> is_ctrl c} \<Longrightarrow> unbroken t"
  by (auto simp: unbroken_def list_all_iff)

lemma unbroken_free: "unbroken s \<Longrightarrow> LF \<notin> set s \<and> CR \<notin> set s \<and> NUL \<notin> set s"
proof -
  assume u: "unbroken s"
  have "is_ctrl LF" "is_ctrl CR" "is_ctrl NUL" by code_simp+
  with u show ?thesis by (auto simp: unbroken_def list_all_iff)
qed

lemma special_unbroken [simp]:
  "\<not> is_ctrl BACKSLASH" "\<not> is_ctrl QUOTE" "\<not> is_ctrl (CHR ''%'')"
  "\<not> is_ctrl (CHR ''$'')" "\<not> is_ctrl (CHR ''x'')" "\<not> is_ctrl (CHR '' '')"
  by code_simp+

lemma quoted_unbroken: "unbroken v \<Longrightarrow> unbroken (quoted_body d v)"
  by (rule unbroken_subset [OF _ subset_trans [OF quoted_body_set]]) auto

lemma hex_digit_chars:
  assumes "0 \<le> n" "n < 16"
  shows "hex_digit n \<in> set ''0123456789abcdef''"
  unfolding hex_digit_def by (rule nth_mem) (use assms in simp)

lemma hex_unbroken:
  assumes "0 \<le> n" "n < 16"
  shows "\<not> is_ctrl (hex_digit n)"
proof -
  have "list_all (\<lambda>c. \<not> is_ctrl c) ''0123456789abcdef''" by code_simp
  with hex_digit_chars [OF assms] show ?thesis unfolding list_all_iff by blast
qed

lemma path_safe_unbroken: "path_safe_char c \<Longrightarrow> \<not> is_ctrl c"
proof -
  have "list_all (\<lambda>c. \<not> is_ctrl c) ''/._-''" by code_simp
  then show "path_safe_char c \<Longrightarrow> \<not> is_ctrl c"
    unfolding list_all_iff path_safe_char_def
    by (auto simp: is_lower_def is_upper_def is_dec_def is_ctrl_cp)
qed

lemma cp_range: "0 \<le> cp c" "cp c < 256"
proof -
  have "cp c = int (of_char c :: nat)" by (rule of_nat_of_char [symmetric])
  moreover have "(of_char c :: nat) < 256" by (rule nat_of_char_less_256)
  ultimately show "0 \<le> cp c" "cp c < 256" by simp_all
qed

lemma escape_byte_unbroken: "unbroken (escape_byte b)"
proof -
  have "\<not> is_ctrl (hex_digit (cp b div 16))" "\<not> is_ctrl (hex_digit (cp b mod 16))"
    using cp_range [of b] by (intro hex_unbroken; simp)+
  then show ?thesis using path_safe_unbroken by (auto simp: unbroken_def)
qed

lemma escape_path_unbroken: "escape_path v = Inr d \<Longrightarrow> unbroken d"
  by (auto simp: escape_path_def unbroken_concat escape_byte_unbroken simp del: escape_byte.simps
      split: sum.splits)

section \<open>The validator reads the rendering\<close>

lemma scan_env:
  assumes "\<forall>e\<in>set envs. \<exists>v. e = ''Environment='' @ v"
  shows "scan_unit secs keys (envs @ ls) = scan_unit secs (keys @ replicate (length envs) ''Environment'') ls"
  using assms
proof (induction envs arbitrary: keys)
  case Nil
  then show ?case by simp
next
  case (Cons e envs)
  then obtain v where v: "e = ''Environment='' @ v" by auto
  have "partition_on (CHR ''='') e = (''Environment'', True, v)"
    unfolding v by simp
  then have "scan_unit secs keys ((e # envs) @ ls) = scan_unit secs (keys @ [''Environment'']) (envs @ ls)"
    by (simp add: v allowed_directives_def startswith_iff)
  also have "\<dots> = scan_unit secs ((keys @ [''Environment'']) @ replicate (length envs) ''Environment'') ls"
    by (rule Cons.IH) (use Cons.prems in simp)
  finally show ?case by (simp add: replicate_append_same)
qed

lemma scan_header:
  "scan_unit [] [] (unit_header name wd cmd @ ls) =
     scan_unit [''[Unit]'', ''[Service]''] [''Description'', ''After'', ''Wants'', ''Type'', ''WorkingDirectory'', ''ExecStart''] ls"
  by (simp add: unit_header_def startswith_def endswith_def allowed_directives_def)

lemma scan_footer:
  "scan_unit secs keys (butlast unit_footer) =
     Inr (secs @ [''[Install]''], keys @ [''KillMode'', ''TimeoutStartSec'', ''TimeoutStopSec'', ''Restart'',
       ''NoNewPrivileges'', ''WantedBy''])"
  by (simp add: unit_footer_def startswith_def endswith_def allowed_directives_def)

lemma scan_rendering:
  assumes "\<forall>e\<in>set envs. \<exists>v. e = ''Environment='' @ v"
  shows "\<exists>keys. scan_unit [] [] (unit_header name wd cmd @ envs @ butlast unit_footer)
      = Inr ([''[Unit]'', ''[Service]'', ''[Install]''], keys)
    \<and> require_single keys [''WorkingDirectory'', ''ExecStart'', ''KillMode''] = Inr ()"
  by (simp add: scan_header scan_env [OF assms] scan_footer)

lemma is_ctrl_Char [simp]:
  "is_ctrl (Char a b c d e f g h) \<longleftrightarrow> cp (Char a b c d e f g h) \<in> {0, 10, 11, 12, 13, 28, 29, 30, 133}"
  by (rule is_ctrl_cp)

lemma unit_name_unbroken: "unit_name_for a = Inr n \<Longrightarrow> unbroken n"
proof -
  assume "unit_name_for a = Inr n"
  then have n: "n = ''machinedeck-'' @ a @ ''.service''" "list_all (\<lambda>c. low_alnum c \<or> c = CHR ''-'') a"
    by (auto simp: unit_name_for_def unit_name_ok_def split: if_splits)
  have "\<not> is_ctrl (CHR ''-'')" by simp
  with n(2) have "unbroken a"
    unfolding unbroken_def list_all_iff using low_alnum_no_break by blast
  then show ?thesis by (simp add: n(1))
qed

text \<open>\<open>avoids B\<close>: none of the line breaks in \<open>B\<close> occurs.\<close>

definition avoids :: "char set \<Rightarrow> string \<Rightarrow> bool" where
  "avoids B s \<longleftrightarrow> set s \<inter> B = {}"

lemma avoids_simps [simp]:
  "avoids B []" "avoids B (c # s) \<longleftrightarrow> c \<notin> B \<and> avoids B s" "avoids B (s @ t) \<longleftrightarrow> avoids B s \<and> avoids B t"
  by (auto simp: avoids_def)

lemma unbroken_avoids: "B \<subseteq> Collect is_ctrl \<Longrightarrow> unbroken s \<Longrightarrow> avoids B s"
  by (auto simp: avoids_def unbroken_def list_all_iff)

lemma avoids_breaks: "avoids (Collect is_ctrl) s \<longleftrightarrow> unbroken s"
  by (auto simp: avoids_def unbroken_def list_all_iff)

lemma quoted_avoids: "B \<subseteq> Collect is_ctrl \<Longrightarrow> avoids B v \<Longrightarrow> avoids B (quoted_body d v)"
  unfolding avoids_def using quoted_body_set [of d v] special_unbroken by blast

lemma join_avoids: "B \<subseteq> Collect is_ctrl \<Longrightarrow> \<forall>s\<in>set ss. avoids B s \<Longrightarrow> avoids B (join_with '' '' ss)"
  using special_unbroken by (induction "'' ''" ss rule: join_with.induct) auto

lemma header_avoids:
  assumes B: "B \<subseteq> Collect is_ctrl" and "avoids B name" "avoids B wd" "avoids B cmd"
  shows "list_all (avoids B) (unit_header name wd cmd @ butlast unit_footer)"
proof -
  have nB: "c \<notin> B" if "\<not> is_ctrl c" for c using B that by auto
  show ?thesis using assms(2-4) by (simp add: unit_header_def unit_footer_def nB)
qed

text \<open>What rendering puts in the variable places.\<close>

lemma unit_linesE:
  assumes "unit_lines m wd cmd = Inr ls"
  obtains name args dir envs where
    "ls = unit_header name dir (join_with '' '' args) @ envs @ unit_footer"
    "unit_name_for (man_id m) = Inr name" "res_list (map (quote True) cmd) = Inr args"
    "escape_path (path_str wd) = Inr dir" "res_list (map env_line (sort_key fst (man_environment m))) = Inr envs"
  using assms by (auto simp: unit_lines_def)

lemma env_line_Inr:
  "env_line (n, v) = Inr e \<longleftrightarrow> \<not> has_any [LF, CR, NUL] v \<and> \<not> has_any [LF, CR, NUL] (n @ ''='' @ v)
     \<and> e = ''Environment='' @ [QUOTE] @ quoted_body False (n @ ''='' @ v) @ [QUOTE]"
  by (auto simp: env_line_def reject_control_def quote_Inr)

lemma env_lines_Inr:
  assumes "res_list (map env_line nvs) = Inr envs"
  shows "envs = map (\<lambda>(n, v). ''Environment='' @ [QUOTE] @ quoted_body False (n @ ''='' @ v) @ [QUOTE]) nvs"
  using assms
proof (induction nvs arbitrary: envs)
  case (Cons nv nvs)
  obtain n v where nv: "nv = (n, v)" by (cases nv)
  from Cons.prems obtain e es where e: "envs = e # es" "env_line nv = Inr e" "res_list (map env_line nvs) = Inr es"
    by (auto simp: res_list_Inr_iff)
  with Cons.IH [OF e(3)] show ?case by (simp add: nv env_line_Inr)
qed simp

lemma quotes_Inr:
  assumes "res_list (map (quote d) vs) = Inr qs"
  shows "qs = map (\<lambda>v. [QUOTE] @ quoted_body d v @ [QUOTE]) vs \<and> (\<forall>v\<in>set vs. \<not> has_any [LF, CR, NUL] v)"
  using assms
proof (induction vs arbitrary: qs)
  case (Cons v vs)
  from Cons.prems obtain e es where e: "qs = e # es" "quote d v = Inr e" "res_list (map (quote d) vs) = Inr es"
    by (auto simp: res_list_Inr_iff)
  with Cons.IH [OF e(3)] show ?case by (simp add: quote_Inr)
qed simp

lemma rendering_avoids:
  assumes ls: "unit_lines m wd cmd = Inr ls" and B: "B \<subseteq> Collect is_ctrl"
    and v: "\<forall>a\<in>set cmd. avoids B a" "\<forall>(n, v)\<in>set (man_environment m). avoids B n \<and> avoids B v"
  shows "list_all (avoids B) ls" "\<exists>ls'. ls = ls' @ [[]] \<and> ls' \<noteq> []"
proof -
  obtain name args dir envs where l:
    "ls = unit_header name dir (join_with '' '' args) @ envs @ unit_footer"
    "unit_name_for (man_id m) = Inr name" "res_list (map (quote True) cmd) = Inr args"
    "escape_path (path_str wd) = Inr dir" "res_list (map env_line (sort_key fst (man_environment m))) = Inr envs"
    using ls by (rule unit_linesE)
  have nB: "c \<notin> B" if "\<not> is_ctrl c" for c using B that by auto
  have "\<forall>a\<in>set args. avoids B a" using quotes_Inr [OF l(3)] v(1) quoted_avoids [OF B] nB by auto
  then have h: "list_all (avoids B) (unit_header name dir (join_with '' '' args) @ butlast unit_footer)"
    by (intro header_avoids B unbroken_avoids unit_name_unbroken [OF l(2)] escape_path_unbroken [OF l(4)]
        join_avoids)
  have "avoids B (quoted_body False (n @ ''='' @ v))" if "(n, v) \<in> set (man_environment m)" for n v
    using v(2) that by (intro quoted_avoids B) (auto simp: nB)
  then have "\<forall>e\<in>set envs. avoids B e" by (auto simp: env_lines_Inr [OF l(5)] nB)
  then show "list_all (avoids B) ls"
    using h by (auto simp: l(1) unit_footer_def list_all_iff)
  show "\<exists>ls'. ls = ls' @ [[]] \<and> ls' \<noteq> []"
    by (auto simp: l(1) unit_footer_def unit_header_def)
qed

lemma has_any_avoids: "\<not> has_any cs v \<longleftrightarrow> avoids (set cs) v"
  by (auto simp: has_any_def avoids_def list_ex_iff)

lemma control_breaks: "{LF, CR, NUL} \<subseteq> Collect is_ctrl"
  by (simp, code_simp)

lemma rendering_lines:
  assumes ls: "unit_lines m wd cmd = Inr ls" and env: "environment_ok (man_environment m)"
  shows "split_on LF (join_with [LF] ls) = ls"
proof -
  obtain name args dir envs where l:
    "ls = unit_header name dir (join_with '' '' args) @ envs @ unit_footer"
    "unit_name_for (man_id m) = Inr name" "res_list (map (quote True) cmd) = Inr args"
    "escape_path (path_str wd) = Inr dir" "res_list (map env_line (sort_key fst (man_environment m))) = Inr envs"
    using ls by (rule unit_linesE)
  have cmd: "\<forall>a\<in>set cmd. avoids {LF} a"
    using quotes_Inr [OF l(3)] by (auto simp: has_any_avoids avoids_def)
  have n: "LF \<notin> set n" if "env_name_ok n" for n
  proof -
    have "\<not> is_upper LF" "\<not> is_dec LF" "LF \<noteq> CHR ''_''" by code_simp+
    with that show ?thesis by (cases n) (auto simp: env_name_ok_def list_all_iff)
  qed
  have "\<forall>(n, v)\<in>set (man_environment m). avoids {LF} n \<and> avoids {LF} v"
    using env n by (fastforce simp: environment_ok_def list_all_iff has_any_avoids avoids_def)
  then have "list_all (avoids {LF}) ls" "ls \<noteq> []"
    using rendering_avoids [OF ls _ cmd] control_breaks by auto
  then show ?thesis
    by (intro split_on_join) (auto simp: list_all_iff avoids_def)
qed

lemma render_Inr:
  "render_user_unit st fs m = Inr t \<longleftrightarrow>
     (\<exists>wd cmd ls. man_runtime m = ProcessRuntime wd cmd
        \<and> vr_valid (validate_manifest_paths st fs (allowed_roots st) m)
        \<and> unit_lines m wd cmd = Inr ls \<and> validate_rendered_unit t = Inr () \<and> t = join_with [LF] ls)"
  by (cases "man_runtime m") (auto simp: render_user_unit_def Let_def)

lemma unit_name_for_app_id: "app_id_ok a \<Longrightarrow> unit_name_for a = Inr (''machinedeck-'' @ a @ ''.service'')"
proof -
  assume a: "app_id_ok a"
  have n: "\<not> low_alnum (CHR ''-'')" by code_simp
  have "\<not> startswith ''-'' a" using a n by (cases a) (auto simp: app_id_ok_def startswith_def)
  moreover have "\<not> endswith ''-'' a" using a n by (auto simp: app_id_ok_def endswith_iff)
  moreover have "a \<noteq> []" "list_all (\<lambda>c. low_alnum c \<or> c = CHR ''-'') a" using a by (auto simp: app_id_ok_def)
  ultimately show ?thesis by (simp add: unit_name_for_def unit_name_ok_def)
qed

definition env_text :: "string \<times> string \<Rightarrow> string" where
  "env_text nv = fst nv @ ''='' @ snd nv"

lemma quote_ok: "\<not> has_any [LF, CR, NUL] v \<Longrightarrow> quote d v = Inr ([QUOTE] @ quoted_body d v @ [QUOTE])"
  by (simp add: quote_Inr)

lemma unbroken_no_control: "unbroken v \<Longrightarrow> \<not> has_any [LF, CR, NUL] v"
  using unbroken_free [of v] by (auto simp: has_any_avoids avoids_def)

lemma render_total:
  assumes m: "manifest_valid fs m" and r: "man_runtime m = ProcessRuntime wd cmd"
    and v: "vr_valid (validate_manifest_paths st fs (allowed_roots st) m)"
    and wd: "\<not> has_any [LF, CR, NUL] (path_str wd)"
    and u: "\<forall>a\<in>set cmd. unbroken a" "\<forall>(n, v)\<in>set (man_environment m). unbroken v"
  shows "\<exists>ls. unit_lines m wd cmd = Inr ls \<and> (\<exists>ls'. ls = ls' @ [[]] \<and> ls' \<noteq> [] \<and> list_all unbroken ls')
    \<and> render_user_unit st fs m = (if int (length (utf8 (join_with [LF] ls))) \<le> max_unit_bytes
        then Inr (join_with [LF] ls) else Inl (UnitError ''Rendered unit exceeds the maximum size''))"
proof -
  have name: "unit_name_for (man_id m) = Inr (''machinedeck-'' @ man_id m @ ''.service'')"
    using m unit_name_for_app_id by (simp add: manifest_valid_def)
  have cu: "\<forall>a\<in>set cmd. \<not> has_any [LF, CR, NUL] a"
    using u(1) unbroken_no_control by blast
  have args: "res_list (map (quote True) cmd) = Inr (map (\<lambda>v. [QUOTE] @ quoted_body True v @ [QUOTE]) cmd)"
    using cu by (simp add: res_list_Inr_iff quote_ok)
  obtain dir where dir: "escape_path (path_str wd) = Inr dir"
    using wd by (simp add: escape_path_def reject_control_def)
  have nn: "unbroken n" if "env_name_ok n" for n
  proof -
    have "\<not> is_ctrl c" if "is_upper c \<or> is_dec c \<or> c = CHR ''_''" for c
      using that by (auto simp: is_upper_def is_dec_def is_ctrl_cp)
    moreover have "\<forall>c\<in>set n. is_upper c \<or> is_dec c \<or> c = CHR ''_''"
      using that by (cases n) (auto simp: env_name_ok_def list_all_iff)
    ultimately show ?thesis unfolding unbroken_def list_all_iff by blast
  qed
  have eu: "\<forall>(n, v)\<in>set (man_environment m). unbroken n \<and> unbroken v"
    using m u(2) nn by (fastforce simp: manifest_valid_def environment_ok_def list_all_iff)
  have "\<not> has_any [LF, CR, NUL] v \<and> \<not> has_any [LF, CR, NUL] (n @ ''='' @ v)" if "(n, v) \<in> set (man_environment m)" for n v
    using eu that by (intro conjI unbroken_no_control) auto
  then have el: "env_line (n, v) = Inr (''Environment='' @ [QUOTE] @ quoted_body False (n @ ''='' @ v) @ [QUOTE])"
    if "(n, v) \<in> set (man_environment m)" for n v using that by (simp add: env_line_Inr)
  let ?el = "\<lambda>nv. ''Environment='' @ [QUOTE] @ quoted_body False (fst nv @ ''='' @ snd nv) @ [QUOTE]"
  let ?envs = "map ?el (sort_key fst (man_environment m))"
  have envs: "res_list (map env_line (sort_key fst (man_environment m))) = Inr ?envs"
    using el by (auto simp: res_list_Inr_iff)
  let ?args = "map (\<lambda>v. [QUOTE] @ quoted_body True v @ [QUOTE]) cmd"
  let ?h = "unit_header (''machinedeck-'' @ man_id m @ ''.service'') dir (join_with '' '' ?args)"
  have ls: "unit_lines m wd cmd = Inr (?h @ ?envs @ unit_footer)"
    by (simp add: unit_lines_def name args dir envs)
  let ?ls = "?h @ ?envs @ butlast unit_footer"
  have split: "?h @ ?envs @ unit_footer = ?ls @ [[]]" by (simp add: unit_footer_def)
  have "list_all (avoids (Collect is_ctrl)) (?h @ ?envs @ unit_footer)"
    by (rule rendering_avoids(1) [OF ls]) (use u(1) eu in \<open>auto simp: avoids_breaks\<close>)
  then have ub: "list_all unbroken ?ls" unfolding split list_all_iff by (simp add: avoids_breaks)
  define t where "t = join_with [LF] (?h @ ?envs @ unit_footer)"
  define ks where "ks = ?ls"
  have t: "t = join_with [LF] (ks @ [[]])" unfolding t_def ks_def split ..
  have ub: "list_all unbroken ks" using ub by (simp only: ks_def)
  have sp: "splitlines t = ks" unfolding t
    by (rule splitlines_join) (use ub in \<open>auto simp: unbroken_def list_all_iff is_ctrl_def\<close>)
  have "\<forall>e\<in>set ?envs. \<exists>v. e = ''Environment='' @ v" by auto
  from scan_rendering [OF this] obtain keys where sc:
    "scan_unit [] [] ks = Inr ([''[Unit]'', ''[Service]'', ''[Install]''], keys)"
    "require_single keys [''WorkingDirectory'', ''ExecStart'', ''KillMode''] = Inr ()"
    unfolding ks_def by blast
  have ne: "ks \<noteq> []" by (simp add: ks_def unit_header_def)
  have ends: "endswith [LF] t" using join_ends [OF ne] unfolding t endswith_iff .
  have chars: "CR \<notin> set t \<and> NUL \<notin> set t"
  proof -
    have "set t \<subseteq> \<Union> (set ` set (ks @ [[]])) \<union> {LF}" unfolding t by (rule lf_join_chars)
    moreover have "CR \<notin> set l \<and> NUL \<notin> set l" if "l \<in> set (ks @ [[]])" for l
      using that ub unbroken_free [of l] unfolding list_all_iff by auto
    moreover have "CR \<noteq> LF" "NUL \<noteq> LF" by code_simp+
    ultimately show ?thesis by blast
  qed
  have val: "validate_rendered_unit t = (if int (length (utf8 t)) \<le> max_unit_bytes then Inr ()
      else Inl (UnitError ''Rendered unit exceeds the maximum size''))"
    using ends chars by (simp add: validate_rendered_unit_def sp sc del: require_single.simps)
  have "render_user_unit st fs m = (if int (length (utf8 t)) \<le> max_unit_bytes then Inr t
      else Inl (UnitError ''Rendered unit exceeds the maximum size''))"
    using val unfolding render_user_unit_def r t_def by (simp add: Let_def v ls del: append.simps)
  then show ?thesis
    unfolding t_def using ls split ub ne unfolding ks_def by blast
qed

end
