(* ===== verification/UnitManager.thy ===== *)
theory UnitManager
  imports UserUnits
begin

text \<open>
  The second half of \<open>systemd/user_units.py\<close>, the manager that installs units, and
  \<open>systemd/consistency.py\<close>. The unit directory is a map from file names to files with their \<open>lstat\<close>
  data; the commands the manager runs (\<open>systemd-analyze\<close>, \<open>systemctl\<close>) are a parameter over an
  arbitrary host state, since what they do is not part of the repository. \<open>tmp\<close> is the name
  \<open>mkstemp\<close> picks. A unit directory that is a link is taken to point to a directory.
\<close>

section \<open>The unit directory and the commands\<close>

datatype file_kind = KReg | KDir | KLink | KOther

record fstat =
  st_kind :: file_kind
  st_uid :: int
  st_mode :: int

record unit_file =
  uf_stat :: fstat
  uf_content :: string

record adapter_result =
  succeeded :: bool
  message :: string
  exit_code :: "int option"
  error_code :: "string option"

type_synonym 'h runner = "string list \<Rightarrow> 'h \<Rightarrow> adapter_result \<times> 'h"

record 'h unit_world =
  uw_dir :: "fstat option"
  uw_files :: "string \<Rightarrow> unit_file option"
  uw_host :: 'h

text \<open>The process: its effective user, and the mode a new directory gets under its umask.\<close>

record process_env =
  pe_euid :: int
  pe_dir_mode :: int

definition run_in :: "'h runner \<Rightarrow> string list \<Rightarrow> 'h unit_world \<Rightarrow> adapter_result \<times> 'h unit_world" where
  "run_in run cmd w = (case run cmd (uw_host w) of (r, h) \<Rightarrow> (r, w\<lparr>uw_host := h\<rparr>))"

definition others_can_write :: "int \<Rightarrow> bool" where
  "others_can_write mode \<longleftrightarrow> mode div 2 mod 2 = 1 \<or> mode div 16 mod 2 = 1"

definition make_directory :: "process_env \<Rightarrow> 'h unit_world \<Rightarrow> unit_exc + 'h unit_world" where
  "make_directory pe w = (case uw_dir w of
     None \<Rightarrow> Inr (w\<lparr>uw_dir := Some \<lparr>st_kind = KDir, st_uid = pe_euid pe, st_mode = pe_dir_mode pe\<rparr>\<rparr>)
   | Some d \<Rightarrow> if st_kind d = KDir \<or> st_kind d = KLink then Inr w else Inl (OsError ''File exists''))"

definition check_directory :: "process_env \<Rightarrow> 'h unit_world \<Rightarrow> unit_exc + unit" where
  "check_directory pe w = (case uw_dir w of
     None \<Rightarrow> Inl (UnitError ''User unit directory does not exist'')
   | Some d \<Rightarrow>
       if st_kind d \<noteq> KDir then Inl (UnitError ''User unit directory must be a real directory, not a symlink'')
       else if st_uid d \<noteq> pe_euid pe
       then Inl (UnitError ''User unit directory must be owned by the MachineDeck user'')
       else if others_can_write (st_mode d)
       then Inl (UnitError ''User unit directory cannot be group- or world-writable'')
       else Inr ())"

definition trusted_directory :: "process_env \<Rightarrow> bool \<Rightarrow> 'h unit_world \<Rightarrow> unit_exc + 'h unit_world" where
  "trusted_directory pe create w =
     res_bind (if create then make_directory pe w else Inr w) (\<lambda>w1.
     res_bind (check_directory pe w1) (\<lambda>_. Inr w1))"

definition target_path :: "process_env \<Rightarrow> bool \<Rightarrow> string \<Rightarrow> 'h unit_world \<Rightarrow> unit_exc + string \<times> 'h unit_world" where
  "target_path pe create app w =
     res_bind (trusted_directory pe create w) (\<lambda>w1.
     res_bind (unit_name_for app) (\<lambda>name.
       case uw_files w1 name of
         None \<Rightarrow> Inr (name, w1)
       | Some f \<Rightarrow>
           if st_kind (uf_stat f) \<noteq> KReg
           then Inl (UnitError ''Managed unit target must be a regular file, not a symlink'')
           else if st_uid (uf_stat f) \<noteq> pe_euid pe \<or> others_can_write (st_mode (uf_stat f))
           then Inl (UnitError ''Managed unit target has unsafe ownership or write permissions'')
           else Inr (name, w1)))"

text \<open>\<open>None\<close> is FileNotFoundError.\<close>

definition read_regular :: "string \<Rightarrow> 'h unit_world \<Rightarrow> unit_exc + string option" where
  "read_regular name w = (case uw_files w name of
     None \<Rightarrow> Inr None
   | Some f \<Rightarrow>
       if st_kind (uf_stat f) = KLink then Inl (UnitError ''Cannot safely read managed unit'')
       else if st_kind (uf_stat f) \<noteq> KReg
       then Inl (UnitError ''Managed unit target must remain a regular file'')
       else if int (length (uf_content f)) > max_unit_bytes
       then Inl (UnitError ''Existing managed unit exceeds the maximum size'')
       else Inr (Some (uf_content f)))"

definition put_file :: "process_env \<Rightarrow> string \<Rightarrow> string \<Rightarrow> 'h unit_world \<Rightarrow> 'h unit_world" where
  "put_file pe name content w = w\<lparr>uw_files := (uw_files w)(name \<mapsto>
     \<lparr>uf_stat = \<lparr>st_kind = KReg, st_uid = pe_euid pe, st_mode = 420\<rparr>, uf_content = content\<rparr>)\<rparr>"

definition drop_file :: "string \<Rightarrow> 'h unit_world \<Rightarrow> 'h unit_world" where
  "drop_file name w = w\<lparr>uw_files := (uw_files w)(name := None)\<rparr>"

text \<open>The temporary file is written and renamed over the target, so the target is never partial.\<close>

definition atomic_replace :: "process_env \<Rightarrow> string \<Rightarrow> string \<Rightarrow> string \<Rightarrow> 'h unit_world \<Rightarrow> 'h unit_world" where
  "atomic_replace pe tmp name content w = drop_file tmp (put_file pe name content (put_file pe tmp content w))"

record receipt =
  rc_target :: string
  rc_previous :: "string option"
  rc_changed :: bool
  rc_rolled_back :: bool

definition daemon_reload :: "string list" where
  "daemon_reload = [''systemctl'', ''--user'', ''daemon-reload'']"

definition rollback_unit ::
    "process_env \<Rightarrow> 'h runner \<Rightarrow> string \<Rightarrow> receipt \<Rightarrow> 'h unit_world \<Rightarrow> receipt \<times> 'h unit_world"
where
  "rollback_unit pe run tmp rc w =
     (if \<not> rc_changed rc \<or> rc_rolled_back rc then (rc, w)
      else let w1 = (case rc_previous rc of
                       None \<Rightarrow> drop_file (rc_target rc) w
                     | Some c \<Rightarrow> atomic_replace pe tmp (rc_target rc) c w)
           in (rc\<lparr>rc_rolled_back := True\<rparr>, snd (run_in run daemon_reload w1)))"

definition or_else :: "string \<Rightarrow> string \<Rightarrow> string" where
  "or_else s d = (if s = [] then d else s)"

definition verify_staged ::
    "process_env \<Rightarrow> 'h runner \<Rightarrow> string \<Rightarrow> string \<Rightarrow> string \<Rightarrow> 'h unit_world \<Rightarrow> (unit_exc + unit) \<times> 'h unit_world"
where
  "verify_staged pe run udir tmp content w =
     (let (r, w1) = run_in run [''systemd-analyze'', ''--user'', ''verify'', udir @ ''/'' @ tmp]
                      (put_file pe tmp content w)
      in (if succeeded r then Inr ()
          else Inl (UnitError (or_else (message r) ''systemd-analyze rejected the rendered unit'')),
          drop_file tmp w1))"

definition install_unit ::
    "process_env \<Rightarrow> settings \<Rightarrow> host_fs \<Rightarrow> 'h runner \<Rightarrow> string \<Rightarrow> string \<Rightarrow> manifest \<Rightarrow> 'h unit_world
       \<Rightarrow> (unit_exc + receipt) \<times> 'h unit_world"
where
  "install_unit pe st fs run udir tmp m w =
     (case render_user_unit st fs m of
        Inl e \<Rightarrow> (Inl e, w)
      | Inr rendered \<Rightarrow>
          (case make_directory pe w of Inl e \<Rightarrow> (Inl e, w) | Inr wd \<Rightarrow>
          (case target_path pe True (man_id m) w of
             Inl e \<Rightarrow> (Inl e, wd)
           | Inr (target, w1) \<Rightarrow>
               (case read_regular target w1 of
                  Inl e \<Rightarrow> (Inl e, w1)
                | Inr previous \<Rightarrow>
                    if previous = Some (utf8 rendered)
                    then (Inr \<lparr>rc_target = target, rc_previous = previous, rc_changed = False,
                               rc_rolled_back = False\<rparr>, w1)
                    else (case verify_staged pe run udir tmp (utf8 rendered) w1 of
                        (Inl e, w2) \<Rightarrow> (Inl e, w2)
                      | (Inr _, w2) \<Rightarrow>
                          (let w3 = atomic_replace pe tmp target (utf8 rendered) w2;
                               rc = \<lparr>rc_target = target, rc_previous = previous, rc_changed = True,
                                     rc_rolled_back = False\<rparr>;
                               (r, w4) = run_in run daemon_reload w3
                           in if succeeded r then (Inr rc, w4)
                              else (Inl (UnitError (or_else (message r) ''systemd user daemon-reload failed'')),
                                    snd (rollback_unit pe run tmp rc w4))))))))"

section \<open>Consistency of the installed unit\<close>

datatype unit_consistency = MATCH | MISSING | MISMATCH | UNSAFE | NOT_PROCESS

fun consistency_value :: "unit_consistency \<Rightarrow> string" where
  "consistency_value MATCH = ''MATCH''"
| "consistency_value MISSING = ''MISSING''"
| "consistency_value MISMATCH = ''MISMATCH''"
| "consistency_value UNSAFE = ''UNSAFE''"
| "consistency_value NOT_PROCESS = ''NOT_PROCESS''"

record consistency_result =
  cr_app :: string
  cr_unit :: "string option"
  cr_status :: unit_consistency
  cr_message :: string

definition consistency_checks ::
    "process_env \<Rightarrow> settings \<Rightarrow> host_fs \<Rightarrow> manifest \<Rightarrow> 'h unit_world \<Rightarrow> unit_exc + unit_consistency"
where
  "consistency_checks pe st fs m w =
     res_bind (render_user_unit st fs m) (\<lambda>expected.
       if uw_dir w = None then Inr MISSING
       else res_bind (target_path pe False (man_id m) w) (\<lambda>(target, _).
            res_bind (read_regular target w) (\<lambda>content.
              case content of None \<Rightarrow> Inr MISSING
              | Some c \<Rightarrow> Inr (if c = utf8 expected then MATCH else MISMATCH))))"

fun exc_text :: "unit_exc \<Rightarrow> string" where
  "exc_text (UnitError t) = t"
| "exc_text (OsError t) = t"

definition consistency ::
    "process_env \<Rightarrow> settings \<Rightarrow> host_fs \<Rightarrow> manifest \<Rightarrow> 'h unit_world \<Rightarrow> unit_exc + consistency_result"
where
  "consistency pe st fs m w =
     (case man_runtime m of
        ComposeRuntime _ _ _ \<Rightarrow> Inr \<lparr>cr_app = man_id m, cr_unit = None, cr_status = NOT_PROCESS, cr_message = []\<rparr>
      | ProcessRuntime _ _ \<Rightarrow>
          res_bind (unit_name_for (man_id m)) (\<lambda>name.
            case consistency_checks pe st fs m w of
              Inr s \<Rightarrow> Inr \<lparr>cr_app = man_id m, cr_unit = Some name, cr_status = s,
                 cr_message = (if s = MISMATCH then ''Unit content differs from the database manifest'' else [])\<rparr>
            | Inl e \<Rightarrow> Inr \<lparr>cr_app = man_id m, cr_unit = Some name, cr_status = UNSAFE, cr_message = exc_text e\<rparr>))"

fun json_set :: "string \<Rightarrow> json \<Rightarrow> (string \<times> json) list \<Rightarrow> (string \<times> json) list" where
  "json_set k v [] = [(k, v)]"
| "json_set k v ((j, u) # r) = (if j = k then (k, v) # r else (j, u) # json_set k v r)"

fun json_fields :: "json \<Rightarrow> (string \<times> json) list" where
  "json_fields (JObj fs) = fs"
| "json_fields _ = []"

definition note_consistency :: "consistency_result \<Rightarrow> inst_row \<Rightarrow> inst_row" where
  "note_consistency r i = i\<lparr>in_metadata := JObj
     (json_set ''unit_consistency_message'' (JStr (cr_message r))
       (json_set ''unit_consistency'' (JStr (consistency_value (cr_status r))) (json_fields (in_metadata i))))\<rparr>"

definition check_application_unit ::
    "process_env \<Rightarrow> sources \<Rightarrow> settings \<Rightarrow> host_fs \<Rightarrow> codec \<Rightarrow> string \<Rightarrow> 'h unit_world \<Rightarrow> store
       \<Rightarrow> (string + consistency_result) \<times> store"
where
  "check_application_unit pe su st fs cd app w s =
     (case row_get ap_id app (applications (working s)) of
        None \<Rightarrow> (Inl (''Application not found: '' @ app), s)
      | Some r \<Rightarrow>
          (case decode fs cd (ap_config r) of
             None \<Rightarrow> (Inl ''ValidationError'', s)
           | Some m \<Rightarrow>
               (case consistency pe st fs m w of
                  Inl e \<Rightarrow> (Inl (exc_text e), s)
                | Inr res \<Rightarrow>
                    (case latest_state (working s) app of
                       None \<Rightarrow> (Inr res, s)
                     | Some i \<Rightarrow> (Inr res, commit (save_inst su (note_consistency res i) s))))))"

fun reconcile_rows ::
    "process_env \<Rightarrow> sources \<Rightarrow> settings \<Rightarrow> host_fs \<Rightarrow> codec \<Rightarrow> 'h unit_world \<Rightarrow> app_row list \<Rightarrow> store
       \<Rightarrow> (string + consistency_result list) \<times> store"
where
  "reconcile_rows pe su st fs cd w [] s = (Inr [], s)"
| "reconcile_rows pe su st fs cd w (r # rs) s =
     (case decode fs cd (ap_config r) of
        None \<Rightarrow> (Inl ''ValidationError'', s)
      | Some m \<Rightarrow>
          (case man_runtime m of
             ComposeRuntime _ _ _ \<Rightarrow> reconcile_rows pe su st fs cd w rs s
           | ProcessRuntime _ _ \<Rightarrow>
               (case check_application_unit pe su st fs cd (ap_id r) w s of
                  (Inl e, s1) \<Rightarrow> (Inl e, s1)
                | (Inr x, s1) \<Rightarrow>
                    (case reconcile_rows pe su st fs cd w rs s1 of
                       (Inl e, s2) \<Rightarrow> (Inl e, s2)
                     | (Inr xs, s2) \<Rightarrow> (Inr (x # xs), s2)))))"

definition reconcile_all_user_units ::
    "process_env \<Rightarrow> sources \<Rightarrow> settings \<Rightarrow> host_fs \<Rightarrow> codec \<Rightarrow> 'h unit_world \<Rightarrow> store
       \<Rightarrow> (string + consistency_result list) \<times> store"
where
  "reconcile_all_user_units pe su st fs cd w s =
     reconcile_rows pe su st fs cd w
       (filter (\<lambda>r. ap_runtime_type r = ''process'') (applications (working s))) s"

section \<open>The install transaction\<close>

definition contents :: "'h unit_world \<Rightarrow> string \<Rightarrow> string option" where
  "contents w k = map_option uf_content (uw_files w k)"

lemma run_in_frame [simp]:
  "uw_files (snd (run_in run c w)) = uw_files w" "uw_dir (snd (run_in run c w)) = uw_dir w"
  by (simp_all add: run_in_def split: prod.splits)

lemma file_frames [simp]:
  "uw_dir (put_file pe n c w) = uw_dir w" "uw_dir (drop_file n w) = uw_dir w"
  "uw_dir (atomic_replace pe tmp n c w) = uw_dir w"
  by (simp_all add: put_file_def drop_file_def atomic_replace_def)

lemma files_put [simp]: "uw_files (put_file pe n c w) = (uw_files w)(n \<mapsto>
     \<lparr>uf_stat = \<lparr>st_kind = KReg, st_uid = pe_euid pe, st_mode = 420\<rparr>, uf_content = c\<rparr>)"
  by (simp add: put_file_def)

lemma files_drop [simp]: "uw_files (drop_file n w) = (uw_files w)(n := None)"
  by (simp add: drop_file_def)

lemma contents_cong: "uw_files w = uw_files w' \<Longrightarrow> contents w = contents w'"
  by (intro ext) (simp add: contents_def)

lemma contents_run [simp]: "contents (snd (run_in run c w)) = contents w"
  by (intro ext) (simp add: contents_def)

lemma contents_drop [simp]: "contents (drop_file n w) = (contents w)(n := None)"
  by (intro ext) (simp add: contents_def)

lemma contents_replace:
  "tmp \<noteq> n \<Longrightarrow> contents (atomic_replace pe tmp n c w) = (contents w)(n \<mapsto> c, tmp := None)"
  by (intro ext) (simp add: contents_def atomic_replace_def)

lemma upd_None_id [simp]: "f k = None \<Longrightarrow> f(k := None) = f"
  by (intro ext) simp

lemma make_directory_frame: "make_directory pe w = Inr w1 \<Longrightarrow> uw_files w1 = uw_files w"
  by (auto simp: make_directory_def split: option.splits if_splits)

lemma target_pathE:
  assumes "target_path pe create app w = Inr (n, w1)"
  obtains "unit_name_for app = Inr n" "check_directory pe w1 = Inr ()" "uw_files w1 = uw_files w"
    "\<And>f. uw_files w n = Some f \<Longrightarrow> st_kind (uf_stat f) = KReg \<and> st_uid (uf_stat f) = pe_euid pe
       \<and> \<not> others_can_write (st_mode (uf_stat f))"
    "(if create then make_directory pe w else Inr w) = Inr w1"
proof -
  obtain v n' where td: "trusted_directory pe create w = Inr v" and n': "unit_name_for app = Inr n'"
    and c: "(case uw_files v n' of
         None \<Rightarrow> Inr (n', v)
       | Some f \<Rightarrow>
           if st_kind (uf_stat f) \<noteq> KReg
           then Inl (UnitError ''Managed unit target must be a regular file, not a symlink'')
           else if st_uid (uf_stat f) \<noteq> pe_euid pe \<or> others_can_write (st_mode (uf_stat f))
           then Inl (UnitError ''Managed unit target has unsafe ownership or write permissions'')
           else Inr (n', v)) = Inr (n, w1)"
    using assms unfolding target_path_def res_bind_Inr by blast
  have e: "n' = n" "v = w1" using c by (auto split: option.splits if_splits)
  have k: "st_kind (uf_stat f) = KReg \<and> st_uid (uf_stat f) = pe_euid pe
      \<and> \<not> others_can_write (st_mode (uf_stat f))" if "uw_files w1 n = Some f" for f
    using c that by (auto simp: e split: if_splits)
  have d: "(if create then make_directory pe w else Inr w) = Inr w1" "check_directory pe w1 = Inr ()"
    using td unfolding trusted_directory_def res_bind_Inr e by auto
  have f: "uw_files w1 = uw_files w" using d(1) make_directory_frame by (auto split: if_splits)
  show thesis by (rule that) (use n' e k d f in auto)
qed

lemma read_regular_contents:
  assumes "read_regular n w = Inr p" shows "p = contents w n"
  using assms by (auto simp: read_regular_def contents_def split: option.splits if_splits)

lemma run_in_pair: "run_in run c w = (r, w') \<Longrightarrow> uw_files w' = uw_files w \<and> uw_dir w' = uw_dir w"
  using run_in_frame [of run c w] by simp

lemma verify_staged_frame:
  assumes "verify_staged pe run udir tmp c w = (r, w2)" "uw_files w tmp = None"
  shows "uw_files w2 = uw_files w" "uw_dir w2 = uw_dir w"
proof -
  obtain x w1 where x: "run_in run [''systemd-analyze'', ''--user'', ''verify'', udir @ ''/'' @ tmp]
      (put_file pe tmp c w) = (x, w1)" by fastforce
  then have "w2 = drop_file tmp w1" using assms(1) unfolding verify_staged_def Let_def by auto
  then show "uw_files w2 = uw_files w" "uw_dir w2 = uw_dir w"
    using run_in_pair [OF x] assms(2) by simp_all
qed

lemma rollback_contents:
  assumes "rc_changed rc" "\<not> rc_rolled_back rc" "uw_files w tmp = None" "tmp \<noteq> rc_target rc"
  shows "contents (snd (rollback_unit pe run tmp rc w)) = (contents w)(rc_target rc := rc_previous rc)"
proof -
  have "contents w tmp = None" using assms(3) by (simp add: contents_def)
  then show ?thesis
    using assms by (cases "rc_previous rc") (auto simp: rollback_unit_def Let_def contents_replace)
qed

lemma rollback_unchanged: "\<not> rc_changed rc \<Longrightarrow> rollback_unit pe run tmp rc w = (rc, w)"
  by (simp add: rollback_unit_def)

lemma check_directory_cong: "uw_dir w = uw_dir w' \<Longrightarrow> check_directory pe w = check_directory pe w'"
  by (simp add: check_directory_def)

lemma check_directory_some: "check_directory pe w = Inr () \<Longrightarrow> uw_dir w \<noteq> None"
  by (auto simp: check_directory_def split: option.splits)

lemma match_intro:
  assumes t: "render_user_unit st fs m = Inr t" and n: "unit_name_for (man_id m) = Inr n"
    and d: "check_directory pe w = Inr ()" and f: "uw_files w n = Some f" "st_kind (uf_stat f) = KReg"
      "st_uid (uf_stat f) = pe_euid pe" "\<not> others_can_write (st_mode (uf_stat f))" "uf_content f = utf8 t"
  shows "consistency_checks pe st fs m w = Inr MATCH"
proof -
  have "int (length (utf8 t)) \<le> max_unit_bytes"
    using t by (auto simp: render_Inr validate_rendered_unit_def split: if_splits)
  then have "read_regular n w = Inr (Some (utf8 t))" using f by (simp add: read_regular_def)
  moreover have "target_path pe False (man_id m) w = Inr (n, w)"
    using n d f by (simp add: target_path_def trusted_directory_def)
  ultimately show ?thesis
    using t check_directory_some [OF d] by (simp add: consistency_checks_def)
qed

lemma install_cases:
  assumes i: "install_unit pe st fs run udir tmp m w = (res, w')"
    and tmp: "uw_files w tmp = None" "unit_name_for (man_id m) \<noteq> Inr tmp"
  shows "case res of Inl e \<Rightarrow> contents w' = contents w
    | Inr rc \<Rightarrow> \<exists>t n. render_user_unit st fs m = Inr t \<and> unit_name_for (man_id m) = Inr n
        \<and> rc_target rc = n \<and> rc_previous rc = contents w n \<and> \<not> rc_rolled_back rc
        \<and> (rc_changed rc \<longleftrightarrow> contents w n \<noteq> Some (utf8 t)) \<and> contents w' = (contents w)(n \<mapsto> utf8 t)
        \<and> uw_files w' tmp = None \<and> consistency_checks pe st fs m w' = Inr MATCH"
proof (cases "render_user_unit st fs m")
  case (Inl e)
  then show ?thesis using i by (auto simp: install_unit_def)
next
  case (Inr t)
  note ren = this
  show ?thesis
  proof (cases "make_directory pe w")
    case (Inl e)
    then show ?thesis using i ren by (auto simp: install_unit_def)
  next
    case (Inr wd)
    note dir = this
    have cwd: "contents wd = contents w" using make_directory_frame [OF dir] by (rule contents_cong)
    show ?thesis
    proof (cases "target_path pe True (man_id m) w")
      case (Inl e)
      then show ?thesis using i ren dir cwd by (auto simp: install_unit_def)
    next
      case (Inr p)
      then obtain n w1 where tp: "target_path pe True (man_id m) w = Inr (n, w1)" by (cases p) auto
      then have n: "unit_name_for (man_id m) = Inr n" and w1: "uw_files w1 = uw_files w"
        by (auto elim: target_pathE)
      have c1: "contents w1 = contents w" using w1 by (rule contents_cong)
      have d1: "check_directory pe w1 = Inr ()" using tp by (auto elim: target_pathE)
      have ntmp: "tmp \<noteq> n" using tmp(2) n by auto
      show ?thesis
      proof (cases "read_regular n w1")
        case (Inl e)
        then show ?thesis using i ren dir tp c1 by (auto simp: install_unit_def)
      next
        case (Inr prev)
        then have prev: "prev = contents w n" using read_regular_contents c1 by metis
        show ?thesis
        proof (cases "prev = Some (utf8 t)")
          case True
          then have "res = Inr \<lparr>rc_target = n, rc_previous = prev, rc_changed = False, rc_rolled_back = False\<rparr>" "w' = w1"
            using i ren dir tp Inr by (auto simp: install_unit_def)
          moreover have "consistency_checks pe st fs m w1 = Inr MATCH"
          proof -
            obtain f where f: "uw_files w1 n = Some f" "uf_content f = utf8 t"
              using True prev w1 by (auto simp: contents_def)
            moreover have "st_kind (uf_stat f) = KReg \<and> st_uid (uf_stat f) = pe_euid pe
                \<and> \<not> others_can_write (st_mode (uf_stat f))"
              using tp f(1) w1 by (auto elim: target_pathE)
            ultimately show ?thesis using match_intro [OF ren n d1] by blast
          qed
          ultimately show ?thesis using ren n prev True c1 w1 tmp(1) by (auto simp: fun_upd_idem)
        next
          case False
          obtain v w2 where ver: "verify_staged pe run udir tmp (utf8 t) w1 = (v, w2)" by fastforce
          have w2: "uw_files w2 = uw_files w" using verify_staged_frame [OF ver] w1 tmp(1) by simp
          show ?thesis
          proof (cases v)
            case (Inl e)
            then show ?thesis
              using i ren dir tp Inr False ver contents_cong [OF w2] by (auto simp: install_unit_def)
          next
            case vok: (Inr u)
            let ?w3 = "atomic_replace pe tmp n (utf8 t) w2"
            let ?rc = "\<lparr>rc_target = n, rc_previous = prev, rc_changed = True, rc_rolled_back = False\<rparr>"
            obtain r w4 where rel: "run_in run daemon_reload ?w3 = (r, w4)" by fastforce
            have w4: "uw_files w4 = uw_files ?w3" using run_in_pair [OF rel] by simp
            have tmp4: "uw_files w4 tmp = None" by (simp add: w4 atomic_replace_def)
            have c4: "contents w4 = (contents w)(n \<mapsto> utf8 t)"
            proof -
              have "contents w4 = (contents w2)(n \<mapsto> utf8 t, tmp := None)"
                using contents_cong [OF w4] contents_replace [OF ntmp] by metis
              moreover have "contents w2 = contents w" by (rule contents_cong [OF w2])
              moreover have "((contents w)(n \<mapsto> utf8 t)) tmp = None" using tmp(1) ntmp by (simp add: contents_def)
              ultimately show ?thesis by simp
            qed
            have rb: "contents (snd (rollback_unit pe run tmp ?rc w4)) = contents w"
              using rollback_contents [of ?rc w4 tmp pe run] tmp4 ntmp c4 prev by (simp add: fun_upd_idem)
            have "install_unit pe st fs run udir tmp m w = (if succeeded r then (Inr ?rc, w4)
                else (Inl (UnitError (or_else (message r) ''systemd user daemon-reload failed'')),
                      snd (rollback_unit pe run tmp ?rc w4)))"
              using ren dir tp Inr False ver vok rel by (simp add: install_unit_def)
            moreover have "consistency_checks pe st fs m w4 = Inr MATCH"
            proof (rule match_intro [OF ren n])
              have "uw_dir w4 = uw_dir w1" using run_in_pair [OF rel] verify_staged_frame [OF ver] w1 tmp(1) by simp
              then show "check_directory pe w4 = Inr ()" using d1 check_directory_cong by metis
              show "uw_files w4 n = Some \<lparr>uf_stat = \<lparr>st_kind = KReg, st_uid = pe_euid pe, st_mode = 420\<rparr>,
                  uf_content = utf8 t\<rparr>"
                using ntmp by (simp add: w4 atomic_replace_def)
            qed (simp_all add: others_can_write_def)
            ultimately show ?thesis using i rb ren n prev False c4 tmp4 by (auto split: if_splits)
          qed
        qed
      qed
    qed
  qed
qed

section \<open>A sample host\<close>

definition sample_pe :: process_env where
  "sample_pe = \<lparr>pe_euid = 1000, pe_dir_mode = 493\<rparr>"

definition cmd_ok :: adapter_result where
  "cmd_ok = \<lparr>succeeded = True, message = [], exit_code = Some 0, error_code = None\<rparr>"

definition bare_host :: "unit unit_world" where
  "bare_host = \<lparr>uw_dir = None, uw_files = (\<lambda>_. None), uw_host = ()\<rparr>"

definition yes_runner :: "unit runner" where
  "yes_runner cmd h = (cmd_ok, h)"

lemma sample_unit_name [simp]: "unit_name_for ''demo'' = Inr ''machinedeck-demo.service''"
  by code_simp

lemma sample_manifest_valid [simp]: "manifest_valid plain_fs sample_manifest"
  by (rule validate_manifest_valid [OF plain_fs_resolves sample_valid])

lemma sample_policy_valid:
  "vr_valid (validate_manifest_paths sample_settings plain_fs (allowed_roots sample_settings) sample_manifest)"
proof -
  have "under_roots (path_of ''/srv/demo'') [path_of ''/srv'']" by code_simp
  moreover have "under_roots (path_of ''/srv/demo/run'') [path_of ''/srv'']" by code_simp
  ultimately show ?thesis
    unfolding validate_manifest_paths_valid
    by (simp add: sample_manifest_def sample_port_def plain_fs_def sample_settings_def)
qed

lemma sample_renders: "is_ok (render_user_unit sample_settings plain_fs sample_manifest)"
  by code_simp

section \<open>Properties\<close>



text \<open>
  The validator of rendered units accepts every rendering within the size limit: a
  validated process manifest that passes the path policy and whose values hold no line boundary
  of \<open>str.splitlines\<close> renders, and the only refusal left is the size limit of 64 KiB.
\<close>

theorem rendering_accepted:
  assumes "manifest_valid fs m" "man_runtime m = ProcessRuntime wd cmd"
    and "vr_valid (validate_manifest_paths st fs (allowed_roots st) m)"
    and "\<not> has_any [LF, CR, NUL] (path_str wd)"
    and "\<forall>a\<in>set cmd. \<forall>c\<in>set a. \<not> is_line_break c"
    and "\<forall>(n, v)\<in>set (man_environment m). \<forall>c\<in>set v. \<not> is_line_break c"
  shows "\<exists>ls. unit_lines m wd cmd = Inr ls
    \<and> render_user_unit st fs m = (if int (length (utf8 (join_with [LF] ls))) \<le> max_unit_bytes
        then Inr (join_with [LF] ls) else Inl (UnitError ''Rendered unit exceeds the maximum size''))"
proof -
  have n: "NUL \<notin> set a" if "a \<in> set cmd" for a
    using assms(1,2) that by (auto simp: manifest_valid_def list_all_iff)
  have e: "NUL \<notin> set v" if "(k, v) \<in> set (man_environment m)" for k v
    using assms(1) that
    by (fastforce simp: manifest_valid_def environment_ok_def list_all_iff has_any_avoids avoids_def)
  have "\<forall>a\<in>set cmd. unbroken a"
    using assms(5) n by (fastforce simp: unbroken_def list_all_iff is_ctrl_def)
  moreover have "\<forall>(k, v)\<in>set (man_environment m). unbroken v"
    using assms(6) e by (fastforce simp: unbroken_def list_all_iff is_ctrl_def)
  ultimately show ?thesis using render_total [OF assms(1,2,3,4)] by blast
qed

theorem rendering_accepted_witness:
  "\<exists>ls. unit_lines sample_manifest (path_of ''/srv/demo'') [''/srv/demo/run''] = Inr ls
    \<and> render_user_unit sample_settings plain_fs sample_manifest
      = (if int (length (utf8 (join_with [LF] ls))) \<le> max_unit_bytes
         then Inr (join_with [LF] ls) else Inl (UnitError ''Rendered unit exceeds the maximum size''))"
proof (rule rendering_accepted [OF sample_manifest_valid _ sample_policy_valid])
  show "man_runtime sample_manifest = ProcessRuntime (path_of ''/srv/demo'') [''/srv/demo/run'']"
    by (simp add: sample_manifest_def)
  show "\<not> has_any [LF, CR, NUL] (path_str (path_of ''/srv/demo''))" by code_simp
  have "list_all (\<lambda>a. list_all (\<lambda>c. \<not> is_line_break c) a) [''/srv/demo/run'', ''x'']" by code_simp
  then show "\<forall>a\<in>set [''/srv/demo/run'']. \<forall>c\<in>set a. \<not> is_line_break c"
    and "\<forall>(n, v)\<in>set (man_environment sample_manifest). \<forall>c\<in>set v. \<not> is_line_break c"
    by (auto simp: list_all_iff sample_manifest_def)
qed



end
