(* ===== verification/Regex.thy ===== *)
theory Regex
  imports PyStr
begin

text \<open>
  The part of Python's \<open>re\<close> module the program's patterns use: a backtracking matcher whose
  results come in the order in which the module tries them, so that the first one is the match.
  A position is the character before it (for \<open>\\b\<close> and \<open>^\<close>) and the rest of the text. Repetition is only
  ever of a character class. \<open>LineStart\<close> and \<open>LineStop\<close> are \<open>^\<close> and \<open>$\<close> in multi-line mode, \<open>TextEnd\<close>
  is \<open>\\Z\<close>. Strings are Latin-1, as everywhere in the development, so \<open>\\s\<close>, \<open>\\w\<close> and the case
  folding are those of Python on these characters.
\<close>

datatype re =
    Eps
  | Class "char \<Rightarrow> bool"
  | Seq re re
  | Alt re re
  | Many "char \<Rightarrow> bool"
  | Lazy "char \<Rightarrow> bool"
  | Boundary
  | TextStart
  | LineEnd
  | Ahead "char \<Rightarrow> bool"
  | LineStart
  | LineStop
  | TextEnd

definition is_word :: "char \<Rightarrow> bool" where
  "is_word c \<longleftrightarrow> is_alnum c \<or> (let n = cp c in n = 95 \<or> n = 170 \<or> n = 178 \<or> n = 179 \<or> n = 181 \<or> n = 185 \<or> n = 186
     \<or> (188 \<le> n \<and> n \<le> 190) \<or> (192 \<le> n \<and> n \<noteq> 215 \<and> n \<noteq> 247))"

type_synonym position = "char option \<times> string"

definition at_boundary :: "position \<Rightarrow> bool" where
  "at_boundary p \<longleftrightarrow> (case fst p of None \<Rightarrow> False | Some c \<Rightarrow> is_word c)
     \<noteq> (case snd p of [] \<Rightarrow> False | c # _ \<Rightarrow> is_word c)"

text \<open>Greedy repetition, the longest first.\<close>

fun many :: "(char \<Rightarrow> bool) \<Rightarrow> char option \<Rightarrow> string \<Rightarrow> position list" where
  "many P pv [] = [(pv, [])]"
| "many P pv (c # s) = (if P c then many P (Some c) s else []) @ [(pv, c # s)]"

primrec re_match :: "re \<Rightarrow> position \<Rightarrow> position list" where
  "re_match Eps p = [p]"
| "re_match (Class P) p = (case snd p of [] \<Rightarrow> [] | c # s \<Rightarrow> if P c then [(Some c, s)] else [])"
| "re_match (Seq a b) p = concat (map (re_match b) (re_match a p))"
| "re_match (Alt a b) p = re_match a p @ re_match b p"
| "re_match (Many P) p = many P (fst p) (snd p)"
| "re_match (Lazy P) p = rev (many P (fst p) (snd p))"
| "re_match Boundary p = (if at_boundary p then [p] else [])"
| "re_match TextStart p = (if fst p = None then [p] else [])"
| "re_match LineEnd p = (if snd p = [] \<or> snd p = [LF] then [p] else [])"
| "re_match (Ahead P) p = (case snd p of [] \<Rightarrow> [] | c # _ \<Rightarrow> if P c then [p] else [])"
| "re_match LineStart p = (if fst p \<in> {None, Some LF} then [p] else [])"
| "re_match LineStop p = (if snd p = [] \<or> hd (snd p) = LF then [p] else [])"
| "re_match TextEnd p = (if snd p = [] then [p] else [])"

section \<open>Patterns\<close>

definition one_of :: "string \<Rightarrow> re" where
  "one_of cs = Class (\<lambda>c. c \<in> set cs)"

definition opt :: "re \<Rightarrow> re" where
  "opt r = Alt r Eps"

definition many1 :: "(char \<Rightarrow> bool) \<Rightarrow> re" where
  "many1 P = Seq (Class P) (Many P)"

fun re_seq :: "re list \<Rightarrow> re" where
  "re_seq [] = Eps"
| "re_seq [r] = r"
| "re_seq (r # q # rs) = Seq r (re_seq (q # rs))"

fun re_alt :: "re list \<Rightarrow> re" where
  "re_alt [] = Class (\<lambda>_. False)"
| "re_alt [r] = r"
| "re_alt (r # q # rs) = Alt r (re_alt (q # rs))"

definition lit :: "string \<Rightarrow> re" where
  "lit s = re_seq (map (\<lambda>c. Class (\<lambda>x. x = c)) s)"

definition lit_ci :: "string \<Rightarrow> re" where
  "lit_ci s = re_seq (map (\<lambda>c. Class (\<lambda>x. lower_char x = lower_char c)) s)"

section \<open>Matching\<close>

text \<open>A pattern cut into consecutive groups: the texts of the groups and where the match ends.\<close>

fun group_matches :: "re list \<Rightarrow> position \<Rightarrow> (string list \<times> position) list" where
  "group_matches [] p = [([], p)]"
| "group_matches (r # rs) p =
     concat (map (\<lambda>q. map (\<lambda>(gs, e). (take (length (snd p) - length (snd q)) (snd p) # gs, e)) (group_matches rs q))
       (re_match r p))"

definition first_match :: "re list \<Rightarrow> position \<Rightarrow> (string list \<times> position) option" where
  "first_match rs p = (case group_matches rs p of [] \<Rightarrow> None | m # _ \<Rightarrow> Some m)"

text \<open>\<open>pattern.search(s)\<close> as a condition, and \<open>pattern.fullmatch(s)\<close>.\<close>

fun search_from :: "re \<Rightarrow> char option \<Rightarrow> string \<Rightarrow> bool" where
  "search_from r pv [] = (re_match r (pv, []) \<noteq> [])"
| "search_from r pv (c # s) = (re_match r (pv, c # s) \<noteq> [] \<or> search_from r (Some c) s)"

definition re_search :: "re \<Rightarrow> string \<Rightarrow> bool" where
  "re_search r s = search_from r None s"

definition re_fullmatch :: "re \<Rightarrow> string \<Rightarrow> bool" where
  "re_fullmatch r s = list_ex (\<lambda>p. snd p = []) (re_match r (None, s))"

text \<open>The leftmost match, with its groups.\<close>

fun search_groups :: "re list \<Rightarrow> char option \<Rightarrow> string \<Rightarrow> string list option" where
  "search_groups rs pv [] = map_option fst (first_match rs (pv, []))"
| "search_groups rs pv (c # s) = (case first_match rs (pv, c # s) of
     Some (gs, _) \<Rightarrow> Some gs | None \<Rightarrow> search_groups rs (Some c) s)"

text \<open>\<open>pattern.sub(f, s)\<close> for a pattern that does not match the empty text.\<close>

function sub_from :: "(string list \<Rightarrow> string) \<Rightarrow> re list \<Rightarrow> char option \<Rightarrow> string \<Rightarrow> string" where
  "sub_from f rs pv [] = []"
| "sub_from f rs pv (c # s) =
     (case first_match rs (pv, c # s) of
        Some (gs, (pv', rest)) \<Rightarrow>
          if length rest < length (c # s) then f gs @ sub_from f rs pv' rest else c # sub_from f rs (Some c) s
      | None \<Rightarrow> c # sub_from f rs (Some c) s)"
  by pat_completeness auto
termination by (relation "measure (\<lambda>(f, rs, pv, s). length s)") auto

definition re_sub :: "(string list \<Rightarrow> string) \<Rightarrow> re list \<Rightarrow> string \<Rightarrow> string" where
  "re_sub f rs s = sub_from f rs None s"

lemma sub_from_none: "(\<And>p q u. s = p @ q \<Longrightarrow> q \<noteq> [] \<Longrightarrow> first_match rs (u, q) = None) \<Longrightarrow> sub_from f rs pv s = s"
proof (induction s arbitrary: pv)
  case Nil
  then show ?case by simp
next
  case (Cons c s)
  have "first_match rs (pv, c # s) = None" using Cons.prems [of "[]" "c # s"] by simp
  moreover have "sub_from f rs (Some c) s = s" by (rule Cons.IH) (use Cons.prems [of "c # _"] in auto)
  ultimately show ?case by simp
qed

section \<open>What a match says about the text\<close>

lemma many_suffix: "q \<in> set (many P pv s) \<Longrightarrow> \<exists>u. s = u @ snd q \<and> list_all P u"
proof (induction P pv s rule: many.induct)
  case (1 P pv)
  then show ?case by simp
next
  case (2 P pv c s)
  show ?case
  proof (cases "P c \<and> q \<in> set (many P (Some c) s)")
    case True
    then obtain u where "s = u @ snd q" "list_all P u" using 2 by blast
    then show ?thesis using True by (intro exI [of _ "c # u"]) simp
  next
    case False
    then show ?thesis using 2 by (intro exI [of _ "[]"]) (auto split: if_splits)
  qed
qed

lemma match_suffix: "q \<in> set (re_match r p) \<Longrightarrow> \<exists>u. snd p = u @ snd q"
proof (induction r arbitrary: p q)
  case (Class P)
  then show ?case by (cases "snd p") (auto split: if_splits intro: exI [of _ "[hd (snd p)]"])
next
  case (Seq a b)
  then obtain m where m: "m \<in> set (re_match a p)" "q \<in> set (re_match b m)" by auto
  from Seq.IH(1) [OF m(1)] Seq.IH(2) [OF m(2)] show ?case by auto
next
  case (Alt a b)
  from Alt.prems have "q \<in> set (re_match a p) \<or> q \<in> set (re_match b p)" by simp
  then show ?case using Alt.IH by metis
next
  case (Many P)
  then show ?case by (auto dest: many_suffix)
next
  case (Lazy P)
  then show ?case by (auto dest: many_suffix)
qed (auto split: if_splits list.splits)

lemma many_all: "list_all P s \<Longrightarrow> hd (many P pv s) = (if s = [] then pv else Some (last s), [])"
proof (induction P pv s rule: many.induct)
  case (1 P pv)
  then show ?case by simp
next
  case (2 P pv c s)
  have "many P (Some c) s \<noteq> []" by (cases s) auto
  then show ?case using 2 by (auto simp: hd_append)
qed

lemma many_ne [simp]: "many P pv s \<noteq> []"
  by (cases s) auto

lemma many_stop: "s \<noteq> [] \<Longrightarrow> \<not> P (hd s) \<Longrightarrow> many P pv s = [(pv, s)]"
  by (cases s) auto

end
