(* ===== verification/Redaction.thy ===== *)
theory Redaction
  imports UnitManager Url Regex
begin

text \<open>
  \<open>audit/redaction.py\<close>: what an audit event may show of its details. The query-string functions
  of \<open>urllib.parse\<close> (\<open>parse_qsl\<close> with blank values kept, and \<open>urlencode\<close>) are the parameter \<open>qs\<close>.
\<close>

record qs_codec =
  qs_parse :: "string \<Rightarrow> (string \<times> string) list"
  qs_encode :: "(string \<times> string) list \<Rightarrow> string"

definition max_details_bytes :: int where "max_details_bytes = 16 * 1024"
definition max_string_length :: nat where "max_string_length = 4096"
definition max_collection_items :: nat where "max_collection_items = 100"
definition max_depth :: nat where "max_depth = 8"

section \<open>Patterns\<close>

definition api_key :: re where
  "api_key = re_seq [lit_ci ''api'', opt (one_of ''_-''), lit_ci ''key'']"

definition sensitive_key :: re where
  "sensitive_key = re_alt [lit_ci ''password'', lit_ci ''passwd'', lit_ci ''credential'', lit_ci ''csrf'', lit_ci ''cookie'',
     lit_ci ''session'', lit_ci ''token'', api_key, lit_ci ''secret'', lit_ci ''authorization'']"

definition sensitive_container :: re where
  "sensitive_container = re_alt [lit_ci ''env'', lit_ci ''environment'', Seq (lit_ci ''header'') (opt (lit_ci ''s'')),
     lit_ci ''request_body'', lit_ci ''login_request'', lit_ci ''credentials'']"

definition sensitive_path :: re where
  "sensitive_path = re_seq [Alt TextStart (lit_ci ''_''),
     re_alt [lit_ci ''path'', lit_ci ''working_dir'', lit_ci ''compose_file'', lit_ci ''env_file''], LineEnd]"

text \<open>The alternatives for a value: a quoted string, or all up to white space or a separator.\<close>

definition assigned_value :: re where
  "assigned_value = re_alt
     [re_seq [one_of [QUOTE], Many (\<lambda>c. c \<noteq> QUOTE), one_of [QUOTE]],
      re_seq [one_of [CHR 0x27], Many (\<lambda>c. c \<noteq> CHR 0x27), one_of [CHR 0x27]],
      many1 (\<lambda>c. \<not> is_space c \<and> c \<notin> set '',;&'')]"

definition assignment_groups :: "re \<Rightarrow> re list" where
  "assignment_groups names =
     [Seq Boundary names, re_seq [Boundary, Many is_space, one_of '':='', Many is_space], assigned_value]"

definition assignment :: "re list" where
  "assignment = assignment_groups (re_alt [lit_ci ''password'', lit_ci ''passwd'', lit_ci ''csrf'', lit_ci ''cookie'',
     lit_ci ''session'', lit_ci ''token'', api_key, lit_ci ''secret'', lit_ci ''authorization''])"

definition bearer :: "re list" where
  "bearer = [re_seq [lit_ci ''authorization'', Many is_space, one_of '':='', Many is_space, lit_ci ''bearer'', many1 is_space],
     Seq (many1 (\<lambda>c. is_alnum c \<or> c \<in> set ''._~+/-'')) (Many (\<lambda>c. c = CHR ''=''))]"

definition jwt_char :: "char \<Rightarrow> bool" where
  "jwt_char c \<longleftrightarrow> is_alnum c \<or> c \<in> set ''_-''"

definition jwt :: "re list" where
  "jwt = [re_seq [Boundary, lit ''eyJ'', many1 jwt_char, lit ''.'', many1 jwt_char, lit ''.'', many1 jwt_char, Boundary]]"

definition url_pattern :: "re list" where
  "url_pattern = [re_seq [lit ''http'', opt (lit ''s''), lit ''://'', many1 (\<lambda>c. \<not> is_space c \<and> c \<notin> set [CHR ''<'', CHR ''>'', QUOTE])]]"

section \<open>Texts\<close>

text \<open>\<open>urlunsplit\<close> of an http or https URL.\<close>

definition unsplit_url :: "string \<Rightarrow> string \<Rightarrow> string \<Rightarrow> string \<Rightarrow> string \<Rightarrow> string" where
  "unsplit_url sch nl pth qry frag =
     (let base = (if nl \<noteq> [] \<or> \<not> startswith ''//'' pth
                  then ''//'' @ nl @ (if pth \<noteq> [] \<and> \<not> startswith ''/'' pth then ''/'' @ pth else pth) else pth)
      in sch @ '':'' @ base @ (if qry = [] then [] else ''?'' @ qry) @ (if frag = [] then [] else ''#'' @ frag))"

definition redact_query :: "qs_codec \<Rightarrow> re \<Rightarrow> string \<Rightarrow> string" where
  "redact_query qs names q =
     qs_encode qs (map (\<lambda>(n, v). (n, if re_search names n then ''[REDACTED]'' else v)) (qs_parse qs q))"

definition redact_url :: "qs_codec \<Rightarrow> string \<Rightarrow> string" where
  "redact_url qs raw =
     (case urlsplit raw of None \<Rightarrow> ''[REDACTED_URL]'' | Some u \<Rightarrow>
       (case url_port u of None \<Rightarrow> ''[REDACTED_URL]'' | Some port \<Rightarrow>
          let host = (case url_hostname u of None \<Rightarrow> [] | Some h \<Rightarrow> h);
              nl = (case port of Some n \<Rightarrow> if n \<noteq> 0 then host @ '':'' @ int_str n else host | None \<Rightarrow> host)
          in unsplit_url (u_scheme u) nl (u_path u) (redact_query qs sensitive_key (u_query u)) (u_fragment u)))"

text \<open>The three substitutions both redactors share, then the URLs.\<close>

definition redact_with :: "re list \<Rightarrow> (string \<Rightarrow> string) \<Rightarrow> string \<Rightarrow> string" where
  "redact_with assign on_url s =
     re_sub (\<lambda>gs. on_url (concat gs)) url_pattern
       (re_sub (\<lambda>_. ''[REDACTED_JWT]'') jwt
         (re_sub (\<lambda>gs. concat (take 2 gs) @ ''[REDACTED]'') assign
           (re_sub (\<lambda>gs. concat (take 1 gs) @ ''[REDACTED]'') bearer s)))"

definition redact_text :: "qs_codec \<Rightarrow> string \<Rightarrow> string" where
  "redact_text qs s = redact_with assignment (redact_url qs) (take max_string_length s)"

section \<open>Details\<close>

definition mask_of :: "string \<Rightarrow> string option" where
  "mask_of key =
     (if re_search sensitive_key key then Some ''[REDACTED]''
      else if re_fullmatch sensitive_container key then Some ''[REDACTED_CONTAINER]''
      else if re_search sensitive_path key then Some ''[REDACTED_PATH]''
      else None)"

definition truncated_items :: "nat \<Rightarrow> json" where
  "truncated_items n = JStr (''[TRUNCATED_'' @ int_str (int n) @ ''_ITEMS]'')"

text \<open>The recursion is on the depth still allowed.\<close>

primrec sanitize :: "qs_codec \<Rightarrow> nat \<Rightarrow> string \<Rightarrow> json \<Rightarrow> json" where
  "sanitize qs 0 key v = JStr (case mask_of key of Some m \<Rightarrow> m | None \<Rightarrow> ''[TRUNCATED_DEPTH]'')"
| "sanitize qs (Suc n) key v =
     (case mask_of key of Some m \<Rightarrow> JStr m
      | None \<Rightarrow>
        (case v of
           JObj fs \<Rightarrow>
             (let out = foldl (\<lambda>out (k, c). let name = take 200 k in json_set name (sanitize qs n name c) out) []
                          (take max_collection_items fs)
              in JObj (if max_collection_items < length fs
                       then json_set ''_truncated_items'' (JInt (int (length fs - max_collection_items))) out else out))
         | JList vs \<Rightarrow>
             JList (map (sanitize qs n []) (take max_collection_items vs)
                    @ (if max_collection_items < length vs then [truncated_items (length vs - max_collection_items)] else []))
         | JStr s \<Rightarrow> JStr (redact_text qs s)
         | _ \<Rightarrow> v))"

text \<open>\<open>json.dumps\<close> without spaces and without ASCII escapes.\<close>

definition dumps_char :: "char \<Rightarrow> string" where
  "dumps_char c = (let n = cp c in
     if c = QUOTE \<or> c = BACKSLASH then [BACKSLASH, c]
     else if n = 10 then BACKSLASH # ''n'' else if n = 13 then BACKSLASH # ''r'' else if n = 9 then BACKSLASH # ''t''
     else if n = 12 then BACKSLASH # ''f'' else if n = 8 then BACKSLASH # ''b''
     else if n < 32 then BACKSLASH # ''u00'' @ [digit_char (n div 16), digit_char (n mod 16)]
     else [c])"

definition dumps_string :: "string \<Rightarrow> string" where
  "dumps_string s = QUOTE # concat (map dumps_char s) @ [QUOTE]"

primrec dumps :: "json \<Rightarrow> string" where
  "dumps JNull = ''null''"
| "dumps (JBool b) = (if b then ''true'' else ''false'')"
| "dumps (JInt n) = int_str n"
| "dumps (JStr s) = dumps_string s"
| "dumps (JList vs) = ''['' @ join_with '','' (map dumps vs) @ '']''"
| "dumps (JObj fs) = ''{'' @ join_with '','' (map (\<lambda>(k, t). dumps_string k @ '':'' @ t) (map (map_prod id dumps) fs)) @ ''}''"

text \<open>The longest prefix that fits: what decoding a cut encoding with \<open>errors="ignore"\<close> gives.\<close>

fun utf8_prefix :: "int \<Rightarrow> string \<Rightarrow> string" where
  "utf8_prefix n [] = []"
| "utf8_prefix n (c # s) = (let k = int (length (utf8_char c)) in if n < k then [] else c # utf8_prefix (n - k) s)"

definition sanitize_audit_details :: "qs_codec \<Rightarrow> json \<Rightarrow> json" where
  "sanitize_audit_details qs details =
     (let clean = sanitize qs max_depth [] (if details = JNull then JObj [] else details);
          text = dumps clean;
          size = int (length (utf8 text))
      in if size \<le> max_details_bytes then clean
         else JObj [(''_truncated'', JBool True), (''original_sanitized_size_bytes'', JInt size),
                    (''preview'', JStr (redact_text qs (utf8_prefix 4096 text)))])"

section \<open>Masking and bounds\<close>

definition entry_ok :: "(json \<Rightarrow> bool) \<Rightarrow> string \<times> json \<Rightarrow> bool" where
  "entry_ok P e \<longleftrightarrow> length (fst e) \<le> 200 \<and> P (snd e) \<and> (case mask_of (fst e) of None \<Rightarrow> True | Some m \<Rightarrow> snd e = JStr m)"

primrec shown_json :: "nat \<Rightarrow> json \<Rightarrow> bool" where
  "shown_json 0 v = (case v of JObj _ \<Rightarrow> False | JList _ \<Rightarrow> False | _ \<Rightarrow> True)"
| "shown_json (Suc n) v = (case v of
     JObj fs \<Rightarrow> length fs \<le> Suc max_collection_items \<and> distinct (map fst fs) \<and> list_all (entry_ok (shown_json n)) fs
   | JList vs \<Rightarrow> length vs \<le> Suc max_collection_items \<and> list_all (shown_json n) vs
   | _ \<Rightarrow> True)"

lemma shown_scalar [simp]:
  "shown_json n JNull" "shown_json n (JBool b)" "shown_json n (JInt i)" "shown_json n (JStr s)"
  by (cases n; simp)+

lemma json_set_length: "length (json_set k v fs) \<le> Suc (length fs)"
  by (induction fs) auto

lemma json_set_keys: "fst ` set (json_set k v fs) = insert k (fst ` set fs)"
  by (induction k v fs rule: json_set.induct) auto

lemma json_set_distinct: "distinct (map fst fs) \<Longrightarrow> distinct (map fst (json_set k v fs))"
proof (induction fs)
  case Nil
  then show ?case by simp
next
  case (Cons e fs)
  obtain j u where e: "e = (j, u)" by (cases e)
  have "fst ` set (json_set k v fs) = insert k (fst ` set fs)" by (rule json_set_keys)
  then show ?case using Cons by (auto simp: e)
qed

lemma json_set_all: "list_all Q fs \<Longrightarrow> Q (k, v) \<Longrightarrow> list_all Q (json_set k v fs)"
  by (induction fs) auto

lemma masked_sanitize: "mask_of k = Some m \<Longrightarrow> sanitize qs n k v = JStr m"
  by (cases n) simp_all

lemma sanitize_entry:
  assumes "\<And>k v. shown_json n (sanitize qs n k v)"
  shows "entry_ok (shown_json n) (take 200 k, sanitize qs n (take 200 k) v)"
  using assms by (auto simp: entry_ok_def masked_sanitize split: option.splits)

lemma sanitize_fields:
  assumes IH: "\<And>k v. shown_json n (sanitize qs n k v)"
  shows "distinct (map fst acc) \<Longrightarrow> list_all (entry_ok (shown_json n)) acc \<Longrightarrow>
    (let out = foldl (\<lambda>out (k, c). let name = take 200 k in json_set name (sanitize qs n name c) out) acc fs
     in length out \<le> length acc + length fs \<and> distinct (map fst out) \<and> list_all (entry_ok (shown_json n)) out)"
proof (induction fs arbitrary: acc)
  case Nil
  then show ?case by simp
next
  case (Cons e fs)
  obtain k c where e: "e = (k, c)" by (cases e)
  let ?acc = "json_set (take 200 k) (sanitize qs n (take 200 k) c) acc"
  have "distinct (map fst ?acc)" "list_all (entry_ok (shown_json n)) ?acc"
    by (rule json_set_distinct [OF Cons.prems(1)], rule json_set_all [OF Cons.prems(2) sanitize_entry [OF IH]])
  from Cons.IH [OF this] show ?case
    using json_set_length [of "take 200 k" "sanitize qs n (take 200 k) c" acc] by (simp add: e Let_def)
qed

lemma sanitize_shown: "shown_json n (sanitize qs n k v)"
proof (induction n arbitrary: k v)
  case 0
  then show ?case by simp
next
  case (Suc n)
  have t: "mask_of ''_truncated_items'' = None" by code_simp
  show ?case
  proof (cases "mask_of k")
    case (Some m)
    then show ?thesis by simp
  next
    case None
    show ?thesis
    proof (cases v)
      case (JObj fs)
      define out where "out = foldl (\<lambda>out (k, c). let name = take 200 k in json_set name (sanitize qs n name c) out) []
          (take max_collection_items fs)"
      have o1: "length out \<le> max_collection_items" "distinct (map fst out)" "list_all (entry_ok (shown_json n)) out"
        using sanitize_fields [where acc = "[]" and fs = "take max_collection_items fs", OF Suc.IH]
        unfolding out_def Let_def by (auto intro: order_trans)
      have e: "entry_ok (shown_json n) (''_truncated_items'', JInt i)" for i
        by (simp add: entry_ok_def t)
      have more: "length (json_set ''_truncated_items'' (JInt i) out) \<le> Suc max_collection_items" for i
        using json_set_length [of "''_truncated_items''" "JInt i" out] o1(1) by linarith
      have "sanitize qs (Suc n) k v = JObj (if max_collection_items < length fs
          then json_set ''_truncated_items'' (JInt (int (length fs - max_collection_items))) out else out)"
        by (simp add: None JObj out_def)
      then show ?thesis
        using o1 more json_set_distinct [OF o1(2)] json_set_all [OF o1(3) e] by simp
    next
      case (JList vs)
      have "list_all (shown_json n) (map (sanitize qs n []) xs)" for xs by (simp add: list_all_iff Suc.IH)
      then show ?thesis using None JList by (simp add: truncated_items_def)
    qed (simp_all add: None)
  qed
qed


section \<open>Secrets in texts\<close>

lemma class_step: "q \<in> set (re_match (Class P) p) \<Longrightarrow> \<exists>c s. snd p = c # s \<and> P c"
  by (cases "snd p") (auto split: if_splits)

lemma seq_step: "q \<in> set (re_match (Seq a b) p) \<longleftrightarrow> (\<exists>m. m \<in> set (re_match a p) \<and> q \<in> set (re_match b m))"
  by auto

lemma first_group_fails: "re_match r p = [] \<Longrightarrow> first_match (r # rs) p = None"
  by (simp add: first_match_def)

lemma bearer_needs_space:
  assumes "\<forall>c\<in>set (snd p). \<not> is_space c"
  shows "first_match bearer p = None"
proof -
  have "re_match (hd bearer) p = []"
  proof (rule ccontr)
    assume "re_match (hd bearer) p \<noteq> []"
    then obtain q where q: "q \<in> set (re_match (hd bearer) p)" by (cases "re_match (hd bearer) p") auto
    have e: "hd bearer = Seq (lit_ci ''authorization'') (Seq (Many is_space) (Seq (one_of '':='') (Seq (Many is_space)
        (Seq (lit_ci ''bearer'') (Seq (Class is_space) (Many is_space))))))"
      by (simp add: bearer_def many1_def)
    from q obtain m1 m2 m3 m4 m5 where
      "m1 \<in> set (re_match (lit_ci ''authorization'') p)" "m2 \<in> set (re_match (Many is_space) m1)"
      "m3 \<in> set (re_match (one_of '':='') m2)" "m4 \<in> set (re_match (Many is_space) m3)"
      "m5 \<in> set (re_match (lit_ci ''bearer'') m4)" and m: "\<exists>m6. m6 \<in> set (re_match (Class is_space) m5)"
      unfolding e seq_step by blast
    then have "\<exists>u. snd p = u @ snd m5"
      using match_suffix by (metis append.assoc)
    moreover obtain c s where "snd m5 = c # s" "is_space c" using m class_step by blast
    ultimately show False using assms by auto
  qed
  then have "first_match (hd bearer # tl bearer) p = None" by (rule first_group_fails)
  then show ?thesis by (simp add: bearer_def)
qed

lemma alnum_plain:
  assumes "is_alnum c"
  shows "\<not> is_space c" "c \<noteq> QUOTE" "c \<noteq> CHR 0x27" "c \<notin> set '',;&''"
proof -
  have "list_all (\<lambda>c. \<not> is_alnum c) (QUOTE # CHR 0x27 # '',;&'')" by code_simp
  then show "c \<noteq> QUOTE" "c \<noteq> CHR 0x27" "c \<notin> set '',;&''" using assms by (auto simp: list_all_iff)
  show "\<not> is_space c" using assms
    by (auto simp: is_space_def is_alnum_def is_dec_def is_lower_def is_upper_def Let_def)
qed

definition secret_keys :: "string list" where
  "secret_keys = [''password'', ''passwd'', ''csrf'', ''cookie'', ''session'', ''token'', ''apikey'', ''api_key'', ''api-key'',
     ''secret'', ''authorization'']"

lemma secret_key_match: "k \<in> set secret_keys \<Longrightarrow> re_match (hd assignment) (None, k @ ''='' @ w) = [(Some (last k), ''='' @ w)]"
proof -
  have "list_all (\<lambda>k. re_match (hd assignment) (None, k @ ''='' @ w) = [(Some (last k), ''='' @ w)]) secret_keys" by code_simp
  then show "k \<in> set secret_keys \<Longrightarrow> ?thesis" unfolding list_all_iff by blast
qed

lemma secret_key_facts:
  assumes "k \<in> set secret_keys"
  shows "is_word (last k)" "\<forall>c\<in>set k. \<not> is_space c" "k \<noteq> []" "length k < 100"
    and "re_sub (\<lambda>_. r) jwt (k @ ''=[REDACTED]'') = k @ ''=[REDACTED]''"
    and "re_sub f url_pattern (k @ ''=[REDACTED]'') = k @ ''=[REDACTED]''"
proof -
  have 1: "list_all (\<lambda>k. is_word (last k) \<and> list_all (\<lambda>c. \<not> is_space c) k \<and> k \<noteq> [] \<and> length k < 100) secret_keys" by code_simp
  show "is_word (last k)" "\<forall>c\<in>set k. \<not> is_space c" "k \<noteq> []" "length k < 100"
    using 1 assms unfolding list_all_iff by blast+
  have "list_all (\<lambda>k. re_sub (\<lambda>_. r) jwt (k @ ''=[REDACTED]'') = k @ ''=[REDACTED]'') secret_keys" by code_simp
  then show "re_sub (\<lambda>_. r) jwt (k @ ''=[REDACTED]'') = k @ ''=[REDACTED]''" using assms unfolding list_all_iff by blast
  have "list_all (\<lambda>k. re_sub f url_pattern (k @ ''=[REDACTED]'') = k @ ''=[REDACTED]'') secret_keys" by code_simp
  then show "re_sub f url_pattern (k @ ''=[REDACTED]'') = k @ ''=[REDACTED]''" using assms unfolding list_all_iff by blast
qed

lemma alnum_value:
  assumes "list_all is_alnum w" "w \<noteq> []"
  shows "\<exists>rest. re_match assigned_value (pv, w) = (Some (last w), []) # rest"
proof -
  obtain c s where w: "w = c # s" using assms(2) by (cases w) auto
  then have c: "is_alnum c" "list_all is_alnum s" using assms(1) by auto
  let ?P = "\<lambda>c. \<not> is_space c \<and> c \<notin> set '',;&''"
  have s: "list_all ?P s" using c(2) alnum_plain unfolding list_all_iff by blast
  have h: "hd (many ?P (Some c) s) = (Some (last w), [])"
    using many_all [OF s, of "Some c"] by (auto simp: w)
  then obtain rest where "many ?P (Some c) s = (Some (last w), []) # rest"
    by (cases "many ?P (Some c) s") auto
  then show ?thesis
    using alnum_plain [OF c(1)] by (simp add: assigned_value_def one_of_def many1_def w)
qed

lemma assignment_match:
  assumes k: "k \<in> set secret_keys" and w: "list_all is_alnum w" "w \<noteq> []"
  shows "first_match assignment (None, k @ ''='' @ w) = Some ([k, ''='', w], (Some (last w), []))"
proof -
  obtain c s where cs: "w = c # s" "is_alnum c" using w by (cases w) auto
  have ns: "\<not> is_space c" by (rule alnum_plain [OF cs(2)])
  have g2: "re_match (assignment ! 1) (Some (last k), ''='' @ w) = [(Some (CHR ''=''), w)]"
  proof -
    have "at_boundary (Some (last k), ''='' @ w)"
    proof -
      have "\<not> is_word (CHR ''='')" by code_simp
      then show ?thesis using secret_key_facts(1) [OF k] by (simp add: at_boundary_def)
    qed
    moreover have "\<not> is_space (CHR ''='')" by code_simp
    moreover have "many is_space (Some (CHR ''='')) w = [(Some (CHR ''=''), w)]" by (rule many_stop) (use cs ns in auto)
    ultimately show ?thesis
      by (simp add: assignment_def assignment_groups_def one_of_def)
  qed
  obtain rest where g3: "re_match (assignment ! 2) (Some (CHR ''=''), w) = (Some (last w), []) # rest"
    using alnum_value [OF w] by (auto simp: assignment_def assignment_groups_def)
  have a: "assignment = [hd assignment, assignment ! 1, assignment ! 2]"
    by (simp add: assignment_def assignment_groups_def)
  have "group_matches assignment (None, k @ ''='' @ w) = ([k, ''='', w], (Some (last w), [])) #
      map (\<lambda>(gs, e). (k # gs, e)) (map (\<lambda>(gs, e). (''='' # gs, e)) (concat (map (\<lambda>q. [([take (length w - length (snd q)) w], q)]) rest)))"
    by (subst a) (simp add: secret_key_match [OF k, simplified] g2 [simplified] g3)
  then show ?thesis by (simp add: first_match_def)
qed



end
