(* ===== verification/RuntimeAdapter.thy ===== *)
theory RuntimeAdapter
  imports UnitManager
begin

text \<open>
  \<open>adapters/runtime.py\<close>: running a command, the systemd and Compose adapters, and the choice
  between them. The commands act on an arbitrary host state through the parameter \<open>spawn\<close>, what
  \<open>create_subprocess_exec\<close> and \<open>communicate\<close> give for an argument vector; \<open>loads\<close> is \<open>json.loads\<close>
  (\<open>None\<close> for JSONDecodeError), \<open>pystr\<close> Python's \<open>str\<close> of a JSON value that is not a string.

  An adapter is a record of its five methods over the world it acts on, a raised exception being
  the left value.
\<close>

section \<open>Commands\<close>

datatype proc_outcome =
    SpawnError string
  | TimedOut
  | Finished int string

text \<open>The text is the decoded standard output followed by the standard error.\<close>

fun command_result :: "proc_outcome \<Rightarrow> adapter_result" where
  "command_result (SpawnError e) =
     \<lparr>succeeded = False, message = e, exit_code = None, error_code = Some ''RUNTIME_UNAVAILABLE''\<rparr>"
| "command_result TimedOut =
     \<lparr>succeeded = False, message = ''Runtime command timed out'', exit_code = None,
      error_code = Some ''RUNTIME_TIMEOUT''\<rparr>"
| "command_result (Finished rc out) =
     \<lparr>succeeded = (rc = 0), message = py_strip out, exit_code = Some rc,
      error_code = (if rc = 0 then None else Some ''RUNTIME_COMMAND_FAILED'')\<rparr>"

type_synonym 'h spawn = "path option \<Rightarrow> string list \<Rightarrow> 'h \<Rightarrow> proc_outcome \<times> 'h"

definition run_command :: "'h spawn \<Rightarrow> path option \<Rightarrow> 'h runner" where
  "run_command sp cwd cmd h = (case sp cwd cmd h of (out, h') \<Rightarrow> (command_result out, h'))"

datatype py_exn = RuntimeErr string | OtherErr string

record runtime_state =
  rs_status :: app_status
  rs_identifier :: string
  rs_metadata :: json
  rs_error :: "string option"

record 'w adapter =
  ad_start :: "'w \<Rightarrow> (py_exn + adapter_result) \<times> 'w"
  ad_stop :: "'w \<Rightarrow> (py_exn + adapter_result) \<times> 'w"
  ad_restart :: "'w \<Rightarrow> (py_exn + adapter_result) \<times> 'w"
  ad_status :: "'w \<Rightarrow> (py_exn + runtime_state) \<times> 'w"
  ad_logs :: "int \<Rightarrow> 'w \<Rightarrow> (py_exn + string list) \<times> 'w"

section \<open>The systemd adapter\<close>

definition unit_of :: "manifest \<Rightarrow> string" where
  "unit_of m = ''machinedeck-'' @ man_id m @ ''.service''"

fun property_values :: "string list \<Rightarrow> (string \<times> json) list \<Rightarrow> (string \<times> json) list" where
  "property_values [] vs = vs"
| "property_values (l # ls) vs =
     (case partition_on (CHR ''='') l of (k, sep, v) \<Rightarrow>
        property_values ls (if sep then json_set k (JStr v) vs else vs))"

definition active_status :: "json option \<Rightarrow> app_status" where
  "active_status a =
     (if a = Some (JStr ''active'') then RUNNING
      else if a = Some (JStr ''deactivating'') then STOPPING
      else if a = Some (JStr ''activating'') then STARTING
      else if a = Some (JStr ''inactive'') then STOPPED
      else if a = Some (JStr ''failed'') then FAILED
      else UNKNOWN)"

definition systemd_action :: "'h spawn \<Rightarrow> string \<Rightarrow> string \<Rightarrow> 'h unit_world \<Rightarrow> adapter_result \<times> 'h unit_world" where
  "systemd_action sp unit act w = run_in (run_command sp None) [''systemctl'', ''--user'', act, unit] w"

definition systemd_status :: "'h spawn \<Rightarrow> string \<Rightarrow> 'h unit_world \<Rightarrow> runtime_state \<times> 'h unit_world" where
  "systemd_status sp unit w =
     (case run_in (run_command sp None) [''systemctl'', ''--user'', ''show'', unit,
             ''--property=ActiveState,SubState,MainPID'', ''--no-pager''] w of
        (r, w1) \<Rightarrow>
          (if \<not> succeeded r
           then \<lparr>rs_status = UNKNOWN, rs_identifier = unit, rs_metadata = JObj [],
                 rs_error = Some (or_else (message r) ''Unable to read systemd state'')\<rparr>
           else (let vs = property_values (splitlines (message r)) []
                 in \<lparr>rs_status = active_status (map_of vs ''ActiveState''), rs_identifier = unit,
                     rs_metadata = JObj vs, rs_error = None\<rparr>), w1))"

definition start_failed :: "runtime_state \<Rightarrow> string \<Rightarrow> adapter_result \<Rightarrow> adapter_result" where
  "start_failed confirmed act r =
     \<lparr>succeeded = False,
      message = (case rs_error confirmed of
          Some e \<Rightarrow> or_else e (''Unit entered '' @ status_value (rs_status confirmed) @ '' after '' @ act)
        | None \<Rightarrow> ''Unit entered '' @ status_value (rs_status confirmed) @ '' after '' @ act),
      exit_code = exit_code r, error_code = Some ''UNIT_START_FAILED''\<rparr>"

text \<open>
  The end of \<open>_install_and_action\<close>: the previous unit is put back and, when a running unit had
  been replaced, restarted under its old definition.
\<close>

definition undo_start ::
    "process_env \<Rightarrow> 'h spawn \<Rightarrow> string \<Rightarrow> manifest \<Rightarrow> string \<Rightarrow> receipt \<Rightarrow> 'h unit_world \<Rightarrow> 'h unit_world"
where
  "undo_start pe sp tmp m act rc w =
     (let w1 = snd (rollback_unit pe (run_command sp None) tmp rc w)
      in if act = ''restart'' \<and> rc_changed rc \<and> rc_previous rc \<noteq> None
         then snd (systemd_action sp (unit_of m) ''restart'' w1) else w1)"

definition install_and_action ::
    "process_env \<Rightarrow> settings \<Rightarrow> host_fs \<Rightarrow> 'h spawn \<Rightarrow> string \<Rightarrow> string \<Rightarrow> manifest \<Rightarrow> string
       \<Rightarrow> 'h unit_world \<Rightarrow> (py_exn + adapter_result) \<times> 'h unit_world"
where
  "install_and_action pe st fs sp udir tmp m act w =
     (case install_unit pe st fs (run_command sp None) udir tmp m w of
        (Inl (UnitError e), w1) \<Rightarrow>
          (Inr \<lparr>succeeded = False, message = e, exit_code = None, error_code = Some ''UNIT_INSTALL_FAILED''\<rparr>, w1)
      | (Inl (OsError e), w1) \<Rightarrow> (Inl (OtherErr e), w1)
      | (Inr rc, w1) \<Rightarrow>
          (case systemd_action sp (unit_of m) act w1 of (r, w2) \<Rightarrow>
             if \<not> succeeded r then (Inr r, undo_start pe sp tmp m act rc w2)
             else (case systemd_status sp (unit_of m) w2 of (c, w3) \<Rightarrow>
                     if rs_status c \<in> {RUNNING, STARTING} then (Inr r, w3)
                     else (Inr (start_failed c act r), undo_start pe sp tmp m act rc w3))))"

definition read_log :: "adapter_result \<Rightarrow> string \<Rightarrow> py_exn + string list" where
  "read_log r d = (if \<not> succeeded r then Inl (RuntimeErr (or_else (message r) d))
     else Inr (splitlines (message r)))"

definition systemd_adapter ::
    "process_env \<Rightarrow> settings \<Rightarrow> host_fs \<Rightarrow> 'h spawn \<Rightarrow> string \<Rightarrow> string \<Rightarrow> manifest \<Rightarrow> ('h unit_world) adapter"
where
  "systemd_adapter pe st fs sp udir tmp m =
     \<lparr>ad_start = install_and_action pe st fs sp udir tmp m ''start'',
      ad_stop = (\<lambda>w. apfst Inr (systemd_action sp (unit_of m) ''stop'' w)),
      ad_restart = install_and_action pe st fs sp udir tmp m ''restart'',
      ad_status = (\<lambda>w. apfst Inr (systemd_status sp (unit_of m) w)),
      ad_logs = (\<lambda>n w. case run_in (run_command sp None)
          [''journalctl'', ''--user-unit'', unit_of m, ''--no-pager'', ''--lines'', int_str n] w of
            (r, w1) \<Rightarrow> (read_log r ''Unable to read journal logs'', w1))\<rparr>"

section \<open>The Compose adapter\<close>

definition compose_identifier :: "path \<Rightarrow> string option \<Rightarrow> string" where
  "compose_identifier wd pn = (case pn of Some p \<Rightarrow> or_else p (path_name wd) | None \<Rightarrow> path_name wd)"

definition compose_base :: "string \<Rightarrow> string option \<Rightarrow> string list" where
  "compose_base cf pn = [''docker'', ''compose'', ''-f'', cf]
     @ (if truthy pn then [''--project-name'', the pn] else [])"

definition compose_action ::
    "'h spawn \<Rightarrow> path \<Rightarrow> string \<Rightarrow> string option \<Rightarrow> string list \<Rightarrow> 'h unit_world \<Rightarrow> adapter_result \<times> 'h unit_world"
where
  "compose_action sp wd cf pn args w = run_in (run_command sp (Some wd)) (compose_base cf pn @ args) w"

text \<open>\<open>container.get(k, d)\<close>; a value that is not an object has no \<open>get\<close>.\<close>

fun json_get :: "string \<Rightarrow> json \<Rightarrow> json \<Rightarrow> py_exn + json" where
  "json_get k d (JObj fs) = Inr (case map_of fs k of Some v \<Rightarrow> v | None \<Rightarrow> d)"
| "json_get k d v = Inl (OtherErr ''AttributeError'')"

fun json_text :: "(json \<Rightarrow> string) \<Rightarrow> json \<Rightarrow> string" where
  "json_text pystr (JStr s) = s"
| "json_text pystr v = pystr v"

definition lower_field :: "(json \<Rightarrow> string) \<Rightarrow> string \<Rightarrow> json \<Rightarrow> py_exn + string" where
  "lower_field pystr k c = res_bind (json_get k (JStr []) c) (\<lambda>v. Inr (py_lower (json_text pystr v)))"

text \<open>\<open>int(container.get("ExitCode") or 0)\<close>.\<close>

fun exit_number :: "json \<Rightarrow> py_exn + int" where
  "exit_number JNull = Inr 0"
| "exit_number (JBool b) = Inr (if b then 1 else 0)"
| "exit_number (JInt n) = Inr n"
| "exit_number (JStr s) = (if s = [] then Inr 0 else case py_int s of
     Some n \<Rightarrow> Inr n | None \<Rightarrow> Inl (OtherErr ''ValueError''))"
| "exit_number (JList vs) = (if vs = [] then Inr 0 else Inl (OtherErr ''TypeError''))"
| "exit_number (JObj fs) = (if fs = [] then Inr 0 else Inl (OtherErr ''TypeError''))"

definition container_failed :: "(json \<Rightarrow> string) \<Rightarrow> json \<Rightarrow> py_exn + bool" where
  "container_failed pystr c =
     res_bind (lower_field pystr ''State'' c) (\<lambda>s.
       if s \<in> {''dead'', ''failed''} then Inr True
       else res_bind (json_get ''ExitCode'' JNull c) (\<lambda>v.
            res_bind (exit_number v) (\<lambda>n. Inr (n \<noteq> 0))))"

text \<open>\<open>any\<close> stops at the first container that failed.\<close>

fun any_failed :: "(json \<Rightarrow> string) \<Rightarrow> json list \<Rightarrow> py_exn + bool" where
  "any_failed pystr [] = Inr False"
| "any_failed pystr (c # cs) = (case container_failed pystr c of
     Inl e \<Rightarrow> Inl e | Inr True \<Rightarrow> Inr True | Inr False \<Rightarrow> any_failed pystr cs)"

definition compose_state :: "string list \<Rightarrow> string list \<Rightarrow> bool \<Rightarrow> app_status" where
  "compose_state states health failed =
     (if failed then FAILED
      else if ''unhealthy'' \<in> set health then UNHEALTHY
      else if states \<noteq> [] \<and> set states \<subseteq> {''running''} then RUNNING
      else if states = [] \<or> set states \<subseteq> {''exited'', ''created'', ''stopped''} then STOPPED
      else UNKNOWN)"

definition compose_containers :: "(string \<Rightarrow> json option) \<Rightarrow> string \<Rightarrow> json list option" where
  "compose_containers loads out = (case loads out of
     Some (JList vs) \<Rightarrow> Some vs
   | Some v \<Rightarrow> Some [v]
   | None \<Rightarrow> opt_list (map loads (filter (\<lambda>l. l \<noteq> []) (splitlines out))))"

definition compose_status_of ::
    "(string \<Rightarrow> json option) \<Rightarrow> (json \<Rightarrow> string) \<Rightarrow> string \<Rightarrow> adapter_result \<Rightarrow> py_exn + runtime_state"
where
  "compose_status_of loads pystr ident r =
     (if \<not> succeeded r
      then Inr \<lparr>rs_status = UNKNOWN, rs_identifier = ident, rs_metadata = JObj [],
                rs_error = Some (or_else (message r) ''Unable to read Compose state'')\<rparr>
      else if message r = []
      then Inr \<lparr>rs_status = STOPPED, rs_identifier = ident, rs_metadata = JObj [], rs_error = None\<rparr>
      else case compose_containers loads (message r) of
          None \<Rightarrow> Inr \<lparr>rs_status = UNKNOWN, rs_identifier = ident, rs_metadata = JObj [],
                rs_error = Some ''Docker Compose returned invalid JSON''\<rparr>
        | Some cs \<Rightarrow>
            res_bind (res_list (map (lower_field pystr ''State'') cs)) (\<lambda>states.
            res_bind (res_list (map (lower_field pystr ''Health'') cs)) (\<lambda>health.
            res_bind (any_failed pystr cs) (\<lambda>failed.
              Inr \<lparr>rs_status = compose_state states health failed, rs_identifier = ident,
                   rs_metadata = JObj [(''containers'', JList cs)], rs_error = None\<rparr>))))"

definition compose_adapter ::
    "'h spawn \<Rightarrow> (string \<Rightarrow> json option) \<Rightarrow> (json \<Rightarrow> string) \<Rightarrow> path \<Rightarrow> string \<Rightarrow> string option \<Rightarrow> ('h unit_world) adapter"
where
  "compose_adapter sp loads pystr wd cf pn =
     \<lparr>ad_start = (\<lambda>w. apfst Inr (compose_action sp wd cf pn [''up'', ''-d''] w)),
      ad_stop = (\<lambda>w. apfst Inr (compose_action sp wd cf pn [''stop''] w)),
      ad_restart = (\<lambda>w. apfst Inr (compose_action sp wd cf pn [''restart''] w)),
      ad_status = (\<lambda>w. apfst (compose_status_of loads pystr (compose_identifier wd pn))
                        (compose_action sp wd cf pn [''ps'', ''--format'', ''json''] w)),
      ad_logs = (\<lambda>n w. case compose_action sp wd cf pn [''logs'', ''--no-color'', ''--tail'', int_str n] w of
            (r, w1) \<Rightarrow> (read_log r ''Unable to read Docker logs'', w1))\<rparr>"

definition adapter_for ::
    "process_env \<Rightarrow> settings \<Rightarrow> host_fs \<Rightarrow> 'h spawn \<Rightarrow> string \<Rightarrow> string \<Rightarrow> (string \<Rightarrow> json option) \<Rightarrow> (json \<Rightarrow> string)
       \<Rightarrow> manifest \<Rightarrow> ('h unit_world) adapter"
where
  "adapter_for pe st fs sp udir tmp loads pystr m =
     (case man_runtime m of
        ProcessRuntime _ _ \<Rightarrow> systemd_adapter pe st fs sp udir tmp m
      | ComposeRuntime wd cf pn \<Rightarrow> compose_adapter sp loads pystr wd cf pn)"

section \<open>Starting through systemd\<close>

lemma systemd_action_frame: "systemd_action sp u a w = (r, w') \<Longrightarrow> uw_files w' = uw_files w \<and> uw_dir w' = uw_dir w"
  unfolding systemd_action_def by (rule run_in_pair)

lemma systemd_status_frame: "systemd_status sp u w = (r, w') \<Longrightarrow> uw_files w' = uw_files w \<and> uw_dir w' = uw_dir w"
  unfolding systemd_status_def by (auto simp: Let_def dest!: run_in_pair split: prod.splits if_splits)

lemma undo_start_contents:
  "contents (undo_start pe sp tmp m act rc w) = contents (snd (rollback_unit pe (run_command sp None) tmp rc w))"
proof -
  have "contents (snd (systemd_action sp u a v)) = contents v" for u a and v :: "'a unit_world"
    using systemd_action_frame [of sp u a v] by (intro contents_cong) (metis prod.collapse)
  then show ?thesis by (simp add: undo_start_def Let_def)
qed

lemma unit_of_name: "unit_name_for (man_id m) = Inr n \<Longrightarrow> n = unit_of m"
  by (auto simp: unit_name_for_def unit_of_def split: if_splits)

lemma target_path_cong:
  assumes "uw_files w = uw_files w'" "uw_dir w = uw_dir w'"
  shows "res_bind (target_path pe False a w) (\<lambda>(n, _). g n) = res_bind (target_path pe False a w') (\<lambda>(n, _). g n)"
proof (cases "check_directory pe w")
  case (Inl e)
  then show ?thesis using check_directory_cong [OF assms(2), of pe]
    by (simp add: target_path_def trusted_directory_def)
next
  case (Inr u)
  then show ?thesis using check_directory_cong [OF assms(2), of pe] assms
    by (cases "unit_name_for a") (auto simp: target_path_def trusted_directory_def split: option.splits)
qed

lemma consistency_checks_cong:
  assumes "uw_files w = uw_files w'" "uw_dir w = uw_dir w'"
  shows "consistency_checks pe st fs m w = consistency_checks pe st fs m w'"
proof -
  have r: "read_regular n w = read_regular n w'" for n using assms by (simp add: read_regular_def)
  show ?thesis
    unfolding consistency_checks_def target_path_cong [OF assms] assms r by (rule refl)
qed

lemma install_rollback:
  assumes i: "install_unit pe st fs run udir tmp m w = (Inr rc, w1)"
    and tmp: "uw_files w tmp = None" "unit_name_for (man_id m) \<noteq> Inr tmp"
    and f: "uw_files w2 = uw_files w1"
  shows "contents (snd (rollback_unit pe run' tmp rc w2)) = contents w"
proof -
  obtain t n where c: "unit_name_for (man_id m) = Inr n" "rc_target rc = n" "rc_previous rc = contents w n"
      "\<not> rc_rolled_back rc" "rc_changed rc \<longleftrightarrow> contents w n \<noteq> Some (utf8 t)"
      "contents w1 = (contents w)(n \<mapsto> utf8 t)" "uw_files w1 tmp = None"
    using install_cases [OF i tmp] by auto
  have c2: "contents w2 = contents w1" using f by (rule contents_cong)
  show ?thesis
  proof (cases "rc_changed rc")
    case True
    have "contents (snd (rollback_unit pe run' tmp rc w2)) = (contents w2)(rc_target rc := rc_previous rc)"
      using c f tmp by (intro rollback_contents True) auto
    then show ?thesis using c c2 by (simp add: fun_upd_idem)
  next
    case False
    then show ?thesis using c c2 by (simp add: rollback_unchanged fun_upd_idem)
  qed
qed

definition sample_spawn :: "unit spawn" where
  "sample_spawn cwd cmd h = (Finished 0 (if ''show'' \<in> set cmd then ''ActiveState=active'' else []), h)"

section \<open>Properties\<close>

text \<open>
  Property C16. A start or restart through systemd either is confirmed or leaves no trace on
  disk. When it reports success, the installed unit is the rendering of the manifest and systemd
  had answered that the unit is active or activating; when it reports failure or raises, the
  contents of the unit directory are those before the request.
\<close>

theorem start_confirmed_or_undone:
  assumes s: "install_and_action pe st fs sp udir tmp m act w = (res, w')"
    and tmp: "uw_files w tmp = None" "unit_name_for (man_id m) \<noteq> Inr tmp"
  shows "case res of Inl e \<Rightarrow> contents w' = contents w
    | Inr r \<Rightarrow> if succeeded r
        then consistency_checks pe st fs m w' = Inr MATCH
          \<and> (\<exists>c w2. systemd_status sp (unit_of m) w2 = (c, w') \<and> rs_status c \<in> {RUNNING, STARTING})
        else contents w' = contents w"
proof -
  obtain ir w1 where i: "install_unit pe st fs (run_command sp None) udir tmp m w = (ir, w1)" by fastforce
  show ?thesis
  proof (cases ir)
    case (Inl e)
    have "contents w1 = contents w" using install_cases [OF i tmp] Inl by simp
    then show ?thesis using s i Inl by (cases e) (auto simp: install_and_action_def)
  next
    case (Inr rc)
    note i = i [unfolded Inr]
    obtain r w2 where a: "systemd_action sp (unit_of m) act w1 = (r, w2)" by fastforce
    obtain c w3 where st: "systemd_status sp (unit_of m) w2 = (c, w3)" by fastforce
    have f2: "uw_files w2 = uw_files w1" "uw_dir w2 = uw_dir w1" using systemd_action_frame [OF a] by auto
    have f3: "uw_files w3 = uw_files w1" "uw_dir w3 = uw_dir w1" using systemd_status_frame [OF st] f2 by auto
    have u: "contents (undo_start pe sp tmp m act rc v) = contents w" if "uw_files v = uw_files w1" for v
      using install_rollback [OF i tmp that] by (simp add: undo_start_contents)
    have "consistency_checks pe st fs m w1 = Inr MATCH" using install_cases [OF i tmp] by auto
    then have "consistency_checks pe st fs m w3 = Inr MATCH" using consistency_checks_cong [OF f3] by simp
    moreover have "install_and_action pe st fs sp udir tmp m act w =
        (if \<not> succeeded r then (Inr r, undo_start pe sp tmp m act rc w2)
         else if rs_status c \<in> {RUNNING, STARTING} then (Inr r, w3)
         else (Inr (start_failed c act r), undo_start pe sp tmp m act rc w3))"
      using i a st by (simp add: install_and_action_def)
    ultimately show ?thesis
      using s st u [OF f2(1)] u [OF f3(1)] by (auto simp: start_failed_def split: if_splits)
  qed
qed


theorem start_confirmed_or_undone_witness:
  "\<exists>r w'. install_and_action sample_pe sample_settings plain_fs sample_spawn ''/units'' ''.tmp'' sample_manifest
        ''start'' bare_host = (Inr r, w') \<and> succeeded r
      \<and> consistency_checks sample_pe sample_settings plain_fs sample_manifest w' = Inr MATCH"
proof -
  obtain t where t: "render_user_unit sample_settings plain_fs sample_manifest = Inr t"
    using sample_renders unfolding is_ok_iff by blast
  have st: "active_status (map_of (property_values (splitlines (py_strip ''ActiveState=active'')) []) ''ActiveState'') = RUNNING"
    by code_simp
  have "\<exists>r w'. install_and_action sample_pe sample_settings plain_fs sample_spawn ''/units'' ''.tmp'' sample_manifest
        ''start'' bare_host = (Inr r, w') \<and> succeeded r"
    by (simp add: install_and_action_def install_unit_def t make_directory_def bare_host_def target_path_def
        trusted_directory_def check_directory_def sample_pe_def others_can_write_def read_regular_def
        verify_staged_def run_in_def run_command_def sample_spawn_def systemd_action_def systemd_status_def
        unit_of_def st daemon_reload_def Let_def)
  then obtain r w' where i: "install_and_action sample_pe sample_settings plain_fs sample_spawn ''/units'' ''.tmp''
      sample_manifest ''start'' bare_host = (Inr r, w')" and ok: "succeeded r" by blast
  have "uw_files bare_host ''.tmp'' = None" "unit_name_for (man_id sample_manifest) \<noteq> Inr ''.tmp''"
    by (simp_all add: bare_host_def)
  from start_confirmed_or_undone [OF i this] i ok show ?thesis by auto
qed

section \<open>Compose states\<close>

definition exit_of :: "json \<Rightarrow> py_exn + int" where
  "exit_of c = res_bind (json_get ''ExitCode'' JNull c) exit_number"

lemma any_failed_iff:
  assumes "res_list (map (lower_field pystr ''State'') cs) = Inr ss" "res_list (map exit_of cs) = Inr es"
  shows "any_failed pystr cs = Inr (\<exists>(s, e)\<in>set (zip ss es). s \<in> {''dead'', ''failed''} \<or> e \<noteq> 0)"
  using assms
proof (induction cs arbitrary: ss es)
  case Nil
  then show ?case by simp
next
  case (Cons c cs)
  obtain s ss' where s: "ss = s # ss'" "lower_field pystr ''State'' c = Inr s"
      "res_list (map (lower_field pystr ''State'') cs) = Inr ss'"
    using Cons.prems(1) by (auto simp: res_list_Inr_iff)
  obtain e es' where e: "es = e # es'" "exit_of c = Inr e" "res_list (map exit_of cs) = Inr es'"
    using Cons.prems(2) by (auto simp: res_list_Inr_iff)
  have cf: "container_failed pystr c = Inr (s \<in> {''dead'', ''failed''} \<or> e \<noteq> 0)"
    using e(2) by (auto simp: container_failed_def s(2) exit_of_def)
  show ?case
    using Cons.IH [OF s(3) e(3)] by (cases "s \<in> {''dead'', ''failed''} \<or> e \<noteq> 0") (auto simp: cf s(1) e(1))
qed

text \<open>
  What \<open>docker compose ps\<close> reports decides the status as follows: FAILED when some
  container is dead, failed or left with a non-zero code; otherwise UNHEALTHY when some health
  check fails; otherwise RUNNING when there are containers and all of them run; otherwise STOPPED
  when all of them are exited, created or stopped; and UNKNOWN in every other case.
\<close>

theorem compose_status_classified:
  assumes "succeeded r" "message r \<noteq> []" "compose_containers loads (message r) = Some cs"
    and ss: "res_list (map (lower_field pystr ''State'') cs) = Inr ss"
    and hs: "res_list (map (lower_field pystr ''Health'') cs) = Inr hs"
    and es: "res_list (map exit_of cs) = Inr es"
  shows "\<exists>s. compose_status_of loads pystr ident r = Inr s \<and> rs_identifier s = ident
    \<and> (rs_status s = FAILED \<longleftrightarrow> (\<exists>i<length cs. ss ! i \<in> {''dead'', ''failed''} \<or> es ! i \<noteq> 0))
    \<and> (rs_status s = UNHEALTHY \<longleftrightarrow> rs_status s \<noteq> FAILED \<and> ''unhealthy'' \<in> set hs)
    \<and> (rs_status s = RUNNING \<longleftrightarrow> rs_status s \<notin> {FAILED, UNHEALTHY} \<and> cs \<noteq> [] \<and> (\<forall>x\<in>set ss. x = ''running''))
    \<and> (rs_status s = STOPPED \<longleftrightarrow> rs_status s \<notin> {FAILED, UNHEALTHY}
          \<and> (\<forall>x\<in>set ss. x \<in> {''exited'', ''created'', ''stopped''}))
    \<and> rs_status s \<in> {FAILED, UNHEALTHY, RUNNING, STOPPED, UNKNOWN}"
proof -
  have len: "length ss = length cs" "length es = length cs"
    using res_list_length [OF ss] res_list_length [OF es] by simp_all
  let ?f = "\<exists>(s, e)\<in>set (zip ss es). s \<in> {''dead'', ''failed''} \<or> e \<noteq> 0"
  have f: "?f \<longleftrightarrow> (\<exists>i<length cs. ss ! i \<in> {''dead'', ''failed''} \<or> es ! i \<noteq> 0)"
    using len by (auto simp: set_zip)
  have c: "ss \<noteq> [] \<longleftrightarrow> cs \<noteq> []" using len by auto
  have disj: "\<forall>x\<in>set ss. x = ''running'' \<Longrightarrow> \<forall>x\<in>set ss. x \<in> {''exited'', ''created'', ''stopped''} \<Longrightarrow> ss = []"
    by (cases ss) auto
  have st: "compose_status_of loads pystr ident r = Inr \<lparr>rs_status = compose_state ss hs ?f, rs_identifier = ident,
      rs_metadata = JObj [(''containers'', JList cs)], rs_error = None\<rparr>"
    using assms(1-3) ss hs any_failed_iff [OF ss es] by (simp add: compose_status_of_def)
  show ?thesis
    unfolding st f [symmetric] c [symmetric] compose_state_def using disj
    by (cases ?f; cases "''unhealthy'' \<in> set hs") (auto simp: subset_iff)
qed

theorem compose_status_classified_witness:
  "\<exists>s. compose_status_of (\<lambda>_. Some (JObj [(''State'', JStr ''running'')])) (\<lambda>_. []) ''demo''
      (cmd_ok\<lparr>message := ''x''\<rparr>) = Inr s \<and> (rs_status s = FAILED \<longleftrightarrow> False)"
proof -
  have a: "res_list (map (lower_field (\<lambda>_. []) ''State'') [JObj [(''State'', JStr ''running'')]]) = Inr [''running'']"
    "res_list (map (lower_field (\<lambda>_. []) ''Health'') [JObj [(''State'', JStr ''running'')]]) = Inr [[]]"
    "res_list (map exit_of [JObj [(''State'', JStr ''running'')]]) = Inr [0]"
    "compose_containers (\<lambda>_. Some (JObj [(''State'', JStr ''running'')])) (message (cmd_ok\<lparr>message := ''x''\<rparr>))
       = Some [JObj [(''State'', JStr ''running'')]]"
    by code_simp+
  have "succeeded (cmd_ok\<lparr>message := ''x''\<rparr>)" "message (cmd_ok\<lparr>message := ''x''\<rparr>) \<noteq> []"
    by (simp_all add: cmd_ok_def)
  from compose_status_classified [OF this a(4) a(1-3), of "''demo''"] show ?thesis by auto
qed

end
