(* ===== verification/AuditEvents.thy ===== *)
theory AuditEvents
  imports Auth Redaction RuntimeAdapter "HOL-Library.Product_Lexorder"
begin

text \<open>
  \<open>audit/service.py\<close> and \<open>api/audit.py\<close>: queries over the audit events. SQL conditions are
  functions of a row; LIKE is SQLite's (ASCII letters match in either case). The cursor's transport
  form (base64 over JSON over ISO 8601) is the parameter \<open>cursor_codec\<close>, and \<open>bind\<close> is how the driver
  binds a datetime of a given instant and UTC offset.
\<close>

datatype stamp = Naive int | Aware int int

record cursor_codec =
  cc_encode :: "int \<times> string \<Rightarrow> string"
  cc_decode :: "string \<Rightarrow> (stamp \<times> string) option"
  cc_bind :: "int \<Rightarrow> int \<Rightarrow> int"

datatype audit_category = AUTHENTICATION | APPLICATION_REGISTRY | APPLICATION_LIFECYCLE | SYSTEM | OTHER

datatype audit_error = AuditQueryError string string

record audit_filters =
  fl_limit :: nat
  fl_cursor :: "string option"
  fl_start :: "stamp option"
  fl_end :: "stamp option"
  fl_application :: "string option"
  fl_actor :: "string option"
  fl_action :: "string option"
  fl_result :: "string option"
  fl_category :: "audit_category option"
  fl_execution :: "string option"
  fl_keyword :: "string option"

section \<open>SQL conditions\<close>

definition ascii_lower :: "char \<Rightarrow> char" where
  "ascii_lower c = (if is_upper c then char_of (cp c + 32) else c)"

function sql_like :: "char option \<Rightarrow> string \<Rightarrow> string \<Rightarrow> bool" where
  "sql_like e [] s = (s = [])"
| "sql_like e (p # ps) s =
     (if Some p = e
      then (case ps of [] \<Rightarrow> False | q # qs \<Rightarrow>
              (case s of [] \<Rightarrow> False | c # cs \<Rightarrow> ascii_lower c = ascii_lower q \<and> sql_like e qs cs))
      else if p = CHR ''%''
      then sql_like e ps s \<or> (case s of [] \<Rightarrow> False | c # cs \<Rightarrow> sql_like e (p # ps) cs)
      else (case s of [] \<Rightarrow> False
              | c # cs \<Rightarrow> (p = CHR ''_'' \<or> ascii_lower c = ascii_lower p) \<and> sql_like e ps cs))"
  by pat_completeness auto
termination by (relation "measure (\<lambda>(e, p, s). length p + length s)") auto

definition ilike :: "string \<Rightarrow> string \<Rightarrow> bool" where
  "ilike pat s = sql_like (Some BACKSLASH) (map ascii_lower pat) (map ascii_lower s)"

definition escape_like :: "string \<Rightarrow> string" where
  "escape_like k = replace_char (CHR ''_'') [BACKSLASH, CHR ''_'']
     (replace_char (CHR ''%'') [BACKSLASH, CHR ''%''] (replace_char BACKSLASH [BACKSLASH, BACKSLASH] k))"

definition keyword_condition :: "string \<Rightarrow> audit_row \<Rightarrow> bool" where
  "keyword_condition k r =
     (let pat = ''%'' @ escape_like k @ ''%''
      in ilike pat (au_actor r) \<or> ilike pat (au_action r) \<or> ilike pat (au_target_id r) \<or> ilike pat (au_result r))"

definition registry_actions :: "string list" where
  "registry_actions = [''application.create'', ''application.update'', ''application.delete'']"

definition lifecycle_actions :: "string list" where
  "lifecycle_actions = [''application.start'', ''application.stop'', ''application.restart'']"

fun category_condition :: "audit_category \<Rightarrow> audit_row \<Rightarrow> bool" where
  "category_condition AUTHENTICATION r = (sql_like None ''auth.%'' (au_action r) \<or> au_target_type r = ''authentication'')"
| "category_condition APPLICATION_REGISTRY r = (au_action r \<in> set registry_actions)"
| "category_condition APPLICATION_LIFECYCLE r = (au_action r \<in> set lifecycle_actions)"
| "category_condition SYSTEM r = (sql_like None ''system.%'' (au_action r) \<or> au_target_type r = ''system'')"
| "category_condition OTHER r =
     (\<not> (sql_like None ''auth.%'' (au_action r) \<or> au_action r \<in> set (registry_actions @ lifecycle_actions)
         \<or> sql_like None ''system.%'' (au_action r)))"

definition detail_string :: "string \<Rightarrow> audit_row \<Rightarrow> string option" where
  "detail_string k r = (case au_details r of JObj fs \<Rightarrow> (case map_of fs k of Some (JStr s) \<Rightarrow> Some s | _ \<Rightarrow> None) | _ \<Rightarrow> None)"

definition action_condition :: "string \<Rightarrow> audit_row \<Rightarrow> bool" where
  "action_condition a r =
     (let n = py_upper a in
      if n = ''LOGIN_SUCCEEDED'' then au_action r = ''auth.login'' \<and> au_result r = ''success''
      else if n \<in> {''LOGIN_FAILED'', ''RATE_LIMITED''}
      then au_action r = ''auth.login'' \<and> au_result r = ''failure''
        \<and> detail_string ''reason'' r = Some (if n = ''RATE_LIMITED'' then ''rate_limited'' else ''invalid_credentials'')
      else if n = ''SETUP_COMPLETED'' then au_action r = ''auth.setup''
      else if n = ''LOGOUT'' then au_action r = ''auth.logout''
      else au_action r = (if CHR ''.'' \<in> set a then a else ''application.'' @ py_lower a))"

text \<open>\<open>if filters.x:\<close> skips an absent or empty value.\<close>

definition when_set :: "string option \<Rightarrow> (string \<Rightarrow> bool) \<Rightarrow> bool" where
  "when_set v P = (case v of None \<Rightarrow> True | Some s \<Rightarrow> s = [] \<or> P s)"

fun bound_time :: "cursor_codec \<Rightarrow> stamp \<Rightarrow> int" where
  "bound_time cc (Aware t z) = cc_bind cc t z"
| "bound_time cc (Naive t) = t"

definition filter_condition :: "cursor_codec \<Rightarrow> audit_filters \<Rightarrow> audit_row \<Rightarrow> bool" where
  "filter_condition cc f r \<longleftrightarrow>
     (case fl_start f of None \<Rightarrow> True | Some t \<Rightarrow> bound_time cc t \<le> au_created r)
     \<and> (case fl_end f of None \<Rightarrow> True | Some t \<Rightarrow> au_created r \<le> bound_time cc t)
     \<and> when_set (fl_application f) (\<lambda>a. au_target_type r = ''application'' \<and> au_target_id r = a)
     \<and> when_set (fl_actor f) (\<lambda>a. au_actor r = a)
     \<and> when_set (fl_action f) (\<lambda>a. action_condition a r)
     \<and> when_set (fl_result f) (\<lambda>x. au_result r = x)
     \<and> (case fl_category f of None \<Rightarrow> True | Some c \<Rightarrow> category_condition c r)
     \<and> when_set (fl_execution f) (\<lambda>e. detail_string ''execution_id'' r = Some e)
     \<and> when_set (fl_keyword f) (\<lambda>k. keyword_condition k r)"

section \<open>Pages\<close>

definition encode_cursor :: "cursor_codec \<Rightarrow> audit_row \<Rightarrow> string" where
  "encode_cursor cc r = cc_encode cc (au_created r, au_id r)"

definition decode_cursor :: "cursor_codec \<Rightarrow> string \<Rightarrow> audit_error + stamp \<times> string" where
  "decode_cursor cc v =
     (case cc_decode cc v of
        Some (Aware t z, i) \<Rightarrow> if 1 \<le> length i \<and> length i \<le> 36 then Inr (Aware t z, i)
                               else Inl (AuditQueryError ''CURSOR_INVALID'' ''Audit cursor is invalid'')
      | _ \<Rightarrow> Inl (AuditQueryError ''CURSOR_INVALID'' ''Audit cursor is invalid''))"

definition cursor_condition :: "cursor_codec \<Rightarrow> stamp \<times> string \<Rightarrow> audit_row \<Rightarrow> bool" where
  "cursor_condition cc c r \<longleftrightarrow> au_created r < bound_time cc (fst c)
     \<or> (au_created r = bound_time cc (fst c) \<and> au_id r < snd c)"

definition time_errors :: "audit_filters \<Rightarrow> audit_error option" where
  "time_errors f =
     (case (fl_start f, fl_end f) of
        (Some (Naive _), _) \<Rightarrow> Some (AuditQueryError ''TIME_INVALID'' ''start must include a timezone'')
      | (_, Some (Naive _)) \<Rightarrow> Some (AuditQueryError ''TIME_INVALID'' ''end must include a timezone'')
      | (Some (Aware s _), Some (Aware e _)) \<Rightarrow>
          if e < s then Some (AuditQueryError ''TIME_INVALID'' ''start must be before end'') else None
      | _ \<Rightarrow> None)"

definition row_key :: "audit_row \<Rightarrow> int \<times> string" where
  "row_key r = (au_created r, au_id r)"

text \<open>\<open>ORDER BY created_at DESC, id DESC\<close>.\<close>

definition newest_first :: "audit_row list \<Rightarrow> audit_row list" where
  "newest_first rs = rev (sort_key row_key rs)"

record audit_page =
  pg_rows :: "audit_row list"
  pg_more :: bool
  pg_next :: "string option"

definition audit_rows :: "cursor_codec \<Rightarrow> db \<Rightarrow> audit_filters \<Rightarrow> audit_error + audit_page" where
  "audit_rows cc d f =
     (case time_errors f of Some e \<Rightarrow> Inl e | None \<Rightarrow>
      res_bind (case fl_cursor f of None \<Rightarrow> Inr (\<lambda>_. True)
                  | Some v \<Rightarrow> if v = [] then Inr (\<lambda>_. True)
                              else res_bind (decode_cursor cc v) (\<lambda>c. Inr (cursor_condition cc c)))
        (\<lambda>after.
          let records = take (fl_limit f + 1)
                (newest_first (filter (\<lambda>r. filter_condition cc f r \<and> after r) (audit_events d)));
              more = (fl_limit f < length records);
              page = take (fl_limit f) records
          in Inr \<lparr>pg_rows = page, pg_more = more,
                  pg_next = (if more \<and> page \<noteq> [] then Some (encode_cursor cc (last page)) else None)\<rparr>))"

section \<open>What is shown of an event\<close>

definition category_for :: "string \<Rightarrow> string \<Rightarrow> audit_category" where
  "category_for act target =
     (if startswith ''auth.'' act \<or> target = ''authentication'' then AUTHENTICATION
      else if act \<in> set registry_actions then APPLICATION_REGISTRY
      else if act \<in> set lifecycle_actions then APPLICATION_LIFECYCLE
      else if startswith ''system.'' act \<or> target = ''system'' then SYSTEM
      else OTHER)"

definition field :: "string \<Rightarrow> json \<Rightarrow> json option" where
  "field k v = (case v of JObj fs \<Rightarrow> map_of fs k | _ \<Rightarrow> None)"

definition normalized_action :: "audit_row \<Rightarrow> json \<Rightarrow> string" where
  "normalized_action r details =
     (if au_action r = ''auth.setup'' then ''SETUP_COMPLETED''
      else if au_action r = ''auth.login''
      then (if au_result r = ''success'' then ''LOGIN_SUCCEEDED''
            else if field ''reason'' details = Some (JStr ''rate_limited'') then ''RATE_LIMITED'' else ''LOGIN_FAILED'')
      else if au_action r = ''auth.logout'' then ''LOGOUT''
      else snd (snd (rpartition_on (CHR ''.'') (au_action r))))"

definition actor_for :: "string \<Rightarrow> string \<times> string" where
  "actor_for v =
     (if v = ''anonymous'' then ''anonymous''
      else if v \<in> {''phase1-api'', ''system'', ''scheduler''} then ''system''
      else if v \<noteq> [] then ''administrator'' else ''unknown'',
      if v \<noteq> [] then v else ''unknown'')"

fun json_truthy :: "json option \<Rightarrow> bool" where
  "json_truthy None = False"
| "json_truthy (Some v) = (v \<notin> {JNull, JBool False, JInt 0, JStr [], JList [], JObj []})"

text \<open>\<open>str(value)\<close> of the values the sanitizer leaves under a key that is not masked; a container
  would print as Python source, which no identifier equals.\<close>

fun plain_text :: "json \<Rightarrow> string" where
  "plain_text (JStr s) = s"
| "plain_text (JInt n) = int_str n"
| "plain_text (JBool b) = (if b then ''True'' else ''False'')"
| "plain_text v = dumps v"

record audit_response =
  er_id :: string
  er_timestamp :: int
  er_actor :: "string \<times> string"
  er_category :: audit_category
  er_action :: string
  er_raw_action :: string
  er_result :: string
  er_target_type :: string
  er_target_id :: string
  er_target_name :: "string option"
  er_execution_id :: "string option"
  er_execution :: "exec_row option"
  er_request :: "(string option \<times> string option) option"
  er_details :: json

definition audit_request :: "json \<Rightarrow> (string option \<times> string option) option" where
  "audit_request details =
     (case field ''request'' details of
        Some (JObj fs) \<Rightarrow>
          Some ((case map_of fs ''method'' of
                   Some (JStr m) \<Rightarrow> if py_upper m \<in> {''GET'', ''POST'', ''PUT'', ''PATCH'', ''DELETE''} then Some (py_upper m) else None
                 | _ \<Rightarrow> None),
                (case map_of fs ''path'' of
                   Some (JStr p) \<Rightarrow> if startswith ''/api/v1/'' p then Some (take 500 (fst (partition_on (CHR ''?'') p))) else None
                 | _ \<Rightarrow> None))
      | _ \<Rightarrow> None)"

definition without :: "string list \<Rightarrow> json \<Rightarrow> json" where
  "without ks v = (case v of JObj fs \<Rightarrow> JObj (filter (\<lambda>e. fst e \<notin> set ks) fs) | _ \<Rightarrow> v)"

text \<open>\<open>applications.get(target_id) or target_name\<close>; the schema refuses a name that is no text.\<close>

definition target_name :: "db \<Rightarrow> audit_row list \<Rightarrow> audit_row \<Rightarrow> json \<Rightarrow> string + string option" where
  "target_name d rows r details =
     (let known = (if list_ex (\<lambda>x. au_target_type x = ''application'' \<and> au_target_id x = au_target_id r) rows
                   then map_option ap_name (row_get ap_id (au_target_id r) (applications d)) else None)
      in if known \<noteq> None \<and> known \<noteq> Some [] then Inr known
         else (case field ''target_name'' details of
                 None \<Rightarrow> Inr None | Some JNull \<Rightarrow> Inr None | Some (JStr s) \<Rightarrow> Inr (Some s) | _ \<Rightarrow> Inl ''ValidationError''))"

definition map_event :: "qs_codec \<Rightarrow> db \<Rightarrow> audit_row list \<Rightarrow> audit_row \<Rightarrow> string + audit_response" where
  "map_event qs d rows r =
     (let details = sanitize_audit_details qs (au_details r);
          ex = field ''execution_id'' details;
          eid = (if json_truthy ex then map_option plain_text ex else None);
          shown = without [''target_name'', ''request''] details
      in res_bind (target_name d rows r details) (\<lambda>name. Inr
        \<lparr>er_id = au_id r, er_timestamp = au_created r, er_actor = actor_for (au_actor r),
         er_category = category_for (au_action r) (au_target_type r), er_action = normalized_action r shown,
         er_raw_action = au_action r, er_result = au_result r, er_target_type = au_target_type r,
         er_target_id = au_target_id r, er_target_name = name, er_execution_id = eid,
         er_execution = (case eid of None \<Rightarrow> None | Some i \<Rightarrow> row_get ex_id i (executions d)),
         er_request = audit_request (au_details r), er_details = shown\<rparr>))"

definition map_many :: "qs_codec \<Rightarrow> db \<Rightarrow> audit_row list \<Rightarrow> string + audit_response list" where
  "map_many qs d rows = res_list (map (map_event qs d rows) rows)"

section \<open>The service and its handlers\<close>

fun audit_http :: "audit_error \<Rightarrow> http_error" where
  "audit_http (AuditQueryError code msg) =
     HttpError (if code = ''AUDIT_EVENT_NOT_FOUND'' then 404 else 400) (DCode code msg)"

definition api_list_events ::
    "cursor_codec \<Rightarrow> qs_codec \<Rightarrow> db \<Rightarrow> audit_filters \<Rightarrow> http_error + audit_response list \<times> bool \<times> string option"
where
  "api_list_events cc qs d f =
     (case audit_rows cc d f of
        Inl e \<Rightarrow> Inl (audit_http e)
      | Inr p \<Rightarrow> (case map_many qs d (pg_rows p) of
                   Inl _ \<Rightarrow> Inl unhandled | Inr es \<Rightarrow> Inr (es, pg_more p, pg_next p)))"

definition api_get_event :: "qs_codec \<Rightarrow> db \<Rightarrow> string \<Rightarrow> http_error + audit_response" where
  "api_get_event qs d k =
     (case row_get au_id k (audit_events d) of
        None \<Rightarrow> Inl (audit_http (AuditQueryError ''AUDIT_EVENT_NOT_FOUND'' ''Audit event not found''))
      | Some r \<Rightarrow> (case map_event qs d [r] r of Inl _ \<Rightarrow> Inl unhandled | Inr x \<Rightarrow> Inr x))"

section \<open>Pages in sequence\<close>

fun collect_pages :: "cursor_codec \<Rightarrow> db \<Rightarrow> nat \<Rightarrow> audit_filters \<Rightarrow> audit_row list" where
  "collect_pages cc d 0 f = []"
| "collect_pages cc d (Suc n) f =
     (case audit_rows cc d f of
        Inl _ \<Rightarrow> []
      | Inr p \<Rightarrow> pg_rows p @ (case pg_next p of None \<Rightarrow> [] | Some c \<Rightarrow> collect_pages cc d n (f\<lparr>fl_cursor := Some c\<rparr>)))"

definition matching :: "cursor_codec \<Rightarrow> db \<Rightarrow> audit_filters \<Rightarrow> audit_row list" where
  "matching cc d f = newest_first (filter (filter_condition cc f) (audit_events d))"

definition cursor_roundtrip :: "cursor_codec \<Rightarrow> bool" where
  "cursor_roundtrip cc \<longleftrightarrow> (\<forall>t i. cc_decode cc (cc_encode cc (t, i)) = Some (Aware t 0, i) \<and> cc_encode cc (t, i) \<noteq> [])
     \<and> (\<forall>t. cc_bind cc t 0 = t)"

lemma newest_first_filter: "newest_first (filter P rs) = filter P (newest_first rs)"
  by (simp add: newest_first_def filter_sort [symmetric] rev_filter)

lemma newest_first_sorted:
  assumes "distinct (map au_id rs)"
  shows "sorted_wrt (\<lambda>a b. row_key b < row_key a) (newest_first rs)"
proof -
  have s: "sorted (map row_key (sort_key row_key rs))" by simp
  have "distinct (map au_id (sort_key row_key rs))"
    using assms by (metis distinct_map mset_sort mset_eq_imp_distinct_iff set_sort)
  then have "distinct (map row_key (sort_key row_key rs))"
    by (auto simp: distinct_map inj_on_def row_key_def)
  with s have "sorted_wrt (<) (map row_key (sort_key row_key rs))" by (simp add: strict_sorted_iff)
  then show ?thesis by (simp add: newest_first_def sorted_wrt_rev sorted_wrt_map)
qed

lemma filter_below:
  assumes "sorted_wrt (\<lambda>a b. key b < (key a :: 'k :: linorder)) xs" "i < length xs"
  shows "filter (\<lambda>r. key r < key (xs ! i)) xs = drop (Suc i) xs"
  using assms
proof (induction xs arbitrary: i)
  case Nil
  then show ?case by simp
next
  case (Cons x xs)
  show ?case
  proof (cases i)
    case 0
    have "filter (\<lambda>r. key r < key x) xs = xs" using Cons.prems by (auto simp: filter_id_conv)
    then show ?thesis using 0 by simp
  next
    case (Suc j)
    then have j: "j < length xs" using Cons.prems by simp
    then have "key (xs ! j) < key x" using Cons.prems by simp
    then have "\<not> key x < key (xs ! j)" by simp
    then show ?thesis using Cons.IH [OF _ j] Cons.prems Suc by simp
  qed
qed

lemma cursor_row:
  assumes "cursor_roundtrip cc" "1 \<le> length (au_id q)" "length (au_id q) \<le> 36"
  shows "decode_cursor cc (encode_cursor cc q) = Inr (Aware (au_created q) 0, au_id q)"
    and "cursor_condition cc (Aware (au_created q) 0, au_id q) = (\<lambda>r. row_key r < row_key q)"
    and "encode_cursor cc q \<noteq> []"
  using assms
  by (auto simp: decode_cursor_def encode_cursor_def cursor_roundtrip_def cursor_condition_def row_key_def less_prod_def
      fun_eq_iff)

lemma rows_after:
  assumes rt: "cursor_roundtrip cc" and ids: "distinct (map au_id (audit_events d))"
    and len: "\<forall>r\<in>set (audit_events d). 1 \<le> length (au_id r) \<and> length (au_id r) \<le> 36"
    and t: "time_errors f = None" and i: "i < length (matching cc d f)"
  shows "audit_rows cc d (f\<lparr>fl_cursor := Some (encode_cursor cc (matching cc d f ! i))\<rparr>)
    = (let rs = drop (Suc i) (matching cc d f); more = fl_limit f < length rs; page = take (fl_limit f) rs
       in Inr \<lparr>pg_rows = page, pg_more = more, pg_next = (if more \<and> page \<noteq> [] then Some (encode_cursor cc (last page)) else None)\<rparr>)"
proof -
  let ?M = "matching cc d f" and ?q = "matching cc d f ! i"
  have "?q \<in> set (audit_events d)" using nth_mem [OF i] by (auto simp: matching_def newest_first_def)
  then have q: "1 \<le> length (au_id ?q)" "length (au_id ?q) \<le> 36" using len by auto
  note C = cursor_row [OF rt q]
  have s: "sorted_wrt (\<lambda>a b. row_key b < row_key a) ?M"
    unfolding matching_def by (rule newest_first_sorted) (simp add: ids distinct_map_filter)
  have f2: "filter_condition cc (f\<lparr>fl_cursor := c\<rparr>) = filter_condition cc f" "time_errors (f\<lparr>fl_cursor := c\<rparr>) = None" for c
    using t by (simp_all add: filter_condition_def time_errors_def fun_eq_iff)
  have "newest_first (filter (\<lambda>r. filter_condition cc f r \<and> row_key r < row_key ?q) (audit_events d))
      = filter (\<lambda>r. row_key r < row_key ?q) ?M"
    unfolding matching_def newest_first_filter [symmetric] by (simp add: conj_commute)
  also have "\<dots> = drop (Suc i) ?M" by (rule filter_below [OF s i])
  finally have rs: "newest_first (filter (\<lambda>r. filter_condition cc f r \<and> row_key r < row_key ?q) (audit_events d)) = drop (Suc i) ?M" .
  have m: "(n < length (take (n + 1) xs)) = (n < length xs)" "take n (take (n + 1) xs) = take n xs" for n and xs :: "audit_row list"
    by (auto simp: min_def)
  show ?thesis
    unfolding audit_rows_def f2 by (simp add: C rs m Let_def)
qed

lemma collect_after:
  assumes rt: "cursor_roundtrip cc" and ids: "distinct (map au_id (audit_events d))"
    and len: "\<forall>r\<in>set (audit_events d). 1 \<le> length (au_id r) \<and> length (au_id r) \<le> 36"
    and t: "time_errors f = None" and lim: "1 \<le> fl_limit f"
  shows "i < length (matching cc d f) \<Longrightarrow> length (matching cc d f) \<le> i + n \<Longrightarrow>
    collect_pages cc d n (f\<lparr>fl_cursor := Some (encode_cursor cc (matching cc d f ! i))\<rparr>) = drop (Suc i) (matching cc d f)"
proof (induction n arbitrary: i)
  case 0
  then show ?case by simp
next
  case (Suc n)
  let ?M = "matching cc d f" and ?L = "fl_limit f"
  let ?page = "take ?L (drop (Suc i) ?M)"
  note R = rows_after [OF rt ids len t Suc.prems(1)]
  show ?case
  proof (cases "?L < length (drop (Suc i) ?M)")
    case False
    then show ?thesis using R by (simp add: Let_def)
  next
    case True
    let ?j = "i + ?L"
    have j: "?j < length ?M" "length ?M \<le> ?j + n" using True Suc.prems(2) lim by auto
    have pne: "?page \<noteq> []" using True lim by auto
    have lst: "last ?page = ?M ! ?j" using True lim pne by (simp add: last_conv_nth)
    have ff: "f\<lparr>fl_cursor := a\<rparr>\<lparr>fl_cursor := b\<rparr> = f\<lparr>fl_cursor := b\<rparr>" for a b by simp
    have "collect_pages cc d (Suc n) (f\<lparr>fl_cursor := Some (encode_cursor cc (?M ! i))\<rparr>)
        = ?page @ collect_pages cc d n (f\<lparr>fl_cursor := Some (encode_cursor cc (?M ! ?j))\<rparr>)"
      using R True pne lst by (simp add: Let_def)
    also have "\<dots> = ?page @ drop (Suc ?j) ?M" using Suc.IH [OF j] by simp
    also have "\<dots> = drop (Suc i) ?M"
      using append_take_drop_id [of ?L "drop (Suc i) ?M"] by (simp add: add.commute)
    finally show ?thesis .
  qed
qed


definition tally_codec :: cursor_codec where
  "tally_codec = \<lparr>cc_encode = (\<lambda>(t, i). (if t < 0 then CHR ''-'' else CHR ''+'') # replicate (nat \<bar>t\<bar>) (CHR ''1'') @ '':'' @ i),
     cc_decode = (\<lambda>s. case s of [] \<Rightarrow> None | c # r \<Rightarrow>
        let n = int (length (takeWhile (\<lambda>x. x = CHR ''1'') r))
        in Some (Aware (if c = CHR ''-'' then - n else n) 0, drop 1 (dropWhile (\<lambda>x. x = CHR ''1'') r))),
     cc_bind = (\<lambda>t z. t)\<rparr>"

lemma tally_roundtrip: "cursor_roundtrip tally_codec"
proof -
  have t: "takeWhile (\<lambda>x. x = CHR ''1'') (replicate n (CHR ''1'') @ CHR '':'' # i) = replicate n (CHR ''1'')"
    "dropWhile (\<lambda>x. x = CHR ''1'') (replicate n (CHR ''1'') @ CHR '':'' # i) = CHR '':'' # i" for n i
    by (induction n) auto
  show ?thesis by (simp add: cursor_roundtrip_def tally_codec_def t)
qed

definition sample_event :: "string \<Rightarrow> string \<Rightarrow> int \<Rightarrow> audit_row" where
  "sample_event i act t = \<lparr>au_id = i, au_actor = ''admin'', au_action = act, au_target_type = ''application'', au_target_id = ''demo'',
     au_result = ''success'', au_details = JObj [], au_created = t\<rparr>"

definition event_db :: db where
  "event_db = empty_db\<lparr>audit_events := [sample_event ''a'' ''application.create'' 1, sample_event ''b'' ''application.start'' 2,
     sample_event ''c'' ''application.stop'' 2]\<rparr>"

definition any_event :: audit_filters where
  "any_event = \<lparr>fl_limit = 1, fl_cursor = None, fl_start = None, fl_end = None, fl_application = None, fl_actor = None,
     fl_action = None, fl_result = None, fl_category = None, fl_execution = None, fl_keyword = None\<rparr>"


section \<open>The keyword\<close>

lemma cp_ascii_lower: "is_upper c \<Longrightarrow> cp (ascii_lower c) = cp c + 32"
proof -
  assume "is_upper c"
  then show ?thesis by (simp add: ascii_lower_def is_upper_def)
qed

lemma ascii_lower_not_upper: "\<not> is_upper (ascii_lower c)"
  using cp_ascii_lower [of c] by (cases "is_upper c") (auto simp: is_upper_def ascii_lower_def)

lemma ascii_lower_idem [simp]: "ascii_lower (ascii_lower c) = ascii_lower c"
  using ascii_lower_not_upper [of c] by (simp add: ascii_lower_def [of "ascii_lower c"])

lemma ascii_lower_special:
  "ascii_lower c = x \<longleftrightarrow> c = x" if "x \<in> {BACKSLASH, CHR ''%'', CHR ''_''}"
proof -
  have "cp BACKSLASH = 92" by code_simp
  with that have x: "cp x \<in> {92, 37, 95}" by auto
  show ?thesis
  proof (cases "is_upper c")
    case True
    then have "cp (ascii_lower c) \<noteq> cp x" "cp c \<noteq> cp x" using cp_ascii_lower [OF True] x by (auto simp: is_upper_def)
    then show ?thesis by auto
  next
    case False
    then show ?thesis by (simp add: ascii_lower_def)
  qed
qed

definition escape_one :: "char \<Rightarrow> string" where
  "escape_one c = (if c \<in> {BACKSLASH, CHR ''%'', CHR ''_''} then [BACKSLASH, c] else [c])"

lemma replace_char_append: "replace_char c r (a @ b) = replace_char c r a @ replace_char c r b"
  by (simp add: replace_char_def)

lemma escape_like_Cons: "escape_like (c # k) = escape_one c @ escape_like k"
proof -
  have "escape_like (a @ b) = escape_like a @ escape_like b" for a b
    by (simp add: escape_like_def replace_char_append)
  then have "escape_like ([c] @ k) = escape_like [c] @ escape_like k" by blast
  moreover have "escape_like [c] = escape_one c"
  proof -
    have "BACKSLASH \<noteq> CHR ''%''" "BACKSLASH \<noteq> CHR ''_''" by code_simp+
    then show ?thesis by (auto simp: escape_like_def escape_one_def replace_char_def)
  qed
  ultimately show ?thesis by simp
qed

lemma escape_like_Nil [simp]: "escape_like [] = []"
  by (simp add: escape_like_def replace_char_def)

lemma lower_escape: "map ascii_lower (escape_like k) = escape_like (map ascii_lower k)"
proof (induction k)
  case Nil
  then show ?case by simp
next
  case (Cons c k)
  have "map ascii_lower (escape_one c) = escape_one (ascii_lower c)"
    using ascii_lower_special [of BACKSLASH] ascii_lower_special [of "CHR ''%''"] ascii_lower_special [of "CHR ''_''"]
    by (auto simp: escape_one_def)
  then show ?case using Cons by (simp add: escape_like_Cons)
qed

lemma like_literal:
  "sql_like (Some BACKSLASH) (escape_like k @ p) s \<longleftrightarrow>
    (\<exists>u r. s = u @ r \<and> map ascii_lower u = map ascii_lower k \<and> sql_like (Some BACKSLASH) p r)"
proof (induction k arbitrary: s)
  case Nil
  then show ?case by simp
next
  case (Cons c k)
  have b: "BACKSLASH \<noteq> CHR ''%''" "BACKSLASH \<noteq> CHR ''_''" by code_simp+
  have step: "sql_like (Some BACKSLASH) (escape_like (c # k) @ p) s \<longleftrightarrow>
      (\<exists>x t. s = x # t \<and> ascii_lower x = ascii_lower c \<and> sql_like (Some BACKSLASH) (escape_like k @ p) t)"
    using b by (cases s) (auto simp: escape_like_Cons escape_one_def)
  show ?case unfolding step Cons.IH
  proof
    assume "\<exists>x t. s = x # t \<and> ascii_lower x = ascii_lower c
      \<and> (\<exists>u r. t = u @ r \<and> map ascii_lower u = map ascii_lower k \<and> sql_like (Some BACKSLASH) p r)"
    then obtain x u r where "s = (x # u) @ r" "map ascii_lower (x # u) = map ascii_lower (c # k)" "sql_like (Some BACKSLASH) p r"
      by auto
    then show "\<exists>u r. s = u @ r \<and> map ascii_lower u = map ascii_lower (c # k) \<and> sql_like (Some BACKSLASH) p r" by blast
  next
    assume "\<exists>u r. s = u @ r \<and> map ascii_lower u = map ascii_lower (c # k) \<and> sql_like (Some BACKSLASH) p r"
    then obtain u r where u: "s = u @ r" "map ascii_lower u = map ascii_lower (c # k)" "sql_like (Some BACKSLASH) p r" by blast
    then obtain x v where "u = x # v" by (cases u) auto
    with u show "\<exists>x t. s = x # t \<and> ascii_lower x = ascii_lower c
      \<and> (\<exists>u r. t = u @ r \<and> map ascii_lower u = map ascii_lower k \<and> sql_like (Some BACKSLASH) p r)" by auto
  qed
qed

lemma like_any: "e \<noteq> Some (CHR ''%'') \<Longrightarrow> sql_like e (CHR ''%'' # p) s \<longleftrightarrow> (\<exists>u r. s = u @ r \<and> sql_like e p r)"
proof (induction s)
  case Nil
  then show ?case by simp
next
  case (Cons c s)
  have "(\<exists>u r. c # s = u @ r \<and> sql_like e p r) \<longleftrightarrow> sql_like e p (c # s) \<or> (\<exists>u r. s = u @ r \<and> sql_like e p r)"
    by (metis append_Cons append_Nil list.exhaust list.sel(3) neq_Nil_conv tl_append2)
  then show ?case using Cons by simp
qed

text \<open>
  The keyword filter is a plain search: an event matches exactly when the keyword,
  wildcards and backslashes included, occurs in its actor, action, target or result, with ASCII
  letters compared regardless of case. No keyword can act as a pattern.
\<close>

theorem keyword_is_substring:
  "keyword_condition k r \<longleftrightarrow>
    (\<exists>f\<in>{au_actor r, au_action r, au_target_id r, au_result r}. has_sub (map ascii_lower k) (map ascii_lower f))"
proof -
  have p: "ascii_lower (CHR ''%'') = CHR ''%''" by code_simp
  have "BACKSLASH \<noteq> CHR ''%''" by code_simp
  then have e: "Some BACKSLASH \<noteq> Some (CHR ''%'')" by simp
  have idem: "map ascii_lower (map ascii_lower s) = map ascii_lower s" for s by simp
  have main: "ilike (''%'' @ escape_like k @ ''%'') s \<longleftrightarrow> has_sub (map ascii_lower k) (map ascii_lower s)" for s
  proof -
    have "ilike (''%'' @ escape_like k @ ''%'') s \<longleftrightarrow>
        sql_like (Some BACKSLASH) (CHR ''%'' # escape_like (map ascii_lower k) @ ''%'') (map ascii_lower s)"
      by (simp add: ilike_def lower_escape p)
    also have "\<dots> \<longleftrightarrow> (\<exists>a u r. map ascii_lower s = a @ u @ r \<and> map ascii_lower u = map ascii_lower k)"
      unfolding like_any [OF e] like_literal idem by auto
    also have "\<dots> \<longleftrightarrow> has_sub (map ascii_lower k) (map ascii_lower s)"
      unfolding has_sub_iff
    proof
      assume "\<exists>a u r. map ascii_lower s = a @ u @ r \<and> map ascii_lower u = map ascii_lower k"
      then obtain a u r where a: "map ascii_lower s = a @ u @ r" "map ascii_lower u = map ascii_lower k" by blast
      have "map ascii_lower (a @ u @ r) = a @ u @ r" using a(1) idem by metis
      then have "map ascii_lower u = u" by simp
      then show "\<exists>a b. map ascii_lower s = a @ map ascii_lower k @ b" using a by auto
    next
      assume "\<exists>a b. map ascii_lower s = a @ map ascii_lower k @ b"
      then obtain a b where "map ascii_lower s = a @ map ascii_lower k @ b" by blast
      then show "\<exists>a u r. map ascii_lower s = a @ u @ r \<and> map ascii_lower u = map ascii_lower k"
        using idem [of k] by blast
    qed
    finally show ?thesis .
  qed
  show ?thesis unfolding keyword_condition_def Let_def main by auto
qed

section \<open>Categories\<close>

definition program_event :: "audit_row \<Rightarrow> bool" where
  "program_event r \<longleftrightarrow>
     (au_target_type r = ''application'' \<and> au_action r \<in> set (registry_actions @ lifecycle_actions))
     \<or> (au_target_type r = ''authentication'' \<and> au_action r \<in> {''auth.setup'', ''auth.login'', ''auth.logout''})"

text \<open>
  For every event the program writes the category filter selects the category the
  event is shown with. For other events it need not: an event about the system is shown as SYSTEM
  and is also found under OTHER.
\<close>

theorem category_filter_agrees:
  "(program_event r \<longrightarrow> category_condition c r = (category_for (au_action r) (au_target_type r) = c))
    \<and> (\<exists>q. category_for (au_action q) (au_target_type q) = SYSTEM \<and> category_condition OTHER q)"
proof -
  have like: "list_all (\<lambda>a. \<not> sql_like None ''auth.%'' a \<and> \<not> sql_like None ''system.%'' a \<and> \<not> startswith ''auth.'' a
      \<and> \<not> startswith ''system.'' a) (registry_actions @ lifecycle_actions)" by code_simp
  have auth: "list_all (\<lambda>a. sql_like None ''auth.%'' a \<and> \<not> sql_like None ''system.%'' a \<and> startswith ''auth.'' a
      \<and> a \<notin> set (registry_actions @ lifecycle_actions)) [''auth.setup'', ''auth.login'', ''auth.logout'']" by code_simp
  have disj: "list_all (\<lambda>a. a \<notin> set lifecycle_actions) registry_actions" by code_simp
  have 1: "category_condition c r = (category_for (au_action r) (au_target_type r) = c)" if "program_event r"
    using that unfolding program_event_def
  proof
    assume a: "au_target_type r = ''application'' \<and> au_action r \<in> set (registry_actions @ lifecycle_actions)"
    then have l: "\<not> sql_like None ''auth.%'' (au_action r)" "\<not> sql_like None ''system.%'' (au_action r)"
        "\<not> startswith ''auth.'' (au_action r)" "\<not> startswith ''system.'' (au_action r)"
      using like unfolding list_all_iff by blast+
    have m: "au_action r \<in> set registry_actions \<or> au_action r \<in> set lifecycle_actions"
        "au_action r \<in> set registry_actions \<longrightarrow> au_action r \<notin> set lifecycle_actions"
      using a disj unfolding list_all_iff by auto
    define x where "x = au_action r"
    have t: "au_target_type r = ''application''" using a by simp
    note l' = l [folded x_def] and m' = m [folded x_def]
    have c: "category_for x ''application'' = (if x \<in> set registry_actions then APPLICATION_REGISTRY else APPLICATION_LIFECYCLE)"
      using l' m' by (auto simp: category_for_def simp del: startswith_def)
    have n: "category_condition c r = (c = (if x \<in> set registry_actions then APPLICATION_REGISTRY else APPLICATION_LIFECYCLE))"
      using l' m' t x_def by (cases c) (auto simp del: sql_like.simps)
    show ?thesis unfolding n t x_def [symmetric] c by blast
  next
    assume a: "au_target_type r = ''authentication'' \<and> au_action r \<in> {''auth.setup'', ''auth.login'', ''auth.logout''}"
    then have l: "sql_like None ''auth.%'' (au_action r)" "\<not> sql_like None ''system.%'' (au_action r)"
        "startswith ''auth.'' (au_action r)"
        "au_action r \<notin> set registry_actions \<union> set lifecycle_actions"
      using auth unfolding list_all_iff list.set set_append by blast+
    define x where "x = au_action r"
    have t: "au_target_type r = ''authentication''" using a by simp
    note l' = l [folded x_def]
    have k: "category_for x ''authentication'' = AUTHENTICATION" by (simp add: category_for_def)
    have n: "category_condition c r = (c = AUTHENTICATION)"
      using l' t x_def by (cases c) (auto simp del: sql_like.simps)
    show ?thesis unfolding n t x_def [symmetric] k by blast
  qed
  have 2: "category_for ''backup.run'' ''system'' = SYSTEM" by code_simp
  have "category_condition OTHER ((sample_event [] ''backup.run'' 0)\<lparr>au_target_type := ''system''\<rparr>)" by code_simp
  moreover have "au_action ((sample_event [] ''backup.run'' 0)\<lparr>au_target_type := ''system''\<rparr>) = ''backup.run''"
    "au_target_type ((sample_event [] ''backup.run'' 0)\<lparr>au_target_type := ''system''\<rparr>) = ''system''"
    by (simp_all add: sample_event_def)
  ultimately have "\<exists>q. category_for (au_action q) (au_target_type q) = SYSTEM \<and> category_condition OTHER q"
    using 2 by metis
  then show ?thesis using 1 by blast
qed

end
