(* ===== verification/LogSource.thy ===== *)
theory LogSource
  imports AuditEvents "HOL-Library.AList"
begin

text \<open>
  \<open>logging/models.py\<close> and \<open>logging/adapters.py\<close>: where log lines come from. A reader process is
  what it wrote, in the chunks the pipe delivered, and how it ended; the lines are cut out of the
  chunks with bounded memory, then parsed.

  The record \<open>log_lib\<close> is the host and the library functions: running a command (\<open>lg_spawn\<close>),
  starting a reader (\<open>lg_stream\<close>), decoding bytes as UTF-8 with replacement, \<open>json.loads\<close>, \<open>str\<close> of a
  value that is not a string, \<open>datetime.fromtimestamp(v / 1_000_000)\<close> (left: the name of the exception),
  \<open>isoformat\<close> in UTC, \<open>datetime.fromisoformat\<close>, and the time at which the i-th line is parsed.

  A generator is the list of what it yields with the exception that ends it, if one does.
\<close>

record log_event =
  le_app :: string
  le_time :: stamp
  le_source :: string
  le_stream :: string
  le_message :: string
  le_service :: "string option"
  le_container :: "string option"
  le_cursor :: "string option"
  le_sequence :: "int option"
  le_truncated :: bool
  le_size :: "int option"

datatype log_exn = LogSourceError string | OtherLogExn string

type_synonym 'a generated = "'a list \<times> log_exn option"

definition max_log_line_bytes :: nat where
  "max_log_line_bytes = 64 * 1024"

definition bounded_message :: "string \<Rightarrow> string \<times> bool \<times> int" where
  "bounded_message m =
     (let size = int (length (utf8 m))
      in if size \<le> int max_log_line_bytes then (m, False, size)
         else (utf8_prefix (int max_log_line_bytes) m, True, size))"

section \<open>Lines\<close>

text \<open>A line: its first bytes, whether more were dropped, and its full length.\<close>

type_synonym line = "string \<times> bool \<times> int"

record line_state =
  ls_prefix :: string
  ls_size :: int
  ls_truncated :: bool

definition no_line :: line_state where
  "no_line = \<lparr>ls_prefix = [], ls_size = 0, ls_truncated = False\<rparr>"

definition line_of :: "line_state \<Rightarrow> line" where
  "line_of st = (ls_prefix st, ls_truncated st, ls_size st)"

definition add_byte :: "nat \<Rightarrow> char \<Rightarrow> line_state \<Rightarrow> line_state" where
  "add_byte m b st =
     (let st1 = st\<lparr>ls_size := ls_size st + 1\<rparr>
      in if length (ls_prefix st1) < m then st1\<lparr>ls_prefix := ls_prefix st1 @ [b]\<rparr> else st1\<lparr>ls_truncated := True\<rparr>)"

text \<open>\<open>for byte in chunk\<close>.\<close>

fun take_chunk :: "nat \<Rightarrow> string \<Rightarrow> line_state \<Rightarrow> line list \<times> line_state" where
  "take_chunk m [] st = ([], st)"
| "take_chunk m (b # bs) st =
     (if b = LF then apfst (Cons (line_of st)) (take_chunk m bs no_line)
      else take_chunk m bs (add_byte m b st))"

text \<open>A read of no bytes, or no more reads, is the end of the stream.\<close>

fun read_lines :: "nat \<Rightarrow> string list \<Rightarrow> line_state \<Rightarrow> line list" where
  "read_lines m [] st = (if ls_size st \<noteq> 0 then [line_of st] else [])"
| "read_lines m (c # cs) st =
     (if c = [] then (if ls_size st \<noteq> 0 then [line_of st] else [])
      else (case take_chunk m c st of (out, st') \<Rightarrow> out @ read_lines m cs st'))"

definition bounded_lines :: "nat \<Rightarrow> string list \<Rightarrow> line list" where
  "bounded_lines m chunks = read_lines m chunks no_line"

section \<open>Reader processes\<close>

record log_process =
  lp_chunks :: "string list"
  lp_exit :: int
  lp_stderr :: string

record 'h log_lib =
  lg_spawn :: "'h spawn"
  lg_stream :: "path option \<Rightarrow> string list \<Rightarrow> 'h \<Rightarrow> (string + log_process) \<times> 'h"
  lg_decode :: "string \<Rightarrow> string"
  lg_loads :: "string \<Rightarrow> json option"
  lg_pystr :: "json \<Rightarrow> string"
  lg_timestamp :: "int \<Rightarrow> string + int"
  lg_iso :: "stamp \<Rightarrow> string"
  lg_from_iso :: "string \<Rightarrow> stamp option"
  lg_clock :: "nat \<Rightarrow> int"

definition stream_command :: "'h log_lib \<Rightarrow> path option \<Rightarrow> string list \<Rightarrow> 'h \<Rightarrow> line generated \<times> 'h" where
  "stream_command lg cwd cmd h =
     (case lg_stream lg cwd cmd h of
        (Inl e, h') \<Rightarrow> (([], Some (LogSourceError e)), h')
      | (Inr p, h') \<Rightarrow>
          ((bounded_lines max_log_line_bytes (lp_chunks p),
            if lp_exit p \<noteq> 0
            then Some (LogSourceError (or_else (py_strip (lp_stderr p)) (''Log reader exited with status '' @ int_str (lp_exit p))))
            else None), h'))"

text \<open>\<open>parse i line\<close> is the event of the i-th line; empty lines are skipped.\<close>

fun parse_lines :: "(nat \<Rightarrow> line \<Rightarrow> log_exn + log_event) \<Rightarrow> nat \<Rightarrow> line generated \<Rightarrow> log_event generated" where
  "parse_lines parse i ([], e) = ([], e)"
| "parse_lines parse i (l # ls, e) =
     (if fst l = [] then parse_lines parse (Suc i) (ls, e)
      else (case parse i l of
              Inl x \<Rightarrow> ([], Some x)
            | Inr ev \<Rightarrow> apfst (Cons ev) (parse_lines parse (Suc i) (ls, e))))"

text \<open>\<open>deque(maxlen=n)\<close>.\<close>

definition deque_append :: "nat \<Rightarrow> 'a list \<Rightarrow> 'a \<Rightarrow> 'a list" where
  "deque_append n q x = drop (length (q @ [x]) - n) (q @ [x])"

definition collect_history :: "nat \<Rightarrow> log_event generated \<Rightarrow> log_exn + log_event list" where
  "collect_history n g = (case snd g of Some e \<Rightarrow> Inl e | None \<Rightarrow> Inr (foldl (deque_append n) [] (fst g)))"

definition safe_cursor :: "string option \<Rightarrow> log_exn + string option" where
  "safe_cursor c = (case c of None \<Rightarrow> Inr None | Some s \<Rightarrow>
     if s = [] \<or> 2048 < length s \<or> has_any [LF, CR, NUL] s then Inl (LogSourceError ''Invalid journal cursor'')
     else Inr (Some s))"

section \<open>The journal\<close>

text \<open>\<open>int(value)\<close>; \<open>None\<close> is its TypeError or ValueError.\<close>

fun json_int :: "json \<Rightarrow> int option" where
  "json_int (JInt n) = Some n"
| "json_int (JBool b) = Some (if b then 1 else 0)"
| "json_int (JStr s) = py_int s"
| "json_int v = None"

definition get_or :: "string \<Rightarrow> json \<Rightarrow> (string \<times> json) list \<Rightarrow> json" where
  "get_or k d fs = (case map_of fs k of Some v \<Rightarrow> v | None \<Rightarrow> d)"

text \<open>\<open>None\<close> in the result: an exception the parser catches.\<close>

definition journal_event ::
    "'h log_lib \<Rightarrow> string \<Rightarrow> nat \<Rightarrow> bool \<Rightarrow> int \<Rightarrow> (string \<times> json) list \<Rightarrow> log_exn + log_event option"
where
  "journal_event lg app i trunc full fs =
     (case json_int (get_or ''__REALTIME_TIMESTAMP'' (JInt 0) fs) of None \<Rightarrow> Inr None | Some v \<Rightarrow>
      (case (if v = 0 then Inr (lg_clock lg i) else lg_timestamp lg v) of
         Inl x \<Rightarrow> if x = ''ValueError'' then Inr None else Inl (OtherLogExn x)
       | Inr t \<Rightarrow>
          (case json_int (get_or ''PRIORITY'' (JInt 6) fs) of None \<Rightarrow> Inr None | Some prio \<Rightarrow>
           (case bounded_message (json_text (lg_pystr lg) (get_or ''MESSAGE'' (JStr []) fs)) of (msg, short, msize) \<Rightarrow>
             let event = \<lparr>le_app = app, le_time = Aware t 0, le_source = ''journal'',
                   le_stream = (if prio \<le> 3 then ''stderr'' else ''unknown''), le_message = msg, le_service = None,
                   le_container = None, le_cursor = None, le_sequence = None, le_truncated = trunc \<or> short,
                   le_size = Some (if trunc then full else msize)\<rparr>
             in (case map_of fs ''__CURSOR'' of
                   None \<Rightarrow> Inr (Some event)
                 | Some JNull \<Rightarrow> Inr (Some event)
                 | Some (JStr c) \<Rightarrow> Inr (Some (event\<lparr>le_cursor := Some c\<rparr>))
                 | Some _ \<Rightarrow> Inr None)))))"

definition journal_fallback :: "'h log_lib \<Rightarrow> string \<Rightarrow> nat \<Rightarrow> line \<Rightarrow> log_event" where
  "journal_fallback lg app i l =
     \<lparr>le_app = app, le_time = Aware (lg_clock lg i) 0, le_source = ''journal'', le_stream = ''unknown'',
      le_message = lg_decode lg (fst l), le_service = None, le_container = None, le_cursor = None,
      le_sequence = None, le_truncated = fst (snd l), le_size = Some (snd (snd l))\<rparr>"

definition journal_parse :: "'h log_lib \<Rightarrow> string \<Rightarrow> nat \<Rightarrow> line \<Rightarrow> log_exn + log_event" where
  "journal_parse lg app i l =
     (case l of (raw, trunc, full) \<Rightarrow>
      (case lg_loads lg (lg_decode lg raw) of
         None \<Rightarrow> Inr (journal_fallback lg app i l)
       | Some (JObj fs) \<Rightarrow> res_bind (journal_event lg app i trunc full fs)
           (\<lambda>e. Inr (case e of Some ev \<Rightarrow> ev | None \<Rightarrow> journal_fallback lg app i l))
       | Some _ \<Rightarrow> Inl (OtherLogExn ''AttributeError'')))"

text \<open>The state behind an adapter: the host, and what the Compose adapter knows of its containers.\<close>

record 'h log_state =
  lh_host :: 'h
  lh_services :: "(string \<times> string \<times> string option) list"
  lh_running :: bool

definition stream_in ::
    "'h log_lib \<Rightarrow> path option \<Rightarrow> string list \<Rightarrow> 'h log_state \<Rightarrow> line generated \<times> 'h log_state"
where
  "stream_in lg cwd cmd w = (case stream_command lg cwd cmd (lh_host w) of (g, h) \<Rightarrow> (g, w\<lparr>lh_host := h\<rparr>))"

definition ensure_unit :: "'h log_lib \<Rightarrow> string \<Rightarrow> 'h log_state \<Rightarrow> (log_exn + unit) \<times> 'h log_state" where
  "ensure_unit lg unit w =
     (case run_command (lg_spawn lg) None
             [''systemctl'', ''--user'', ''show'', unit, ''--property=LoadState'', ''--no-pager''] (lh_host w) of
        (r, h) \<Rightarrow>
          (if \<not> succeeded r \<or> has_sub ''LoadState=not-found'' (message r)
           then Inl (LogSourceError (''Managed unit is unavailable: '' @ unit)) else Inr (),
           w\<lparr>lh_host := h\<rparr>))"

definition journal_command :: "string \<Rightarrow> string list" where
  "journal_command unit = [''journalctl'', ''--user'', ''--unit'', unit, ''--output=json'']"

definition after_cursor :: "string option \<Rightarrow> string list" where
  "after_cursor c = (case c of None \<Rightarrow> [] | Some s \<Rightarrow> [''--after-cursor'', s])"

definition since_args :: "'h log_lib \<Rightarrow> stamp option \<Rightarrow> string list" where
  "since_args lg t = (case t of None \<Rightarrow> [] | Some s \<Rightarrow> [''--since'', lg_iso lg s])"

definition journal_history ::
    "'h log_lib \<Rightarrow> string \<Rightarrow> string \<Rightarrow> nat \<Rightarrow> stamp option \<Rightarrow> string option \<Rightarrow> 'h log_state
       \<Rightarrow> (log_exn + log_event list) \<times> 'h log_state"
where
  "journal_history lg app unit limit since cursor w =
     (case ensure_unit lg unit w of
        (Inl e, w1) \<Rightarrow> (Inl e, w1)
      | (Inr _, w1) \<Rightarrow>
          (case safe_cursor cursor of
             Inl e \<Rightarrow> (Inl e, w1)
           | Inr c \<Rightarrow>
               (case stream_in lg None (journal_command unit
                        @ [''--no-pager'', ''--lines'', int_str (int limit)] @ since_args lg since @ after_cursor c) w1 of
                  (g, w2) \<Rightarrow> (collect_history limit (parse_lines (journal_parse lg app) 0 g), w2))))"

definition journal_follow ::
    "'h log_lib \<Rightarrow> string \<Rightarrow> string \<Rightarrow> string option \<Rightarrow> 'h log_state \<Rightarrow> log_event generated \<times> 'h log_state"
where
  "journal_follow lg app unit cursor w =
     (case ensure_unit lg unit w of
        (Inl e, w1) \<Rightarrow> (([], Some e), w1)
      | (Inr _, w1) \<Rightarrow>
          (case safe_cursor cursor of
             Inl e \<Rightarrow> (([], Some e), w1)
           | Inr c \<Rightarrow>
               (case stream_in lg None (journal_command unit @ [''--follow'', ''--lines=0''] @ after_cursor c) w1 of
                  (g, w2) \<Rightarrow> (parse_lines (journal_parse lg app) 0 g, w2))))"

section \<open>Compose\<close>

definition nonbreak :: "char \<Rightarrow> bool" where
  "nonbreak c \<longleftrightarrow> c \<noteq> LF"

definition digits :: "nat \<Rightarrow> re" where
  "digits n = re_seq (replicate n (Class is_dec))"

definition compose_line :: "re list" where
  "compose_line =
     [re_seq [TextStart, Class (\<lambda>c. c \<noteq> CHR ''|''), Lazy (\<lambda>c. c \<noteq> CHR ''|'')],
      re_seq [Many is_space, lit ''|'', Many is_space],
      opt (re_seq [digits 4, lit ''-'', digits 2, lit ''-'', digits 2, lit ''T'', many1 (\<lambda>c. \<not> is_space c), many1 is_space]),
      Seq (Many nonbreak) LineEnd]"

definition nanoseconds :: "re list" where
  "nanoseconds = [Seq (lit ''.'') (digits 6), Seq (many1 is_dec) (Ahead (\<lambda>c. c \<in> set ''Z+-''))]"

definition parse_compose_timestamp :: "'h log_lib \<Rightarrow> nat \<Rightarrow> string \<Rightarrow> stamp" where
  "parse_compose_timestamp lg i v =
     (if v = [] then Aware (lg_clock lg i) 0
      else (case lg_from_iso lg (replace_char (CHR ''Z'') ''+00:00'' (re_sub (\<lambda>gs. concat (take 1 gs)) nanoseconds v)) of
              Some t \<Rightarrow> t | None \<Rightarrow> Aware (lg_clock lg i) 0))"

text \<open>\<open>str(item.get(k1) or item.get(k2) or default)\<close>.\<close>

fun text_field :: "(json \<Rightarrow> string) \<Rightarrow> string list \<Rightarrow> string \<Rightarrow> (string \<times> json) list \<Rightarrow> string" where
  "text_field pystr [] d fs = d"
| "text_field pystr (k # ks) d fs =
     (if json_truthy (map_of fs k) then json_text pystr (the (map_of fs k)) else text_field pystr ks d fs)"

type_synonym aliases = "(string \<times> string \<times> string option) list"

text \<open>The number at the end of \<open>project-service-N\<close>.\<close>

definition service_suffix :: "string \<Rightarrow> string \<Rightarrow> string option" where
  "service_suffix service name =
     map_option (\<lambda>gs. gs ! 1)
       (search_groups [Seq (Alt TextStart (lit ''-'')) (lit (service @ ''-'')), many1 is_dec, LineEnd] None name)"

fun container_aliases :: "(json \<Rightarrow> string) \<Rightarrow> aliases \<Rightarrow> json \<Rightarrow> log_exn + aliases" where
  "container_aliases pystr al (JObj fs) =
     (let name = text_field pystr [''Name'', ''Names''] [] fs;
          service = text_field pystr [''Service''] ''unknown'' fs;
          cid = (if json_truthy (map_of fs ''ID'') then Some (json_text pystr (the (map_of fs ''ID''))) else None);
          al1 = (if name = [] then al
                 else case service_suffix service name of
                     None \<Rightarrow> AList.update name (service, cid) al
                   | Some n \<Rightarrow> AList.update (service @ ''-'' @ n) (service, cid) (AList.update name (service, cid) al))
      in Inr (if map_of al1 service = None then AList.update service (service, cid) al1 else al1))"
| "container_aliases pystr al v = Inl (OtherLogExn ''AttributeError'')"

fun all_aliases :: "(json \<Rightarrow> string) \<Rightarrow> aliases \<Rightarrow> json list \<Rightarrow> log_exn + aliases" where
  "all_aliases pystr al [] = Inr al"
| "all_aliases pystr al (c # cs) = res_bind (container_aliases pystr al c) (\<lambda>al1. all_aliases pystr al1 cs)"

fun container_running :: "(json \<Rightarrow> string) \<Rightarrow> json \<Rightarrow> bool" where
  "container_running pystr (JObj fs) \<longleftrightarrow>
     py_lower (json_text pystr (get_or ''State'' (JStr []) fs)) = ''running''
     \<or> startswith ''up'' (py_lower (json_text pystr (get_or ''Status'' (JStr []) fs)))"
| "container_running pystr v = False"

definition refresh_services ::
    "'h log_lib \<Rightarrow> path \<Rightarrow> string \<Rightarrow> string option \<Rightarrow> 'h log_state \<Rightarrow> (log_exn + bool) \<times> 'h log_state"
where
  "refresh_services lg wd cf pn w =
     (case run_command (lg_spawn lg) (Some wd) (compose_base cf pn @ [''ps'', ''--all'', ''--format'', ''json'']) (lh_host w) of
        (r, h) \<Rightarrow>
          let w1 = w\<lparr>lh_host := h\<rparr>
          in if \<not> succeeded r \<or> message r = [] then (Inr False, w1\<lparr>lh_services := [], lh_running := False\<rparr>)
             else (case compose_containers (lg_loads lg) (message r) of
                     None \<Rightarrow> (Inr False, w1)
                   | Some cs \<Rightarrow>
                       (case all_aliases (lg_pystr lg) [] cs of
                          Inl e \<Rightarrow> (Inl e, w1)
                        | Inr al \<Rightarrow>
                            let run = list_ex (container_running (lg_pystr lg)) cs
                            in (Inr run, w1\<lparr>lh_services := al, lh_running := run\<rparr>))))"

definition compose_event ::
    "string \<Rightarrow> stamp \<Rightarrow> string option \<Rightarrow> string option \<Rightarrow> string \<Rightarrow> bool \<Rightarrow> int \<Rightarrow> log_event"
where
  "compose_event app t service cid text trunc full =
     (case bounded_message text of (msg, short, msize) \<Rightarrow>
       \<lparr>le_app = app, le_time = t, le_source = ''docker'', le_stream = ''unknown'', le_message = msg,
        le_service = service, le_container = cid, le_cursor = None, le_sequence = None,
        le_truncated = trunc \<or> short, le_size = Some (if trunc then full else msize)\<rparr>)"

definition compose_parse :: "'h log_lib \<Rightarrow> string \<Rightarrow> aliases \<Rightarrow> nat \<Rightarrow> line \<Rightarrow> log_event" where
  "compose_parse lg app al i l =
     (case l of (raw, trunc, full) \<Rightarrow>
      (case first_match compose_line (None, lg_decode lg raw) of
         None \<Rightarrow> compose_event app (Aware (lg_clock lg i) 0) None None (lg_decode lg raw) trunc full
       | Some (gs, _) \<Rightarrow>
           let name = py_strip (gs ! 0);
               (service, cid) = (case map_of al name of Some e \<Rightarrow> e | None \<Rightarrow> (name, None))
           in compose_event app (parse_compose_timestamp lg i (takeWhile (\<lambda>c. \<not> is_space c) (gs ! 2)))
                (Some service) cid (gs ! 3) trunc full))"

definition compose_history ::
    "'h log_lib \<Rightarrow> string \<Rightarrow> path \<Rightarrow> string \<Rightarrow> string option \<Rightarrow> nat \<Rightarrow> stamp option \<Rightarrow> 'h log_state
       \<Rightarrow> (log_exn + log_event list) \<times> 'h log_state"
where
  "compose_history lg app wd cf pn limit since w =
     (case refresh_services lg wd cf pn w of
        (Inl e, w1) \<Rightarrow> (Inl e, w1)
      | (Inr _, w1) \<Rightarrow>
          (case stream_in lg (Some wd) (compose_base cf pn @ [''logs'', ''--timestamps'', ''--no-color'', ''--tail'', int_str (int limit)]
                  @ since_args lg since) w1 of
             (g, w2) \<Rightarrow>
               (collect_history limit (parse_lines (\<lambda>i l. Inr (compose_parse lg app (lh_services w2) i l)) 0 g), w2)))"

text \<open>
  How a follower stopped: the source closed, an exception, or not yet when the rounds that were
  given to it ran out.
\<close>

datatype follow_end = Closed | Raised log_exn | Following

fun follow_lines ::
    "'h log_lib \<Rightarrow> string \<Rightarrow> path \<Rightarrow> string \<Rightarrow> string option \<Rightarrow> nat \<Rightarrow> line generated \<Rightarrow> stamp option \<Rightarrow> 'h log_state
       \<Rightarrow> log_event generated \<times> stamp option \<times> 'h log_state"
where
  "follow_lines lg app wd cf pn i ([], e) seen w = (([], e), seen, w)"
| "follow_lines lg app wd cf pn i (l # ls, e) seen w =
     (if fst l = [] then follow_lines lg app wd cf pn (Suc i) (ls, e) seen w
      else let ev = compose_parse lg app (lh_services w) i l
           in if le_service ev \<in> (\<lambda>a. Some (fst (snd a))) ` set (lh_services w)
              then apfst (apfst (Cons ev)) (follow_lines lg app wd cf pn (Suc i) (ls, e) (Some (le_time ev)) w)
              else (case refresh_services lg wd cf pn w of
                      (Inl x, w1) \<Rightarrow> (([], Some x), seen, w1)
                    | (Inr _, w1) \<Rightarrow>
                        let ev1 = compose_parse lg app (lh_services w1) i l
                        in apfst (apfst (Cons ev1)) (follow_lines lg app wd cf pn (Suc i) (ls, e) (Some (le_time ev1)) w1)))"

text \<open>
  The reader is started again as long as containers run; the first argument bounds the rounds.
\<close>

fun follow_rounds ::
    "nat \<Rightarrow> 'h log_lib \<Rightarrow> string \<Rightarrow> path \<Rightarrow> string \<Rightarrow> string option \<Rightarrow> nat \<Rightarrow> stamp option \<Rightarrow> 'h log_state
       \<Rightarrow> (log_event list \<times> follow_end) \<times> 'h log_state"
where
  "follow_rounds 0 lg app wd cf pn i seen w = (([], Following), w)"
| "follow_rounds (Suc n) lg app wd cf pn i seen w =
     (case stream_in lg (Some wd) (compose_base cf pn @ [''logs'', ''--follow'', ''--timestamps'', ''--no-color'', ''--tail'', ''0'']
             @ since_args lg seen) w of
        (g, w1) \<Rightarrow>
          (case follow_lines lg app wd cf pn i g seen w1 of
             ((evs, Some x), seen1, w2) \<Rightarrow> ((evs, Raised x), w2)
           | ((evs, None), seen1, w2) \<Rightarrow>
               (case refresh_services lg wd cf pn w2 of
                  (Inl x, w3) \<Rightarrow> ((evs, Raised x), w3)
                | (Inr False, w3) \<Rightarrow> ((evs, Closed), w3)
                | (Inr True, w3) \<Rightarrow>
                    apfst (apfst ((@) evs)) (follow_rounds n lg app wd cf pn (i + length (fst g)) seen1 w3))))"

definition compose_follow ::
    "nat \<Rightarrow> 'h log_lib \<Rightarrow> string \<Rightarrow> path \<Rightarrow> string \<Rightarrow> string option \<Rightarrow> 'h log_state
       \<Rightarrow> (log_event list \<times> follow_end) \<times> 'h log_state"
where
  "compose_follow n lg app wd cf pn w =
     (case refresh_services lg wd cf pn w of
        (Inl x, w1) \<Rightarrow> (([], Raised x), w1)
      | (Inr _, w1) \<Rightarrow> follow_rounds n lg app wd cf pn 0 None w1)"

section \<open>The adapter of an application\<close>

record 'h log_adapter =
  la_history :: "nat \<Rightarrow> stamp option \<Rightarrow> string option \<Rightarrow> 'h log_state \<Rightarrow> (log_exn + log_event list) \<times> 'h log_state"
  la_follow :: "nat \<Rightarrow> string option \<Rightarrow> 'h log_state \<Rightarrow> (log_event list \<times> follow_end) \<times> 'h log_state"

fun generator_end :: "log_exn option \<Rightarrow> follow_end" where
  "generator_end None = Closed"
| "generator_end (Some x) = Raised x"

definition log_adapter_for :: "'h log_lib \<Rightarrow> manifest \<Rightarrow> log_exn + 'h log_adapter" where
  "log_adapter_for lg m =
     (case man_runtime m of
        ProcessRuntime _ _ \<Rightarrow>
          (case unit_name_for (man_id m) of
             Inl x \<Rightarrow> Inl (OtherLogExn ''UnitError'')
           | Inr unit \<Rightarrow>
               Inr \<lparr>la_history = (\<lambda>limit since cursor. journal_history lg (man_id m) unit limit since cursor),
                    la_follow = (\<lambda>_ cursor w. apfst (apsnd generator_end) (journal_follow lg (man_id m) unit cursor w))\<rparr>)
      | ComposeRuntime wd cf pn \<Rightarrow>
          Inr \<lparr>la_history = (\<lambda>limit since _. compose_history lg (man_id m) wd cf pn limit since),
               la_follow = (\<lambda>n _. compose_follow n lg (man_id m) wd cf pn)\<rparr>)"

section \<open>Cutting a stream into lines\<close>

text \<open>The lines of a text: what stands before each line feed, and what follows the last if anything.\<close>

definition line_pieces :: "string \<Rightarrow> string list" where
  "line_pieces s = (let ps = split_on LF s in if last ps = [] then butlast ps else ps)"

definition cut_line :: "nat \<Rightarrow> string \<Rightarrow> line" where
  "cut_line m p = (take m p, m < length p, int (length p))"

text \<open>The state after the bytes of an unfinished line.\<close>

definition after_bytes :: "nat \<Rightarrow> string \<Rightarrow> line_state" where
  "after_bytes m p = \<lparr>ls_prefix = take m p, ls_size = int (length p), ls_truncated = m < length p\<rparr>"

lemma no_line_after [simp]: "after_bytes m [] = no_line"
  by (simp add: after_bytes_def no_line_def)

lemma add_byte_after: "add_byte m b (after_bytes m p) = after_bytes m (p @ [b])"
  by (auto simp: add_byte_def after_bytes_def Let_def)

lemma line_of_after: "line_of (after_bytes m p) = cut_line m p"
  by (simp add: line_of_def after_bytes_def cut_line_def)

lemma take_chunk_after:
  assumes "LF \<notin> set p"
  shows "take_chunk m c (after_bytes m p) =
    (map (cut_line m) (butlast (split_on LF (p @ c))), after_bytes m (last (split_on LF (p @ c))))"
  using assms
proof (induction c arbitrary: p)
  case Nil
  then show ?case by (simp add: split_on_free)
next
  case (Cons b c)
  show ?case
  proof (cases "b = LF")
    case True
    have "take_chunk m c (after_bytes m []) =
        (map (cut_line m) (butlast (split_on LF c)), after_bytes m (last (split_on LF c)))"
      using Cons.IH [of "[]"] by simp
    then show ?thesis using True Cons.prems by (simp add: split_on_append line_of_after)
  next
    case False
    then have "take_chunk m c (after_bytes m (p @ [b])) =
        (map (cut_line m) (butlast (split_on LF (p @ [b] @ c))), after_bytes m (last (split_on LF (p @ [b] @ c))))"
      using Cons.IH [of "p @ [b]"] Cons.prems by simp
    then show ?thesis using False by (simp add: add_byte_after)
  qed
qed

lemma split_last_append:
  "split_on c (s @ t) = butlast (split_on c s) @ split_on c (last (split_on c s) @ t)"
proof (induction s)
  case Nil
  then show ?case by simp
next
  case (Cons x s)
  obtain p ps where s: "split_on c s = p # ps" by (cases "split_on c s") auto
  show ?case
  proof (cases "x = c")
    case True
    then show ?thesis using Cons s by simp
  next
    case False
    show ?thesis
    proof (cases ps)
      case Nil
      then show ?thesis using Cons s False by (cases "split_on c (p @ t)") auto
    next
      case (Cons q qs)
      then show ?thesis using Cons.IH s False by simp
    qed
  qed
qed

lemma line_pieces_append: "line_pieces (s @ t) = butlast (split_on LF s) @ line_pieces (last (split_on LF s) @ t)"
  unfolding line_pieces_def split_last_append [of LF s t] Let_def by (simp add: butlast_append)

lemma read_lines_after:
  "LF \<notin> set p \<Longrightarrow> read_lines m chunks (after_bytes m p) = map (cut_line m) (line_pieces (p @ concat (takeWhile (\<lambda>c. c \<noteq> []) chunks)))"
proof (induction chunks arbitrary: p)
  case Nil
  then show ?case by (simp add: line_pieces_def split_on_free line_of_after) (simp add: after_bytes_def)
next
  case (Cons c cs)
  show ?case
  proof (cases "c = []")
    case True
    then show ?thesis using Cons.prems
      by (simp add: line_pieces_def split_on_free line_of_after) (simp add: after_bytes_def)
  next
    case False
    let ?ps = "split_on LF (p @ c)"
    have "last ?ps \<in> set ?ps" by simp
    then have "LF \<notin> set (last ?ps)" by (rule split_on_pieces)
    then have "read_lines m cs (after_bytes m (last ?ps)) =
        map (cut_line m) (line_pieces (last ?ps @ concat (takeWhile (\<lambda>c. c \<noteq> []) cs)))" by (rule Cons.IH)
    moreover have "line_pieces (p @ c @ r) = butlast ?ps @ line_pieces (last ?ps @ r)" for r
      using line_pieces_append [of "p @ c"] by simp
    ultimately show ?thesis using False take_chunk_after [OF Cons.prems, of m c] by simp
  qed
qed

text \<open>
  Property C35. Lines do not depend on how the pipe delivers the bytes. Whatever the chunks, the
  lines are those of the whole text read before the stream ended, each cut to the limit, with its
  full length and a mark that says whether it was cut.
\<close>

theorem lines_independent_of_chunks:
  "bounded_lines m chunks = map (cut_line m) (line_pieces (concat (takeWhile (\<lambda>c. c \<noteq> []) chunks)))"
  using read_lines_after [of "[]" m chunks] by (simp add: bounded_lines_def)

section \<open>History\<close>

lemma deque_fold: "foldl (deque_append n) [] xs = drop (length xs - n) xs"
proof (induction xs rule: rev_induct)
  case Nil
  then show ?case by simp
next
  case (snoc x xs)
  have d: "drop (length xs - n) xs @ [x] = drop (length xs - n) (xs @ [x])" by simp
  show ?case unfolding foldl_append foldl.simps snoc unfolding deque_append_def d
    by (simp only: drop_drop length_drop length_append_singleton) (rule arg_cong [of _ _ "\<lambda>k. drop k (xs @ [x])"], simp)
qed

lemma collect_history_tail:
  "collect_history n (evs, None) = Inr (drop (length evs - n) evs)"
  using deque_fold [of n evs] by (simp add: collect_history_def)

end
