(* ===== verification/LogStream.thy ===== *)
theory LogStream
  imports LogSource "HOL-Library.Sublist"
begin

text \<open>
  \<open>logging/redaction.py\<close>, \<open>logging/service.py\<close> and \<open>api/log_websocket.py\<close>: what a log client is
  shown. The WebSocket handler is a state machine: the producer task and the consumer loop
  interleave at their awaits, over a queue that drops its oldest item when it is full.

  \<open>sl_ord\<close> is the order in which a Python set is iterated, any permutation of its elements.
\<close>

section \<open>Redaction\<close>

definition sensitive_name :: re where
  "sensitive_name = re_alt [lit_ci ''password'', lit_ci ''passwd'', lit_ci ''token'', api_key, lit_ci ''secret'', lit_ci ''authorization'']"

definition log_assignment :: "re list" where
  "log_assignment = assignment_groups sensitive_name"

definition secret_values :: "(string list \<Rightarrow> string list) \<Rightarrow> (string \<times> string) list \<Rightarrow> string list" where
  "secret_values ord env =
     sort_key (\<lambda>v. - int (length v))
       (ord (remdups (map snd (filter (\<lambda>(n, v). v \<noteq> [] \<and> 4 \<le> length v \<and> re_search sensitive_name n) env))))"

definition log_url :: "qs_codec \<Rightarrow> string \<Rightarrow> string" where
  "log_url qs raw = (case urlsplit raw of None \<Rightarrow> raw
     | Some u \<Rightarrow> unsplit_url (u_scheme u) (u_netloc u) (u_path u) (redact_query qs sensitive_name (u_query u)) (u_fragment u))"

definition redact_log :: "qs_codec \<Rightarrow> string list \<Rightarrow> string \<Rightarrow> string" where
  "redact_log qs secrets msg =
     redact_with log_assignment (log_url qs) (foldl (\<lambda>s v. replace_all v ''[REDACTED]'' s) msg secrets)"

section \<open>The service\<close>

datatype app_log_exn = ApplicationLogError string string | SourceError string | UncaughtLog string

fun log_exn_of :: "log_exn \<Rightarrow> app_log_exn" where
  "log_exn_of (LogSourceError t) = SourceError t"
| "log_exn_of (OtherLogExn t) = UncaughtLog t"

definition service_char :: "char \<Rightarrow> bool" where
  "service_char c \<longleftrightarrow> is_alnum c \<or> c \<in> set ''_.-''"

definition service_name_ok :: "string \<Rightarrow> bool" where
  "service_name_ok s \<longleftrightarrow> (case s of [] \<Rightarrow> False | c # r \<Rightarrow> is_alnum c \<and> list_all service_char r \<and> length r \<le> 127)"

definition parse_service_filter :: "string option \<Rightarrow> app_log_exn + string list" where
  "parse_service_filter v =
     (case v of None \<Rightarrow> Inr [] | Some t \<Rightarrow>
        if t = [] then Inr []
        else let services = split_on (CHR '','') t
             in if 32 < length services \<or> list_ex (\<lambda>s. \<not> service_name_ok s) services
                then Inl (ApplicationLogError ''QUERY_INVALID'' ''Invalid services filter'')
                else Inr (remdups services))"

record 'h log_service =
  sl_st :: settings
  sl_fs :: host_fs
  sl_cd :: codec
  sl_lib :: "'h log_lib"
  sl_qs :: qs_codec
  sl_ord :: "string list \<Rightarrow> string list"

text \<open>The adapter of an application and the secrets its log redaction knows.\<close>

definition log_context :: "'h log_service \<Rightarrow> string \<Rightarrow> db \<Rightarrow> app_log_exn + 'h log_adapter \<times> string list" where
  "log_context sv k d =
     (case row_get ap_id k (applications d) of
        None \<Rightarrow> Inl (ApplicationLogError ''APP_NOT_FOUND'' (''Application not found: '' @ k))
      | Some r \<Rightarrow>
          (case decode (sl_fs sv) (sl_cd sv) (ap_config r) of
             None \<Rightarrow> Inl (UncaughtLog ''ValidationError'')
           | Some m \<Rightarrow>
               (let v = validate_manifest_paths (sl_st sv) (sl_fs sv) (allowed_roots (sl_st sv)) m
                in if \<not> vr_valid v
                   then Inl (ApplicationLogError ''CONFIG_INVALID'' (join_with ''; '' (map issue_message (vr_errors v))))
                   else (case log_adapter_for (sl_lib sv) m of
                           Inl x \<Rightarrow> Inl (log_exn_of x)
                         | Inr a \<Rightarrow> Inr (a, secret_values (sl_ord sv) (man_environment m))))))"

definition prepare_event :: "'h log_service \<Rightarrow> string list \<Rightarrow> string list \<Rightarrow> log_event \<Rightarrow> log_event option" where
  "prepare_event sv secrets services e =
     (if services \<noteq> [] \<and> le_service e \<notin> Some ` set services then None
      else Some (e\<lparr>le_message := redact_log (sl_qs sv) secrets (le_message e)\<rparr>))"

definition log_history ::
    "'h log_service \<Rightarrow> string \<Rightarrow> db \<Rightarrow> nat \<Rightarrow> stamp option \<Rightarrow> string option \<Rightarrow> string list \<Rightarrow> 'h log_state
       \<Rightarrow> (app_log_exn + log_event list \<times> 'h log_adapter \<times> string list) \<times> 'h log_state"
where
  "log_history sv k d limit since cursor services w =
     (case log_context sv k d of
        Inl x \<Rightarrow> (Inl x, w)
      | Inr (a, secrets) \<Rightarrow>
          (case la_history a limit since cursor w of
             (Inl x, w1) \<Rightarrow> (Inl (log_exn_of x), w1)
           | (Inr evs, w1) \<Rightarrow> (Inr (List.map_filter (prepare_event sv secrets services) evs, a, secrets), w1)))"

definition log_follow ::
    "nat \<Rightarrow> 'h log_service \<Rightarrow> 'h log_adapter \<Rightarrow> string list \<Rightarrow> string option \<Rightarrow> string list \<Rightarrow> 'h log_state
       \<Rightarrow> (log_event list \<times> follow_end) \<times> 'h log_state"
where
  "log_follow n sv a secrets cursor services w =
     apfst (apfst (List.map_filter (prepare_event sv secrets services))) (la_follow a n cursor w)"

section \<open>The query of a log request\<close>

definition parse_bool :: "string option \<Rightarrow> bool \<Rightarrow> app_log_exn + bool" where
  "parse_bool v dflt =
     (case v of None \<Rightarrow> Inr dflt | Some t \<Rightarrow>
        if py_lower t \<in> {''1'', ''true'', ''yes''} then Inr True
        else if py_lower t \<in> {''0'', ''false'', ''no''} then Inr False
        else Inl (ApplicationLogError ''QUERY_INVALID'' (''Invalid boolean value: '' @ t)))"

record log_query =
  lq_history :: nat
  lq_follow :: bool
  lq_since :: "stamp option"
  lq_cursor :: "string option"
  lq_services :: "string list"

definition query_invalid :: "string \<Rightarrow> app_log_exn + 'a" where
  "query_invalid t = Inl (ApplicationLogError ''QUERY_INVALID'' t)"

definition allowed_log_query :: "string list" where
  "allowed_log_query = [''history'', ''follow'', ''since'', ''cursor'', ''services'']"

definition parse_since :: "(string \<Rightarrow> stamp option) \<Rightarrow> string option \<Rightarrow> app_log_exn + stamp option" where
  "parse_since from_iso v =
     (case v of None \<Rightarrow> Inr None | Some t \<Rightarrow>
        if t = [] then Inr None
        else (case from_iso (replace_char (CHR ''Z'') ''+00:00'' t) of
                None \<Rightarrow> query_invalid ''since must be an ISO-8601 timestamp''
              | Some (Naive _) \<Rightarrow> query_invalid ''since must include a timezone''
              | Some s \<Rightarrow> Inr (Some s)))"

text \<open>A query parameter given twice counts with its last value.\<close>

definition parse_query :: "(string \<Rightarrow> stamp option) \<Rightarrow> (string \<times> string) list \<Rightarrow> app_log_exn + log_query" where
  "parse_query from_iso qs =
     (let get = map_of (rev qs);
          unknown = filter (\<lambda>k. k \<notin> set allowed_log_query) (remdups (map fst qs))
      in if unknown \<noteq> []
         then query_invalid (''Unsupported log query parameters: '' @ join_with '', '' (sort unknown))
         else (case py_int (case get ''history'' of Some t \<Rightarrow> t | None \<Rightarrow> ''200'') of
            None \<Rightarrow> query_invalid ''history must be an integer''
          | Some n \<Rightarrow>
              if n < 0 \<or> 5000 < n then query_invalid ''history must be between 0 and 5000''
              else res_bind (parse_bool (get ''follow'') True) (\<lambda>follow.
                   res_bind (parse_since from_iso (get ''since'')) (\<lambda>since.
                   (let cursor = get ''cursor''
                    in if (case cursor of None \<Rightarrow> False
                             | Some c \<Rightarrow> c = [] \<or> 2048 < length c \<or> has_any [LF, CR, NUL] c)
                       then query_invalid ''Invalid journal cursor''
                       else res_bind (parse_service_filter (get ''services'')) (\<lambda>services.
                          Inr \<lparr>lq_history = nat n, lq_follow = follow, lq_since = since, lq_cursor = cursor,
                               lq_services = services\<rparr>))))))"

section \<open>The socket\<close>

datatype envelope = StatusEnv string | LogEnv log_event | WarningEnv int | ErrorEnv string string | EofEnv string

datatype queue_item = Event log_event | Final envelope

definition log_queue_size :: nat where
  "log_queue_size = 1000"

text \<open>The queue and the number of dropped items afterwards.\<close>

definition enqueue_bounded :: "queue_item \<Rightarrow> queue_item list \<times> int \<Rightarrow> queue_item list \<times> int" where
  "enqueue_bounded x qd =
     (if log_queue_size \<le> length (fst qd) then (tl (fst qd) @ [x], snd qd + 1) else (fst qd @ [x], snd qd))"

text \<open>Where the consumer loop stands: in \<open>wait\<close>, with an item in hand, or past the warning.\<close>

datatype phase = Waiting | Taken queue_item | Sending queue_item | Stopped

record socket =
  so_feed :: "log_event list"
  so_end :: "envelope option"
  so_queue :: "queue_item list"
  so_dropped :: int
  so_sequence :: int
  so_sent :: "envelope list"
  so_phase :: phase
  so_close :: "int option"

definition enqueue :: "queue_item \<Rightarrow> socket \<Rightarrow> socket" where
  "enqueue x s = (case enqueue_bounded x (so_queue s, so_dropped s) of (q, n) \<Rightarrow> s\<lparr>so_queue := q, so_dropped := n\<rparr>)"

definition produce :: "socket \<Rightarrow> socket option" where
  "produce s =
     (case so_feed s of
        e # es \<Rightarrow> Some (enqueue (Event e) (s\<lparr>so_feed := es\<rparr>))
      | [] \<Rightarrow> (case so_end s of None \<Rightarrow> None | Some t \<Rightarrow> Some (enqueue (Final t) (s\<lparr>so_end := None\<rparr>))))"

fun is_terminal :: "envelope \<Rightarrow> bool" where
  "is_terminal (ErrorEnv _ _) = True"
| "is_terminal (EofEnv _) = True"
| "is_terminal _ = False"

fun send_item :: "queue_item \<Rightarrow> socket \<Rightarrow> socket" where
  "send_item (Event e) s =
     s\<lparr>so_sequence := so_sequence s + 1, so_sent := so_sent s @ [LogEnv (e\<lparr>le_sequence := Some (so_sequence s + 1)\<rparr>)],
       so_phase := Waiting\<rparr>"
| "send_item (Final t) s = s\<lparr>so_sent := so_sent s @ [t], so_phase := (if is_terminal t then Stopped else Waiting)\<rparr>"

definition consume :: "socket \<Rightarrow> socket option" where
  "consume s =
     (case so_phase s of
        Waiting \<Rightarrow> (case so_queue s of [] \<Rightarrow> None | x # q \<Rightarrow> Some (s\<lparr>so_queue := q, so_phase := Taken x\<rparr>))
      | Taken x \<Rightarrow>
          Some (if so_dropped s \<noteq> 0
                then s\<lparr>so_dropped := 0, so_sent := so_sent s @ [WarningEnv (so_dropped s)], so_phase := Sending x\<rparr>
                else send_item x s)
      | Sending x \<Rightarrow> Some (send_item x s)
      | Stopped \<Rightarrow> None)"

text \<open>The connection ends where the loop waits: the login session is over, or the client is gone.\<close>

inductive socket_step :: "socket \<Rightarrow> socket \<Rightarrow> bool" where
  produced: "so_phase s \<noteq> Stopped \<Longrightarrow> produce s = Some s' \<Longrightarrow> socket_step s s'"
| consumed: "consume s = Some s' \<Longrightarrow> socket_step s s'"
| expired: "so_phase s = Waiting \<Longrightarrow> socket_step s (s\<lparr>so_phase := Stopped, so_close := Some 4401\<rparr>)"
| gone: "so_phase s = Waiting \<Longrightarrow> socket_step s (s\<lparr>so_phase := Stopped\<rparr>)"

code_pred socket_step .

section \<open>The handler\<close>

datatype socket_start =
    Refused int
  | Answered "envelope list"
  | Crashed "envelope list" string
  | Streaming socket

fun log_failure :: "envelope list \<Rightarrow> app_log_exn \<Rightarrow> socket_start" where
  "log_failure sent (ApplicationLogError code t) = Answered (sent @ [ErrorEnv code t])"
| "log_failure sent (SourceError t) = Answered (sent @ [ErrorEnv ''LOG_SOURCE_UNAVAILABLE'' t])"
| "log_failure sent (UncaughtLog t) = Crashed sent t"

text \<open>What the producer puts at the end; after any other exception its task is dead and puts nothing.\<close>

fun final_envelope :: "follow_end \<Rightarrow> envelope option" where
  "final_envelope Closed = Some (EofEnv ''log_source_closed'')"
| "final_envelope (Raised (LogSourceError t)) = Some (ErrorEnv ''LOG_SOURCE_UNAVAILABLE'' t)"
| "final_envelope (Raised (OtherLogExn t)) = None"
| "final_envelope Following = None"

fun numbered :: "int \<Rightarrow> log_event list \<Rightarrow> log_event list" where
  "numbered n [] = []"
| "numbered n (e # es) = e\<lparr>le_sequence := Some (n + 1)\<rparr> # numbered (n + 1) es"

definition resume_cursor :: "log_event list \<Rightarrow> string option \<Rightarrow> string option" where
  "resume_cursor evs requested =
     (case List.find (\<lambda>e. le_cursor e \<notin> {None, Some []}) (rev evs) of Some e \<Rightarrow> le_cursor e | None \<Rightarrow> requested)"

text \<open>
  The events a follower will yield are computed when it starts; \<open>n\<close> bounds the rounds of a Compose
  follower. The producer then hands them over one by one.
\<close>

definition stream_logs ::
    "nat \<Rightarrow> 'h log_service \<Rightarrow> string \<Rightarrow> (string \<times> string) list \<Rightarrow> db \<Rightarrow> 'h log_state \<Rightarrow> socket_start \<times> 'h log_state"
where
  "stream_logs n sv k qs d w =
     (case parse_query (lg_from_iso (sl_lib sv)) qs of
        Inl x \<Rightarrow> (log_failure [] x, w)
      | Inr q \<Rightarrow>
          let connected = [StatusEnv ''connected'']
          in (case log_history sv k d (lq_history q) (lq_since q) (lq_cursor q) (lq_services q) w of
                (Inl x, w1) \<Rightarrow> (log_failure connected x, w1)
              | (Inr (evs, a, secrets), w1) \<Rightarrow>
                  let sent = connected @ map LogEnv (numbered 0 evs)
                  in if \<not> lq_follow q then (Answered (sent @ [EofEnv ''history_complete'']), w1)
                     else (case log_follow n sv a secrets (resume_cursor evs (lq_cursor q)) (lq_services q) w1 of
                             ((feed, fin), w2) \<Rightarrow>
                               (Streaming \<lparr>so_feed = feed, so_end = final_envelope fin, so_queue = [], so_dropped = 0,
                                  so_sequence = int (length evs), so_sent = sent, so_phase = Waiting, so_close = None\<rparr>, w2))))"

definition application_logs ::
    "crypto \<Rightarrow> sources \<Rightarrow> bool \<Rightarrow> request \<Rightarrow> nat \<Rightarrow> 'h log_service \<Rightarrow> string \<Rightarrow> (string \<times> string) list \<Rightarrow> store
       \<Rightarrow> 'h log_state \<Rightarrow> socket_start \<times> 'h log_state"
where
  "application_logs cr su up rq n sv k qs s w =
     (case authenticate_websocket (sl_st sv) cr su up rq s of
        (Inl code, _) \<Rightarrow> (Refused code, w)
      | (Inr _, _) \<Rightarrow> stream_logs n sv k qs (committed s) w)"

text \<open>The open sockets, closed together at shutdown.\<close>

definition connections_add :: "'c \<Rightarrow> 'c list \<Rightarrow> 'c list" where
  "connections_add c cs = List.insert c cs"

definition connections_discard :: "'c \<Rightarrow> 'c list \<Rightarrow> 'c list" where
  "connections_discard c cs = removeAll c cs"

definition close_all :: "'c list \<Rightarrow> ('c \<times> int \<times> string) list \<times> 'c list" where
  "close_all cs = (map (\<lambda>c. (c, 1012, ''MachineDeck is shutting down'')) cs, [])"

text \<open>
  \<open>wait_for_websocket_session_end\<close>: the number of polls before the one that finds the session
  over; \<open>view i\<close> is whether the database answers the i-th poll and what it holds then.
\<close>

partial_function (option) session_end_poll :: "sources \<Rightarrow> string \<Rightarrow> (nat \<Rightarrow> bool \<times> store) \<Rightarrow> nat \<Rightarrow> nat option" where
  "session_end_poll su k view i =
     (if websocket_session_active su (fst (view i)) k (snd (view i)) then session_end_poll su k view (Suc i) else Some i)"

section \<open>Replacing parts of a text by bracketed tokens\<close>

text \<open>\<open>masked ts s s'\<close>: parts of \<open>s\<close> have been replaced by tokens of \<open>ts\<close>.\<close>

inductive masked :: "string set \<Rightarrow> string \<Rightarrow> string \<Rightarrow> bool" for ts where
  masked_Nil: "masked ts [] []"
| masked_keep: "masked ts s s' \<Longrightarrow> masked ts (c # s) (c # s')"
| masked_cut: "masked ts s s' \<Longrightarrow> t \<in> ts \<Longrightarrow> masked ts (u @ s) (t @ s')"

lemma masked_refl: "masked ts s s"
  by (induction s) (auto intro: masked.intros)

lemma masked_prefix: "masked ts s s' \<Longrightarrow> masked ts (u @ s) (u @ s')"
  by (induction u) (auto intro: masked.intros)

definition bracketed :: "string \<Rightarrow> bool" where
  "bracketed t \<longleftrightarrow> (\<exists>x. t = ''['' @ x @ '']'')"

definition unbracketed :: "string \<Rightarrow> bool" where
  "unbracketed v \<longleftrightarrow> v \<noteq> [] \<and> CHR ''['' \<notin> set v \<and> CHR '']'' \<notin> set v"

text \<open>A text without brackets at the front of the result was at the front of the original.\<close>

lemma masked_front:
  assumes "\<forall>t\<in>ts. bracketed t"
  shows "masked ts s s' \<Longrightarrow> s' = v @ r \<Longrightarrow> CHR ''['' \<notin> set v \<Longrightarrow> \<exists>r'. s = v @ r'"
proof (induction arbitrary: v r rule: masked.induct)
  case masked_Nil
  then show ?case by simp
next
  case (masked_keep s s' c)
  then show ?case by (cases v) auto
next
  case (masked_cut s s' t u)
  then have "\<exists>x. t = CHR ''['' # x" using assms by (auto simp: bracketed_def)
  then have "v = []" using masked_cut.prems by (cases v) auto
  then show ?case by simp
qed

lemma bracketed_split:
  assumes "bracketed t" "unbracketed v" "t @ s = a @ v @ b"
  shows "has_sub v t \<or> has_sub v s"
proof (cases "length t \<le> length a")
  case True
  then have "s = drop (length t) a @ v @ b" using assms(3) by (metis append_eq_append_conv_if append_eq_conv_conj drop_append diff_is_0_eq drop0)
  then show ?thesis unfolding has_sub_iff by blast
next
  case False
  then obtain y where y: "t = a @ y" "y @ s = v @ b" "y \<noteq> []"
    using assms(3) by (metis append_eq_append_conv2 append_Nil2 le_refl length_append nat_le_linear trans_le_add1)
  show ?thesis
  proof (cases "length v \<le> length y")
    case True
    then obtain z where "y = v @ z" using y(2) by (metis append_eq_append_conv_if append_eq_conv_conj append_take_drop_id)
    then show ?thesis using y(1) unfolding has_sub_iff by blast
  next
    case False
    then obtain z where "v = y @ z" using y(2) by (metis append_eq_append_conv2 append_eq_conv_conj le_refl nat_le_linear take_all)
    moreover have "last y = CHR '']''" using assms(1) y(1,3) by (auto simp: bracketed_def) (metis last_appendR last_snoc append_Cons append_is_Nil_conv)
    ultimately have "CHR '']'' \<in> set v" using y(3) by (metis Un_iff last_in_set set_append)
    then show ?thesis using assms(2) by (simp add: unbracketed_def)
  qed
qed

lemma masked_free:
  assumes "masked ts s s'" "\<forall>t\<in>ts. bracketed t \<and> \<not> has_sub v t" "unbracketed v" "\<not> has_sub v s"
  shows "\<not> has_sub v s'"
  using assms(1,4)
proof (induction rule: masked.induct)
  case masked_Nil
  then show ?case by simp
next
  case (masked_keep s s' c)
  have "\<not> startswith v (c # s')"
  proof
    assume "startswith v (c # s')"
    then obtain r where "c # s' = v @ r" by (auto simp: startswith_iff)
    then have "\<exists>r'. c # s = v @ r'"
      using masked_front [OF _ masked.masked_keep [OF masked_keep.hyps, of c]] assms(2,3) by (auto simp: unbracketed_def)
    then show False using masked_keep.prems by (auto simp: startswith_iff)
  qed
  then show ?case using masked_keep by auto
next
  case (masked_cut s s' t u)
  have "\<not> has_sub v s" using masked_cut.prems unfolding has_sub_iff by (metis append.assoc)
  then show ?case
    using masked_cut bracketed_split [of t v s'] assms(2,3) unfolding has_sub_iff by metis
qed

lemma replace_all_masked: "old \<noteq> [] \<Longrightarrow> masked {new} s (replace_all old new s)"
proof (induction old new s rule: replace_all.induct)
  case (1 old new)
  then show ?case by (simp add: masked_Nil)
next
  case (2 old new c s)
  show ?case
  proof (cases "startswith old (c # s)")
    case True
    then obtain r where r: "c # s = old @ r" by (auto simp: startswith_iff)
    have "masked {new} r (replace_all old new r)" using 2 True r by simp
    then have m: "masked {new} (old @ r) (new @ replace_all old new r)" by (rule masked_cut) simp
    have "drop (length old) (c # s) = r" using r by simp
    then have "replace_all old new (c # s) = new @ replace_all old new r" using True 2(3) by simp
    then show ?thesis using m r by (simp only:)
  next
    case False
    then show ?thesis using 2 by (auto intro: masked_keep)
  qed
qed

lemma replace_all_free:
  "bracketed new \<Longrightarrow> \<not> has_sub old new \<Longrightarrow> unbracketed old \<Longrightarrow> \<not> has_sub old (replace_all old new s)"
proof (induction old new s rule: replace_all.induct)
  case (1 old new)
  then show ?case by (simp add: unbracketed_def)
next
  case (2 old new c s)
  then have ne: "old \<noteq> []" by (simp add: unbracketed_def)
  show ?case
  proof (cases "startswith old (c # s)")
    case True
    let ?r = "replace_all old new (drop (length old) (c # s))"
    have "\<not> has_sub old ?r" using 2 True ne by blast
    then have "\<not> has_sub old (new @ ?r)"
      using bracketed_split [OF 2(3) 2(5), of ?r] 2(4) unfolding has_sub_iff by metis
    then show ?thesis using True ne by simp
  next
    case False
    have "\<not> startswith old (c # replace_all old new s)"
    proof
      assume "startswith old (c # replace_all old new s)"
      then obtain r where "c # replace_all old new s = old @ r" by (auto simp: startswith_iff)
      then have "\<exists>r'. c # s = old @ r'"
        using masked_front [OF _ masked_keep [OF replace_all_masked [OF ne, of new s], of c]] 2(3,5)
        by (auto simp: unbracketed_def)
      then show False using False by (auto simp: startswith_iff)
    qed
    then show ?thesis using 2 False by auto
  qed
qed

section \<open>Substitutions\<close>

lemma group_matches_text: "(gs, e) \<in> set (group_matches rs p) \<Longrightarrow> snd p = concat gs @ snd e"
proof (induction rs arbitrary: gs p)
  case Nil
  then show ?case by simp
next
  case (Cons r rs)
  from Cons.prems obtain q x where q: "q \<in> set (re_match r p)" "x \<in> set (group_matches rs q)"
      "(gs, e) = (case x of (gs, e) \<Rightarrow> (take (length (snd p) - length (snd q)) (snd p) # gs, e))"
    unfolding group_matches.simps set_concat set_map image_image by blast
  obtain gs' where x: "x = (gs', e)" "gs = take (length (snd p) - length (snd q)) (snd p) # gs'"
    using q(3) by (cases x) auto
  from match_suffix [OF q(1)] obtain u where u: "snd p = u @ snd q" by blast
  then show ?case using Cons.IH [OF q(2) [unfolded x(1)]] x(2) by simp
qed

lemma first_match_text: "first_match rs p = Some (gs, e) \<Longrightarrow> snd p = concat gs @ snd e"
  by (rule group_matches_text [of gs e rs p]) (auto simp: first_match_def split: list.splits)

lemma sub_from_masked:
  assumes "\<And>gs. \<exists>u v t. concat gs = u @ v \<and> f gs = u @ t \<and> t \<in> ts"
  shows "masked ts s (sub_from f rs pv s)"
  using assms
proof (induction f rs pv s rule: sub_from.induct)
  case (1 f rs pv)
  then show ?case by (simp add: masked_Nil)
next
  case (2 f rs pv c s)
  show ?case
  proof (cases "first_match rs (pv, c # s)")
    case None
    then show ?thesis using 2 by (auto intro: masked_keep)
  next
    case (Some m)
    obtain gs pv' rest where m: "m = (gs, (pv', rest))" by (metis prod.collapse)
    show ?thesis
    proof (cases "length rest < length (c # s)")
      case True
      have cs: "c # s = concat gs @ rest" using first_match_text [OF Some [unfolded m]] by simp
      have "masked ts rest (sub_from f rs pv' rest)" using 2 Some m True by auto
      moreover obtain u v t where g: "concat gs = u @ v" "f gs = u @ t" "t \<in> ts" using 2(4) by blast
      ultimately have "masked ts (u @ v @ rest) (u @ t @ sub_from f rs pv' rest)"
        by (intro masked_prefix masked_cut)
      then have "masked ts (c # s) (f gs @ sub_from f rs pv' rest)" unfolding cs g(1,2) by simp
      then show ?thesis using Some m True by simp
    next
      case False
      then show ?thesis using 2 Some m by (auto intro: masked_keep)
    qed
  qed
qed

section \<open>Secrets of the environment\<close>

definition redaction_tokens :: "string set" where
  "redaction_tokens = {''[REDACTED]'', ''[REDACTED_JWT]''}"

lemma redaction_tokens_free:
  assumes "unbracketed v" "\<not> has_sub v ''REDACTED_JWT''"
  shows "\<forall>t\<in>redaction_tokens. bracketed t \<and> \<not> has_sub v t"
proof -
  have b: "bracketed (''['' @ x @ '']'')" for x by (auto simp: bracketed_def)
  have inner: "has_sub v x" if "has_sub v (''['' @ x @ '']'')" for x
  proof -
    from that obtain p q where e: "''['' @ x @ '']'' = p @ v @ q" unfolding has_sub_iff by blast
    have "p \<noteq> []" using e assms(1) by (cases v) (auto simp: unbracketed_def)
    moreover have "q \<noteq> []"
    proof
      assume "q = []"
      then have "last v = CHR '']''" using e assms(1) by (metis append.assoc append_Nil2 last_appendR last_snoc unbracketed_def)
      then show False using assms(1) last_in_set [of v] by (simp add: unbracketed_def)
    qed
    ultimately obtain p' q' where "x @ '']'' = p' @ v @ q' @ [last q]" using e
      by (metis Cons_eq_appendI append_Nil append_butlast_last_id list.exhaust list.inject)
    then have "x = p' @ v @ q'" by (metis append.assoc butlast_snoc)
    then show ?thesis unfolding has_sub_iff by blast
  qed
  have "''[REDACTED]'' = ''['' @ ''REDACTED'' @ '']''" "''[REDACTED_JWT]'' = ''['' @ ''REDACTED_JWT'' @ '']''" by simp_all
  moreover have "\<not> has_sub v ''REDACTED''"
  proof
    assume "has_sub v ''REDACTED''"
    then obtain p q where "''REDACTED'' = p @ v @ q" unfolding has_sub_iff by blast
    then have "''REDACTED_JWT'' = p @ v @ (q @ ''_JWT'')" by (metis append.assoc append_Cons append_Nil)
    then show False using assms(2) unfolding has_sub_iff by blast
  qed
  ultimately show ?thesis using b inner assms(2) unfolding redaction_tokens_def by (metis insertE singletonD)
qed

lemma masked_tokens: "masked {t} s s' \<Longrightarrow> t \<in> ts \<Longrightarrow> masked ts s s'"
  by (induction rule: masked.induct) (auto intro: masked.intros)

lemma re_sub_free:
  assumes "unbracketed v" "\<not> has_sub v ''REDACTED_JWT''" "\<not> has_sub v s"
    and "\<And>gs. \<exists>a b t. concat gs = a @ b \<and> f gs = a @ t \<and> t \<in> redaction_tokens"
  shows "\<not> has_sub v (re_sub f rs s)"
  unfolding re_sub_def
  by (rule masked_free [OF sub_from_masked [OF assms(4)] redaction_tokens_free [OF assms(1,2)] assms(1,3)])

lemma substitutions_free:
  assumes "unbracketed v" "\<not> has_sub v ''REDACTED_JWT''" "\<not> has_sub v s"
  shows "\<not> has_sub v (re_sub (\<lambda>_. ''[REDACTED_JWT]'') jwt
         (re_sub (\<lambda>gs. concat (take 2 gs) @ ''[REDACTED]'') assign
           (re_sub (\<lambda>gs. concat (take 1 gs) @ ''[REDACTED]'') bearer s)))"
proof -
  have k: "\<exists>a b t. concat gs = a @ b \<and> concat (take n gs) @ ''[REDACTED]'' = a @ t \<and> t \<in> redaction_tokens" for n and gs :: "string list"
    by (rule exI [of _ "concat (take n gs)"], rule exI [of _ "concat (drop n gs)"])
      (simp add: redaction_tokens_def flip: concat_append)
  have j: "\<exists>a b t. concat gs = a @ b \<and> ''[REDACTED_JWT]'' = a @ t \<and> t \<in> redaction_tokens" for gs :: "string list"
    by (rule exI [of _ "[]"]) (simp add: redaction_tokens_def)
  show ?thesis
    by (intro re_sub_free [OF assms(1,2)] assms(3) k j)
qed

lemma lit_match: "q \<in> set (re_match (lit s) p) \<Longrightarrow> snd p = s @ snd q"
proof (induction s arbitrary: p)
  case Nil
  then show ?case by (simp add: lit_def)
next
  case (Cons c s)
  show ?case
  proof (cases s)
    case Nil
    then show ?thesis using Cons.prems by (cases "snd p") (auto simp: lit_def split: if_splits)
  next
    case (Cons d s')
    have l: "lit (c # s) = Seq (Class (\<lambda>x. x = c)) (lit s)" by (simp add: lit_def Cons)
    from Cons.prems obtain m where m: "m \<in> set (re_match (Class (\<lambda>x. x = c)) p)" "q \<in> set (re_match (lit s) m)"
      unfolding l seq_step by blast
    have "snd p = c # snd m" using m(1) by (cases "snd p") (auto split: if_splits)
    then show ?thesis using Cons.IH [OF m(2)] by simp
  qed
qed

lemma url_needs_scheme:
  assumes "\<not> has_sub ''://'' (snd p)"
  shows "first_match url_pattern p = None"
proof -
  have e: "url_pattern = [Seq (lit ''http'') (Seq (opt (lit ''s'')) (Seq (lit ''://'') (many1 (\<lambda>c. \<not> is_space c \<and> c \<notin> set [CHR ''<'', CHR ''>'', QUOTE]))))]"
    by (simp add: url_pattern_def)
  have "re_match (hd url_pattern) p = []"
  proof (rule ccontr)
    assume "re_match (hd url_pattern) p \<noteq> []"
    then obtain q where "q \<in> set (re_match (hd url_pattern) p)" by (cases "re_match (hd url_pattern) p") auto
    then obtain m1 m2 m3 where m: "m1 \<in> set (re_match (lit ''http'') p)" "m2 \<in> set (re_match (opt (lit ''s'')) m1)"
        "m3 \<in> set (re_match (lit ''://'') m2)"
      unfolding e list.sel seq_step by blast
    obtain a b where "snd p = a @ snd m1" "snd m1 = b @ snd m2" using match_suffix [OF m(1)] match_suffix [OF m(2)] by blast
    moreover have "snd m2 = ''://'' @ snd m3" by (rule lit_match [OF m(3)])
    ultimately have "snd p = (a @ b) @ ''://'' @ snd m3" by simp
    then show False using assms unfolding has_sub_iff by blast
  qed
  then have "first_match (hd url_pattern # tl url_pattern) p = None" by (rule first_group_fails)
  then show ?thesis by (simp add: url_pattern_def)
qed

lemma url_sub_none: "\<not> has_sub ''://'' s \<Longrightarrow> re_sub f url_pattern s = s"
  unfolding re_sub_def
proof (rule sub_from_none)
  fix p q :: string and u :: "char option"
  assume a: "\<not> has_sub ''://'' s" "s = p @ q"
  have "\<not> has_sub ''://'' q"
  proof
    assume "has_sub ''://'' q"
    then obtain x y where "q = x @ ''://'' @ y" unfolding has_sub_iff by blast
    then have "s = (p @ x) @ ''://'' @ y" using a(2) by simp
    then show False using a(1) unfolding has_sub_iff by blast
  qed
  then show "first_match url_pattern (u, q) = None" by (simp add: url_needs_scheme)
qed

lemma mask_values_free:
  assumes "unbracketed v" "\<not> has_sub v ''REDACTED_JWT''"
  shows "\<not> has_sub v s \<or> v \<in> set secrets \<Longrightarrow> \<forall>u\<in>set secrets. u \<noteq> []
    \<Longrightarrow> \<not> has_sub v (foldl (\<lambda>s v. replace_all v ''[REDACTED]'' s) s secrets)"
proof (induction secrets arbitrary: s)
  case Nil
  then show ?case by simp
next
  case (Cons u us)
  have t: "''[REDACTED]'' \<in> redaction_tokens" by (simp add: redaction_tokens_def)
  note tok = redaction_tokens_free [OF assms]
  have "\<not> has_sub v (replace_all u ''[REDACTED]'' s) \<or> v \<in> set us"
  proof (cases "u = v")
    case True
    then show ?thesis using replace_all_free [OF _ _ assms(1)] tok t by metis
  next
    case False
    have "masked redaction_tokens s (replace_all u ''[REDACTED]'' s)"
      by (rule masked_tokens [OF replace_all_masked t]) (use Cons.prems(2) in simp)
    then show ?thesis using masked_free [OF _ tok assms(1)] Cons.prems(1) False by auto
  qed
  then show ?case using Cons.IH Cons.prems(2) by simp
qed

lemma masked_values_keep_free:
  assumes "unbracketed v" "\<not> has_sub v ''REDACTED_JWT''" "\<not> has_sub v s" "\<forall>u\<in>set secrets. u \<noteq> []"
  shows "\<not> has_sub v (foldl (\<lambda>s v. replace_all v ''[REDACTED]'' s) s secrets)"
  using mask_values_free [OF assms(1,2), of s secrets] assms(3,4) by blast


definition sample_environment :: "(string \<times> string) list" where
  "sample_environment = [(''DB_PASSWORD'', ''hunter2''), (''MODE'', ''fast'')]"


section \<open>The stream as a client sees it\<close>

definition events_of :: "queue_item list \<Rightarrow> log_event list" where
  "events_of xs = List.map_filter (\<lambda>x. case x of Event e \<Rightarrow> Some e | Final _ \<Rightarrow> None) xs"

definition logs_of :: "envelope list \<Rightarrow> log_event list" where
  "logs_of vs = List.map_filter (\<lambda>v. case v of LogEnv e \<Rightarrow> Some e | _ \<Rightarrow> None) vs"

definition warned :: "envelope list \<Rightarrow> int" where
  "warned vs = sum_list (map (\<lambda>v. case v of WarningEnv n \<Rightarrow> n | _ \<Rightarrow> 0) vs)"

lemma events_of_simps [simp]:
  "events_of [] = []" "events_of (Event e # xs) = e # events_of xs" "events_of (Final t # xs) = events_of xs"
  "events_of (xs @ ys) = events_of xs @ events_of ys" "events_of (map Event es) = es"
  by (simp_all add: events_of_def List.map_filter_def comp_def)

lemma logs_of_simps [simp]:
  "logs_of [] = []" "logs_of (LogEnv e # vs) = e # logs_of vs" "logs_of (WarningEnv n # vs) = logs_of vs"
  "logs_of (StatusEnv u # vs) = logs_of vs"
  "logs_of (vs @ us) = logs_of vs @ logs_of us" "logs_of (map LogEnv es) = es" "is_terminal t \<Longrightarrow> logs_of [t] = []"
  by (simp_all add: logs_of_def List.map_filter_def comp_def) (cases t; simp)

lemma warned_simps [simp]:
  "warned [] = 0" "warned [LogEnv e] = 0" "warned [WarningEnv n] = n" "warned (vs @ us) = warned vs + warned us"
  "is_terminal t \<Longrightarrow> warned [t] = 0"
  by (simp_all add: warned_def) (cases t; simp)

definition unnumbered :: "log_event \<Rightarrow> log_event" where
  "unnumbered e = e\<lparr>le_sequence := None\<rparr>"

lemma unnumbered_number [simp]: "unnumbered (e\<lparr>le_sequence := n\<rparr>) = unnumbered e"
  by (simp add: unnumbered_def)

text \<open>What the consumer holds and what is queued.\<close>

definition held :: "socket \<Rightarrow> queue_item list" where
  "held s = (case so_phase s of Taken x \<Rightarrow> [x] | Sending x \<Rightarrow> [x] | _ \<Rightarrow> [])"

definition pending :: "socket \<Rightarrow> queue_item list" where
  "pending s = held s @ so_queue s"

lemma enqueue_frame [simp]:
  "so_feed (enqueue x s) = so_feed s" "so_end (enqueue x s) = so_end s" "so_sequence (enqueue x s) = so_sequence s"
  "so_sent (enqueue x s) = so_sent s" "so_phase (enqueue x s) = so_phase s" "so_close (enqueue x s) = so_close s"
  by (simp_all add: enqueue_def split: prod.splits)

lemma enqueue_bound: "length (so_queue s) \<le> log_queue_size \<Longrightarrow> length (so_queue (enqueue x s)) \<le> log_queue_size"
  by (auto simp: enqueue_def enqueue_bounded_def log_queue_size_def)

text \<open>Queueing an item either appends it, or drops the oldest queued item and counts it.\<close>

lemma enqueue_cases:
  obtains "pending (enqueue x s) = pending s @ [x]" "so_dropped (enqueue x s) = so_dropped s"
  | y q where "so_queue s = y # q" "pending (enqueue x s) = held s @ q @ [x]" "so_dropped (enqueue x s) = so_dropped s + 1"
proof (cases "log_queue_size \<le> length (so_queue s)")
  case True
  then obtain y q where q: "so_queue s = y # q" by (cases "so_queue s") (auto simp: log_queue_size_def)
  show ?thesis by (rule that(2) [OF q]) (use True q in \<open>simp_all add: enqueue_def enqueue_bounded_def pending_def held_def\<close>)
next
  case False
  show ?thesis by (rule that(1)) (use False in \<open>simp_all add: enqueue_def enqueue_bounded_def pending_def held_def\<close>)
qed

lemma step_cases:
  assumes "socket_step s s'"
  obtains (event) e es where "so_phase s \<noteq> Stopped" "so_feed s = e # es" "s' = enqueue (Event e) (s\<lparr>so_feed := es\<rparr>)"
  | (final) t where "so_phase s \<noteq> Stopped" "so_feed s = []" "so_end s = Some t" "s' = enqueue (Final t) (s\<lparr>so_end := None\<rparr>)"
  | (get) x q where "so_phase s = Waiting" "so_queue s = x # q" "s' = s\<lparr>so_queue := q, so_phase := Taken x\<rparr>"
  | (warn) x where "so_phase s = Taken x" "so_dropped s \<noteq> 0"
      "s' = s\<lparr>so_dropped := 0, so_sent := so_sent s @ [WarningEnv (so_dropped s)], so_phase := Sending x\<rparr>"
  | (send) x where "held s = [x]" "so_phase s \<noteq> Waiting" "so_phase s \<noteq> Stopped" "s' = send_item x s"
  | (stop) c where "so_phase s = Waiting" "s' = s\<lparr>so_phase := Stopped, so_close := c\<rparr>"
  using assms
proof (cases rule: socket_step.cases)
  case produced
  then show ?thesis using event final by (auto simp: produce_def split: list.splits option.splits)
next
  case consumed
  then show ?thesis using get warn send
    by (auto simp: consume_def held_def split: phase.splits list.splits if_splits)
next
  case expired
  then show ?thesis using stop by blast
next
  case gone
  moreover have "s\<lparr>so_phase := Stopped\<rparr> = s\<lparr>so_phase := Stopped, so_close := so_close s\<rparr>" by simp
  ultimately show ?thesis using stop by metis
qed

definition counted :: "log_event list \<Rightarrow> envelope list \<Rightarrow> socket \<Rightarrow> bool" where
  "counted F base s \<longleftrightarrow> (\<exists>fed new. F = fed @ so_feed s \<and> so_sent s = base @ new
     \<and> subseq (map unnumbered (logs_of new @ events_of (pending s))) (map unnumbered fed)
     \<and> int (length fed) = int (length (logs_of new)) + int (length (events_of (pending s))) + so_dropped s + warned new)"

definition only_events :: "queue_item list \<Rightarrow> bool" where
  "only_events xs \<longleftrightarrow> (\<exists>es. xs = map Event es)"

text \<open>Where the terminal envelope is: not yet produced, last in the queue, or sent last.\<close>

definition shaped :: "envelope option \<Rightarrow> socket \<Rightarrow> bool" where
  "shaped T s \<longleftrightarrow> (so_end s = T \<and> only_events (pending s))
     \<or> (\<exists>t. T = Some t \<and> so_end s = None \<and> so_feed s = []
          \<and> ((\<exists>es. pending s = map Event es @ [Final t])
             \<or> (pending s = [] \<and> so_phase s = Stopped \<and> so_sent s \<noteq> [] \<and> last (so_sent s) = t)))"

definition in_sequence :: "socket \<Rightarrow> bool" where
  "in_sequence s \<longleftrightarrow> so_sequence s = int (length (logs_of (so_sent s)))
     \<and> map le_sequence (logs_of (so_sent s)) = map (\<lambda>i. Some (int i)) [1..<Suc (length (logs_of (so_sent s)))]"

definition socket_ok :: "log_event list \<Rightarrow> envelope option \<Rightarrow> envelope list \<Rightarrow> socket \<Rightarrow> bool" where
  "socket_ok F T base s \<longleftrightarrow> counted F base s \<and> shaped T s \<and> in_sequence s \<and> length (so_queue s) \<le> log_queue_size"

lemma countedI:
  assumes "F = fed @ so_feed s" "so_sent s = base @ new"
    and "subseq (map unnumbered (logs_of new @ events_of (pending s))) (map unnumbered fed)"
    and "int (length fed) = int (length (logs_of new)) + int (length (events_of (pending s))) + so_dropped s + warned new"
  shows "counted F base s"
  using assms unfolding counted_def by blast

lemma enqueue_counted:
  assumes c: "F = (fed @ ex) @ so_feed s" "so_sent s = base @ new" and x: "events_of [x] = ex"
    and sub: "subseq (map unnumbered (logs_of new @ events_of (pending s))) (map unnumbered fed)"
    and n: "int (length fed) = int (length (logs_of new)) + int (length (events_of (pending s))) + so_dropped s + warned new"
    and e: "only_events (pending s)"
  shows "counted F base (enqueue x s)"
proof -
  have grow: "subseq (map unnumbered (u @ ex)) (map unnumbered (fed @ ex))" if "subseq (map unnumbered u) (map unnumbered fed)" for u
    using that by (simp add: list_emb_append_mono)
  have xs: "events_of (p @ [x]) = events_of p @ ex" for p using x by simp
  show ?thesis
  proof (cases rule: enqueue_cases [of x s])
    case 1
    then show ?thesis
      using c n grow [OF sub] by (intro countedI [of _ "fed @ ex" _ _ new]) (simp_all add: xs x)
  next
    case (2 y q)
    obtain es where es: "pending s = map Event es" using e by (auto simp: only_events_def)
    then have "Event ` set es = set (held s @ y # q)" using 2(1) by (simp add: pending_def flip: set_map)
    then obtain e0 where y: "y = Event e0" by auto
    have p: "pending s = held s @ [Event e0] @ q" using 2(1) y by (simp add: pending_def)
    have "subseq (map unnumbered (logs_of new @ events_of (held s @ q))) (map unnumbered (logs_of new @ events_of (pending s)))"
      unfolding p by simp (intro list_emb_append_mono subseq_order.order_refl list_emb_Cons)
    then have s2: "subseq (map unnumbered (logs_of new @ events_of (held s @ q))) (map unnumbered fed)"
      using sub by (rule subseq_order.order_trans)
    have "int (length (events_of (pending s))) = int (length (events_of (held s @ q))) + 1" unfolding p by simp
    then show ?thesis
      using c n 2 grow [OF s2] xs [of "held s @ q"] by (intro countedI [of _ "fed @ ex" _ _ new]) (simp_all add: x)
  qed
qed

lemma pending_set [simp]:
  "pending (s\<lparr>so_feed := f\<rparr>) = pending s" "pending (s\<lparr>so_end := t\<rparr>) = pending s"
  "held (s\<lparr>so_feed := f\<rparr>) = held s" "held (s\<lparr>so_end := t\<rparr>) = held s"
  by (simp_all add: pending_def held_def)

lemma enqueue_shape:
  assumes "only_events (pending s)"
  shows "\<exists>es. pending (enqueue x s) = map Event es @ [x]"
proof -
  obtain es where es: "pending s = map Event es" using assms by (auto simp: only_events_def)
  show ?thesis
  proof (cases rule: enqueue_cases [of x s])
    case 1
    then show ?thesis using es by auto
  next
    case (2 y q)
    then have p: "map Event es = held s @ [y] @ q" using es by (simp add: pending_def)
    then obtain a b where "held s = map Event a" "q = map Event b"
      by (metis append_eq_map_conv)
    then have "pending (enqueue x s) = map Event (a @ b) @ [x]" using 2 by simp
    then show ?thesis by blast
  qed
qed

lemma only_events_snoc: "only_events (map Event es @ [Event e])"
  unfolding only_events_def by (rule exI [of _ "es @ [e]"]) simp

lemma not_only_final: "\<not> only_events (map Event es @ [Final t])"
proof
  assume "only_events (map Event es @ [Final t])"
  then obtain fs where "map Event es @ [Final t] = map Event fs" by (auto simp: only_events_def)
  then have "Final t \<in> Event ` set fs" by (metis in_set_conv_decomp set_map)
  then show False by auto
qed

lemma shaped_open: "shaped T s \<Longrightarrow> so_feed s \<noteq> [] \<or> so_end s \<noteq> None \<Longrightarrow> so_end s = T \<and> only_events (pending s)"
  by (auto simp: shaped_def)

lemma pending_send: "held s = [x] \<Longrightarrow> pending s = x # so_queue s"
  by (simp add: pending_def)

text \<open>The item in hand is an event, or the terminal envelope with nothing behind it.\<close>

lemma shaped_send:
  assumes "shaped T s" "held s = [x]"
  obtains (event) e where "x = Event e" "shaped T (send_item x s)"
  | (final) t where "x = Final t" "T = Some t" "so_end s = None" "so_feed s = []" "so_queue s = []"
proof -
  have p: "pending s = x # so_queue s" by (rule pending_send [OF assms(2)])
  have st: "so_phase s \<noteq> Stopped" using assms(2) by (auto simp: held_def)
  show ?thesis
  proof (cases x)
    case (Event e)
    have q: "pending (send_item x s) = so_queue s" using Event by (simp add: pending_def held_def)
    have "only_events (so_queue s)" if "only_events (pending s)"
      using that p unfolding only_events_def by (metis list.sel(3) map_tl)
    moreover have "\<exists>es. so_queue s = map Event es @ [Final t]" if "pending s = map Event es @ [Final t]" for es t
      using that p Event by (cases es) auto
    ultimately have "shaped T (send_item x s)"
      using assms(1) st p q Event unfolding shaped_def by auto
    then show ?thesis using event Event by blast
  next
    case (Final t)
    have "\<not> only_events (pending s)" using p Final by (auto simp: only_events_def)
    then obtain t' es where t: "T = Some t'" "so_end s = None" "so_feed s = []" "pending s = map Event es @ [Final t']"
      using assms(1) p unfolding shaped_def by auto
    then have "es = []" "t' = t" "so_queue s = []" using p Final by (cases es; auto)+
    then show ?thesis using final Final t by blast
  qed
qed

lemma step_ok:
  assumes ok: "socket_ok F T base s" and T: "\<forall>t. T = Some t \<longrightarrow> is_terminal t" and st: "socket_step s s'"
  shows "socket_ok F T base s'"
proof -
  have cnt: "counted F base s" and shp: "shaped T s" and seqn: "in_sequence s" and len: "length (so_queue s) \<le> log_queue_size"
    using ok by (simp_all add: socket_ok_def)
  obtain fed new where c: "F = fed @ so_feed s" "so_sent s = base @ new"
      "subseq (map unnumbered (logs_of new @ events_of (pending s))) (map unnumbered fed)"
      "int (length fed) = int (length (logs_of new)) + int (length (events_of (pending s))) + so_dropped s + warned new"
    using cnt unfolding counted_def by blast
  from st show ?thesis
  proof (cases rule: step_cases)
    case (event e es)
    have o1: "so_end s = T \<and> only_events (pending s)" by (rule shaped_open [OF shp]) (simp add: event)
    have "counted F base s'" unfolding event(3)
      by (rule enqueue_counted [of _ fed "[e]" _ _ new]) (use c event o1 in simp_all)
    moreover have "shaped T s'"
      using enqueue_shape [of "s\<lparr>so_feed := es\<rparr>" "Event e"] o1 only_events_snoc
      unfolding shaped_def event(3) by auto
    moreover have "in_sequence s'" using seqn by (simp add: in_sequence_def event(3))
    moreover have "length (so_queue s') \<le> log_queue_size" unfolding event(3) by (rule enqueue_bound) (simp add: len)
    ultimately show ?thesis by (simp add: socket_ok_def)
  next
    case (final t)
    have o1: "so_end s = T \<and> only_events (pending s)" by (rule shaped_open [OF shp]) (simp add: final)
    have "counted F base s'" unfolding final(4)
      by (rule enqueue_counted [of _ fed "[]" _ _ new]) (use c final o1 in simp_all)
    moreover have "shaped T s'"
      using enqueue_shape [of "s\<lparr>so_end := None\<rparr>" "Final t"] o1 final unfolding shaped_def by auto
    moreover have "in_sequence s'" using seqn by (simp add: in_sequence_def final(4))
    moreover have "length (so_queue s') \<le> log_queue_size" unfolding final(4) by (rule enqueue_bound) (simp add: len)
    ultimately show ?thesis by (simp add: socket_ok_def)
  next
    case (get x q)
    have "pending s' = pending s" by (simp add: get pending_def held_def)
    then show ?thesis using c shp seqn len
      unfolding socket_ok_def by (auto simp: counted_def shaped_def in_sequence_def get)
  next
    case (warn x)
    have p: "pending s' = pending s" by (simp add: warn pending_def held_def)
    have "counted F base s'"
      by (rule countedI [of _ fed _ _ "new @ [WarningEnv (so_dropped s)]"]) (use c p in \<open>simp_all add: warn(3)\<close>)
    moreover have "pending s \<noteq> []" using warn(1) by (simp add: pending_def held_def)
    then have "shaped T s'" using shp p unfolding shaped_def by (auto simp: warn(3))
    ultimately show ?thesis using seqn len by (simp add: socket_ok_def in_sequence_def warn(3))
  next
    case (send x)
    note pnd = pending_send [OF send(1)]
    show ?thesis
    proof (cases rule: shaped_send [OF shp send(1)])
      case (1 e)
      have p: "pending s' = so_queue s" by (simp add: send 1 pending_def held_def)
      have "counted F base s'"
        by (rule countedI [of _ fed _ _ "new @ [LogEnv (e\<lparr>le_sequence := Some (so_sequence s + 1)\<rparr>)]"])
          (use c p pnd 1 in \<open>simp_all add: send(4)\<close>)
      moreover have "in_sequence s'" using seqn by (simp add: in_sequence_def send(4) 1)
      ultimately show ?thesis using 1 send(4) len by (simp add: socket_ok_def)
    next
      case (2 t)
      have tm: "is_terminal t" using T 2(2) by simp
      have p: "pending s' = []" by (simp add: send 2 tm pending_def held_def)
      have "counted F base s'"
        by (rule countedI [of _ fed _ _ "new @ [t]"]) (use c p pnd 2 tm in \<open>simp_all add: send(4)\<close>)
      moreover have "shaped T s'" using 2 p tm by (auto simp: shaped_def send(4))
      moreover have "in_sequence s'" using seqn 2 tm by (simp add: in_sequence_def send(4))
      ultimately show ?thesis using 2 send(4) len by (simp add: socket_ok_def)
    qed
  next
    case (stop c0)
    have "pending s' = pending s" by (simp add: stop pending_def held_def)
    then show ?thesis using c shp seqn len stop(1)
      unfolding socket_ok_def by (auto simp: counted_def shaped_def in_sequence_def stop)
  qed
qed

lemma steps_ok:
  assumes "socket_step\<^sup>*\<^sup>* s0 s" "socket_ok F T base s0" "\<forall>t. T = Some t \<longrightarrow> is_terminal t"
  shows "socket_ok F T base s"
  using assms by (induction rule: rtranclp_induct) (auto intro: step_ok)

lemma numbered_sequence: "map le_sequence (numbered (int n) es) = map (\<lambda>i. Some (int i)) [Suc n..<Suc (n + length es)]"
proof (induction es arbitrary: n)
  case Nil
  then show ?case by simp
next
  case (Cons e es)
  have "map le_sequence (numbered (int (Suc n)) es) = map (\<lambda>i. Some (int i)) [Suc (Suc n)..<Suc (Suc n + length es)]"
    by (rule Cons.IH)
  moreover have "int (Suc n) = int n + 1" by simp
  ultimately have "map le_sequence (numbered (int n + 1) es) = map (\<lambda>i. Some (int i)) [Suc (Suc n)..<Suc (Suc n + length es)]" by (simp only:)
  moreover have "[Suc n..<Suc (n + length (e # es))] = Suc n # [Suc (Suc n)..<Suc (Suc n + length es)]"
    by (subst upt_rec) simp
  ultimately show ?case by (simp del: upt_Suc)
qed

lemma numbered_length [simp]: "length (numbered n es) = length es"
  by (induction n es rule: numbered.induct) auto

lemma final_terminal: "final_envelope f = Some t \<Longrightarrow> is_terminal t"
  by (induction f rule: final_envelope.induct) auto

lemma start_ok:
  assumes "stream_logs n sv k qs d w = (Streaming s0, w')"
  shows "socket_ok (so_feed s0) (so_end s0) (so_sent s0) s0" "\<forall>t. so_end s0 = Some t \<longrightarrow> is_terminal t" "so_phase s0 = Waiting"
proof -
  obtain feed fin evs where s0: "s0 = \<lparr>so_feed = feed, so_end = final_envelope fin, so_queue = [], so_dropped = 0,
      so_sequence = int (length evs), so_sent = [StatusEnv ''connected''] @ map LogEnv (numbered 0 evs),
      so_phase = Waiting, so_close = None\<rparr>"
  proof -
    have nf: "log_failure v x \<noteq> Streaming s0" for v x by (cases x) auto
    from assms show thesis using that nf unfolding stream_logs_def Let_def
      by (auto split: sum.splits prod.splits if_splits)
  qed
  show "so_phase s0 = Waiting" by (simp add: s0)
  show "\<forall>t. so_end s0 = Some t \<longrightarrow> is_terminal t" using final_terminal by (auto simp: s0)
  have "counted (so_feed s0) (so_sent s0) s0"
    by (rule countedI [of _ "[]" _ _ "[]"]) (simp_all add: s0 pending_def held_def)
  moreover have "shaped (so_end s0) s0" by (simp add: shaped_def only_events_def s0 pending_def held_def)
  moreover have "in_sequence s0"
    using numbered_sequence [of 0 evs] by (simp add: in_sequence_def s0 del: upt_Suc)
  ultimately show "socket_ok (so_feed s0) (so_end s0) (so_sent s0) s0" by (simp add: socket_ok_def s0)
qed

section \<open>The consumer alone\<close>

primrec run_consumer :: "nat \<Rightarrow> socket \<Rightarrow> socket" where
  "run_consumer 0 s = s"
| "run_consumer (Suc n) s = (case consume s of None \<Rightarrow> s | Some s' \<Rightarrow> run_consumer n s')"

definition steps_left :: "socket \<Rightarrow> nat" where
  "steps_left s = (case so_phase s of Waiting \<Rightarrow> 3 * length (so_queue s) | Taken _ \<Rightarrow> 3 * length (so_queue s) + 2
     | Sending _ \<Rightarrow> 3 * length (so_queue s) + 1 | Stopped \<Rightarrow> 0)"

text \<open>Past the last warning nothing more is dropped once the terminal envelope is in hand.\<close>

definition settled :: "socket \<Rightarrow> bool" where
  "settled s \<longleftrightarrow> (\<forall>t. so_phase s = Sending (Final t) \<longrightarrow> so_dropped s = 0)"

lemma no_final_in_hand:
  assumes "shaped T s" "so_feed s \<noteq> [] \<or> so_end s \<noteq> None"
  shows "so_phase s \<noteq> Sending (Final t)"
proof
  assume "so_phase s = Sending (Final t)"
  then have "pending s = Final t # so_queue s" by (simp add: pending_def held_def)
  moreover have "only_events (pending s)" using shaped_open [OF assms] by blast
  ultimately show False by (auto simp: only_events_def)
qed

lemma step_settled:
  assumes "socket_step s s'" "shaped T s" "settled s"
  shows "settled s'"
  using assms(1)
proof (cases rule: step_cases)
  case (event e es)
  then show ?thesis using no_final_in_hand [OF assms(2)] by (simp add: settled_def)
next
  case (final t)
  then show ?thesis using no_final_in_hand [OF assms(2)] by (simp add: settled_def)
next
  case (send x)
  then show ?thesis by (cases x) (simp_all add: settled_def)
qed (simp_all add: settled_def)

lemma reachable_ok:
  assumes "stream_logs n sv k qs d w = (Streaming s0, w')" "socket_step\<^sup>*\<^sup>* s0 s"
  shows "socket_ok (so_feed s0) (so_end s0) (so_sent s0) s \<and> settled s"
  using assms(2)
proof (induction rule: rtranclp_induct)
  case base
  have "settled s0" using start_ok(3) [OF assms(1)] by (simp add: settled_def)
  then show ?case using start_ok(1) [OF assms(1)] by blast
next
  case (step s1 s2)
  then have "shaped (so_end s0) s1" by (simp add: socket_ok_def)
  then show ?case using step step_settled step_ok [OF _ start_ok(2) [OF assms(1)] step(2)] by blast
qed

lemma consume_progress:
  assumes ok: "socket_ok F (Some t) base s" "is_terminal t" "settled s"
    and fin: "so_feed s = []" "so_end s = None" "so_phase s \<noteq> Stopped"
  shows "\<exists>s'. consume s = Some s' \<and> steps_left s' < steps_left s \<and> so_feed s' = [] \<and> so_end s' = None
    \<and> (so_phase s' = Stopped \<longrightarrow> so_dropped s' = 0 \<and> pending s' = [] \<and> so_sent s' \<noteq> [] \<and> last (so_sent s') = t)"
proof -
  have shp: "shaped (Some t) s" using ok by (simp add: socket_ok_def)
  then obtain es where es: "pending s = map Event es @ [Final t]" using fin by (auto simp: shaped_def)
  show ?thesis
  proof (cases "so_phase s")
    case Waiting
    then obtain x q where "so_queue s = x # q" using es by (cases "so_queue s") (simp_all add: pending_def held_def)
    then show ?thesis using Waiting fin by (simp add: consume_def steps_left_def)
  next
    case (Taken x)
    then have p: "x # so_queue s = map Event es @ [Final t]" using es by (simp add: pending_def held_def)
    show ?thesis
    proof (cases x)
      case (Event e)
      then show ?thesis using Taken fin by (simp add: consume_def steps_left_def)
    next
      case (Final u)
      then have "u = t" "so_queue s = []" using p by (cases es; simp)+
      then show ?thesis using Taken fin Final ok(2) by (simp add: consume_def steps_left_def pending_def held_def)
    qed
  next
    case (Sending x)
    then have p: "x # so_queue s = map Event es @ [Final t]" using es by (simp add: pending_def held_def)
    show ?thesis
    proof (cases x)
      case (Event e)
      then show ?thesis using Sending fin by (simp add: consume_def steps_left_def)
    next
      case (Final u)
      then have "u = t" "so_queue s = []" using p by (cases es; simp)+
      then show ?thesis using Sending fin Final ok(2,3)
        by (simp add: consume_def steps_left_def pending_def held_def settled_def)
    qed
  next
    case Stopped
    then show ?thesis using fin(3) by simp
  qed
qed

lemma run_consumer_finishes:
  assumes "socket_ok F (Some t) base s" "is_terminal t" "settled s"
    and "so_feed s = []" "so_end s = None" "so_phase s \<noteq> Stopped" "steps_left s \<le> n"
  shows "\<exists>s'. run_consumer n s = s' \<and> so_phase s' = Stopped \<and> socket_ok F (Some t) base s' \<and> so_feed s' = []
    \<and> so_dropped s' = 0 \<and> pending s' = [] \<and> so_sent s' \<noteq> [] \<and> last (so_sent s') = t"
  using assms
proof (induction n arbitrary: s)
  case 0
  then show ?case using consume_progress [OF 0(1-6)] by auto
next
  case (Suc n)
  from consume_progress [OF Suc.prems(1-6)] obtain s' where s': "consume s = Some s'" "steps_left s' < steps_left s"
      "so_feed s' = []" "so_end s' = None"
      "so_phase s' = Stopped \<longrightarrow> so_dropped s' = 0 \<and> pending s' = [] \<and> so_sent s' \<noteq> [] \<and> last (so_sent s') = t" by blast
  have st: "socket_step s s'" by (rule consumed [OF s'(1)])
  have ok: "socket_ok F (Some t) base s'" by (rule step_ok [OF Suc.prems(1) _ st]) (use Suc.prems(2) in simp)
  have sh: "shaped (Some t) s" using Suc.prems(1) by (simp add: socket_ok_def)
  show ?case
  proof (cases "so_phase s' = Stopped")
    case True
    then have "consume s' = None" by (simp add: consume_def)
    then have "run_consumer n s' = s'" by (cases n) simp_all
    then show ?thesis using s' True ok by auto
  next
    case False
    have "\<exists>r. run_consumer n s' = r \<and> so_phase r = Stopped \<and> socket_ok F (Some t) base r \<and> so_feed r = []
        \<and> so_dropped r = 0 \<and> pending r = [] \<and> so_sent r \<noteq> [] \<and> last (so_sent r) = t"
      by (rule Suc.IH [OF ok Suc.prems(2) step_settled [OF st sh Suc.prems(3)] s'(3,4) False])
        (use s'(2) Suc.prems(7) in simp)
    then show ?thesis using s'(1) by simp
  qed
qed

section \<open>A sample stream\<close>

definition sample_reader :: "unit log_lib" where
  "sample_reader = \<lparr>lg_spawn = (\<lambda>cwd cmd h. (Finished 0 ''LoadState=loaded'', h)),
     lg_stream = (\<lambda>cwd cmd h. (Inr \<lparr>lp_chunks = (if ''--follow'' \<in> set cmd then [''hello'' @ [LF]] else []), lp_exit = 0,
        lp_stderr = []\<rparr>, h)),
     lg_decode = (\<lambda>s. s), lg_loads = (\<lambda>_. None), lg_pystr = (\<lambda>_. []), lg_timestamp = Inr, lg_iso = (\<lambda>_. []),
     lg_from_iso = (\<lambda>_. None), lg_clock = int\<rparr>"

definition sample_log_service :: "unit log_service" where
  "sample_log_service = \<lparr>sl_st = sample_settings, sl_fs = plain_fs, sl_cd = sample_codec, sl_lib = sample_reader,
     sl_qs = \<lparr>qs_parse = (\<lambda>_. []), qs_encode = (\<lambda>_. [])\<rparr>, sl_ord = (\<lambda>xs. xs)\<rparr>"

definition log_db :: db where
  "log_db = empty_db\<lparr>applications := [app_record sample_sources sample_codec sample_manifest empty_store]\<rparr>"

definition hello_event :: log_event where
  "hello_event = \<lparr>le_app = ''demo'', le_time = Aware 0 0, le_source = ''journal'', le_stream = ''unknown'', le_message = ''hello'',
     le_service = None, le_container = None, le_cursor = None, le_sequence = None, le_truncated = False, le_size = Some 5\<rparr>"

definition sample_socket :: socket where
  "sample_socket = \<lparr>so_feed = [hello_event], so_end = Some (EofEnv ''log_source_closed''), so_queue = [], so_dropped = 0,
     so_sequence = 0, so_sent = [StatusEnv ''connected''], so_phase = Waiting, so_close = None\<rparr>"

definition idle_logs :: "unit log_state" where
  "idle_logs = \<lparr>lh_host = (), lh_services = [], lh_running = False\<rparr>"

definition sample_query :: log_query where
  "sample_query = \<lparr>lq_history = 200, lq_follow = True, lq_since = None, lq_cursor = None, lq_services = []\<rparr>"

lemma sample_parse: "parse_query (lg_from_iso sample_reader) [] = Inr sample_query"
proof -
  have "py_int ''200'' = Some 200" by code_simp
  then show ?thesis
    by (simp add: parse_query_def sample_query_def parse_bool_def parse_since_def parse_service_filter_def)
qed

definition sample_log_adapter :: "unit log_adapter" where
  "sample_log_adapter =
     \<lparr>la_history = (\<lambda>limit since cursor. journal_history sample_reader ''demo'' ''machinedeck-demo.service'' limit since cursor),
      la_follow = (\<lambda>_ cursor w. apfst (apsnd generator_end) (journal_follow sample_reader ''demo'' ''machinedeck-demo.service'' cursor w))\<rparr>"

lemma sample_log_context: "log_context sample_log_service ''demo'' log_db = Inr (sample_log_adapter, [])"
proof -
  have 1: "(case row_get ap_id ''demo'' (applications log_db) of None \<Rightarrow> False | Some r \<Rightarrow>
      decode plain_fs sample_codec (ap_config r) = Some sample_manifest)" by code_simp
  have 2: "vr_valid (validate_manifest_paths sample_settings plain_fs (allowed_roots sample_settings) sample_manifest)" by code_simp
  have 3: "secret_values (\<lambda>xs. xs) (man_environment sample_manifest) = []" by code_simp
  have 4: "unit_name_for ''demo'' = Inr ''machinedeck-demo.service''" by code_simp
  have 5: "man_id sample_manifest = ''demo''" "man_runtime sample_manifest = ProcessRuntime (path_of ''/srv/demo'') [''/srv/demo/run'']"
    by (simp_all add: sample_manifest_def)
  from 1 2 3 show ?thesis
    by (auto simp: log_context_def sample_log_service_def log_adapter_for_def sample_log_adapter_def 4 5 split: option.splits)
qed

lemma sample_lines: "bounded_lines max_log_line_bytes [''hello'' @ [LF]] = [(''hello'', False, 5)]" "bounded_lines m [] = []"
proof -
  have "line_pieces (''hello'' @ [LF]) = [''hello'']" by code_simp
  then show "bounded_lines max_log_line_bytes [''hello'' @ [LF]] = [(''hello'', False, 5)]"
    using read_lines_after [of "[]" max_log_line_bytes "[''hello'' @ [LF]]"]
    by (simp add: bounded_lines_def cut_line_def max_log_line_bytes_def)
  show "bounded_lines m [] = []" by (simp add: bounded_lines_def no_line_def)
qed

lemma sample_unit: "ensure_unit sample_reader u idle_logs = (Inr (), idle_logs)"
proof -
  have "\<not> has_sub ''LoadState=not-found'' (py_strip ''LoadState=loaded'')" by code_simp
  then show ?thesis by (simp add: ensure_unit_def sample_reader_def run_command_def idle_logs_def)
qed

lemma sample_stream_in:
  "stream_in sample_reader cwd cmd idle_logs = ((if ''--follow'' \<in> set cmd then [(''hello'', False, 5)] else [], None), idle_logs)"
  using sample_lines by (simp add: stream_in_def stream_command_def sample_reader_def idle_logs_def)

lemma sample_history: "la_history sample_log_adapter 200 None None idle_logs = (Inr [], idle_logs)"
proof -
  have "''--follow'' \<notin> set (journal_command u @ [''--no-pager'', ''--lines'', int_str n] @ since_args sample_reader None @ after_cursor None)"
    if "u \<noteq> ''--follow''" "int_str n \<noteq> ''--follow''" for u n
    using that by (simp add: journal_command_def since_args_def after_cursor_def)
  moreover have "int_str 200 \<noteq> ''--follow''" by code_simp
  ultimately show ?thesis
    by (simp add: sample_log_adapter_def journal_history_def sample_unit safe_cursor_def sample_stream_in collect_history_def)
qed

lemma sample_follow: "la_follow sample_log_adapter n None idle_logs = (([hello_event], Closed), idle_logs)"
proof -
  have "''--follow'' \<in> set (journal_command u @ [''--follow'', ''--lines=0''] @ after_cursor None)" for u by simp
  then show ?thesis
    by (simp add: sample_log_adapter_def journal_follow_def sample_unit safe_cursor_def sample_stream_in)
      (simp add: sample_reader_def journal_parse_def journal_fallback_def hello_event_def)
qed

lemma sample_stream: "stream_logs 1 sample_log_service ''demo'' [] log_db idle_logs = (Streaming sample_socket, idle_logs)"
proof -
  have q: "parse_query (lg_from_iso (sl_lib sample_log_service)) [] = Inr sample_query"
    using sample_parse by (simp add: sample_log_service_def)
  have h: "log_history sample_log_service ''demo'' log_db 200 None None [] idle_logs = (Inr ([], sample_log_adapter, []), idle_logs)"
    by (simp add: log_history_def sample_log_context sample_history List.map_filter_def)
  have r: "redact_log qs [] ''hello'' = ''hello''" for qs
  proof -
    have "re_sub f bearer ''hello'' = ''hello''" "re_sub f log_assignment ''hello'' = ''hello''"
      "re_sub f jwt ''hello'' = ''hello''" "re_sub f url_pattern ''hello'' = ''hello''" for f by code_simp+
    then show ?thesis by (simp add: redact_log_def redact_with_def)
  qed
  have "hello_event\<lparr>le_message := ''hello''\<rparr> = hello_event" by (simp add: hello_event_def)
  moreover have "le_message hello_event = ''hello''" by (simp add: hello_event_def)
  ultimately have "log_follow 1 sample_log_service sample_log_adapter [] None [] idle_logs = (([hello_event], Closed), idle_logs)"
    by (simp add: log_follow_def sample_follow List.map_filter_def prepare_event_def r)
  then show ?thesis
    by (simp add: stream_logs_def q sample_query_def h resume_cursor_def sample_socket_def)
qed

section \<open>What the client can rely on\<close>



text \<open>
  Property C37. The end of the stream always arrives. Once the source has ended, the terminal
  envelope reaches the client after at most three steps of the consumer for each queued item; it
  is the last message, the socket is closed after it, and by then every event of the source has
  been delivered or reported as dropped.
\<close>

theorem stream_completes:
  assumes "stream_logs n sv k qs d w = (Streaming s0, w')" "socket_step\<^sup>*\<^sup>* s0 s" "so_end s0 = Some t"
    and "so_feed s = []" "so_end s = None" "so_phase s \<noteq> Stopped"
  shows "\<exists>s' new. run_consumer (3 * length (so_queue s) + 2) s = s' \<and> so_phase s' = Stopped
    \<and> so_sent s' = so_sent s0 @ new \<and> last (so_sent s') = t
    \<and> int (length (so_feed s0)) = int (length (logs_of new)) + warned new"
proof -
  have ok: "socket_ok (so_feed s0) (Some t) (so_sent s0) s" "settled s" "is_terminal t"
    using reachable_ok [OF assms(1,2)] start_ok(2) [OF assms(1)] assms(3) by simp_all
  have "steps_left s \<le> 3 * length (so_queue s) + 2" by (simp add: steps_left_def split: phase.splits)
  from run_consumer_finishes [OF ok(1,3,2) assms(4-6) this]
  obtain s' where s': "run_consumer (3 * length (so_queue s) + 2) s = s'" "so_phase s' = Stopped"
      "counted (so_feed s0) (so_sent s0) s'" "so_feed s' = []" "so_dropped s' = 0" "pending s' = []" "last (so_sent s') = t"
    unfolding socket_ok_def by blast
  from s'(3) obtain fed new where "so_feed s0 = fed @ so_feed s'" "so_sent s' = so_sent s0 @ new"
      "int (length fed) = int (length (logs_of new)) + int (length (events_of (pending s'))) + so_dropped s' + warned new"
    unfolding counted_def by blast
  then show ?thesis using s' by auto
qed

theorem stream_completes_witness:
  "\<exists>s. socket_step\<^sup>*\<^sup>* sample_socket s
    \<and> last (so_sent (run_consumer (3 * length (so_queue s) + 2) s)) = EofEnv ''log_source_closed''"
proof -
  let ?s1 = "enqueue (Event hello_event) (sample_socket\<lparr>so_feed := []\<rparr>)"
  let ?s2 = "enqueue (Final (EofEnv ''log_source_closed'')) (?s1\<lparr>so_end := None\<rparr>)"
  have "socket_step sample_socket ?s1" by (rule produced) (simp_all add: sample_socket_def produce_def)
  moreover have "socket_step ?s1 ?s2" by (rule produced) (simp_all add: sample_socket_def produce_def)
  ultimately have r: "socket_step\<^sup>*\<^sup>* sample_socket ?s2" by (meson converse_rtranclp_into_rtranclp r_into_rtranclp)
  have "so_end sample_socket = Some (EofEnv ''log_source_closed'')" "so_feed ?s2 = []" "so_end ?s2 = None" "so_phase ?s2 \<noteq> Stopped"
    by (simp_all add: sample_socket_def)
  from stream_completes [OF sample_stream r this] r show ?thesis by blast
qed

section \<open>The end of a login session closes the socket\<close>

lemma session_end_first:
  assumes "\<not> websocket_session_active su (fst (view n)) k (snd (view n))" "i \<le> n"
  shows "\<exists>m. session_end_poll su k view i = Some m \<and> i \<le> m \<and> m \<le> n
    \<and> \<not> websocket_session_active su (fst (view m)) k (snd (view m))
    \<and> (\<forall>j. i \<le> j \<longrightarrow> j < m \<longrightarrow> websocket_session_active su (fst (view j)) k (snd (view j)))"
  using assms(2)
proof (induction "n - i" arbitrary: i)
  case 0
  then show ?case using assms(1) by (subst session_end_poll.simps) auto
next
  case (Suc d)
  show ?case
  proof (cases "websocket_session_active su (fst (view i)) k (snd (view i))")
    case True
    then have "i \<noteq> n" using assms(1) by blast
    then have "Suc i \<le> n" "d = n - Suc i" using Suc by simp_all
    from Suc.hyps(1) [OF this(2,1)] obtain m where m: "session_end_poll su k view (Suc i) = Some m" "Suc i \<le> m" "m \<le> n"
        "\<not> websocket_session_active su (fst (view m)) k (snd (view m))"
        "\<forall>j. Suc i \<le> j \<longrightarrow> j < m \<longrightarrow> websocket_session_active su (fst (view j)) k (snd (view j))" by blast
    have "\<forall>j. i \<le> j \<longrightarrow> j < m \<longrightarrow> websocket_session_active su (fst (view j)) k (snd (view j))"
      using m(5) True by (metis le_antisym not_less_eq_eq)
    then show ?thesis using m True by (subst session_end_poll.simps) auto
  next
    case False
    then show ?thesis using Suc.prems by (subst session_end_poll.simps) auto
  qed
qed

text \<open>
  Property C38. A socket does not outlive its login. With polls two seconds apart the watcher
  returns at the first poll that finds the session revoked, expired or unreadable, and at the
  latest one poll after the session's expiry.
\<close>

theorem session_end_noticed:
  assumes "\<forall>i r. row_get se_id k (auth_sessions (working (snd (view i)))) = Some r \<longrightarrow> se_expires r \<le> e"
    and "\<forall>i. t0 + 2 * second * int (Suc i) \<le> now su (snd (view i))" "t0 \<le> e"
  shows "\<exists>m. session_end_poll su k view 0 = Some m \<and> t0 + 2 * second * int m \<le> e
    \<and> \<not> websocket_session_active su (fst (view m)) k (snd (view m))
    \<and> (\<forall>j<m. websocket_session_active su (fst (view j)) k (snd (view j)))"
proof -
  define n where "n = nat ((e - t0) div (2 * second))"
  have s: "0 < 2 * second" by (simp add: second_def)
  have q: "0 \<le> (e - t0) div (2 * second)" using assms(3) s by (simp add: pos_imp_zdiv_nonneg_iff)
  have n1: "2 * second * int n \<le> e - t0"
  proof -
    have "2 * second * ((e - t0) div (2 * second)) \<le> e - t0"
      using pos_mod_sign [OF s, of "e - t0"] by (simp add: minus_mod_eq_mult_div [symmetric])
    then show ?thesis using q by (simp add: n_def)
  qed
  have n2: "e - t0 < 2 * second * int (Suc n)"
  proof -
    have "(e - t0) mod (2 * second) < 2 * second" by (rule pos_mod_bound [OF s])
    then have "e - t0 < 2 * second * ((e - t0) div (2 * second)) + 2 * second"
      using mult_div_mod_eq [of "2 * second" "e - t0"] by linarith
    then show ?thesis using q by (simp add: n_def algebra_simps)
  qed
  have "t0 + 2 * second * int (Suc n) \<le> now su (snd (view n))" using assms(2) by blast
  then have late: "e \<le> now su (snd (view n))" using n2 by linarith
  have "\<not> websocket_session_active su (fst (view n)) k (snd (view n))"
  proof (cases "row_get se_id k (auth_sessions (working (snd (view n))))")
    case None
    then show ?thesis by (simp add: websocket_session_active_def)
  next
    case (Some r)
    then have "se_expires r \<le> e" using assms(1) by blast
    then show ?thesis using Some late by (simp add: websocket_session_active_def)
  qed
  from session_end_first [where view = view and n = n and i = 0, OF this] obtain m where m: "session_end_poll su k view 0 = Some m" "m \<le> n"
      "\<not> websocket_session_active su (fst (view m)) k (snd (view m))"
      "\<forall>j<m. websocket_session_active su (fst (view j)) k (snd (view j))" by auto
  have "2 * second * int m \<le> 2 * second * int n" using m(2) s by (simp add: mult_left_mono)
  then show ?thesis using m n1 by auto
qed

definition dying_session :: "nat \<Rightarrow> bool \<times> store" where
  "dying_session i = (True, empty_store\<lparr>ticks := 2000000 * Suc i, working := empty_db\<lparr>auth_sessions :=
     [\<lparr>se_id = ''s'', se_admin = ''a'', se_token = ''t'', se_csrf = ''c'', se_created = 0, se_expires = 5 * second, se_revoked = None\<rparr>]\<rparr>\<rparr>)"

theorem session_end_noticed_witness:
  "\<exists>m. session_end_poll sample_sources ''s'' dying_session 0 = Some m \<and> 2 * second * int m \<le> 5 * second"
proof -
  have "\<forall>i r. row_get se_id ''s'' (auth_sessions (working (snd (dying_session i)))) = Some r \<longrightarrow> se_expires r \<le> 5 * second"
    by (simp add: dying_session_def row_get_def)
  moreover have "\<forall>i. 0 + 2 * second * int (Suc i) \<le> now sample_sources (snd (dying_session i))"
    by (simp add: dying_session_def second_def now_def sample_sources_def)
  moreover have "0 \<le> 5 * second" by (simp add: second_def)
  ultimately show ?thesis using session_end_noticed [of "''s''" dying_session "5 * second" 0 sample_sources] by auto
qed

end
