(* ===== verification/DeployConfig.thy ===== *)
theory DeployConfig
  imports Redaction
begin

text \<open>
  The configuration half of \<open>scripts/machinedeck_deploy.py\<close>: the installation paths, the server
  configuration the installer writes and reads, the files it renders, and the assessment of the
  firewall. A DeployError is \<open>DeployError\<close>, any other exception \<open>OtherDeploy\<close> with its class.

  Parameters: \<open>rp\<close>, \<open>str\<close> of a TOML array, table or date; \<open>loads\<close>, \<open>json.loads\<close> on a TOML value;
  the host name and addresses of the machine.
\<close>

datatype deploy_exn = DeployError string | OtherDeploy string

definition service_name :: string where "service_name = ''machinedeck.service''"
definition install_access_modes :: "string list" where "install_access_modes = [''local'', ''lan'', ''tailscale'']"
definition server_access_modes :: "string list" where "server_access_modes = [''local'', ''lan'', ''proxy'']"

record install_paths =
  ip_home :: path
  ip_share :: path
  ip_releases :: path
  ip_current :: path
  ip_state :: path
  ip_backups :: path
  ip_config_dir :: path
  ip_config :: path
  ip_user_unit_dir :: path
  ip_unit :: path

definition under :: "path \<Rightarrow> string \<Rightarrow> path" where
  "under p s = path_join p (path_of s)"

text \<open>\<open>expand\<close> is \<open>Path(text).expanduser().absolute()\<close>, \<open>home\<close> is \<open>Path.home()\<close>.\<close>

definition discover_paths :: "(string \<Rightarrow> path) \<Rightarrow> path \<Rightarrow> environ \<Rightarrow> install_paths" where
  "discover_paths expand dflt_home env =
     (let get = (\<lambda>k d. expand (case env k of Some s \<Rightarrow> s | None \<Rightarrow> path_str d));
          home = get ''HOME'' dflt_home;
          data_home = get ''XDG_DATA_HOME'' (under (under home ''.local'') ''share'');
          state_home = get ''XDG_STATE_HOME'' (under (under home ''.local'') ''state'');
          config_home = get ''XDG_CONFIG_HOME'' (under home ''.config'');
          share = under data_home ''machinedeck'';
          state = under state_home ''machinedeck'';
          config_dir = under config_home ''machinedeck'';
          unit_dir = under (under config_home ''systemd'') ''user''
      in \<lparr>ip_home = home, ip_share = share, ip_releases = under share ''releases'', ip_current = under share ''current'',
          ip_state = state, ip_backups = under state ''backups'', ip_config_dir = config_dir,
          ip_config = under config_dir ''config.toml'', ip_user_unit_dir = unit_dir,
          ip_unit = under unit_dir service_name\<rparr>)"

record server_configuration =
  sc_mode :: string
  sc_host :: string
  sc_port :: int
  sc_cookie :: toml
  sc_origins :: "string list"
  sc_public_lan :: "toml option"
  sc_proxies :: "string list"
  sc_networks :: "string list"

definition default_networks :: "string list" where
  "default_networks = [''127.0.0.0/8'', ''::1/128'']"

section \<open>Checks\<close>

definition validate_text :: "string \<Rightarrow> string \<Rightarrow> deploy_exn + string" where
  "validate_text v label = (if v = [] \<or> has_any [CR, LF, NUL] v then Inl (DeployError (''Invalid '' @ label)) else Inr v)"

definition validated_origin :: "string \<Rightarrow> bool \<Rightarrow> deploy_exn + string" where
  "validated_origin v https_required =
     res_bind (validate_text (rstrip_char (CHR ''/'') (py_strip v)) ''trusted Origin'') (\<lambda>n.
       case urlsplit n of
         None \<Rightarrow> Inl (OtherDeploy ''ValueError'')
       | Some u \<Rightarrow>
           if url_port u = None then Inl (DeployError (''Invalid trusted Origin: '' @ v))
           else if https_required \<and> u_scheme u \<noteq> ''https''
           then Inl (DeployError (''Trusted Origin must use HTTPS: '' @ v))
           else if u_scheme u \<notin> (if https_required then {''https''} else {''http'', ''https''})
                \<or> url_hostname u \<in> {None, Some []} \<or> url_username u \<noteq> None \<or> url_password u \<noteq> None
                \<or> u_path u \<notin> {[], ''/''} \<or> u_query u \<noteq> [] \<or> u_fragment u \<noteq> []
           then Inl (DeployError (''Invalid trusted Origin: '' @ v))
           else Inr n)"

definition cookie_values :: "string list" where
  "cookie_values = [''auto'', ''secure'', ''insecure'', ''true'', ''false'']"

definition cookie_accepted :: "(toml \<Rightarrow> string) \<Rightarrow> toml \<Rightarrow> bool" where
  "cookie_accepted rp v = (case v of TBool _ \<Rightarrow> True | _ \<Rightarrow> py_lower (toml_str rp v) \<in> set cookie_values)"

definition network_accepted :: "bool \<Rightarrow> string \<Rightarrow> deploy_exn + unit" where
  "network_accepted proxies v =
     (case ip_network True v of
        None \<Rightarrow> Inl (DeployError (''network.'' @ (if proxies then ''trusted_proxies'' else ''trusted_networks'')
                  @ '' must contain canonical IPv4 or IPv6 CIDRs''))
      | Some nw \<Rightarrow>
          if proxies \<and> 65536 < net_num_addresses nw
          then Inl (DeployError ''network.trusted_proxies entries cannot contain more than 65536 addresses'')
          else Inr ())"

definition validate_server :: "(toml \<Rightarrow> string) \<Rightarrow> server_configuration \<Rightarrow> deploy_exn + unit" where
  "validate_server rp c =
     (if sc_mode c \<notin> set server_access_modes then Inl (DeployError ''server.mode must be local, lan, or proxy'')
      else case ip_address (sc_host c) of
        None \<Rightarrow> Inl (DeployError ''server.host must be a literal IP address'')
      | Some a \<Rightarrow>
          if sc_mode c \<in> {''local'', ''proxy''} \<and> \<not> ip_is_loopback a
          then Inl (DeployError (''server.mode='' @ sc_mode c @ '' requires a loopback host''))
          else if sc_mode c = ''lan'' \<and> \<not> ip_is_unspecified a
          then Inl (DeployError ''server.mode=lan requires host 0.0.0.0 or ::'')
          else if sc_port c < 1 \<or> 65535 < sc_port c
          then Inl (DeployError ''server.port must be between 1 and 65535'')
          else if \<not> cookie_accepted rp (sc_cookie c)
          then Inl (DeployError ''security.cookie_secure has an invalid value'')
          else res_bind (res_list (map (\<lambda>s. validated_origin s False) (sc_origins c))) (\<lambda>_.
               res_bind (res_list (map (network_accepted True) (sc_proxies c))) (\<lambda>_.
               res_bind (res_list (map (network_accepted False) (sc_networks c))) (\<lambda>_. Inr ()))))"

section \<open>The configuration of an installation\<close>

definition local_origins :: "string list" where
  "local_origins = [''http://127.0.0.1:8080'', ''http://localhost:8080'', ''https://127.0.0.1:8080'', ''https://localhost:8080'']"

text \<open>What \<open>_detected_lan_hosts\<close> makes of the host name and the addresses it resolves to.\<close>

definition detected_lan_hosts :: "string \<Rightarrow> string list \<Rightarrow> string \<times> string list" where
  "detected_lan_hosts name candidates =
     (let n = py_lower (py_strip name);
          hostname = (if n = [] \<or> has_any [CR, LF, NUL, CHR ''/'', CHR '':''] n then ''localhost'' else n);
          addrs = List.map_filter (\<lambda>raw. case ip_address raw of None \<Rightarrow> None
            | Some a \<Rightarrow> if \<not> ip_is_loopback a \<and> \<not> ip_is_unspecified a \<and> \<not> ip_is_link_local a then Some (ip_str a) else None)
            candidates
      in (hostname, sort (remdups addrs)))"

fun lan_origin :: "string \<Rightarrow> deploy_exn + string" where
  "lan_origin raw = (case ip_address raw of
     None \<Rightarrow> Inl (DeployError (''Invalid detected LAN address: '' @ raw))
   | Some a \<Rightarrow> Inr (''http://'' @ (if ip_version a = 6 then ''['' @ ip_str a @ '']'' else ip_str a) @ '':8080''))"

definition access_configuration ::
    "string \<times> string list \<Rightarrow> string \<Rightarrow> string list \<Rightarrow> string list \<Rightarrow> string list \<Rightarrow> string option \<Rightarrow> string list option
       \<Rightarrow> deploy_exn + server_configuration"
where
  "access_configuration detected access origins proxies networks hostname addrs =
     (if access \<notin> set install_access_modes then Inl (DeployError (''Unsupported access mode: '' @ access))
      else res_bind (res_list (map (\<lambda>s. validated_origin s (access = ''tailscale'')) origins)) (\<lambda>extra.
        (let ps = map py_strip proxies;
             ns = dict_fromkeys (default_networks @ map py_strip networks)
         in if access = ''local''
            then Inr \<lparr>sc_mode = ''local'', sc_host = ''127.0.0.1'', sc_port = 8080, sc_cookie = TStr ''auto'',
                   sc_origins = dict_fromkeys (local_origins @ extra), sc_public_lan = None, sc_proxies = ps, sc_networks = ns\<rparr>
            else if access = ''tailscale''
            then Inr \<lparr>sc_mode = ''proxy'', sc_host = ''127.0.0.1'', sc_port = 8080, sc_cookie = TStr ''auto'',
                   sc_origins = dict_fromkeys (local_origins @ extra), sc_public_lan = None,
                   sc_proxies = dict_fromkeys ([''127.0.0.1/32'', ''::1/128''] @ ps), sc_networks = ns\<rparr>
            else
              (let lan_host = py_lower (py_strip (case hostname of Some h \<Rightarrow> or_else h (fst detected) | None \<Rightarrow> fst detected));
                   lan_addrs = (case addrs of Some as \<Rightarrow> as | None \<Rightarrow> snd detected)
               in res_bind (res_list (map lan_origin lan_addrs)) (\<lambda>os.
                  Inr \<lparr>sc_mode = ''lan'', sc_host = ''0.0.0.0'', sc_port = 8080, sc_cookie = TStr ''auto'',
                    sc_origins = dict_fromkeys (local_origins @ (''http://'' @ lan_host @ '':8080'') # os @ extra),
                    sc_public_lan = Some (TStr lan_host), sc_proxies = ps, sc_networks = ns\<rparr>)))))"

section \<open>Reading config.toml\<close>

definition inferred_mode :: "string \<Rightarrow> string" where
  "inferred_mode host = (if host \<in> {''0.0.0.0'', ''::''} then ''lan'' else ''local'')"

definition port_not_integer :: "deploy_exn + 'a" where
  "port_not_integer = Inl (DeployError ''server.port must be an integer'')"

definition validated_server :: "(toml \<Rightarrow> string) \<Rightarrow> server_configuration \<Rightarrow> deploy_exn + server_configuration" where
  "validated_server rp c = res_bind (validate_server rp c) (\<lambda>_. Inr c)"

type_synonym minimal_values = "((string \<times> string) \<times> toml) list"

definition minimal_names :: "string list" where
  "minimal_names = [''mode'', ''host'', ''port'', ''cookie_secure'', ''trusted_proxies'', ''trusted_networks'']"

fun minimal_lines ::
    "(string \<Rightarrow> toml option) \<Rightarrow> string \<Rightarrow> minimal_values \<Rightarrow> string list \<Rightarrow> deploy_exn + minimal_values"
where
  "minimal_lines loads section vs [] = Inr vs"
| "minimal_lines loads section vs (raw # ls) =
     (let l = py_strip raw
      in if l = [] \<or> startswith ''#'' l then minimal_lines loads section vs ls
         else if startswith ''['' l \<and> endswith '']'' l
         then minimal_lines loads (py_strip (butlast (drop 1 l))) vs ls
         else (case partition_on (CHR ''='') l of (k, sep, v) \<Rightarrow>
            if \<not> sep \<or> section \<notin> {''server'', ''security'', ''network''} \<or> py_strip k \<notin> set minimal_names
            then minimal_lines loads section vs ls
            else (case loads (py_strip v) of
                    None \<Rightarrow> Inl (DeployError ''Python 3.10 installations require tomli to read customized TOML values'')
                  | Some x \<Rightarrow> minimal_lines loads section (((section, py_strip k), x) # vs) ls)))"

text \<open>Iteration over a value: a string gives its characters, a table its keys.\<close>

fun toml_iter :: "toml \<Rightarrow> toml list option" where
  "toml_iter (TArr vs) = Some vs"
| "toml_iter (TStr s) = Some (map (\<lambda>c. TStr [c]) s)"
| "toml_iter (TTable t) = Some (map (\<lambda>e. TStr (fst e)) t)"
| "toml_iter _ = None"

definition value_of :: "minimal_values \<Rightarrow> string \<Rightarrow> string \<Rightarrow> toml \<Rightarrow> toml" where
  "value_of vs section name d = (case map_of vs (section, name) of Some v \<Rightarrow> v | None \<Rightarrow> d)"

definition minimal_server_configuration ::
    "(toml \<Rightarrow> string) \<Rightarrow> (string \<Rightarrow> toml option) \<Rightarrow> string \<Rightarrow> deploy_exn + server_configuration"
where
  "minimal_server_configuration rp loads text =
     res_bind (minimal_lines loads [] [] (splitlines text)) (\<lambda>vs.
       let host = toml_str rp (value_of vs ''server'' ''host'' (TStr ''127.0.0.1''))
       in case (toml_int (value_of vs ''server'' ''port'' (TInt 8080)),
                toml_iter (value_of vs ''network'' ''trusted_proxies'' (TArr [])),
                toml_iter (value_of vs ''network'' ''trusted_networks'' (TArr (map TStr default_networks)))) of
            (Some port, Some ps, Some ns) \<Rightarrow>
              validated_server rp
                \<lparr>sc_mode = toml_str rp (value_of vs ''server'' ''mode'' (TStr (inferred_mode host))), sc_host = host,
                 sc_port = port, sc_cookie = value_of vs ''security'' ''cookie_secure'' (TBool True), sc_origins = [],
                 sc_public_lan = None, sc_proxies = map (toml_str rp) ps, sc_networks = map (toml_str rp) ns\<rparr>
          | _ \<Rightarrow> port_not_integer)"

fun toml_get :: "string \<Rightarrow> toml \<Rightarrow> toml \<Rightarrow> toml" where
  "toml_get k d (TTable t) = (case map_of t k of Some v \<Rightarrow> v | None \<Rightarrow> d)"
| "toml_get k d _ = d"

fun is_table :: "toml \<Rightarrow> bool" where
  "is_table (TTable _) = True"
| "is_table _ = False"

definition server_of_document :: "(toml \<Rightarrow> string) \<Rightarrow> toml_doc \<Rightarrow> deploy_exn + server_configuration" where
  "server_of_document rp doc =
     (let sect = (\<lambda>k. case map_of doc k of Some v \<Rightarrow> v | None \<Rightarrow> TTable []);
          server = sect ''server''; security = sect ''security''; network = sect ''network''
      in if \<not> is_table server \<or> \<not> is_table security \<or> \<not> is_table network
         then Inl (DeployError ''MachineDeck server, security, and network configuration must be TOML tables'')
         else (let host = py_strip (toml_str rp (toml_get ''host'' (TStr ''127.0.0.1'') server))
               in case (toml_get ''trusted_origins'' (TArr []) server, toml_get ''trusted_proxies'' (TArr []) network,
                        toml_get ''trusted_networks'' (TArr (map TStr default_networks)) network) of
                    (TArr origins, TArr ps, TArr ns) \<Rightarrow>
                      (case toml_int (toml_get ''port'' (TInt 8080) server) of
                         None \<Rightarrow> port_not_integer
                       | Some port \<Rightarrow>
                           validated_server rp
                             \<lparr>sc_mode = py_lower (py_strip (toml_str rp (toml_get ''mode'' (TStr (inferred_mode host)) server))),
                              sc_host = host, sc_port = port, sc_cookie = toml_get ''cookie_secure'' (TBool True) security,
                              sc_origins = map (\<lambda>v. rstrip_char (CHR ''/'') (toml_str rp v)) origins,
                              sc_public_lan = (case server of TTable t \<Rightarrow> map_of t ''public_host_lan'' | _ \<Rightarrow> None),
                              sc_proxies = map (toml_str rp) ps, sc_networks = map (toml_str rp) ns\<rparr>)
                  | (TArr _, _, _) \<Rightarrow>
                      Inl (DeployError ''network.trusted_proxies and network.trusted_networks must be TOML arrays'')
                  | _ \<Rightarrow> Inl (DeployError ''server.trusted_origins must be a TOML array'')))"

text \<open>
  The library: \<open>tl_load\<close> is \<open>tomllib.load\<close> when there is a tomllib, \<open>tl_json\<close> \<open>json.loads\<close>. The text is
  absent when the file cannot be read; the cause is left out of the message.
\<close>

record toml_lib =
  tl_load :: "(string \<Rightarrow> toml_doc option) option"
  tl_json :: "string \<Rightarrow> toml option"
  tl_str :: "toml \<Rightarrow> string"

definition cannot_read :: deploy_exn where
  "cannot_read = DeployError ''Cannot read MachineDeck configuration''"

definition read_server_configuration :: "toml_lib \<Rightarrow> string option \<Rightarrow> deploy_exn + server_configuration" where
  "read_server_configuration lib text =
     (case text of None \<Rightarrow> Inl cannot_read
      | Some t \<Rightarrow>
          (case tl_load lib of
             None \<Rightarrow> minimal_server_configuration (tl_str lib) (tl_json lib) t
           | Some load \<Rightarrow>
               (case load t of None \<Rightarrow> Inl cannot_read | Some doc \<Rightarrow> server_of_document (tl_str lib) doc)))"

section \<open>Rendering\<close>

fun toml_truthy :: "toml \<Rightarrow> bool" where
  "toml_truthy (TStr s) = (s \<noteq> [])"
| "toml_truthy (TInt n) = (n \<noteq> 0)"
| "toml_truthy (TBool b) = b"
| "toml_truthy (TFloat s _) = (s \<notin> {''0.0'', ''-0.0''})"
| "toml_truthy (TArr vs) = (vs \<noteq> [])"
| "toml_truthy (TTable t) = (t \<noteq> [])"
| "toml_truthy (TOther _) = True"

definition database_path :: "install_paths \<Rightarrow> path" where
  "database_path ip = under (ip_state ip) ''machinedeck.db''"

definition toml_strings :: "string list \<Rightarrow> string" where
  "toml_strings vs = ''['' @ join_with '', '' (map dumps_string vs) @ '']''"

definition cookie_text :: "(toml \<Rightarrow> string) \<Rightarrow> toml \<Rightarrow> string" where
  "cookie_text rp v = (case v of TBool b \<Rightarrow> if b then ''true'' else ''false'' | _ \<Rightarrow> dumps_string (toml_str rp v))"

definition config_lines :: "(toml \<Rightarrow> string) \<Rightarrow> install_paths \<Rightarrow> server_configuration \<Rightarrow> string list" where
  "config_lines rp ip c =
     [''# MachineDeck configuration. Administrator credentials are never stored here.'',
      ''[server]'',
      ''mode = '' @ dumps_string (sc_mode c),
      ''host = '' @ dumps_string (sc_host c),
      ''port = '' @ int_str (sc_port c)]
     @ (case sc_public_lan c of
          Some v \<Rightarrow> if toml_truthy v then [''public_host_lan = '' @ dumps_string (toml_str rp v)] else [] | None \<Rightarrow> [])
     @ [''trusted_origins = '' @ toml_strings (sc_origins c), [],
        ''[security]'',
        ''cookie_secure = '' @ cookie_text rp (sc_cookie c), [],
        ''[network]'',
        ''trusted_proxies = '' @ toml_strings (sc_proxies c),
        ''trusted_networks = '' @ toml_strings (sc_networks c), [],
        ''[state]'',
        ''database_url = '' @ dumps_string (''sqlite:///'' @ path_str (database_path ip)), [],
        ''[paths]'',
        ''allowed_roots = '' @ toml_strings [path_str (ip_home ip)],
        ''monitor_disks = '' @ toml_strings [''/'', path_str (ip_home ip)],
        ''user_unit_dir = '' @ dumps_string (path_str (ip_user_unit_dir ip))]"

definition render_config :: "(toml \<Rightarrow> string) \<Rightarrow> install_paths \<Rightarrow> server_configuration \<Rightarrow> deploy_exn + string" where
  "render_config rp ip c =
     res_bind (validate_server rp c) (\<lambda>_. Inr (concat (map (\<lambda>l. l @ [LF]) (config_lines rp ip c))))"

definition systemd_quote :: "string \<Rightarrow> deploy_exn + string" where
  "systemd_quote v = res_bind (validate_text v ''systemd value'') (\<lambda>t.
     Inr ([QUOTE] @ replace_char (CHR ''%'') ''%%'' (replace_char QUOTE [BACKSLASH, QUOTE]
       (replace_char BACKSLASH [BACKSLASH, BACKSLASH] t)) @ [QUOTE]))"

definition systemd_path :: "string \<Rightarrow> deploy_exn + string" where
  "systemd_path v = res_bind (validate_text v ''systemd path'') (\<lambda>t. Inr (concat (map escape_byte (utf8 t))))"

definition systemd_environment :: "string \<Rightarrow> string \<Rightarrow> deploy_exn + string" where
  "systemd_environment name v = res_bind (validate_text name ''environment name'') (\<lambda>_.
     res_bind (systemd_quote (name @ ''='' @ v)) (\<lambda>q. Inr (''Environment='' @ q)))"

definition service_unit ::
    "(toml \<Rightarrow> string) \<Rightarrow> install_paths \<Rightarrow> path \<Rightarrow> server_configuration \<Rightarrow> deploy_exn + string"
where
  "service_unit rp ip root server =
     res_bind (validate_server rp server) (\<lambda>_.
     res_bind (systemd_path (path_str (under root ''backend''))) (\<lambda>wd.
     res_bind (systemd_quote (path_str (under (under (under root ''venv'') ''bin'') ''python''))) (\<lambda>py.
     res_bind (systemd_quote (sc_host server)) (\<lambda>host.
     res_bind (systemd_environment ''MACHINEDECK_CONFIG'' (path_str (ip_config ip))) (\<lambda>env1.
     res_bind (systemd_environment ''MACHINEDECK_PROJECT_ROOT'' (path_str root)) (\<lambda>env2.
       Inr (join_with [LF]
         [''[Unit]'', ''Description=MachineDeck Local Workload Control Plane'', ''After=network-online.target'',
          ''Wants=network-online.target'', [], ''[Service]'', ''Type=simple'', ''WorkingDirectory='' @ wd,
          ''ExecStart='' @ py @ '' -m uvicorn app.main:app --host '' @ host @ '' --port '' @ int_str (sc_port server)
            @ '' --no-proxy-headers'',
          ''Restart=on-failure'', ''RestartSec=5'', ''TimeoutStartSec=60'', ''TimeoutStopSec=30'', ''KillMode=control-group'',
          env1, env2, ''Environment=PYTHONUNBUFFERED=1'', ''NoNewPrivileges=true'', ''PrivateTmp=true'',
          ''RestrictSUIDSGID=true'', ''LockPersonality=true'', [], ''[Install]'', ''WantedBy=default.target'', []])))))))"

definition access_urls :: "server_configuration \<Rightarrow> string list" where
  "access_urls c =
     (let external = (\<lambda>pre. filter (\<lambda>o1. startswith pre o1 \<and> \<not> has_sub ''127.0.0.1'' o1 \<and> \<not> has_sub ''localhost'' o1) (sc_origins c))
      in if sc_mode c = ''lan'' then external ''http://''
         else if sc_mode c = ''proxy'' then external ''https://''
         else [''http://127.0.0.1:'' @ int_str (sc_port c)])"

section \<open>The firewall\<close>

definition ufw_target_includes_port :: "string \<Rightarrow> int \<Rightarrow> bool" where
  "ufw_target_includes_port target port =
     (let port_text = fst (partition_on (CHR ''/'') (py_strip (replace_all ''(v6)'' [] (py_lower target))))
      in if CHR '':'' \<in> set port_text
         then (case partition_on (CHR '':'') port_text of (a, _, b) \<Rightarrow>
                 (case (py_int a, py_int b) of (Some x, Some y) \<Rightarrow> x \<le> port \<and> port \<le> y | _ \<Rightarrow> False))
         else py_int port_text = Some port)"

definition ufw_rule :: "re list" where
  "ufw_rule =
     [re_seq [TextStart, Many is_space, opt (re_seq [lit ''['', Many is_space, many1 is_dec, lit '']'', Many is_space])],
      Seq (many1 (\<lambda>c. \<not> is_space c)) (opt (Seq (many1 is_space) (lit_ci ''(v6)''))),
      re_seq [many1 is_space, lit_ci ''ALLOW'', opt (Seq (many1 is_space) (lit_ci ''IN'')), many1 is_space],
      Seq (Class (\<lambda>c. c \<noteq> LF)) (Lazy (\<lambda>c. c \<noteq> LF)),
      Seq (Many is_space) LineEnd]"

text \<open>Whether anyone may connect, and the networks that may.\<close>

fun ufw_allow_sources :: "string list \<Rightarrow> int \<Rightarrow> bool \<Rightarrow> net list \<Rightarrow> deploy_exn + bool \<times> net list" where
  "ufw_allow_sources [] port anywhere ns = Inr (anywhere, ns)"
| "ufw_allow_sources (l # ls) port anywhere ns =
     (case first_match ufw_rule (None, l) of
        None \<Rightarrow> ufw_allow_sources ls port anywhere ns
      | Some (gs, _) \<Rightarrow>
          if \<not> ufw_target_includes_port (gs ! 1) port then ufw_allow_sources ls port anywhere ns
          else let source = py_strip (gs ! 3)
               in if startswith ''anywhere'' (py_lower source) then ufw_allow_sources ls port True ns
                  else if source = [] then Inl (OtherDeploy ''IndexError'')
                  else (case ip_network False (takeWhile (\<lambda>c. \<not> is_space c) source) of
                          None \<Rightarrow> ufw_allow_sources ls port anywhere ns
                        | Some nw \<Rightarrow> ufw_allow_sources ls port anywhere (if nw \<in> set ns then ns else ns @ [nw])))"

fun external_trusted_networks :: "string list \<Rightarrow> deploy_exn + net list" where
  "external_trusted_networks [] = Inr []"
| "external_trusted_networks (v # vs) =
     (case ip_network True v of
        None \<Rightarrow> Inl (OtherDeploy ''ValueError'')
      | Some nw \<Rightarrow> res_bind (external_trusted_networks vs) (\<lambda>ns. Inr (if net_is_loopback nw then ns else nw # ns)))"

record assessment =
  fa_status :: string
  fa_detail :: string

definition ufw_suggestion :: "server_configuration \<Rightarrow> net list \<Rightarrow> string option" where
  "ufw_suggestion c ns = (case ns of [] \<Rightarrow> None
     | nw # _ \<Rightarrow> Some (''sudo ufw allow from '' @ net_str nw @ '' to any port '' @ int_str (sc_port c) @ '' proto tcp''))"

definition ufw_status_line :: "re list" where
  "ufw_status_line = [re_seq [LineStart, Many is_space, lit_ci ''Status:'', Many is_space], Alt (lit_ci ''active'') (lit_ci ''inactive''),
     Seq (Many is_space) LineStop]"

definition suggested :: "string \<Rightarrow> string option \<Rightarrow> string" where
  "suggested label s = (case s of None \<Rightarrow> [] | Some t \<Rightarrow> [LF] @ label @ t)"

definition assess_ufw_status :: "string \<Rightarrow> server_configuration \<Rightarrow> deploy_exn + assessment" where
  "assess_ufw_status out c =
     (let text = py_strip out; port = int_str (sc_port c)
      in case search_groups ufw_status_line None text of
           None \<Rightarrow> Inr \<lparr>fa_status = ''UNKNOWN'',
             fa_detail = ''UFW output could not be interpreted; firewall safety was not determined''\<rparr>
         | Some gs \<Rightarrow>
             if py_lower (gs ! 1) = ''inactive''
             then Inr \<lparr>fa_status = ''WARN'', fa_detail = ''UFW is inactive while LAN mode listens on all IPv4 interfaces''\<rparr>
             else
               res_bind (ufw_allow_sources (splitlines text) (sc_port c) False []) (\<lambda>(anywhere, allowed).
               res_bind (external_trusted_networks (sc_networks c)) (\<lambda>expected.
                 let tip = ufw_suggestion c expected;
                     missing = filter (\<lambda>n. \<not> list_ex (\<lambda>a. ip_version (net_addr n) = ip_version (net_addr a) \<and> net_subnet_of n a) allowed)
                                 expected
                 in if anywhere
                    then Inr \<lparr>fa_status = ''WARN'',
                      fa_detail = ''UFW permits TCP port '' @ port @ '' from Anywhere; the rule may expose every connected interface''
                        @ suggested ''Suggested subnet-scoped rule: '' tip\<rparr>
                    else if expected = []
                    then Inr \<lparr>fa_status = ''WARN'',
                      fa_detail = ''No non-loopback trusted network is configured, so a scoped UFW rule cannot be evaluated''\<rparr>
                    else if missing \<noteq> []
                    then Inr \<lparr>fa_status = ''WARN'',
                      fa_detail = ''No complete subnet-scoped UFW allowance was detected for TCP port '' @ port @ '': ''
                        @ join_with '', '' (map net_str missing) @ suggested ''Suggested command: '' tip\<rparr>
                    else Inr \<lparr>fa_status = ''PASS'',
                      fa_detail = ''UFW is active with subnet-scoped TCP port '' @ port @ '' allowance for ''
                        @ join_with '', '' (map net_str expected) @ ''; this is a diagnostic, not proof of complete firewall safety''\<rparr>)))"

text \<open>The result of a command: its exit status, 127 when it does not exist, and both outputs.\<close>

record command_output =
  co_status :: int
  co_out :: string
  co_err :: string

definition firewall_doctor_check :: "server_configuration \<Rightarrow> command_output \<Rightarrow> deploy_exn + assessment" where
  "firewall_doctor_check c r =
     (if sc_mode c \<noteq> ''lan''
      then Inr \<lparr>fa_status = ''INFO'', fa_detail = ''Not applicable to loopback-bound '' @ sc_mode c @ '' mode''\<rparr>
      else let both = join_with [LF] (filter (\<lambda>p. p \<noteq> []) (map py_strip [co_out r, co_err r]))
        in if co_status r = 127
           then Inr \<lparr>fa_status = ''INFO'', fa_detail = ''UFW is not installed; firewall policy was not determined''\<rparr>
           else if co_status r \<noteq> 0
           then Inr \<lparr>fa_status = ''UNKNOWN'',
             fa_detail = ''UFW policy could not be read without elevation'' @ (if both = [] then [] else '': '' @ both)\<rparr>
           else assess_ufw_status both c)"

end
