(* ===== verification/HostFs.thy ===== *)
theory HostFs
  imports DeployConfig "HOL-Library.AList"
begin

text \<open>
  The host on which \<open>scripts/machinedeck_deploy.py\<close> works: a file tree, whether the service runs, and
  the local variables of a deployment that its exception handler reads. An operation is a function
  of the host (\<open>'a io\<close>): it returns or raises, and every file operation, in the order the script
  makes them, can fail with an OSError. Which ones do is the parameter \<open>de_fault\<close>, by the number of
  the operation; what external commands do is the parameter \<open>de_exec\<close>.

  Paths are addressed lexically: the directories above the ones the script manages are taken to be
  no symlinks into each other. Permission bits are not modelled, a failing chmod is.
\<close>

datatype node = Dir | File string | Link path

type_synonym files = "(path \<times> node) list"

record command =
  c_args :: "string list"
  c_cwd :: "path option"
  c_env :: "(string \<times> string) list"

datatype run_result = Missing string | Broken | Exit command_output

record sys =
  s_files :: files
  s_active :: bool
  s_tick :: nat
  s_backup :: "path option"
  s_stopped :: bool
  s_switched :: bool

type_synonym 'a io = "sys \<Rightarrow> (deploy_exn + 'a) \<times> sys"

text \<open>
  The environment: commands, failing operations, \<open>Path.resolve\<close>, unique names (uuid4, mkstemp), the
  time as formatted text, SQLite's copy of a database from its file and its write-ahead log,
  listening ports, answers of the health endpoint, the answer to a question (none without a terminal), whether the
  user is root, the system Linux and Python at least 3.10.
\<close>

record deploy_env =
  de_exec :: "command \<Rightarrow> files \<Rightarrow> bool \<Rightarrow> run_result \<times> files \<times> bool"
  de_fault :: "nat \<Rightarrow> bool"
  de_resolve :: "files \<Rightarrow> path \<Rightarrow> path"
  de_unique :: "nat \<Rightarrow> string"
  de_time :: "string \<Rightarrow> nat \<Rightarrow> string"
  de_copy_db :: "string \<Rightarrow> string option \<Rightarrow> string"
  de_port_free :: "files \<Rightarrow> bool \<Rightarrow> int \<Rightarrow> bool"
  de_health :: "files \<Rightarrow> bool \<Rightarrow> int \<Rightarrow> nat \<Rightarrow> deploy_exn + int"
  de_answer :: "string option"
  de_root :: bool
  de_linux :: bool
  de_modern :: bool
  de_user :: string
  de_python :: string
  de_environ :: "(string \<times> string) list"
  de_toml :: toml_lib
  de_detected :: "string \<times> string list"

section \<open>Sequencing\<close>

definition io_ret :: "'a \<Rightarrow> 'a io" where
  "io_ret x s = (Inr x, s)"

definition io_raise :: "deploy_exn \<Rightarrow> 'a io" where
  "io_raise e s = (Inl e, s)"

definition io_bind :: "'a io \<Rightarrow> ('a \<Rightarrow> 'b io) \<Rightarrow> 'b io" where
  "io_bind m f s = (case m s of (Inl e, t) \<Rightarrow> (Inl e, t) | (Inr x, t) \<Rightarrow> f x t)"

definition io_get :: "(sys \<Rightarrow> 'a) \<Rightarrow> 'a io" where
  "io_get f s = (Inr (f s), s)"

definition io_of :: "deploy_exn + 'a \<Rightarrow> 'a io" where
  "io_of r s = (r, s)"

definition io_mod :: "(sys \<Rightarrow> sys) \<Rightarrow> unit io" where
  "io_mod f s = (Inr (), f s)"

fun io_seq :: "unit io list \<Rightarrow> unit io" where
  "io_seq [] = io_ret ()"
| "io_seq (m # ms) = io_bind m (\<lambda>_. io_seq ms)"

definition io_when :: "bool \<Rightarrow> unit io \<Rightarrow> unit io" where
  "io_when b m = (if b then m else io_ret ())"

text \<open>\<open>try: m finally: k\<close>.\<close>

definition io_finally :: "'a io \<Rightarrow> unit io \<Rightarrow> 'a io" where
  "io_finally m k s = (case m s of (r, t) \<Rightarrow> (case k t of (Inl e, u) \<Rightarrow> (Inl e, u) | (Inr _, u) \<Rightarrow> (r, u)))"

section \<open>File operations\<close>

abbreviation fs_get :: "files \<Rightarrow> path \<Rightarrow> node option" where
  "fs_get \<equiv> map_of"

definition fs_put :: "path \<Rightarrow> node \<Rightarrow> files \<Rightarrow> files" where
  "fs_put p n fs = (p, n) # filter (\<lambda>e. fst e \<noteq> p) fs"

definition fs_del :: "path \<Rightarrow> files \<Rightarrow> files" where
  "fs_del p fs = filter (\<lambda>e. fst e \<noteq> p) fs"

definition os_error :: deploy_exn where
  "os_error = OtherDeploy ''OSError''"

definition sys_op :: "deploy_env \<Rightarrow> (files \<Rightarrow> bool) \<Rightarrow> (files \<Rightarrow> files) \<Rightarrow> unit io" where
  "sys_op E ok f s =
     (if de_fault E (s_tick s) \<or> \<not> ok (s_files s)
      then (Inl os_error, s\<lparr>s_tick := Suc (s_tick s)\<rparr>)
      else (Inr (), s\<lparr>s_tick := Suc (s_tick s), s_files := f (s_files s)\<rparr>))"

definition in_dir :: "files \<Rightarrow> path \<Rightarrow> bool" where
  "in_dir fs p \<longleftrightarrow> fs_get fs (path_parent p) = Some Dir"

definition make_dir :: "deploy_env \<Rightarrow> path \<Rightarrow> unit io" where
  "make_dir E p = sys_op E (\<lambda>fs. fs_get fs p = None \<and> in_dir fs p) (fs_put p Dir)"

definition create_file :: "deploy_env \<Rightarrow> path \<Rightarrow> string \<Rightarrow> unit io" where
  "create_file E p c = sys_op E (\<lambda>fs. fs_get fs p = None \<and> in_dir fs p) (fs_put p (File c))"

definition write_file :: "deploy_env \<Rightarrow> path \<Rightarrow> string \<Rightarrow> unit io" where
  "write_file E p c = sys_op E (\<lambda>fs. fs_get fs p \<noteq> Some Dir \<and> in_dir fs p) (fs_put p (File c))"

definition make_link :: "deploy_env \<Rightarrow> path \<Rightarrow> path \<Rightarrow> unit io" where
  "make_link E target p = sys_op E (\<lambda>fs. fs_get fs p = None \<and> in_dir fs p) (fs_put p (Link target))"

definition rename :: "deploy_env \<Rightarrow> path \<Rightarrow> path \<Rightarrow> unit io" where
  "rename E p q = sys_op E (\<lambda>fs. fs_get fs p \<notin> {None, Some Dir} \<and> fs_get fs q \<noteq> Some Dir)
     (\<lambda>fs. case fs_get fs p of None \<Rightarrow> fs | Some n \<Rightarrow> fs_put q n (fs_del p fs))"

definition unlink :: "deploy_env \<Rightarrow> path \<Rightarrow> unit io" where
  "unlink E p = sys_op E (\<lambda>fs. fs_get fs p \<notin> {None, Some Dir}) (fs_del p)"

definition unlink_missing_ok :: "deploy_env \<Rightarrow> path \<Rightarrow> unit io" where
  "unlink_missing_ok E p = sys_op E (\<lambda>fs. fs_get fs p \<noteq> Some Dir) (fs_del p)"

definition chmod :: "deploy_env \<Rightarrow> path \<Rightarrow> unit io" where
  "chmod E p = sys_op E (\<lambda>fs. fs_get fs p \<noteq> None) (\<lambda>fs. fs)"

text \<open>\<open>mkdir(parents=True, exist_ok=True)\<close>: the missing directories from the top.\<close>

definition ancestors :: "path \<Rightarrow> path list" where
  "ancestors p = map (\<lambda>n. Path (path_root p) (take n (path_parts p))) [1 ..< Suc (length (path_parts p))]"

definition make_dirs :: "deploy_env \<Rightarrow> path \<Rightarrow> unit io" where
  "make_dirs E p = io_bind (io_get s_files) (\<lambda>fs.
     if fs_get fs p = Some Dir then io_ret ()
     else io_seq (map (\<lambda>a. sys_op E (\<lambda>fs. fs_get fs a \<in> {None, Some Dir}) (fs_put a Dir)) (ancestors p)))"

text \<open>\<open>shutil.rmtree\<close>: the entries, deepest first.\<close>

definition tree_entries :: "files \<Rightarrow> path \<Rightarrow> path list" where
  "tree_entries fs p = rev (sort_key (\<lambda>q. length (path_parts q)) (filter (\<lambda>q. path_relative_to q p) (map fst fs)))"

definition remove_tree :: "deploy_env \<Rightarrow> path \<Rightarrow> unit io" where
  "remove_tree E p = io_bind (io_get s_files) (\<lambda>fs.
     if fs_get fs p \<noteq> Some Dir then io_raise os_error
     else io_seq (map (\<lambda>q. sys_op E (\<lambda>_. True) (fs_del q)) (tree_entries fs p)))"

text \<open>\<open>Path.exists\<close> and \<open>Path.is_file\<close> follow a symlink.\<close>

definition followed :: "deploy_env \<Rightarrow> files \<Rightarrow> path \<Rightarrow> node option" where
  "followed E fs p = (case fs_get fs p of Some (Link _) \<Rightarrow> fs_get fs (de_resolve E fs p) | n \<Rightarrow> n)"

definition p_exists :: "deploy_env \<Rightarrow> files \<Rightarrow> path \<Rightarrow> bool" where
  "p_exists E fs p \<longleftrightarrow> followed E fs p \<noteq> None"

definition p_is_file :: "deploy_env \<Rightarrow> files \<Rightarrow> path \<Rightarrow> bool" where
  "p_is_file E fs p \<longleftrightarrow> (case followed E fs p of Some (File _) \<Rightarrow> True | _ \<Rightarrow> False)"

definition p_is_symlink :: "files \<Rightarrow> path \<Rightarrow> bool" where
  "p_is_symlink fs p \<longleftrightarrow> (case fs_get fs p of Some (Link _) \<Rightarrow> True | _ \<Rightarrow> False)"

definition p_text :: "deploy_env \<Rightarrow> files \<Rightarrow> path \<Rightarrow> string option" where
  "p_text E fs p = (case followed E fs p of Some (File c) \<Rightarrow> Some c | _ \<Rightarrow> None)"

section \<open>Commands\<close>

definition simple_command :: "string list \<Rightarrow> command" where
  "simple_command args = \<lparr>c_args = args, c_cwd = None, c_env = []\<rparr>"

definition run_process :: "deploy_env \<Rightarrow> bool \<Rightarrow> command \<Rightarrow> command_output io" where
  "run_process E check c s =
     (case de_exec E c (s_files s) (s_active s) of (r, fs, act) \<Rightarrow>
        (let t = s\<lparr>s_files := fs, s_active := act\<rparr>
         in case r of
              Missing text \<Rightarrow>
                if check then (Inl (DeployError (''Required command is unavailable: '' @ hd (c_args c))), t)
                else (Inr \<lparr>co_status = 127, co_out = [], co_err = text\<rparr>, t)
            | Broken \<Rightarrow> (Inl os_error, t)
            | Exit o1 \<Rightarrow> if check \<and> co_status o1 \<noteq> 0 then (Inl (OtherDeploy ''CalledProcessError''), t) else (Inr o1, t)))"

definition run_checked :: "deploy_env \<Rightarrow> string list \<Rightarrow> unit io" where
  "run_checked E args = io_bind (run_process E True (simple_command args)) (\<lambda>_. io_ret ())"

text \<open>\<open>_best_effort\<close>: nothing it runs into is raised.\<close>

definition best_effort :: "deploy_env \<Rightarrow> string list \<Rightarrow> unit io" where
  "best_effort E args s = (Inr (), snd (run_process E False (simple_command args) s))"

definition service_active :: "deploy_env \<Rightarrow> bool io" where
  "service_active E = io_bind (run_process E False (simple_command [''systemctl'', ''--user'', ''is-active'', ''--quiet'', service_name]))
     (\<lambda>r. io_ret (co_status r = 0))"


text \<open>The entry \<open>t\<close> of a directory, for generated names, and the directories leading to a path.\<close>

definition child :: "path \<Rightarrow> string \<Rightarrow> path" where
  "child p t = Path (path_root p) (path_parts p @ [t])"

section \<open>What an operation leaves alone\<close>

text \<open>
  \<open>framed T m\<close>: whatever happens in \<open>m\<close>, it changes no path outside \<open>T\<close> and none of the local
  variables of the deployment.
\<close>

definition framed :: "path set \<Rightarrow> 'a io \<Rightarrow> bool" where
  "framed T m \<longleftrightarrow> (\<forall>s. (\<forall>p. p \<notin> T \<longrightarrow> fs_get (s_files (snd (m s))) p = fs_get (s_files s) p)
     \<and> s_backup (snd (m s)) = s_backup s \<and> s_stopped (snd (m s)) = s_stopped s \<and> s_switched (snd (m s)) = s_switched s)"

named_theorems frame_intro \<open>what the operations leave alone\<close>

lemma framedI:
  assumes "\<And>s p. p \<notin> T \<Longrightarrow> fs_get (s_files (snd (m s))) p = fs_get (s_files s) p"
    and "\<And>s. s_backup (snd (m s)) = s_backup s \<and> s_stopped (snd (m s)) = s_stopped s \<and> s_switched (snd (m s)) = s_switched s"
  shows "framed T m"
  using assms by (simp add: framed_def)

lemma framed_get: "framed T m \<Longrightarrow> p \<notin> T \<Longrightarrow> m s = (r, t) \<Longrightarrow> fs_get (s_files t) p = fs_get (s_files s) p"
  by (metis framed_def snd_conv)

lemma framed_flags:
  "framed T m \<Longrightarrow> m s = (r, t) \<Longrightarrow> s_backup t = s_backup s \<and> s_stopped t = s_stopped s \<and> s_switched t = s_switched s"
  by (metis framed_def snd_conv)

lemma framed_mono: "framed T m \<Longrightarrow> T \<subseteq> U \<Longrightarrow> framed U m"
  by (auto simp: framed_def)

lemma map_of_filter_key: "map_of (filter (\<lambda>e. P (fst e)) fs) p = (if P p then map_of fs p else None)"
  by (induction fs) auto

lemma get_put [simp]: "fs_get (fs_put p n fs) q = (if q = p then Some n else fs_get fs q)"
  using map_of_filter_key [of "\<lambda>x. x \<noteq> p" fs q] by (auto simp: fs_put_def)

lemma get_del [simp]: "fs_get (fs_del p fs) q = (if q = p then None else fs_get fs q)"
  using map_of_filter_key [of "\<lambda>x. x \<noteq> p" fs q] by (auto simp: fs_del_def)

lemma bind_ok [simp]: "io_bind m f s = (Inr y, t) \<longleftrightarrow> (\<exists>x u. m s = (Inr x, u) \<and> f x u = (Inr y, t))"
  by (auto simp: io_bind_def split: prod.splits sum.splits)

lemma ret_eq [simp]: "io_ret x s = (r, t) \<longleftrightarrow> r = Inr x \<and> t = s"
  by (auto simp: io_ret_def)

lemma raise_eq [simp]: "io_raise e s = (r, t) \<longleftrightarrow> r = Inl e \<and> t = s"
  by (auto simp: io_raise_def)

lemma io_get_eq [simp]: "io_get f s = (r, t) \<longleftrightarrow> r = Inr (f s) \<and> t = s"
  by (auto simp: io_get_def)

lemma io_of_eq [simp]: "io_of x s = (r, t) \<longleftrightarrow> r = x \<and> t = s"
  by (auto simp: io_of_def)

lemma when_ok [simp]: "io_when b m s = (r, t) \<longleftrightarrow> (if b then m s = (r, t) else r = Inr () \<and> t = s)"
  by (auto simp: io_when_def)

lemma framed_ret [frame_intro]: "framed T (io_ret x)"
  and framed_raise [frame_intro]: "framed T (io_raise e)"
  and framed_io_get [frame_intro]: "framed T (io_get f)"
  and framed_of [frame_intro]: "framed T (io_of r)"
  by (simp_all add: framed_def io_ret_def io_raise_def io_get_def io_of_def)

lemma framed_bind [frame_intro]: "framed T m \<Longrightarrow> (\<And>x. framed T (f x)) \<Longrightarrow> framed T (io_bind m f)"
  unfolding framed_def io_bind_def by (auto split: prod.splits sum.splits) (metis snd_conv)+

lemma framed_seq [frame_intro]: "(\<And>m. m \<in> set ms \<Longrightarrow> framed T m) \<Longrightarrow> framed T (io_seq ms)"
  by (induction ms) (auto intro: frame_intro)

lemma framed_when [frame_intro]: "(b \<Longrightarrow> framed T m) \<Longrightarrow> framed T (io_when b m)"
  by (simp add: io_when_def framed_ret)

lemma framed_if [frame_intro]: "(b \<Longrightarrow> framed T m) \<Longrightarrow> (\<not> b \<Longrightarrow> framed T n) \<Longrightarrow> framed T (if b then m else n)"
  by simp

lemma framed_finally [frame_intro]: "framed T m \<Longrightarrow> framed T k \<Longrightarrow> framed T (io_finally m k)"
  unfolding framed_def io_finally_def by (auto split: prod.splits sum.splits) (metis snd_conv)+

lemma framed_sys_op: "(\<And>fs p. p \<notin> T \<Longrightarrow> fs_get (f fs) p = fs_get fs p) \<Longrightarrow> framed T (sys_op E ok f)"
  by (auto simp: framed_def sys_op_def)

lemma framed_files [frame_intro]:
  shows "p \<in> T \<Longrightarrow> framed T (make_dir E p)"
    and "p \<in> T \<Longrightarrow> framed T (create_file E p c)"
    and "p \<in> T \<Longrightarrow> framed T (write_file E p c)"
    and "p \<in> T \<Longrightarrow> framed T (make_link E q p)"
    and "p \<in> T \<Longrightarrow> q \<in> T \<Longrightarrow> framed T (rename E p q)"
    and "p \<in> T \<Longrightarrow> framed T (unlink E p)"
    and "p \<in> T \<Longrightarrow> framed T (unlink_missing_ok E p)"
    and "framed T (chmod E p)"
  unfolding make_dir_def create_file_def write_file_def make_link_def rename_def unlink_def unlink_missing_ok_def chmod_def
  by (rule framed_sys_op; auto split: option.splits)+

lemma ancestors_iff: "a \<in> set (ancestors p) \<Longrightarrow> path_relative_to p a"
  by (auto simp: ancestors_def path_relative_to_def min_def)

lemma framed_make_dirs [frame_intro]: "(\<And>a. path_relative_to p a \<Longrightarrow> a \<in> T) \<Longrightarrow> framed T (make_dirs E p)"
  unfolding make_dirs_def by (intro frame_intro) (auto intro!: framed_sys_op, metis ancestors_iff)

lemma tree_entries_set: "set (tree_entries fs p) = {q \<in> fst ` set fs. path_relative_to q p}"
  by (auto simp: tree_entries_def)

lemma framed_remove_tree [frame_intro]: "(\<And>q. path_relative_to q p \<Longrightarrow> q \<in> T) \<Longrightarrow> framed T (remove_tree E p)"
  unfolding remove_tree_def by (intro frame_intro) (auto intro!: framed_sys_op simp: tree_entries_set)

section \<open>Commands that keep out of some paths\<close>

definition confined :: "deploy_env \<Rightarrow> command \<Rightarrow> path set \<Rightarrow> bool" where
  "confined E c T \<longleftrightarrow> (\<forall>fs act p. p \<notin> T \<longrightarrow> fs_get (fst (snd (de_exec E c fs act))) p = fs_get fs p)"

lemma framed_run [frame_intro]: "confined E c T \<Longrightarrow> framed T (run_process E b c)"
  by (rule framedI)
    (auto simp: run_process_def confined_def Let_def split: prod.splits run_result.splits,
     (metis fst_conv snd_conv)+)

lemma framed_run_checked [frame_intro]: "confined E (simple_command args) T \<Longrightarrow> framed T (run_checked E args)"
  unfolding run_checked_def by (intro frame_intro)

lemma framed_best_effort [frame_intro]: "confined E (simple_command args) T \<Longrightarrow> framed T (best_effort E args)"
  using framed_run [of E "simple_command args" T False] by (simp add: framed_def best_effort_def)

end
