(* ===== verification/Deploy.thy ===== *)
theory Deploy
  imports HostFs
begin

text \<open>
  \<open>deploy\<close> and \<open>uninstall\<close> of \<open>scripts/machinedeck_deploy.py\<close>: the checks before anything is
  changed, the steps of the transaction in the order the script makes them, and the exception
  handler that undoes them. A deployment ends in an \<open>outcome\<close>; after a failing step the handler's
  own success (\<open>RolledBack\<close>) and its failure (\<open>RollbackFailed\<close>, the handler's exception) are told apart.
\<close>

section \<open>Source tree\<close>

definition reject_root :: "deploy_env \<Rightarrow> unit io" where
  "reject_root E = (if de_root E then io_raise (DeployError ''Do not install MachineDeck as root or through sudo'') else io_ret ())"

definition check_linux :: "deploy_env \<Rightarrow> unit io" where
  "check_linux E =
     (if \<not> de_linux E then io_raise (DeployError ''MachineDeck user-service installation requires Linux'')
      else if \<not> de_modern E then io_raise (DeployError ''MachineDeck requires Python 3.10 or newer'')
      else io_ret ())"

definition ensure_not_symlink :: "path \<Rightarrow> string \<Rightarrow> unit io" where
  "ensure_not_symlink p label = io_bind (io_get (\<lambda>s. p_is_symlink (s_files s) p)) (\<lambda>b.
     if b then io_raise (DeployError (''Refusing unsafe symlink for '' @ label @ '': '' @ path_str p)) else io_ret ())"

definition install_dirs :: "install_paths \<Rightarrow> path list" where
  "install_dirs ip = [ip_share ip, ip_releases ip, ip_state ip, ip_backups ip, ip_config_dir ip, ip_user_unit_dir ip]"

definition prepare_paths :: "deploy_env \<Rightarrow> install_paths \<Rightarrow> unit io" where
  "prepare_paths E ip =
     io_seq (map (\<lambda>d. io_seq [ensure_not_symlink d ''installation path'', make_dirs E d, chmod E d]) (install_dirs ip)
       @ [ensure_not_symlink (ip_config ip) ''configuration'', ensure_not_symlink (ip_unit ip) ''service unit''])"

definition unique_name :: "deploy_env \<Rightarrow> string io" where
  "unique_name E s = (Inr (de_unique E (s_tick s)), s\<lparr>s_tick := Suc (s_tick s)\<rparr>)"

definition validate_sqlite_writable :: "deploy_env \<Rightarrow> install_paths \<Rightarrow> unit io" where
  "validate_sqlite_writable E ip = io_bind (unique_name E) (\<lambda>u.
     let probe = child (ip_state ip) (''.sqlite-write-test-'' @ u @ ''.db'')
     in (\<lambda>s. case io_seq [write_file E probe [], unlink E probe] s of
          (Inr x, t) \<Rightarrow> (Inr x, t)
        | (Inl _, t) \<Rightarrow> io_seq [unlink_missing_ok E probe,
            io_raise (DeployError (''SQLite state directory is not writable: '' @ path_str (ip_state ip)))] t))"

definition project_section :: "re list" where
  "project_section = [re_seq [LineStart, lit ''[project]'', Many is_space], Lazy (\<lambda>_. True),
     Alt (Seq LineStart (Ahead (\<lambda>c. c = CHR ''[''))) TextEnd]"

definition quote_chars :: string where
  "quote_chars = [QUOTE, char_of (39 :: int)]"

definition version_line :: "re list" where
  "version_line = [re_seq [LineStart, lit ''version'', Many is_space, lit ''='', Many is_space, one_of quote_chars],
     many1 (\<lambda>c. c \<notin> set quote_chars), re_seq [one_of quote_chars, Many is_space, LineStop]]"

definition version_of :: "string \<Rightarrow> string option" where
  "version_of body =
     (let project = (case search_groups project_section None body of Some gs \<Rightarrow> gs ! 1 | None \<Rightarrow> [])
      in map_option (\<lambda>gs. gs ! 1) (search_groups version_line None project))"

definition source_version :: "deploy_env \<Rightarrow> path \<Rightarrow> files \<Rightarrow> deploy_exn + string" where
  "source_version E source fs =
     (let pyproject = under (under source ''backend'') ''pyproject.toml''
      in case p_text E fs pyproject of
           None \<Rightarrow> Inl (DeployError (''Cannot determine source version from '' @ path_str pyproject))
         | Some t \<Rightarrow>
             (case version_of t of
                None \<Rightarrow> Inl (DeployError (''Cannot determine source version from '' @ path_str pyproject))
              | Some v \<Rightarrow> validate_text v ''version''))"

definition required_source :: "path \<Rightarrow> path list" where
  "required_source source = map (under source)
     [''backend/app'', ''backend/alembic'', ''backend/alembic.ini'', ''backend/pyproject.toml'', ''frontend/index.html'',
      ''scripts/machinedeck_deploy.py'']"

definition checked_trees :: "path \<Rightarrow> path list" where
  "checked_trees source = map (under source) [''backend/app'', ''backend/alembic'', ''frontend'']"

definition validate_source :: "deploy_env \<Rightarrow> path \<Rightarrow> files \<Rightarrow> deploy_exn + path" where
  "validate_source E raw fs =
     (let source = de_resolve E fs raw
      in if \<not> list_all (p_exists E fs) (required_source source)
         then Inl (DeployError (''Not a complete MachineDeck source tree: '' @ path_str source))
         else case List.find (p_is_symlink fs)
             (concat (map (\<lambda>root. filter (\<lambda>q. path_relative_to q root \<and> q \<noteq> root) (map fst fs)) (checked_trees source))) of
           Some q \<Rightarrow> Inl (DeployError (''Source tree contains an unsafe symlink: '' @ path_str q))
         | None \<Rightarrow> Inr source)"

text \<open>\<open>shutil.copytree\<close> goes on after an entry that could not be copied and raises at the end.\<close>

definition rebase :: "path \<Rightarrow> path \<Rightarrow> path \<Rightarrow> path" where
  "rebase src dst q = Path (path_root dst) (path_parts dst @ drop (length (path_parts src)) (path_parts q))"

definition copy_node :: "deploy_env \<Rightarrow> path \<Rightarrow> path \<Rightarrow> unit io" where
  "copy_node E p q = io_bind (io_get (\<lambda>s. followed E (s_files s) p)) (\<lambda>n.
     case n of Some (File c) \<Rightarrow> write_file E q c | _ \<Rightarrow> io_raise os_error)"

definition copy_entry :: "deploy_env \<Rightarrow> path \<Rightarrow> path \<Rightarrow> path \<Rightarrow> unit io" where
  "copy_entry E src dst q = io_bind (io_get (\<lambda>s. fs_get (s_files s) q)) (\<lambda>n.
     if n = Some Dir then make_dir E (rebase src dst q) else copy_node E q (rebase src dst q))"

fun copy_entries :: "deploy_env \<Rightarrow> path \<Rightarrow> path \<Rightarrow> path list \<Rightarrow> bool \<Rightarrow> unit io" where
  "copy_entries E src dst [] failed s = (if failed then Inl os_error else Inr (), s)"
| "copy_entries E src dst (q # qs) failed s =
     (case copy_entry E src dst q s of
        (Inl _, t) \<Rightarrow> copy_entries E src dst qs True t
      | (Inr _, t) \<Rightarrow> copy_entries E src dst qs failed t)"

definition copy_tree :: "deploy_env \<Rightarrow> path \<Rightarrow> path \<Rightarrow> unit io" where
  "copy_tree E src dst = io_bind (io_get s_files) (\<lambda>fs.
     if fs_get fs src \<noteq> Some Dir then io_raise os_error
     else io_bind (make_dir E dst) (\<lambda>_. copy_entries E src dst (filter (\<lambda>q. q \<noteq> src) (rev (tree_entries fs src))) False))"

definition copy_source :: "deploy_env \<Rightarrow> path \<Rightarrow> path \<Rightarrow> unit io" where
  "copy_source E source dst =
     (let backend = under dst ''backend''; scripts = under dst ''scripts''
      in io_seq
        [make_dir E backend,
         copy_tree E (under source ''backend/app'') (under backend ''app''),
         copy_tree E (under source ''backend/alembic'') (under backend ''alembic''),
         copy_node E (under source ''backend/alembic.ini'') (under backend ''alembic.ini''),
         copy_node E (under source ''backend/pyproject.toml'') (under backend ''pyproject.toml''),
         copy_tree E (under source ''frontend'') (under dst ''frontend''),
         make_dir E scripts,
         copy_node E (under source ''scripts/machinedeck_deploy.py'') (under scripts ''machinedeck_deploy.py''),
         chmod E (under scripts ''machinedeck_deploy.py''),
         io_seq (map (\<lambda>name. io_bind (io_get (\<lambda>s. p_is_file E (s_files s) (under source name))) (\<lambda>b.
            io_when b (copy_node E (under source name) (under dst name)))) [''README.md'', ''LICENSE''])])"

section \<open>Files of an installation\<close>

text \<open>\<open>beside p t\<close> is the path named \<open>t\<close> in the directory of \<open>p\<close>.\<close>

definition beside :: "path \<Rightarrow> string \<Rightarrow> path" where
  "beside p t = path_join (path_parent p) (Path [] [t])"

definition atomic_write :: "deploy_env \<Rightarrow> path \<Rightarrow> string \<Rightarrow> unit io" where
  "atomic_write E p content = io_seq
     [ensure_not_symlink p ''managed file'',
      make_dirs E (path_parent p),
      io_bind (unique_name E) (\<lambda>u. let temporary = beside p (''.'' @ path_name p @ ''.'' @ u)
        in io_seq [create_file E temporary [],
             io_finally (io_seq [write_file E temporary content, chmod E temporary, rename E temporary p])
               (unlink_missing_ok E temporary)])]"

definition file_text :: "files \<Rightarrow> path \<Rightarrow> string option" where
  "file_text fs p = (case fs_get fs p of Some (File c) \<Rightarrow> Some c | _ \<Rightarrow> None)"

definition backup_database :: "deploy_env \<Rightarrow> install_paths \<Rightarrow> path option io" where
  "backup_database E ip =
     (let db = database_path ip
      in io_bind (io_get (\<lambda>s. (s_files s, s_tick s))) (\<lambda>(fs, n).
         if \<not> p_exists E fs db then io_ret None
         else io_bind (unique_name E) (\<lambda>u.
           let backup = child (ip_backups ip) (''machinedeck-'' @ de_time E ''%Y%m%dT%H%M%SZ'' n @ ''-'' @ take 8 u @ ''.db'')
           in case p_text E fs db of
                None \<Rightarrow> io_raise (OtherDeploy ''OperationalError'')
              | Some c \<Rightarrow> io_bind (io_seq [write_file E backup [],
                    write_file E backup (de_copy_db E c (file_text fs (beside db ''machinedeck.db-wal''))), chmod E backup])
                  (\<lambda>_. io_ret (Some backup)))))"

definition restore_database :: "deploy_env \<Rightarrow> install_paths \<Rightarrow> path option \<Rightarrow> unit io" where
  "restore_database E ip backup = (case backup of None \<Rightarrow> io_ret ()
     | Some b \<Rightarrow>
         (let db = database_path ip
          in io_seq
            [unlink_missing_ok E (beside db ''machinedeck.db-wal''),
             unlink_missing_ok E (beside db ''machinedeck.db-shm''),
             io_bind (unique_name E) (\<lambda>u. let temporary = beside db (''.machinedeck.db.restore-'' @ u)
               in io_seq [copy_node E b temporary, rename E temporary db])]))"

definition remove_database :: "deploy_env \<Rightarrow> install_paths \<Rightarrow> unit io" where
  "remove_database E ip =
     (let db = database_path ip
      in io_seq (map (unlink_missing_ok E) [db, beside db ''machinedeck.db-wal'', beside db ''machinedeck.db-shm'']))"

definition confirmed :: "deploy_env \<Rightarrow> string \<Rightarrow> bool \<Rightarrow> deploy_exn + bool" where
  "confirmed E prompt assume_yes =
     (if assume_yes then Inr True
      else case de_answer E of
        None \<Rightarrow> Inl (DeployError (''Confirmation required; rerun with --yes: '' @ prompt))
      | Some a \<Rightarrow> Inr (py_lower (py_strip a) \<in> {''y'', ''yes''}))"

definition current_target :: "deploy_env \<Rightarrow> install_paths \<Rightarrow> files \<Rightarrow> deploy_exn + path option" where
  "current_target E ip fs =
     (case fs_get fs (ip_current ip) of
        Some (Link raw) \<Rightarrow>
          (let resolved = de_resolve E fs (path_join (path_parent (ip_current ip)) raw)
           in if path_relative_to resolved (de_resolve E fs (ip_releases ip)) then Inr (Some resolved)
              else Inl (DeployError (''Current release points outside the release directory: '' @ path_str resolved)))
      | Some _ \<Rightarrow> Inl (DeployError (''Current release pointer is not a symlink: '' @ path_str (ip_current ip)))
      | None \<Rightarrow> Inr None)"

definition switch_current :: "deploy_env \<Rightarrow> install_paths \<Rightarrow> path \<Rightarrow> unit io" where
  "switch_current E ip release = io_bind (unique_name E) (\<lambda>u. let temporary = child (ip_share ip) (''.current-'' @ u)
     in io_seq [make_link E release temporary, rename E temporary (ip_current ip)])"

fun wait_for_health :: "deploy_env \<Rightarrow> int \<Rightarrow> nat \<Rightarrow> nat \<Rightarrow> unit io" where
  "wait_for_health E port i 0 = io_raise (DeployError ''MachineDeck did not pass its HTTP health check'')"
| "wait_for_health E port i (Suc n) = io_bind (io_get (\<lambda>s. de_health E (s_files s) (s_active s) port i)) (\<lambda>a.
     case a of Inr st \<Rightarrow> if st = 200 then io_ret () else wait_for_health E port (Suc i) n
     | Inl e \<Rightarrow> if e = os_error then wait_for_health E port (Suc i) n else io_raise e)"

definition release_name :: "deploy_env \<Rightarrow> string \<Rightarrow> bool \<Rightarrow> string io" where
  "release_name E version upgrade = (if \<not> upgrade then io_ret version
     else io_bind (io_get s_tick) (\<lambda>n. io_bind (unique_name E) (\<lambda>u.
       io_ret (version @ ''-'' @ de_time E ''%Y%m%d%H%M%S'' n @ ''-'' @ take 8 u))))"

section \<open>The transaction\<close>

record options =
  o_upgrade :: bool
  o_start :: bool
  o_linger :: bool
  o_yes :: bool
  o_access :: "string option"
  o_origins :: "string list"
  o_proxies :: "string list"
  o_networks :: "string list"

text \<open>The local variables of \<open>deploy\<close> that are fixed before its \<open>try\<close>.\<close>

record plan =
  pl_source :: path
  pl_old :: "path option"
  pl_server :: server_configuration
  pl_version :: string
  pl_release :: path
  pl_old_unit :: "string option"
  pl_db_existed :: bool
  pl_config_existed :: bool

definition read_configuration :: "deploy_env \<Rightarrow> install_paths \<Rightarrow> server_configuration io" where
  "read_configuration E ip = io_bind (io_get (\<lambda>s. read_server_configuration (de_toml E) (p_text E (s_files s) (ip_config ip)))) io_of"

definition planned_server :: "deploy_env \<Rightarrow> install_paths \<Rightarrow> options \<Rightarrow> server_configuration io" where
  "planned_server E ip opts = io_bind (io_get (\<lambda>s. p_exists E (s_files s) (ip_config ip))) (\<lambda>b.
     if b then read_configuration E ip
     else io_of (access_configuration (de_detected E)
       (case o_access opts of None \<Rightarrow> ''local'' | Some m \<Rightarrow> or_else m ''local'') (o_origins opts) (o_proxies opts) (o_networks opts) None None))"

definition port_free_check :: "deploy_env \<Rightarrow> int \<Rightarrow> unit io" where
  "port_free_check E port = io_bind (io_get (\<lambda>s. de_port_free E (s_files s) (s_active s) port)) (\<lambda>free.
     if free then io_ret ()
     else io_bind (service_active E) (\<lambda>act.
       if act then io_ret ()
       else io_raise (DeployError (''TCP port '' @ int_str port @ '' is already in use by another process''))))"

definition discard_incomplete :: "deploy_env \<Rightarrow> path \<Rightarrow> path option \<Rightarrow> unit io" where
  "discard_incomplete E release old = io_bind (io_get s_files) (\<lambda>fs.
     if fs_get fs release = None then io_ret ()
     else if p_is_file E fs (under release ''.installing'') \<and> Some release \<noteq> old then remove_tree E release
     else io_raise (DeployError (''Release already exists: '' @ path_str release)))"

definition old_unit_text :: "deploy_env \<Rightarrow> install_paths \<Rightarrow> string option io" where
  "old_unit_text E ip = io_bind (io_get (\<lambda>s. (p_exists E (s_files s) (ip_unit ip), p_text E (s_files s) (ip_unit ip)))) (\<lambda>(b, t).
     if \<not> b then io_ret None else case t of None \<Rightarrow> io_raise os_error | Some c \<Rightarrow> io_ret (Some c))"

text \<open>What is fixed before the \<open>try\<close> once the pointer to the current release has been read.\<close>

definition plan_release :: "deploy_env \<Rightarrow> install_paths \<Rightarrow> options \<Rightarrow> path \<Rightarrow> path option \<Rightarrow> plan io" where
  "plan_release E ip opts source old =
     io_bind (planned_server E ip opts) (\<lambda>server.
     io_bind (io_seq [port_free_check E (sc_port server), run_checked E [''systemctl'', ''--user'', ''show-environment'']]) (\<lambda>_.
     io_bind (io_bind (io_get (\<lambda>s. source_version E source (s_files s))) io_of) (\<lambda>version.
     io_bind (release_name E version (o_upgrade opts)) (\<lambda>name.
       let release = under (ip_releases ip) name
       in io_bind (discard_incomplete E release old) (\<lambda>_.
          io_bind (old_unit_text E ip) (\<lambda>old_unit.
          io_bind (io_get s_files) (\<lambda>fs.
            io_ret \<lparr>pl_source = source, pl_old = old, pl_server = server, pl_version = version, pl_release = release,
              pl_old_unit = old_unit, pl_db_existed = p_exists E fs (database_path ip),
              pl_config_existed = p_exists E fs (ip_config ip)\<rparr>)))))))"

text \<open>Everything before the \<open>try\<close>: an earlier release to return as it is, or the plan.\<close>

definition make_plan :: "deploy_env \<Rightarrow> install_paths \<Rightarrow> options \<Rightarrow> path \<Rightarrow> (path + plan) io" where
  "make_plan E ip opts raw =
     io_bind (io_seq [check_linux E, reject_root E]) (\<lambda>_.
     io_bind (io_bind (io_get (\<lambda>s. validate_source E raw (s_files s))) io_of) (\<lambda>source.
     io_bind (io_seq [prepare_paths E ip, validate_sqlite_writable E ip]) (\<lambda>_.
     io_bind (io_bind (io_get (\<lambda>s. current_target E ip (s_files s))) io_of) (\<lambda>old.
       case (o_upgrade opts, old) of
         (True, None) \<Rightarrow> io_raise (DeployError ''MachineDeck is not installed; run install first'')
       | (False, Some r) \<Rightarrow> io_ret (Inl r)
       | _ \<Rightarrow> io_bind (plan_release E ip opts source old) (\<lambda>d. io_ret (Inr d))))))"

text \<open>The steps of the \<open>try\<close> block.\<close>

definition reload :: "string list" where
  "reload = [''systemctl'', ''--user'', ''daemon-reload'']"

definition stop_service :: "deploy_env \<Rightarrow> plan \<Rightarrow> unit io" where
  "stop_service E d = (if pl_old d = None then io_ret ()
     else io_bind (service_active E) (\<lambda>act.
       if \<not> act then io_ret ()
       else io_seq [run_checked E [''systemctl'', ''--user'', ''stop'', service_name], io_mod (\<lambda>s. s\<lparr>s_stopped := True\<rparr>)]))"

definition save_database :: "deploy_env \<Rightarrow> install_paths \<Rightarrow> unit io" where
  "save_database E ip = io_bind (backup_database E ip) (\<lambda>b. io_mod (\<lambda>s. s\<lparr>s_backup := b\<rparr>))"

definition migrate :: "deploy_env \<Rightarrow> install_paths \<Rightarrow> path \<Rightarrow> unit io" where
  "migrate E ip staging =
     io_bind (run_process E True
       \<lparr>c_args = [path_str (under staging ''venv/bin/alembic''), ''upgrade'', ''head''],
        c_cwd = Some (under staging ''backend''),
        c_env = fold (\<lambda>(k, v). AList.update k v)
          [(''MACHINEDECK_CONFIG'', path_str (ip_config ip)),
           (''MACHINEDECK_DATABASE_URL'', ''sqlite:///'' @ path_str (database_path ip)),
           (''MACHINEDECK_PROJECT_ROOT'', path_str staging)] (de_environ E)\<rparr>) (\<lambda>_. io_ret ())"

definition verify_unit :: "deploy_env \<Rightarrow> install_paths \<Rightarrow> plan \<Rightarrow> unit io" where
  "verify_unit E ip d =
     (let staging = pl_release d; verification = under staging service_name
      in io_bind (io_of (service_unit (tl_str (de_toml E)) ip staging (pl_server d))) (\<lambda>text.
         io_seq [atomic_write E verification text,
           run_checked E [''systemd-analyze'', ''--user'', ''verify'', path_str verification],
           unlink E verification]))"

definition write_config :: "deploy_env \<Rightarrow> install_paths \<Rightarrow> plan \<Rightarrow> unit io" where
  "write_config E ip d = io_bind (io_get (\<lambda>s. p_exists E (s_files s) (ip_config ip))) (\<lambda>b.
     if b then io_ret ()
     else io_bind (io_of (render_config (tl_str (de_toml E)) ip (pl_server d))) (atomic_write E (ip_config ip)))"

definition start_service :: "deploy_env \<Rightarrow> options \<Rightarrow> int \<Rightarrow> unit io" where
  "start_service E opts port = io_seq
     [io_when (o_linger opts) (io_bind (io_of (confirmed E
         ''MachineDeck will continue running after logout by enabling systemd linger'' (o_yes opts))) (\<lambda>yes.
         io_when yes (run_checked E [''loginctl'', ''enable-linger'', de_user E]))),
      io_when (o_start opts) (io_seq
        [run_checked E [''systemctl'', ''--user'', ''enable'', ''--now'', service_name], wait_for_health E port 0 30])]"

definition activate :: "deploy_env \<Rightarrow> install_paths \<Rightarrow> options \<Rightarrow> unit io" where
  "activate E ip opts = io_bind (read_configuration E ip) (\<lambda>active.
     io_bind (io_of (service_unit (tl_str (de_toml E)) ip (ip_current ip) active)) (\<lambda>text.
     io_seq [atomic_write E (ip_unit ip) text, run_checked E reload, start_service E opts (sc_port active)]))"

definition switch_release :: "deploy_env \<Rightarrow> install_paths \<Rightarrow> plan \<Rightarrow> unit io" where
  "switch_release E ip d = io_bind (switch_current E ip (pl_release d)) (\<lambda>_. io_mod (\<lambda>s. s\<lparr>s_switched := True\<rparr>))"

definition build_steps :: "deploy_env \<Rightarrow> install_paths \<Rightarrow> plan \<Rightarrow> unit io list" where
  "build_steps E ip d =
     (let staging = pl_release d
      in [make_dir E staging,
          atomic_write E (under staging ''.installing'') (''incomplete'' @ [LF]),
          copy_source E (pl_source d) staging,
          run_checked E [de_python E, ''-m'', ''venv'', path_str (under staging ''venv'')],
          run_checked E [path_str (under staging ''venv/bin/python''), ''-m'', ''pip'', ''install'', path_str (under staging ''backend'')],
          atomic_write E (under staging ''VERSION'') (pl_version d @ [LF]),
          verify_unit E ip d,
          write_config E ip d,
          stop_service E d])"

definition commit_steps :: "deploy_env \<Rightarrow> install_paths \<Rightarrow> options \<Rightarrow> plan \<Rightarrow> unit io list" where
  "commit_steps E ip opts d =
     [migrate E ip (pl_release d),
      chmod E (database_path ip),
      unlink E (under (pl_release d) ''.installing''),
      switch_release E ip d,
      activate E ip opts]"

definition deploy_steps :: "deploy_env \<Rightarrow> install_paths \<Rightarrow> options \<Rightarrow> plan \<Rightarrow> unit io list" where
  "deploy_steps E ip opts d = build_steps E ip d @ save_database E ip # commit_steps E ip opts d"

section \<open>The exception handler\<close>

definition silence_service :: "deploy_env \<Rightarrow> plan \<Rightarrow> unit io" where
  "silence_service E d = best_effort E
     (if pl_old d = None then [''systemctl'', ''--user'', ''disable'', ''--now'', service_name]
      else [''systemctl'', ''--user'', ''stop'', service_name])"

definition restore_current :: "deploy_env \<Rightarrow> install_paths \<Rightarrow> plan \<Rightarrow> unit io" where
  "restore_current E ip d = io_bind (io_get s_switched) (\<lambda>b.
     if \<not> b then io_ret ()
     else case pl_old d of Some r \<Rightarrow> switch_current E ip r | None \<Rightarrow> unlink_missing_ok E (ip_current ip))"

definition restore_unit :: "deploy_env \<Rightarrow> install_paths \<Rightarrow> plan \<Rightarrow> unit io" where
  "restore_unit E ip d = (case pl_old_unit d of
     None \<Rightarrow> unlink_missing_ok E (ip_unit ip)
   | Some c \<Rightarrow> io_bind (unique_name E) (\<lambda>u. let name = beside (ip_unit ip) (''.machinedeck-unit-'' @ u)
       in io_seq [create_file E name [], write_file E name c, chmod E name, rename E name (ip_unit ip)]))"

definition undo_database :: "deploy_env \<Rightarrow> install_paths \<Rightarrow> plan \<Rightarrow> unit io" where
  "undo_database E ip d = io_bind (io_get s_backup) (\<lambda>b.
     if b \<noteq> None then restore_database E ip b
     else if \<not> pl_db_existed d then remove_database E ip else io_ret ())"

definition discard_release :: "deploy_env \<Rightarrow> path \<Rightarrow> bool \<Rightarrow> unit io" where
  "discard_release E p always = io_bind (io_get (\<lambda>s. p_exists E (s_files s) p)) (\<lambda>b.
     io_when (b \<and> always) (remove_tree E p))"

definition restart_service :: "deploy_env \<Rightarrow> unit io" where
  "restart_service E = io_bind (io_get s_stopped) (\<lambda>b.
     io_when b (best_effort E [''systemctl'', ''--user'', ''start'', service_name]))"

definition recover_steps :: "deploy_env \<Rightarrow> install_paths \<Rightarrow> plan \<Rightarrow> unit io list" where
  "recover_steps E ip d =
     [silence_service E d,
      restore_current E ip d,
      restore_unit E ip d,
      undo_database E ip d,
      io_when (\<not> pl_config_existed d) (unlink_missing_ok E (ip_config ip)),
      discard_release E (pl_release d) (Some (pl_release d) \<noteq> pl_old d),
      discard_release E (pl_release d) True,
      best_effort E reload,
      restart_service E]"

datatype outcome = Deployed path | Refused deploy_exn | RolledBack deploy_exn | RollbackFailed deploy_exn

definition transact :: "deploy_env \<Rightarrow> install_paths \<Rightarrow> options \<Rightarrow> plan \<Rightarrow> sys \<Rightarrow> outcome \<times> sys" where
  "transact E ip opts d s =
     (case io_seq (deploy_steps E ip opts d) s of
        (Inr _, t) \<Rightarrow> (Deployed (pl_release d), t)
      | (Inl e, t) \<Rightarrow>
          (case io_seq (recover_steps E ip d) t of
             (Inr _, u) \<Rightarrow> (RolledBack e, u)
           | (Inl e2, u) \<Rightarrow> (RollbackFailed e2, u)))"

definition deploy :: "deploy_env \<Rightarrow> install_paths \<Rightarrow> options \<Rightarrow> path \<Rightarrow> sys \<Rightarrow> outcome \<times> sys" where
  "deploy E ip opts raw s0 =
     (case make_plan E ip opts raw (s0\<lparr>s_backup := None, s_stopped := False, s_switched := False\<rparr>) of
        (Inl e, s) \<Rightarrow> (Refused e, s)
      | (Inr (Inl r), s) \<Rightarrow> (Deployed r, s)
      | (Inr (Inr d), s) \<Rightarrow> transact E ip opts d s)"

section \<open>Uninstall\<close>

definition generated_marker :: string where
  "generated_marker = ''# Generated by MachineDeck. Manual changes will be detected and replaced.'' @ [LF]"

text \<open>Opened with O_NOFOLLOW, so a symlink is none; its owner is the user's, as all files here.\<close>

definition is_generated_application_unit :: "files \<Rightarrow> path \<Rightarrow> bool" where
  "is_generated_application_unit fs p \<longleftrightarrow> (case fs_get fs p of
     Some (File c) \<Rightarrow> length c \<le> 64 * 1024 \<and> startswith generated_marker c | _ \<Rightarrow> False)"

definition unit_candidates :: "install_paths \<Rightarrow> files \<Rightarrow> path list" where
  "unit_candidates ip fs = filter (\<lambda>q. path_parent q = ip_user_unit_dir ip \<and> path_parts q \<noteq> []
     \<and> startswith ''machinedeck-'' (path_name q) \<and> endswith ''.service'' (drop 12 (path_name q))) (remdups (map fst fs))"

definition remove_unit :: "deploy_env \<Rightarrow> path \<Rightarrow> unit io" where
  "remove_unit E q = io_bind (io_get (\<lambda>s. is_generated_application_unit (s_files s) q)) (\<lambda>b.
     io_when (path_name q \<notin> {service_name, ''machinedeck-phase0.service''} \<and> b)
       (io_seq [ensure_not_symlink q ''managed application unit'', unlink E q]))"

definition remove_managed :: "deploy_env \<Rightarrow> install_paths \<Rightarrow> unit io" where
  "remove_managed E ip = io_bind (io_get s_files) (\<lambda>fs.
     if \<not> p_exists E fs (ip_user_unit_dir ip) then io_ret ()
     else io_seq (map (remove_unit E) (unit_candidates ip fs)
          @ [io_bind (run_process E False (simple_command reload)) (\<lambda>_. io_ret ())]))"

definition remove_if_exists :: "deploy_env \<Rightarrow> path \<Rightarrow> unit io" where
  "remove_if_exists E p = io_bind (io_get (\<lambda>s. p_exists E (s_files s) p)) (\<lambda>b. io_when b (remove_tree E p))"

definition uninstall :: "deploy_env \<Rightarrow> install_paths \<Rightarrow> bool \<Rightarrow> bool \<Rightarrow> bool \<Rightarrow> unit io" where
  "uninstall E ip purge remove_managed_units yes =
     io_seq
      ([reject_root E,
        io_when ((purge \<or> remove_managed_units) \<and> \<not> yes)
          (io_raise (DeployError ''Destructive uninstall options require --yes''))]
       @ map (\<lambda>t. ensure_not_symlink t ''uninstall target'') [ip_share ip, ip_state ip, ip_config_dir ip, ip_user_unit_dir ip]
       @ [io_bind (run_process E False (simple_command [''systemctl'', ''--user'', ''disable'', ''--now'', service_name])) (\<lambda>_. io_ret ()),
          unlink_missing_ok E (ip_unit ip),
          io_bind (run_process E False (simple_command reload)) (\<lambda>_. io_ret ()),
          remove_if_exists E (ip_share ip),
          io_when remove_managed_units (remove_managed E ip),
          io_when purge (io_seq [remove_if_exists E (ip_state ip), remove_if_exists E (ip_config_dir ip)])])"

end
