(* ===== verification/Transaction.thy ===== *)
theory Transaction
  imports Deploy
begin

text \<open>
  The paths a deployment (\<open>deploy\<close> of \<open>scripts/machinedeck_deploy.py\<close>) has to keep, what the external
  commands are assumed to keep out of, what each step leaves alone, and the conditions that hold
  between the steps: wherever the transaction stops, its handler finds a state from which it can
  restore the old installation.
\<close>

section \<open>Paths\<close>

definition db_files :: "install_paths \<Rightarrow> path list" where
  "db_files ip = [database_path ip, beside (database_path ip) ''machinedeck.db-wal'', beside (database_path ip) ''machinedeck.db-shm'']"

text \<open>
  The paths a deployment of the release \<open>rel\<close> has to keep: the pointer to the current release, the
  other releases, and the files of the configuration and unit directories (not the temporary files,
  whose names start with a dot, and not the \<open>.wants\<close> directories of systemctl).
\<close>

definition to_keep :: "install_paths \<Rightarrow> path \<Rightarrow> path \<Rightarrow> bool" where
  "to_keep ip rel p \<longleftrightarrow>
     \<not> path_relative_to p rel \<and> \<not> path_relative_to p (ip_backups ip)
     \<and> \<not> list_ex (\<lambda>d. path_relative_to d p) (install_dirs ip) \<and> p \<notin> set (db_files ip)
     \<and> (p = ip_current ip \<or> path_relative_to p (ip_releases ip)
        \<or> (path_parts p \<noteq> [] \<and> path_parent p \<in> {ip_config_dir ip, ip_user_unit_dir ip}
           \<and> \<not> startswith ''.'' (path_name p) \<and> \<not> endswith ''.wants'' (path_name p)))"

definition spared :: "install_paths \<Rightarrow> path \<Rightarrow> path \<Rightarrow> bool" where
  "spared ip rel p \<longleftrightarrow> to_keep ip rel p \<or> (path_relative_to p (ip_backups ip) \<and> p \<noteq> ip_backups ip)"

definition safe :: "install_paths \<Rightarrow> path \<Rightarrow> path set" where
  "safe ip rel = {p. spared ip rel p \<or> p \<in> set (db_files ip)}"

text \<open>The paths are laid out as \<open>InstallPaths.discover\<close> lays them out, and do not lie in each other.\<close>

definition layout :: "install_paths \<Rightarrow> bool" where
  "layout ip \<longleftrightarrow> ip_releases ip = child (ip_share ip) ''releases'' \<and> ip_current ip = child (ip_share ip) ''current''
     \<and> ip_backups ip = child (ip_state ip) ''backups'' \<and> ip_config ip = child (ip_config_dir ip) ''config.toml''
     \<and> ip_unit ip = child (ip_user_unit_dir ip) service_name"

definition separate :: "install_paths \<Rightarrow> bool" where
  "separate ip \<longleftrightarrow>
     list_all (\<lambda>d. \<not> path_relative_to d (ip_releases ip)) [ip_state ip, ip_backups ip, ip_config_dir ip, ip_user_unit_dir ip]
     \<and> list_all (\<lambda>d. \<not> path_relative_to d (ip_backups ip)) [ip_share ip, ip_releases ip, ip_state ip, ip_config_dir ip, ip_user_unit_dir ip]
     \<and> list_all (\<lambda>q. list_all (\<lambda>d. \<not> path_relative_to d q) (install_dirs ip))
         (ip_config ip # ip_unit ip # ip_current ip # db_files ip)"

definition installation :: "install_paths \<Rightarrow> path \<Rightarrow> bool" where
  "installation ip rel \<longleftrightarrow> layout ip \<and> separate ip \<and> path_parent rel = ip_releases ip \<and> path_parts rel \<noteq> []"

text \<open>
  The commands run (venv, pip, alembic, systemctl, loginctl) do not touch these paths, and only the
  migration and the start of the service touch the database.
\<close>

definition database_command :: "command \<Rightarrow> bool" where
  "database_command c \<longleftrightarrow> (length (c_args c) = 3 \<and> drop 1 (c_args c) = [''upgrade'', ''head''])
     \<or> c_args c = [''systemctl'', ''--user'', ''enable'', ''--now'', service_name]"

definition commands_confined :: "deploy_env \<Rightarrow> install_paths \<Rightarrow> path \<Rightarrow> bool" where
  "commands_confined E ip rel \<longleftrightarrow>
     (\<forall>c. confined E c (- {p. spared ip rel p})) \<and> (\<forall>c. \<not> database_command c \<longrightarrow> confined E c (- safe ip rel))"

lemma beside_child [simp]: "beside p t = child (path_parent p) t"
  by (simp add: beside_def child_def path_join_def path_parent_def path_is_absolute_def)

lemma child_eq [simp]: "child p t = child q u \<longleftrightarrow> p = q \<and> t = u"
  by (cases p; cases q) (auto simp: child_def)

lemma child_parts [simp]: "path_parts (child p t) = path_parts p @ [t]"
  and child_root [simp]: "path_root (child p t) = path_root p"
  and parent_child [simp]: "path_parent (child p t) = p"
  and name_child [simp]: "path_name (child p t) = t"
  by (simp_all add: child_def path_parent_def path_name_def)

lemma child_neq [simp]: "child p t \<noteq> p" "p \<noteq> child p t"
  by (metis append_self_conv child_parts not_Cons_self2)+

lemma parent_eq_child: "path_parts r \<noteq> [] \<Longrightarrow> path_parent r = d \<Longrightarrow> r = child d (last (path_parts r))"
  by (cases r) (auto simp: path_parent_def child_def)

lemma relative_child [simp]: "path_relative_to (child p t) q \<longleftrightarrow> q = child p t \<or> path_relative_to p q"
  by (cases p; cases q)
    (auto simp: path_relative_to_iff child_def append_eq_append_conv2 Cons_eq_append_conv append_eq_Cons_conv)

lemma relative_to_child: "path_relative_to q (child p t) \<Longrightarrow> path_relative_to q p"
  by (auto simp: path_relative_to_iff)

lemma not_relative_child [simp]: "\<not> path_relative_to p (child p t)"
  by (auto simp: path_relative_to_iff)

lemma relative_comparable: "path_relative_to p q \<Longrightarrow> path_relative_to p r \<Longrightarrow> path_relative_to q r \<or> path_relative_to r q"
  by (auto simp: path_relative_to_iff append_eq_append_conv2) metis

lemma relative_antisym: "path_relative_to p q \<Longrightarrow> path_relative_to q p \<Longrightarrow> p = q"
  by (cases p; cases q) (auto simp: path_relative_to_iff)

lemma plain_start: "\<not> startswith ''/'' s \<Longrightarrow> \<not> startswith ''//'' s \<and> \<not> startswith ''///'' s"
  by (cases s) (auto simp: startswith_def)

lemma under_one:
  assumes "s \<noteq> []" "CHR ''/'' \<notin> set s" "s \<noteq> ''.''"
  shows "under p s = child p s"
proof -
  have "split_on (CHR ''/'') s = [s]" using assms(2) by (induction s) auto
  moreover have "\<not> startswith ''/'' s" using assms(1,2) by (cases s) (auto simp: startswith_def)
  ultimately show ?thesis using assms(1,3) plain_start [of s]
    by (simp add: under_def path_of_def path_join_def path_is_absolute_def child_def)
qed

lemma database_child: "database_path ip = child (ip_state ip) ''machinedeck.db''"
  by (simp add: database_path_def under_one)

lemma db_files_child: "db_files ip = map (child (ip_state ip)) [''machinedeck.db'', ''machinedeck.db-wal'', ''machinedeck.db-shm'']"
  by (simp add: db_files_def database_child)

lemma relative_under: "\<not> startswith ''/'' s \<Longrightarrow> path_relative_to (under p s) p"
  unfolding under_def using plain_start [of s]
  by (intro path_relative_to_join) (simp add: path_of_def path_is_absolute_def)

section \<open>Paths the script writes to\<close>

lemma staging_not_safe:
  assumes inst: "installation ip rel" and p: "path_relative_to p rel"
  shows "p \<notin> safe ip rel"
proof -
  have rel: "path_relative_to rel (ip_releases ip)"
    using inst by (metis installation_def parent_eq_child path_relative_to_refl relative_child)
  then have pr: "path_relative_to p (ip_releases ip)" using p path_relative_to_trans by blast
  have "\<not> path_relative_to p (ip_backups ip)"
    using relative_comparable [OF pr] inst by (auto simp: installation_def separate_def)
  moreover have "p \<notin> set (db_files ip)"
    using pr inst by (auto simp: installation_def separate_def db_files_child layout_def install_dirs_def)
  ultimately show ?thesis using p by (auto simp: safe_def spared_def to_keep_def)
qed

lemma ancestor_not_safe:
  assumes inst: "installation ip rel" and d: "d \<in> set (install_dirs ip)" "path_relative_to d p"
  shows "p \<notin> safe ip rel"
proof -
  have "\<not> (path_relative_to p (ip_backups ip) \<and> p \<noteq> ip_backups ip)"
  proof
    assume p: "path_relative_to p (ip_backups ip) \<and> p \<noteq> ip_backups ip"
    then have "path_relative_to d (ip_backups ip)" using d path_relative_to_trans by blast
    then have "d = ip_backups ip" using inst d by (auto simp: installation_def separate_def install_dirs_def)
    then show False using p d relative_antisym by blast
  qed
  moreover have "p \<notin> set (db_files ip)" using inst d by (auto simp: installation_def separate_def list_all_iff)
  moreover have "\<not> to_keep ip rel p" using d by (auto simp: to_keep_def list_ex_iff)
  ultimately show ?thesis by (auto simp: safe_def spared_def)
qed

lemma dotted_not_safe:
  assumes inst: "installation ip rel" and t: "startswith ''.'' t"
    and d: "d \<in> {ip_share ip, ip_state ip, ip_config_dir ip, ip_user_unit_dir ip}"
  shows "child d t \<notin> safe ip rel"
proof -
  have names: "t \<noteq> ''current''" "t \<noteq> ''releases''" "t \<noteq> ''backups''" "t \<notin> {''machinedeck.db'', ''machinedeck.db-wal'', ''machinedeck.db-shm''}"
    using t by (auto simp: startswith_def)
  have b: "\<not> path_relative_to (child d t) (ip_backups ip)"
    using inst d names by (auto simp: installation_def separate_def layout_def)
  have "\<not> path_relative_to (child d t) (ip_releases ip)"
    using inst d names by (auto simp: installation_def separate_def layout_def)
  moreover have "child d t \<notin> set (db_files ip)" using names by (auto simp: db_files_child)
  ultimately show ?thesis using b inst names t by (auto simp: safe_def spared_def to_keep_def installation_def layout_def)
qed

section \<open>What the steps leave alone\<close>

lemma framed_unique_name [frame_intro]: "framed T (unique_name E)"
  by (simp add: framed_def unique_name_def)

lemma framed_ensure [frame_intro]: "framed T (ensure_not_symlink p l)"
  unfolding ensure_not_symlink_def by (intro frame_intro)

lemma framed_option [frame_intro]:
  "(x = None \<Longrightarrow> framed T a) \<Longrightarrow> (\<And>y. x = Some y \<Longrightarrow> framed T (b y)) \<Longrightarrow> framed T (case x of None \<Rightarrow> a | Some y \<Rightarrow> b y)"
  by (cases x) auto

lemma framed_atomic_write [frame_intro]:
  assumes "p \<in> T" and "\<And>u. child (path_parent p) (''.'' @ path_name p @ ''.'' @ u) \<in> T"
    and "\<And>a. path_relative_to (path_parent p) a \<Longrightarrow> a \<in> T"
  shows "framed T (atomic_write E p c)"
  unfolding atomic_write_def Let_def using assms by (auto intro!: frame_intro)

lemma framed_copy_node [frame_intro]: "q \<in> T \<Longrightarrow> framed T (copy_node E p q)"
  unfolding copy_node_def by (auto intro!: frame_intro split: option.splits node.splits)

lemma framed_copy_entries:
  assumes "\<And>q. rebase src dst q \<in> T"
  shows "framed T (copy_entries E src dst qs b)"
proof (induction qs arbitrary: b)
  case Nil
  then show ?case by (simp add: framed_def)
next
  case (Cons q qs)
  have "framed T (copy_entry E src dst q)"
    unfolding copy_entry_def using assms by (auto intro!: frame_intro)
  with Cons show ?case by (auto simp: framed_def split: prod.splits sum.splits) (metis snd_conv)+
qed

lemma rebase_relative: "path_relative_to (rebase src dst q) dst"
  by (simp add: rebase_def path_relative_to_iff)

lemma framed_copy_tree:
  assumes "\<And>q. path_relative_to q dst \<Longrightarrow> q \<in> T"
  shows "framed T (copy_tree E src dst)"
  unfolding copy_tree_def using assms
  by (auto intro!: frame_intro framed_copy_entries simp: rebase_relative)

lemma framed_copy_source [frame_intro]:
  assumes T: "\<And>q. path_relative_to q dst \<Longrightarrow> q \<in> T"
  shows "framed T (copy_source E src dst)"
proof -
  have sub1: "q \<in> T" if "path_relative_to q (under dst s)" "\<not> startswith ''/'' s" for q s
    by (rule T, rule path_relative_to_trans [OF that(1) relative_under [OF that(2)]])
  have sub2: "q \<in> T" if "path_relative_to q (under (under dst s) t)" "\<not> startswith ''/'' s" "\<not> startswith ''/'' t" for q s t
    by (rule sub1 [OF path_relative_to_trans [OF that(1) relative_under [OF that(3)]] that(2)])
  note mem = sub1 [OF path_relative_to_refl] sub2 [OF path_relative_to_refl]
  have tree1: "framed T (copy_tree E src (under dst s))" if "\<not> startswith ''/'' s" for src s
    by (rule framed_copy_tree) (rule sub1 [OF _ that])
  have tree2: "framed T (copy_tree E src (under (under dst s) t))" if "\<not> startswith ''/'' s" "\<not> startswith ''/'' t" for src s t
    by (rule framed_copy_tree) (rule sub2 [OF _ that])
  show ?thesis
    unfolding copy_source_def Let_def io_seq.simps list.map
    by (intro frame_intro tree1 tree2 mem) (simp_all add: startswith_def)
qed

lemma framed_service_active [frame_intro]:
  "confined E (simple_command [''systemctl'', ''--user'', ''is-active'', ''--quiet'', service_name]) T \<Longrightarrow> framed T (service_active E)"
  unfolding service_active_def by (intro frame_intro)

lemma framed_health [frame_intro]: "framed T (wait_for_health E port i n)"
proof (induction n arbitrary: i)
  case 0
  show ?case by (simp add: framed_raise)
next
  case (Suc n)
  then show ?case by (auto intro!: frame_intro split: sum.splits)
qed

section \<open>The state during the transaction\<close>

lemma confined_simple:
  "commands_confined E ip rel \<Longrightarrow> \<not> database_command (simple_command args) \<Longrightarrow> confined E (simple_command args) (- safe ip rel)"
  by (simp add: commands_confined_def)

lemma database_simple [simp]:
  "database_command (simple_command args) \<longleftrightarrow> (length args = 3 \<and> drop 1 args = [''upgrade'', ''head''])
     \<or> args = [''systemctl'', ''--user'', ''enable'', ''--now'', service_name]"
  by (simp add: database_command_def simple_command_def)

lemma staging_ancestor:
  assumes "installation ip rel" "path_relative_to rel a"
  shows "a \<notin> safe ip rel"
proof -
  have "rel = child (ip_releases ip) (last (path_parts rel))" using assms(1) by (metis installation_def parent_eq_child)
  then have "a = rel \<or> path_relative_to (ip_releases ip) a" using assms(2) by (metis relative_child)
  then show ?thesis using assms(1) staging_not_safe ancestor_not_safe [of ip rel "ip_releases ip"] by (auto simp: install_dirs_def)
qed

lemma framed_staging_write:
  assumes "installation ip rel"
  shows "framed (- safe ip rel) (atomic_write E (child rel t) c)"
  by (rule framed_atomic_write) (auto simp: assms staging_not_safe staging_ancestor [OF assms])

lemma installation_names:
  assumes "installation ip rel"
  shows "ip_config ip \<noteq> ip_current ip" "ip_unit ip \<noteq> ip_current ip" "ip_unit ip \<noteq> ip_config ip"
    "ip_config ip \<notin> set (db_files ip)" "ip_unit ip \<notin> set (db_files ip)" "ip_current ip \<notin> set (db_files ip)"
    "\<not> path_relative_to (ip_config ip) (ip_backups ip)" "\<not> path_relative_to (ip_unit ip) (ip_backups ip)"
    "\<not> path_relative_to (ip_current ip) (ip_backups ip)"
  using assms by (auto simp: installation_def layout_def separate_def service_name_def db_files_child)

lemma framed_file_write:
  assumes inst: "installation ip rel" and d: "d \<in> {ip_config_dir ip, ip_user_unit_dir ip}" and T: "- safe ip rel \<subseteq> T" "child d t \<in> T"
  shows "framed T (atomic_write E (child d t) c)"
proof (rule framed_atomic_write)
  show "child d t \<in> T" by (rule T)
  show "child (path_parent (child d t)) (''.'' @ path_name (child d t) @ ''.'' @ u) \<in> T" for u
    using dotted_not_safe [OF inst, of "''.'' @ t @ ''.'' @ u" d] d T by (auto simp: startswith_def)
  show "a \<in> T" if "path_relative_to (path_parent (child d t)) a" for a
    using ancestor_not_safe [OF inst _ that] d T by (auto simp: install_dirs_def)
qed

text \<open>
  What the handler relies on, for the files \<open>F\<close> of the host when the transaction began: the paths to
  keep are as they were, apart from the three the handler restores, and so is the database, unless
  there is a backup of it. A database that is a symlink is not covered.
\<close>

definition db_saved :: "deploy_env \<Rightarrow> install_paths \<Rightarrow> files \<Rightarrow> sys \<Rightarrow> bool" where
  "db_saved E ip F s \<longleftrightarrow> (\<exists>b c. fs_get F (database_path ip) = Some (File c) \<and> s_backup s = Some b
     \<and> path_relative_to b (ip_backups ip) \<and> b \<noteq> ip_backups ip
     \<and> fs_get (s_files s) b = Some (File (de_copy_db E c (file_text F (beside (database_path ip) ''machinedeck.db-wal'')))))"

definition same_on :: "path set \<Rightarrow> files \<Rightarrow> sys \<Rightarrow> bool" where
  "same_on S F s \<longleftrightarrow> (\<forall>p\<in>S. fs_get (s_files s) p = fs_get F p)"

definition holds_old :: "install_paths \<Rightarrow> plan \<Rightarrow> files \<Rightarrow> sys \<Rightarrow> bool" where
  "holds_old ip d F s \<longleftrightarrow>
     same_on {p. to_keep ip (pl_release d) p \<and> p \<notin> {ip_current ip, ip_unit ip, ip_config ip}} F s
     \<and> (\<not> s_switched s \<longrightarrow> same_on {p. to_keep ip (pl_release d) p \<and> p = ip_current ip} F s)
     \<and> (pl_config_existed d \<longrightarrow> same_on {p. to_keep ip (pl_release d) p \<and> p = ip_config ip} F s)"

definition db_link :: "install_paths \<Rightarrow> files \<Rightarrow> bool" where
  "db_link ip F \<longleftrightarrow> p_is_symlink F (database_path ip)"

definition building :: "install_paths \<Rightarrow> plan \<Rightarrow> files \<Rightarrow> sys \<Rightarrow> bool" where
  "building ip d F s \<longleftrightarrow> s_backup s = None \<and> \<not> s_switched s
     \<and> same_on {p \<in> safe ip (pl_release d). p = ip_config ip \<longrightarrow> pl_config_existed d} F s"

definition committing :: "deploy_env \<Rightarrow> install_paths \<Rightarrow> plan \<Rightarrow> files \<Rightarrow> sys \<Rightarrow> bool" where
  "committing E ip d F s \<longleftrightarrow> holds_old ip d F s
     \<and> (db_link ip F \<or> db_saved E ip F s \<or> (fs_get F (database_path ip) = None \<and> s_backup s = None))"

definition recoverable :: "deploy_env \<Rightarrow> install_paths \<Rightarrow> plan \<Rightarrow> files \<Rightarrow> sys \<Rightarrow> bool" where
  "recoverable E ip d F s \<longleftrightarrow> holds_old ip d F s
     \<and> (db_link ip F \<or> db_saved E ip F s \<or> (fs_get F (database_path ip) = None \<and> s_backup s = None)
        \<or> (s_backup s = None \<and> same_on (set (db_files ip)) F s))"

lemma same_on_framed: "framed T m \<Longrightarrow> same_on S F s \<Longrightarrow> S \<inter> T = {} \<Longrightarrow> same_on S F (snd (m s))"
  by (auto simp: same_on_def framed_def) (metis disjoint_iff)

lemma building_framed:
  assumes "framed T m" "building ip d F s" and "\<And>p. p \<in> T \<Longrightarrow> p \<in> safe ip (pl_release d) \<Longrightarrow> p = ip_config ip \<and> \<not> pl_config_existed d"
  shows "building ip d F (snd (m s))"
proof -
  have "same_on {p \<in> safe ip (pl_release d). p = ip_config ip \<longrightarrow> pl_config_existed d} F (snd (m s))"
    by (rule same_on_framed [OF assms(1)]) (use assms(2,3) in \<open>auto simp: building_def\<close>)
  then show ?thesis using assms(1,2) by (simp add: building_def framed_def)
qed

lemma building_holds_old:
  assumes inst: "installation ip (pl_release d)" and s: "building ip d F s"
  shows "holds_old ip d F s"
proof -
  have "fs_get (s_files s) p = fs_get F p" if "to_keep ip (pl_release d) p" "p = ip_config ip \<longrightarrow> pl_config_existed d" for p
    using s that by (simp add: building_def same_on_def safe_def spared_def)
  then show ?thesis using installation_names(1) [OF inst] by (simp add: holds_old_def same_on_def)
qed

lemma building_db:
  "installation ip (pl_release d) \<Longrightarrow> building ip d F s \<Longrightarrow> same_on (set (db_files ip)) F s"
  using installation_names(4) [of ip "pl_release d"] by (force simp: building_def same_on_def safe_def)

lemma building_recoverable: "installation ip (pl_release d) \<Longrightarrow> building ip d F s \<Longrightarrow> recoverable E ip d F s"
  by (simp add: recoverable_def building_holds_old building_db) (simp add: building_def)

lemma committing_recoverable: "committing E ip d F s \<Longrightarrow> recoverable E ip d F s"
  by (auto simp: committing_def recoverable_def)

lemma holds_old_framed:
  assumes m: "framed T m" and T: "\<And>p. p \<in> T \<Longrightarrow> to_keep ip (pl_release d) p \<Longrightarrow> p = ip_unit ip"
    and inst: "installation ip (pl_release d)" and h: "holds_old ip d F s"
  shows "holds_old ip d F (snd (m s))"
proof -
  have "same_on {p. to_keep ip (pl_release d) p \<and> p \<notin> {ip_current ip, ip_unit ip, ip_config ip}} F (snd (m s))"
    by (rule same_on_framed [OF m]) (use T h in \<open>auto simp: holds_old_def\<close>)
  moreover have "same_on {p. to_keep ip (pl_release d) p \<and> p = ip_current ip} F (snd (m s))" if "\<not> s_switched s"
    by (rule same_on_framed [OF m]) (use T h that installation_names [OF inst] in \<open>auto simp: holds_old_def\<close>)
  moreover have "same_on {p. to_keep ip (pl_release d) p \<and> p = ip_config ip} F (snd (m s))" if "pl_config_existed d"
    by (rule same_on_framed [OF m]) (use T h that installation_names [OF inst] in \<open>auto simp: holds_old_def\<close>)
  ultimately show ?thesis using m by (auto simp: holds_old_def framed_def)
qed

lemma db_saved_framed:
  assumes m: "framed T m" and T: "\<And>p. p \<in> T \<Longrightarrow> path_relative_to p (ip_backups ip) \<Longrightarrow> p = ip_backups ip" and s: "db_saved E ip F s"
  shows "db_saved E ip F (snd (m s))"
proof -
  obtain b c where b: "path_relative_to b (ip_backups ip)" "b \<noteq> ip_backups ip"
    "fs_get F (database_path ip) = Some (File c)" "s_backup s = Some b"
    "fs_get (s_files s) b = Some (File (de_copy_db E c (file_text F (beside (database_path ip) ''machinedeck.db-wal''))))"
    using s by (auto simp: db_saved_def)
  then have "b \<notin> T" using T by auto
  then show ?thesis using b m unfolding db_saved_def framed_def by metis
qed

lemma committing_framed:
  assumes m: "framed T m" and T: "\<And>p. p \<in> T \<Longrightarrow> spared ip (pl_release d) p \<Longrightarrow> p = ip_unit ip"
    and inst: "installation ip (pl_release d)" and c: "committing E ip d F s"
  shows "committing E ip d F (snd (m s))"
proof -
  have "holds_old ip d F (snd (m s))"
    by (rule holds_old_framed [OF m _ inst]) (use T c in \<open>auto simp: spared_def committing_def\<close>)
  moreover have "db_saved E ip F s \<Longrightarrow> db_saved E ip F (snd (m s))"
    by (erule db_saved_framed [OF m, rotated]) (use T installation_names [OF inst] in \<open>auto simp: spared_def\<close>)
  ultimately show ?thesis using c m by (auto simp: committing_def framed_def)
qed

section \<open>Steps that keep a condition\<close>

definition preserves :: "(sys \<Rightarrow> bool) \<Rightarrow> 'a io \<Rightarrow> bool" where
  "preserves P m \<longleftrightarrow> (\<forall>s. P s \<longrightarrow> P (snd (m s)))"

lemma preserves_bind: "preserves P m \<Longrightarrow> (\<And>x. preserves P (f x)) \<Longrightarrow> preserves P (io_bind m f)"
  unfolding preserves_def io_bind_def by (fastforce split: prod.splits sum.splits)

lemma preserves_seq: "(\<And>m. m \<in> set ms \<Longrightarrow> preserves P m) \<Longrightarrow> preserves P (io_seq ms)"
  by (induction ms) (auto intro!: preserves_bind, simp add: preserves_def io_ret_def)

lemma preserves_run: "preserves P m \<Longrightarrow> P s \<Longrightarrow> m s = (r, t) \<Longrightarrow> P t"
  by (metis preserves_def snd_conv)

lemma preserves_building:
  assumes "framed T m" and "\<And>p. p \<in> T \<Longrightarrow> p \<in> safe ip (pl_release d) \<Longrightarrow> p = ip_config ip \<and> \<not> pl_config_existed d"
  shows "preserves (building ip d F) m"
  using building_framed [OF assms(1) _ assms(2)] by (simp add: preserves_def)

lemma preserves_committing:
  assumes "framed T m" and "\<And>p. p \<in> T \<Longrightarrow> spared ip (pl_release d) p \<Longrightarrow> p = ip_unit ip" and "installation ip (pl_release d)"
  shows "preserves (committing E ip d F) m"
  using committing_framed [OF assms(1) _ assms(3)] assms(2) by (simp add: preserves_def)

lemma atomic_write_symlink: "p_is_symlink (s_files s) p \<Longrightarrow> snd (atomic_write E p c s) = s"
  by (simp add: atomic_write_def ensure_not_symlink_def io_bind_def io_get_def io_raise_def)

lemma quiet: "framed (- safe ip (pl_release d)) m \<Longrightarrow> preserves (building ip d F) m"
  by (erule preserves_building) simp

lemma write_config_keeps:
  assumes inst: "installation ip (pl_release d)" and existed: "pl_config_existed d = p_exists E F (ip_config ip)"
  shows "preserves (building ip d F) (write_config E ip d)"
proof -
  have "ip_config ip = child (ip_config_dir ip) ''config.toml''" using inst by (simp add: installation_def layout_def)
  then have T: "framed (insert (ip_config ip) (- safe ip (pl_release d))) (atomic_write E (ip_config ip) c)" for c
    using framed_file_write [OF inst, of "ip_config_dir ip" "insert (ip_config ip) (- safe ip (pl_release d))"] by auto
  have w: "building ip d F (snd (atomic_write E (ip_config ip) c s))"
    if s: "building ip d F s" "\<not> p_exists E (s_files s) (ip_config ip)" for c s
  proof (cases "pl_config_existed d \<and> ip_config ip \<in> safe ip (pl_release d)")
    case False
    then show ?thesis by (intro building_framed [OF T s(1)]) auto
  next
    case True
    then have "fs_get (s_files s) (ip_config ip) = fs_get F (ip_config ip)"
      using s(1) by (simp add: building_def same_on_def)
    moreover have "p_exists E F (ip_config ip)" using True existed by simp
    ultimately have "p_is_symlink (s_files s) (ip_config ip)"
      using s(2) by (auto simp: p_exists_def followed_def p_is_symlink_def split: option.splits node.splits)
    then show ?thesis using s(1) by (simp add: atomic_write_symlink)
  qed
  show ?thesis
    unfolding preserves_def write_config_def io_bind_def io_get_def io_of_def io_ret_def
    using w by (auto split: sum.splits)
qed

lemma build_step_framed:
  assumes inst: "installation ip (pl_release d)" and conf: "commands_confined E ip (pl_release d)"
    and m: "m \<in> set (take 7 (build_steps E ip d))"
  shows "framed (- safe ip (pl_release d)) m"
proof -
  let ?S = "pl_release d"
  have wr: "framed (- safe ip ?S) (atomic_write E (under ?S t) c)" if "t \<noteq> []" "CHR ''/'' \<notin> set t" "t \<noteq> ''.''" for t c
    using framed_staging_write [OF inst] under_one [OF that] by simp
  have cmd: "framed (- safe ip ?S) (run_checked E args)" if "\<not> database_command (simple_command args)" for args
    by (intro frame_intro confined_simple [OF conf that])
  have verify: "framed (- safe ip ?S) (verify_unit E ip d)"
    unfolding verify_unit_def Let_def io_seq.simps
    by (intro frame_intro wr cmd) (auto simp: service_name_def under_one staging_not_safe [OF inst])
  have "framed (- safe ip ?S) (copy_source E (pl_source d) ?S)" "framed (- safe ip ?S) (make_dir E ?S)"
    by (intro frame_intro; simp add: staging_not_safe [OF inst])+
  then show ?thesis
    using m verify unfolding build_steps_def Let_def by (auto intro!: wr cmd)
qed

lemma stop_service_preserves:
  assumes conf: "commands_confined E ip rel" and P: "\<And>m :: unit io. framed (- safe ip rel) m \<Longrightarrow> preserves P m"
    "\<And>m :: bool io. framed (- safe ip rel) m \<Longrightarrow> preserves P m" "\<And>s b. P s \<Longrightarrow> P (s\<lparr>s_stopped := b\<rparr>)"
  shows "preserves P (stop_service E d)"
proof -
  have "preserves P (io_mod (\<lambda>s. s\<lparr>s_stopped := True\<rparr>))" using P(3) by (simp add: preserves_def io_mod_def)
  moreover have "preserves P (service_active E)"
    by (intro P frame_intro confined_simple [OF conf]) simp
  moreover have "preserves P (run_checked E [''systemctl'', ''--user'', ''stop'', service_name])"
    by (intro P frame_intro confined_simple [OF conf]) simp
  moreover have "preserves P (io_ret ())" by (intro P frame_intro)
  ultimately show ?thesis unfolding stop_service_def by (auto intro!: preserves_bind preserves_seq)
qed

lemma build_step_keeps:
  assumes inst: "installation ip (pl_release d)" and conf: "commands_confined E ip (pl_release d)"
    and existed: "pl_config_existed d = p_exists E F (ip_config ip)" and m: "m \<in> set (build_steps E ip d)"
  shows "preserves (building ip d F) m"
proof -
  have "m \<in> set (take 7 (build_steps E ip d)) \<or> m = write_config E ip d \<or> m = stop_service E d"
    using m by (auto simp: build_steps_def Let_def)
  moreover have "preserves (building ip d F) (stop_service E d)"
    by (rule stop_service_preserves [OF conf quiet quiet]) (auto simp: building_def same_on_def)
  ultimately show ?thesis
    using build_step_framed [OF inst conf] write_config_keeps [OF inst existed] by (auto intro: quiet)
qed

lemma framed_backup: "framed {p. path_relative_to p (ip_backups ip) \<and> p \<noteq> ip_backups ip} (backup_database E ip)"
  unfolding backup_database_def Let_def io_seq.simps
  by (auto intro!: frame_intro split: prod.splits)

lemma write_file_ok: "write_file E p c s = (Inr x, t) \<Longrightarrow> fs_get (s_files t) p = Some (File c)"
  by (auto simp: write_file_def sys_op_def split: if_splits)

lemma chmod_files: "chmod E p s = (r, t) \<Longrightarrow> s_files t = s_files s"
  by (auto simp: chmod_def sys_op_def split: if_splits)

lemma backup_ok:
  assumes "backup_database E ip s = (Inr b, t)"
  shows "(b = None \<longrightarrow> \<not> p_exists E (s_files s) (database_path ip) \<and> t = s)
    \<and> (\<forall>q. b = Some q \<longrightarrow> path_relative_to q (ip_backups ip) \<and> q \<noteq> ip_backups ip
        \<and> (\<exists>c. p_text E (s_files s) (database_path ip) = Some c \<and> fs_get (s_files t) q = Some (File (de_copy_db E c
              (file_text (s_files s) (beside (database_path ip) ''machinedeck.db-wal''))))))"
proof (cases "p_exists E (s_files s) (database_path ip)")
  case False
  with assms show ?thesis by (auto simp: backup_database_def Let_def)
next
  case True
  with assms show ?thesis
    by (auto simp: backup_database_def Let_def split: option.splits dest!: write_file_ok chmod_files)
qed

lemma save_database_result:
  assumes inst: "installation ip (pl_release d)" and s: "building ip d F s" and run: "save_database E ip s = (r, t)"
  shows "recoverable E ip d F t" and "r = Inr () \<Longrightarrow> committing E ip d F t"
proof -
  obtain r1 u where b: "backup_database E ip s = (r1, u)" by fastforce
  have u: "holds_old ip d F u"
    using holds_old_framed [OF framed_backup _ inst building_holds_old [OF inst s]] b by (simp add: to_keep_def) (metis snd_conv)
  have db: "fs_get (s_files s) q = fs_get F q" if "q \<in> set (db_files ip)" for q
    using building_db [OF inst s] that by (simp add: same_on_def)
  have "set (db_files ip) \<inter> {p. path_relative_to p (ip_backups ip) \<and> p \<noteq> ip_backups ip} = {}"
    using inst by (auto simp: db_files_child installation_def separate_def layout_def)
  from same_on_framed [OF framed_backup building_db [OF inst s] this, of E] have same: "same_on (set (db_files ip)) F u"
    using b by simp
  show c: "committing E ip d F t" if ok: "r = Inr ()"
  proof -
    obtain bk where bk: "r1 = Inr bk" "t = u\<lparr>s_backup := bk\<rparr>"
      using run ok b by (auto simp: save_database_def io_mod_def)
    have h: "holds_old ip d F t" using u by (simp add: bk holds_old_def same_on_def)
    show ?thesis
    proof (cases "db_link ip F")
      case True
      then show ?thesis using h by (simp add: committing_def)
    next
      case False
      then have nolink: "followed E (s_files s) (database_path ip) = fs_get F (database_path ip)"
        using db [of "database_path ip"] by (auto simp: followed_def db_link_def p_is_symlink_def db_files_def split: option.splits node.splits)
      have wal: "file_text (s_files s) (beside (database_path ip) ''machinedeck.db-wal'') = file_text F (beside (database_path ip) ''machinedeck.db-wal'')"
        using db [of "beside (database_path ip) ''machinedeck.db-wal''"] by (simp add: file_text_def db_files_def)
      show ?thesis
        using backup_ok [of E ip s bk u] b bk h False wal
        by (cases bk) (auto simp: committing_def db_saved_def p_exists_def p_text_def nolink split: option.splits node.splits)
    qed
  qed
  show "recoverable E ip d F t"
  proof (cases r1)
    case (Inl e)
    then have "t = u" using run b by (auto simp: save_database_def io_bind_def)
    moreover have "s_backup u = None" using framed_flags [OF framed_backup b] s by (simp add: building_def)
    ultimately show ?thesis using u same by (simp add: recoverable_def)
  next
    case (Inr x)
    then have "r = Inr ()" using run b by (auto simp: save_database_def io_bind_def io_mod_def)
    then show ?thesis by (rule committing_recoverable [OF c])
  qed
qed

lemma committing_step:
  assumes c: "committing E ip d F s" and inst: "installation ip (pl_release d)"
    and same: "\<And>p. spared ip (pl_release d) p \<Longrightarrow> p \<noteq> ip_unit ip \<Longrightarrow> p = ip_current ip \<Longrightarrow> \<not> s_switched t \<Longrightarrow> fs_get (s_files t) p = fs_get (s_files s) p"
      "\<And>p. spared ip (pl_release d) p \<Longrightarrow> p \<notin> {ip_unit ip, ip_current ip} \<Longrightarrow> fs_get (s_files t) p = fs_get (s_files s) p"
    and flags: "s_switched s \<Longrightarrow> s_switched t" "s_backup t = s_backup s"
  shows "committing E ip d F t"
proof -
  have "holds_old ip d F t"
    using c same flags installation_names [OF inst] by (auto simp: committing_def holds_old_def same_on_def spared_def)
  moreover have "db_saved E ip F t" if saved: "db_saved E ip F s"
  proof -
    have "fs_get (s_files t) b = fs_get (s_files s) b" if "path_relative_to b (ip_backups ip)" "b \<noteq> ip_backups ip" for b
      by (rule same(2)) (use that installation_names [OF inst] in \<open>auto simp: spared_def\<close>)
    then show ?thesis using saved flags(2) unfolding db_saved_def by metis
  qed
  ultimately show ?thesis using c flags by (auto simp: committing_def)
qed

lemma rename_cases:
  assumes "rename E p q s = (r, t)"
  shows "(r = Inr () \<and> fs_get (s_files t) q = fs_get (s_files s) p) \<or> (r \<noteq> Inr () \<and> s_files t = s_files s)"
  using assms by (auto simp: rename_def sys_op_def split: if_splits option.splits)

lemma make_link_ok: "make_link E target p s = (Inr x, t) \<Longrightarrow> fs_get (s_files t) p = Some (Link target)"
  by (auto simp: make_link_def sys_op_def split: if_splits)

lemma io_seq_pair: "io_seq [a, b] s = (case a s of (Inl e, t) \<Rightarrow> (Inl e, t) | (Inr _, t) \<Rightarrow> b t)"
  by (auto simp: io_bind_def io_ret_def split: prod.split sum.split)

lemma switch_current_result:
  assumes inst: "installation ip rel" and run: "switch_current E ip target s = (r, t)"
  shows "r = Inr () \<Longrightarrow> fs_get (s_files t) (ip_current ip) = Some (Link target)"
    and "p \<in> safe ip rel \<Longrightarrow> p = ip_current ip \<Longrightarrow> r \<noteq> Inr () \<Longrightarrow> fs_get (s_files t) p = fs_get (s_files s) p"
    and "p \<in> safe ip rel \<Longrightarrow> p \<noteq> ip_current ip \<Longrightarrow> fs_get (s_files t) p = fs_get (s_files s) p"
    and "s_backup t = s_backup s \<and> s_stopped t = s_stopped s \<and> s_switched t = s_switched s"
proof -
  have temp: "child (ip_share ip) (''.current-'' @ u) \<notin> safe ip rel" for u
    by (rule dotted_not_safe [OF inst]) (simp_all add: startswith_def)
  have "framed (insert (ip_current ip) (- safe ip rel)) (switch_current E ip target)"
    unfolding switch_current_def Let_def io_seq.simps using temp by (intro frame_intro) auto
  note fr = framed_get [OF this _ run] framed_flags [OF this run]
  show "s_backup t = s_backup s \<and> s_stopped t = s_stopped s \<and> s_switched t = s_switched s" by (rule fr(2))
  show "p \<in> safe ip rel \<Longrightarrow> p \<noteq> ip_current ip \<Longrightarrow> fs_get (s_files t) p = fs_get (s_files s) p" using fr(1) by simp
  let ?u = "de_unique E (s_tick s)" and ?s = "s\<lparr>s_tick := Suc (s_tick s)\<rparr>"
  let ?temp = "child (ip_share ip) (''.current-'' @ ?u)"
  obtain r1 s1 where link: "make_link E target ?temp ?s = (r1, s1)" by fastforce
  have link_frame: "fs_get (s_files s1) p = fs_get (s_files s) p" if "p \<noteq> ?temp" for p
    using framed_get [OF framed_files(4) [of ?temp "{?temp}"] _ link] that by simp
  obtain r2 s2 where ren: "rename E ?temp (ip_current ip) s1 = (r2, s2)" by fastforce
  have body: "(r, t) = (case r1 of Inl e \<Rightarrow> (Inl e, s1) | Inr _ \<Rightarrow> (r2, s2))"
    using run link ren
    by (cases r1) (auto simp: switch_current_def unique_name_def io_bind_def [of "unique_name E"] Let_def io_seq_pair simp del: io_seq.simps)
  show "fs_get (s_files t) (ip_current ip) = Some (Link target)" if "r = Inr ()"
    using body that rename_cases [OF ren] make_link_ok [of E target ?temp ?s "()" s1] link by (cases r1) auto
  show "fs_get (s_files t) p = fs_get (s_files s) p" if "p \<in> safe ip rel" "p = ip_current ip" "r \<noteq> Inr ()"
  proof -
    have "p \<noteq> ?temp" using that(1) temp [of ?u] by blast
    then show ?thesis using body that(3) rename_cases [OF ren] link_frame [of p] by (cases r1) auto
  qed
qed

lemma spared_safe: "spared ip rel p \<Longrightarrow> p \<in> safe ip rel"
  by (simp add: safe_def)

lemma switch_release_keeps:
  assumes inst: "installation ip (pl_release d)"
  shows "preserves (committing E ip d F) (switch_release E ip d)"
  unfolding preserves_def
proof (intro allI impI)
  fix s
  assume c: "committing E ip d F s"
  obtain r t where run: "switch_current E ip (pl_release d) s = (r, t)" by fastforce
  note res = switch_current_result [OF inst run]
  let ?t = "snd (switch_release E ip d s)"
  have t: "?t = (if r = Inr () then t\<lparr>s_switched := True\<rparr> else t)"
    using run by (auto simp: switch_release_def io_bind_def io_mod_def split: sum.splits)
  show "committing E ip d F ?t"
    by (rule committing_step [OF c inst]) (use res spared_safe t in \<open>auto split: if_splits\<close>)
qed

lemma commit_step_keeps:
  assumes inst: "installation ip (pl_release d)" and conf: "commands_confined E ip (pl_release d)" and m: "m \<in> set (commit_steps E ip opts d)"
  shows "preserves (committing E ip d F) m"
proof -
  let ?T = "insert (ip_unit ip) (- {p. spared ip (pl_release d) p})"
  have loose: "confined E c ?T" for c using conf by (auto simp: commands_confined_def confined_def)
  have "ip_unit ip = child (ip_user_unit_dir ip) service_name" using inst by (simp add: installation_def layout_def)
  then have unit: "framed ?T (atomic_write E (ip_unit ip) c)" for c
    using framed_file_write [OF inst, of "ip_user_unit_dir ip" ?T service_name] by (auto simp: safe_def)
  have installing: "under (pl_release d) ''.installing'' \<in> ?T"
    using staging_not_safe [OF inst, of "child (pl_release d) ''.installing''"] by (auto simp: under_one safe_def)
  have "framed ?T (activate E ip opts)"
    unfolding activate_def read_configuration_def start_service_def io_seq.simps by (intro frame_intro unit loose)
  moreover have "framed ?T (migrate E ip (pl_release d))"
    unfolding migrate_def by (intro frame_intro loose)
  moreover have "framed ?T (chmod E (database_path ip))" "framed ?T (unlink E (under (pl_release d) ''.installing''))"
    by (intro frame_intro installing)+
  ultimately show ?thesis
    using m switch_release_keeps [OF inst] unfolding commit_steps_def
    by (auto intro: preserves_committing [OF _ _ inst])
qed

lemma io_seq_append: "io_seq (xs @ ys) s = (case io_seq xs s of (Inl e, t) \<Rightarrow> (Inl e, t) | (Inr _, t) \<Rightarrow> io_seq ys t)"
  by (induction xs arbitrary: s) (auto simp: io_bind_def io_ret_def split: prod.splits sum.splits)

text \<open>Wherever the transaction stops, the handler finds a state from which it can restore the old one.\<close>

lemma transaction_recoverable:
  assumes inst: "installation ip (pl_release d)" and conf: "commands_confined E ip (pl_release d)"
    and existed: "pl_config_existed d = p_exists E (s_files s) (ip_config ip)" and flags: "s_backup s = None" "\<not> s_switched s"
    and run: "io_seq (deploy_steps E ip opts d) s = (r, t)"
  shows "recoverable E ip d (s_files s) t"
proof -
  have start: "building ip d (s_files s) s" using flags by (simp add: building_def same_on_def)
  obtain r1 u where one: "io_seq (build_steps E ip d) s = (r1, u)" by fastforce
  have u: "building ip d (s_files s) u"
    using preserves_run [OF preserves_seq [OF build_step_keeps [OF inst conf existed]] start one] .
  show ?thesis
  proof (cases r1)
    case (Inl e)
    then have "t = u" using run one by (simp add: deploy_steps_def io_seq_append)
    then show ?thesis using building_recoverable [OF inst u] by simp
  next
    case (Inr x)
    obtain r2 v where two: "save_database E ip u = (r2, v)" by fastforce
    note v = save_database_result [OF inst u two]
    show ?thesis
    proof (cases r2)
      case (Inl e)
      then have "t = v" using run one two Inr by (simp add: deploy_steps_def io_seq_append io_bind_def)
      then show ?thesis using v(1) by simp
    next
      case r2: (Inr y)
      then have three: "io_seq (commit_steps E ip opts d) v = (r, t)"
        using run one two Inr by (simp add: deploy_steps_def io_seq_append io_bind_def)
      have "committing E ip d (s_files s) t"
        using preserves_run [OF preserves_seq [OF commit_step_keeps [OF inst conf]] v(2) three] r2 by simp
      then show ?thesis by (rule committing_recoverable)
    qed
  qed
qed

end
