(* ===== verification/Rollback.thy ===== *)
theory Rollback
  imports Transaction
begin

text \<open>
  The exception handler of \<open>deploy\<close> in \<open>scripts/machinedeck_deploy.py\<close>: what a completed rollback
  restores, whether the service runs afterwards, and what a successful deployment leaves behind.
\<close>

section \<open>The handler\<close>

lemma unlink_missing_result: "unlink_missing_ok E p s = (Inr x, t) \<Longrightarrow> fs_get (s_files t) p = None"
  by (auto simp: unlink_missing_ok_def sys_op_def split: if_splits)

lemma rename_ok: "rename E p q s = (Inr x, t) \<Longrightarrow> fs_get (s_files t) q = fs_get (s_files s) p"
  using rename_cases by fastforce

lemma framed_silence: "installation ip (pl_release d) \<Longrightarrow> commands_confined E ip (pl_release d) \<Longrightarrow> framed (- safe ip (pl_release d)) (silence_service E d)"
  unfolding silence_service_def by (intro frame_intro confined_simple) auto

lemma framed_restore_current:
  assumes inst: "installation ip (pl_release d)"
  shows "framed (insert (ip_current ip) (- safe ip (pl_release d))) (restore_current E ip d)"
proof -
  have "framed (insert (ip_current ip) (- safe ip (pl_release d))) (switch_current E ip r)" for r
  proof -
    have "child (ip_share ip) (''.current-'' @ u) \<notin> safe ip (pl_release d)" for u
      by (rule dotted_not_safe [OF inst]) (simp_all add: startswith_def)
    then show ?thesis unfolding switch_current_def Let_def io_seq.simps by (intro frame_intro) auto
  qed
  then show ?thesis unfolding restore_current_def by (intro frame_intro) auto
qed

lemma framed_restore_unit:
  assumes inst: "installation ip (pl_release d)"
  shows "framed (insert (ip_unit ip) (- safe ip (pl_release d))) (restore_unit E ip d)"
proof -
  have "ip_unit ip = child (ip_user_unit_dir ip) service_name" using inst by (simp add: installation_def layout_def)
  moreover have "child (ip_user_unit_dir ip) (''.machinedeck-unit-'' @ u) \<notin> safe ip (pl_release d)" for u
    by (rule dotted_not_safe [OF inst]) (simp_all add: startswith_def)
  ultimately show ?thesis unfolding restore_unit_def Let_def io_seq.simps by (intro frame_intro) auto
qed

lemma framed_undo_database:
  assumes inst: "installation ip (pl_release d)"
  shows "framed (set (db_files ip) \<union> - safe ip (pl_release d)) (undo_database E ip d)"
proof -
  have temp: "child (ip_state ip) (''.machinedeck.db.restore-'' @ u) \<notin> safe ip (pl_release d)" for u
    by (rule dotted_not_safe [OF inst]) (simp_all add: startswith_def)
  show ?thesis
    unfolding undo_database_def restore_database_def remove_database_def Let_def io_seq.simps list.map
    using temp by (intro frame_intro) (auto simp: database_child db_files_child)
qed

lemma framed_discard:
  assumes inst: "installation ip rel"
  shows "framed (- safe ip rel) (discard_release E rel b)"
  unfolding discard_release_def by (intro frame_intro) (use staging_not_safe [OF inst] in auto)

lemma framed_restart: "commands_confined E ip rel \<Longrightarrow> framed (- safe ip rel) (restart_service E)"
  unfolding restart_service_def by (intro frame_intro confined_simple) auto

lemma restore_current_result:
  assumes inst: "installation ip (pl_release d)" and run: "restore_current E ip d s = (Inr x, t)"
  shows "if s_switched s then fs_get (s_files t) (ip_current ip) = map_option Link (pl_old d) else t = s"
  using run switch_current_result(1) [OF inst] unlink_missing_result
  by (auto simp: restore_current_def split: if_splits option.splits)

lemma restore_unit_result:
  "restore_unit E ip d s = (Inr x, t) \<Longrightarrow> fs_get (s_files t) (ip_unit ip) = map_option File (pl_old_unit d)"
  by (auto simp: restore_unit_def Let_def split: option.splits dest!: unlink_missing_result rename_ok write_file_ok chmod_files)

definition database_restored :: "deploy_env \<Rightarrow> install_paths \<Rightarrow> files \<Rightarrow> files \<Rightarrow> bool" where
  "database_restored E ip F G \<longleftrightarrow>
     (case fs_get F (database_path ip) of
        None \<Rightarrow> list_all (\<lambda>q. fs_get G q = None) (db_files ip)
      | Some (File c) \<Rightarrow>
          list_all (\<lambda>q. fs_get G q = fs_get F q) (db_files ip)
          \<or> map (fs_get G) (db_files ip)
            = [Some (File (de_copy_db E c (file_text F (beside (database_path ip) ''machinedeck.db-wal'')))), None, None]
      | _ \<Rightarrow> True)"

lemma copy_node_ok: "copy_node E p q s = (Inr x, t) \<Longrightarrow> fs_get (s_files s) p = Some (File c) \<Longrightarrow> fs_get (s_files t) q = Some (File c)"
  by (auto simp: copy_node_def followed_def dest: write_file_ok split: option.splits node.splits)

lemma restore_database_result:
  assumes inst: "installation ip rel" and run: "restore_database E ip (Some b) s = (Inr x, t)"
    and b: "path_relative_to b (ip_backups ip)" "fs_get (s_files s) b = Some (File c)"
  shows "map (fs_get (s_files t)) (db_files ip) = [Some (File c), None, None]"
proof -
  let ?st = "ip_state ip"
  let ?wal = "child ?st ''machinedeck.db-wal''" and ?shm = "child ?st ''machinedeck.db-shm''" and ?db = "child ?st ''machinedeck.db''"
  have b_other: "b \<noteq> child ?st t" if "t \<noteq> ''backups''" for t
    using inst b(1) that by (auto simp: installation_def layout_def separate_def)
  obtain s1 s2 s3 u where
    1: "unlink_missing_ok E ?wal s = (Inr (), s1)" and 2: "unlink_missing_ok E ?shm s1 = (Inr (), s2)"
    and 3: "copy_node E b (child ?st (''.machinedeck.db.restore-'' @ u)) (s2\<lparr>s_tick := Suc (s_tick s2)\<rparr>) = (Inr (), s3)"
    and 4: "rename E (child ?st (''.machinedeck.db.restore-'' @ u)) ?db s3 = (Inr (), t)"
    using run by (auto simp: restore_database_def unique_name_def database_child Let_def)
  let ?tmp = "child ?st (''.machinedeck.db.restore-'' @ u)"
  have f1: "fs_get (s_files s1) p = fs_get (s_files s) p" if "p \<noteq> ?wal" for p
    using framed_get [OF framed_files(7) [of ?wal "{?wal}"] _ 1] that by simp
  have f2: "fs_get (s_files s2) p = fs_get (s_files s1) p" if "p \<noteq> ?shm" for p
    using framed_get [OF framed_files(7) [of ?shm "{?shm}"] _ 2] that by simp
  have f3: "fs_get (s_files s3) p = fs_get (s_files s2) p" if "p \<noteq> ?tmp" for p
    using framed_get [OF framed_copy_node [of ?tmp "{?tmp}"] _ 3] that by simp
  have f4: "fs_get (s_files t) p = fs_get (s_files s3) p" if "p \<notin> {?tmp, ?db}" for p
    using framed_get [OF framed_files(5) [of ?tmp "{?tmp, ?db}" ?db] _ 4] that by simp
  have "fs_get (s_files s2) b = Some (File c)" using b(2) f1 f2 b_other by simp
  then have "fs_get (s_files t) ?db = Some (File c)" using copy_node_ok [OF 3] rename_ok [OF 4] by simp
  then show ?thesis
    using unlink_missing_result [OF 1] unlink_missing_result [OF 2] f2 f3 f4 by (simp add: db_files_child)
qed

lemma remove_database_result:
  assumes "remove_database E ip s = (Inr x, t)" shows "list_all (\<lambda>q. fs_get (s_files t) q = None) (db_files ip)"
proof -
  let ?st = "ip_state ip"
  let ?wal = "child ?st ''machinedeck.db-wal''" and ?shm = "child ?st ''machinedeck.db-shm''" and ?db = "child ?st ''machinedeck.db''"
  obtain s1 s2 where 1: "unlink_missing_ok E ?db s = (Inr (), s1)" and 2: "unlink_missing_ok E ?wal s1 = (Inr (), s2)"
    and 3: "unlink_missing_ok E ?shm s2 = (Inr (), t)"
    using assms by (auto simp: remove_database_def database_child Let_def)
  have "fs_get (s_files s2) ?db = fs_get (s_files s1) ?db"
    using framed_get [OF framed_files(7) [of ?wal "{?wal}"] _ 2] by simp
  moreover have "fs_get (s_files t) p = fs_get (s_files s2) p" if "p \<in> {?db, ?wal}" for p
    using framed_get [OF framed_files(7) [of ?shm "{?shm}"] _ 3] that by auto
  ultimately show ?thesis
    using unlink_missing_result [OF 1] unlink_missing_result [OF 2] unlink_missing_result [OF 3] by (simp add: db_files_child)
qed

text \<open>
  The pointer to the current release is the old link, or a link to where the old one pointed
  (resolved in some state \<open>fs\<close> of the files).
\<close>

definition pointed_to :: "deploy_env \<Rightarrow> install_paths \<Rightarrow> files \<Rightarrow> path \<Rightarrow> bool" where
  "pointed_to E ip F r \<longleftrightarrow> (\<exists>raw fs. fs_get F (ip_current ip) = Some (Link raw)
     \<and> r = de_resolve E fs (path_join (path_parent (ip_current ip)) raw))"

definition current_restored :: "deploy_env \<Rightarrow> install_paths \<Rightarrow> files \<Rightarrow> files \<Rightarrow> bool" where
  "current_restored E ip F G \<longleftrightarrow> fs_get G (ip_current ip) = fs_get F (ip_current ip)
     \<or> (\<exists>r. pointed_to E ip F r \<and> fs_get G (ip_current ip) = Some (Link r))"

definition planned :: "deploy_env \<Rightarrow> install_paths \<Rightarrow> plan \<Rightarrow> files \<Rightarrow> bool" where
  "planned E ip d F \<longleftrightarrow>
     pl_config_existed d = p_exists E F (ip_config ip) \<and> \<not> p_is_symlink F (ip_config ip)
     \<and> pl_db_existed d = p_exists E F (database_path ip)
     \<and> fs_get F (ip_unit ip) = map_option File (pl_old_unit d)
     \<and> (case pl_old d of None \<Rightarrow> fs_get F (ip_current ip) = None | Some r \<Rightarrow> pointed_to E ip F r)"

lemma handler_restores:
  assumes inst: "installation ip (pl_release d)" and conf: "commands_confined E ip (pl_release d)"
    and plan: "planned E ip d F" and rec: "recoverable E ip d F s" and run: "io_seq (recover_steps E ip d) s = (Inr (), t)"
  shows "to_keep ip (pl_release d) p \<Longrightarrow> p \<noteq> ip_current ip \<Longrightarrow> fs_get (s_files t) p = fs_get F p"
    and "to_keep ip (pl_release d) (ip_current ip) \<Longrightarrow> current_restored E ip F (s_files t)"
    and "database_restored E ip F (s_files t)"
proof -
  let ?S = "safe ip (pl_release d)"
  obtain s1 s2 s3 s4 s5 s6 s7 s8 where
    r: "silence_service E d s = (Inr (), s1)" "restore_current E ip d s1 = (Inr (), s2)" "restore_unit E ip d s2 = (Inr (), s3)"
      "undo_database E ip d s3 = (Inr (), s4)" "io_when (\<not> pl_config_existed d) (unlink_missing_ok E (ip_config ip)) s4 = (Inr (), s5)"
      "discard_release E (pl_release d) (Some (pl_release d) \<noteq> pl_old d) s5 = (Inr (), s6)"
      "discard_release E (pl_release d) True s6 = (Inr (), s7)" "best_effort E reload s7 = (Inr (), s8)" "restart_service E s8 = (Inr (), t)"
    using run unfolding recover_steps_def by (auto simp del: when_ok)
  have cfg: "framed (insert (ip_config ip) (- ?S)) (io_when (\<not> pl_config_existed d) (unlink_missing_ok E (ip_config ip)))"
    by (intro frame_intro) auto
  have rel: "framed (- ?S) (best_effort E reload)" by (intro frame_intro confined_simple [OF conf]) (simp add: reload_def)
  note fr = framed_silence [OF inst conf] framed_restore_current [OF inst] framed_restore_unit [OF inst] framed_undo_database [OF inst]
    cfg framed_discard [OF inst] rel framed_restart [OF conf]
  note names = installation_names [OF inst]
  have late: "fs_get (s_files t) q = fs_get (s_files s5) q" if "q \<in> ?S" for q
    using framed_get [OF fr(6) _ r(6)] framed_get [OF fr(6) _ r(7)] framed_get [OF fr(7) _ r(8)] framed_get [OF fr(8) _ r(9)] that by simp
  have early: "fs_get (s_files s1) q = fs_get (s_files s) q" if "q \<in> ?S" for q
    using framed_get [OF fr(1) _ r(1)] that by simp
  have f2: "fs_get (s_files s2) q = fs_get (s_files s1) q" if "q \<in> ?S" "q \<noteq> ip_current ip" for q
    using framed_get [OF fr(2) _ r(2)] that by simp
  have f3: "fs_get (s_files s3) q = fs_get (s_files s2) q" if "q \<in> ?S" "q \<noteq> ip_unit ip" for q
    using framed_get [OF fr(3) _ r(3)] that by simp
  have f4: "fs_get (s_files s4) q = fs_get (s_files s3) q" if "q \<in> ?S" "q \<notin> set (db_files ip)" for q
    using framed_get [OF fr(4) _ r(4)] that by simp
  have f5: "fs_get (s_files s5) q = fs_get (s_files s4) q" if "q \<in> ?S" "q \<noteq> ip_config ip" for q
    using framed_get [OF fr(5) _ r(5)] that by simp
  have kept_S: "q \<in> ?S \<and> q \<notin> set (db_files ip)" if "to_keep ip (pl_release d) q" for q
    using that by (simp add: safe_def spared_def to_keep_def)
  have hold: "holds_old ip d F s" using rec by (simp add: recoverable_def)
  have unit: "fs_get (s_files s3) (ip_unit ip) = fs_get F (ip_unit ip)"
    using restore_unit_result [OF r(3)] plan by (simp add: planned_def)
  show "fs_get (s_files t) p = fs_get F p" if p: "to_keep ip (pl_release d) p" "p \<noteq> ip_current ip"
  proof -
    note S = kept_S [OF p(1)]
    consider "p = ip_unit ip" | "p = ip_config ip" | "p \<notin> {ip_current ip, ip_unit ip, ip_config ip}" using p by auto
    then show ?thesis
    proof cases
      case 1
      then show ?thesis using S late f5 f4 unit names by auto
    next
      case 2
      show ?thesis
      proof (cases "pl_config_existed d")
        case True
        then have "fs_get (s_files s5) p = fs_get (s_files s4) p" using r(5) by simp
        moreover have "fs_get (s_files s) p = fs_get F p" using hold True 2 p by (auto simp: holds_old_def same_on_def)
        ultimately show ?thesis using S late f4 f3 f2 early p 2 names by auto
      next
        case False
        then have "fs_get (s_files s5) p = None" using r(5) 2 unlink_missing_result [of E "ip_config ip" s4] by auto
        moreover have "fs_get F p = None"
          using False 2 plan by (auto simp: planned_def p_exists_def followed_def p_is_symlink_def split: option.splits node.splits)
        ultimately show ?thesis using S late by auto
      qed
    next
      case 3
      then have "fs_get (s_files s) p = fs_get F p" using hold p by (auto simp: holds_old_def same_on_def)
      then show ?thesis using S late f5 f4 f3 f2 early 3 by auto
    qed
  qed
  show "current_restored E ip F (s_files t)" if k: "to_keep ip (pl_release d) (ip_current ip)"
  proof -
    have flag: "s_switched s1 = s_switched s" using framed_flags [OF fr(1) r(1)] by simp
    have "fs_get (s_files t) (ip_current ip) = fs_get (s_files s2) (ip_current ip)"
      using kept_S [OF k] late f5 f4 f3 names by metis
    moreover have "fs_get (s_files s2) (ip_current ip) = fs_get F (ip_current ip)" if "\<not> s_switched s"
      using restore_current_result [OF inst r(2)] early kept_S [OF k] that flag hold k by (auto simp: holds_old_def same_on_def)
    moreover have "fs_get (s_files s2) (ip_current ip) = map_option Link (pl_old d)" if "s_switched s"
      using restore_current_result [OF inst r(2)] that flag by simp
    ultimately show ?thesis using plan
      by (cases "s_switched s"; cases "pl_old d") (auto simp: current_restored_def planned_def)
  qed
  show "database_restored E ip F (s_files t)"
  proof -
    have flags: "s_backup s3 = s_backup s"
      using framed_flags [OF fr(1) r(1)] framed_flags [OF fr(2) r(2)] framed_flags [OF fr(3) r(3)] by simp
    have dbS: "q \<in> ?S \<and> q \<noteq> ip_current ip \<and> q \<noteq> ip_unit ip \<and> q \<noteq> ip_config ip" if "q \<in> set (db_files ip)" for q
      using that names by (auto simp: safe_def)
    have end4: "fs_get (s_files t) q = fs_get (s_files s4) q" if "q \<in> set (db_files ip)" for q
      using late f5 dbS [OF that] by auto
    have begin3: "fs_get (s_files s3) q = fs_get (s_files s) q" if "q \<in> set (db_files ip)" for q
      using early f2 f3 dbS [OF that] by auto
    have existed: "pl_db_existed d = p_exists E F (database_path ip)" using plan by (simp add: planned_def)
    have maps: "map (fs_get (s_files t)) (db_files ip) = map (fs_get (s_files s4)) (db_files ip)" using end4 by simp
    have undone: "list_all (\<lambda>q. fs_get (s_files t) q = None) (db_files ip)" if "s_backup s = None" "fs_get F (database_path ip) = None"
    proof -
      have "remove_database E ip s3 = (Inr (), s4)"
        using r(4) flags that existed by (simp add: undo_database_def p_exists_def followed_def io_bind_def io_get_def)
      from remove_database_result [OF this] end4 show ?thesis by (simp add: list_all_iff)
    qed
    consider (link) "db_link ip F" | (saved) "db_saved E ip F s" | (none) "fs_get F (database_path ip) = None" "s_backup s = None"
      | (same) "s_backup s = None" "same_on (set (db_files ip)) F s" "fs_get F (database_path ip) \<noteq> None"
      using rec unfolding recoverable_def by metis
    then show ?thesis
    proof cases
      case link
      then show ?thesis by (auto simp: database_restored_def db_link_def p_is_symlink_def split: option.splits node.splits)
    next
      case saved
      then obtain b c where b: "fs_get F (database_path ip) = Some (File c)" "s_backup s = Some b" "path_relative_to b (ip_backups ip)"
        "b \<noteq> ip_backups ip" "fs_get (s_files s) b = Some (File (de_copy_db E c (file_text F (beside (database_path ip) ''machinedeck.db-wal''))))"
        by (auto simp: db_saved_def)
      have "b \<in> ?S" "b \<noteq> ip_current ip" "b \<noteq> ip_unit ip" using b names by (auto simp: safe_def spared_def)
      then have b3: "fs_get (s_files s3) b = fs_get (s_files s) b" using early f2 f3 by simp
      have "restore_database E ip (Some b) s3 = (Inr (), s4)"
        using r(4) flags b(2) by (simp add: undo_database_def io_bind_def io_get_def)
      from restore_database_result [OF inst this b(3)] b3 b(5) show ?thesis
        unfolding database_restored_def b(1) maps by simp
    next
      case none
      then show ?thesis using undone by (simp add: database_restored_def)
    next
      case same
      then have "pl_db_existed d \<or> db_link ip F"
        using existed by (auto simp: p_exists_def followed_def db_link_def p_is_symlink_def split: option.splits node.splits)
      then show ?thesis
      proof
        assume "db_link ip F"
        then show ?thesis by (auto simp: database_restored_def db_link_def p_is_symlink_def split: option.splits node.splits)
      next
        assume "pl_db_existed d"
        then have "s4 = s3" using r(4) flags same by (simp add: undo_database_def)
        then have "list_all (\<lambda>q. fs_get (s_files t) q = fs_get F q) (db_files ip)"
          using end4 begin3 same by (simp add: list_all_iff same_on_def)
        then show ?thesis using same by (auto simp: database_restored_def split: option.splits node.splits)
      qed
    qed
  qed
qed

section \<open>The plan\<close>

lemma three_to_keep:
  assumes "installation ip rel" shows "to_keep ip rel (ip_config ip)" "to_keep ip rel (ip_unit ip)" "to_keep ip rel (ip_current ip)"
proof -
  note names = installation_names [OF assms]
  have rel: "rel = child (ip_releases ip) (last (path_parts rel))" using assms by (metis installation_def parent_eq_child)
  have not_rel: "\<not> path_relative_to q rel" if "\<not> path_relative_to q (ip_releases ip)" for q
  proof
    assume "path_relative_to q rel"
    moreover have "path_relative_to rel (ip_releases ip)" using rel by (metis path_relative_to_refl relative_child)
    ultimately show False using that path_relative_to_trans by blast
  qed
  have "\<not> path_relative_to q (ip_releases ip)" if "q \<in> {ip_config ip, ip_unit ip, ip_current ip}" for q
    using assms that by (auto simp: installation_def layout_def separate_def service_name_def)
  then show "to_keep ip rel (ip_config ip)" "to_keep ip rel (ip_unit ip)" "to_keep ip rel (ip_current ip)"
    using not_rel names assms
    by (auto simp: to_keep_def installation_def layout_def separate_def list_all_iff list_ex_iff startswith_def endswith_def service_name_def)
qed

lemma framed_catch: "framed T m \<Longrightarrow> framed T k \<Longrightarrow> framed T (\<lambda>s. case m s of (Inr x, t) \<Rightarrow> (Inr x, t) | (Inl _, t) \<Rightarrow> k t)"
  unfolding framed_def by (auto split: prod.splits sum.splits) (metis snd_conv)+

lemma framed_prepare:
  assumes inst: "installation ip rel"
  shows "framed (- safe ip rel) (prepare_paths E ip)"
  unfolding prepare_paths_def io_seq.simps
  by (intro frame_intro) (use ancestor_not_safe [OF inst] in \<open>auto intro!: frame_intro\<close>)

lemma framed_sqlite:
  assumes inst: "installation ip rel"
  shows "framed (- safe ip rel) (validate_sqlite_writable E ip)"
proof -
  have "child (ip_state ip) (''.sqlite-write-test-'' @ u @ ''.db'') \<notin> safe ip rel" for u
    by (rule dotted_not_safe [OF inst]) (simp_all add: startswith_def)
  then show ?thesis unfolding validate_sqlite_writable_def Let_def io_seq.simps
    by (intro frame_intro framed_catch) auto
qed

lemma seq_append_ok: "io_seq (xs @ ys) s = (Inr x, t) \<longleftrightarrow> (\<exists>y u. io_seq xs s = (Inr y, u) \<and> io_seq ys u = (Inr x, t))"
  by (auto simp: io_seq_append split: prod.splits sum.splits)

lemma ensure_ok: "ensure_not_symlink p l s = (Inr x, t) \<longleftrightarrow> \<not> p_is_symlink (s_files s) p \<and> t = s"
  by (auto simp: ensure_not_symlink_def split: if_splits)

lemma prepare_ok:
  assumes "prepare_paths E ip s = (Inr x, t)"
  shows "\<not> p_is_symlink (s_files t) (ip_config ip) \<and> \<not> p_is_symlink (s_files t) (ip_unit ip)"
  using assms by (auto simp: prepare_paths_def seq_append_ok ensure_ok)

lemma old_unit_ok:
  "old_unit_text E ip s = (Inr x, t) \<Longrightarrow> \<not> p_is_symlink (s_files s) (ip_unit ip)
    \<Longrightarrow> t = s \<and> fs_get (s_files s) (ip_unit ip) = map_option File x"
  by (auto simp: old_unit_text_def p_exists_def p_text_def followed_def p_is_symlink_def split: if_splits option.splits node.splits)

lemma framed_release_name: "framed T (release_name E v b)"
  unfolding release_name_def by (intro frame_intro)

text \<open>Up to the choice of the release nothing that has to be kept is touched; the plan describes the host.\<close>

lemma plan_release_ok:
  assumes run: "plan_release E ip opts source old s = (Inr d, t)" and inst: "installation ip (pl_release d)"
    and conf: "commands_confined E ip (pl_release d)"
    and links: "\<not> p_is_symlink (s_files s) (ip_config ip)" "\<not> p_is_symlink (s_files s) (ip_unit ip)"
    and old: "current_target E ip (s_files s) = Inr old"
  shows "planned E ip d (s_files t) \<and> same_on (safe ip (pl_release d)) (s_files s) t
    \<and> s_backup t = s_backup s \<and> s_stopped t = s_stopped s \<and> s_switched t = s_switched s"
proof -
  let ?S = "safe ip (pl_release d)"
  obtain server s1 version name s2 s3 u where
    1: "planned_server E ip opts s = (Inr server, s1)"
    and 2: "io_seq [port_free_check E (sc_port server), run_checked E [''systemctl'', ''--user'', ''show-environment'']] s1 = (Inr (), s2)"
    and 3: "release_name E version (o_upgrade opts) s2 = (Inr name, s3)"
    and rel: "pl_release d = under (ip_releases ip) name"
    and 4: "discard_incomplete E (pl_release d) old s3 = (Inr (), t)"
    and 5: "old_unit_text E ip t = (Inr u, t)"
    and d: "pl_old d = old" "pl_old_unit d = u" "pl_db_existed d = p_exists E (s_files t) (database_path ip)"
      "pl_config_existed d = p_exists E (s_files t) (ip_config ip)"
    using run unfolding plan_release_def
    by (auto simp: Let_def old_unit_text_def split: if_splits option.splits simp del: io_seq.simps)
  have fr1: "framed (- ?S) (planned_server E ip opts)"
    unfolding planned_server_def read_configuration_def by (intro frame_intro)
  have fr2: "framed (- ?S) (io_seq [port_free_check E (sc_port server), run_checked E [''systemctl'', ''--user'', ''show-environment'']])"
    unfolding port_free_check_def io_seq.simps by (intro frame_intro confined_simple [OF conf]) auto
  have fr4: "framed (- ?S) (discard_incomplete E (pl_release d) old)"
    unfolding discard_incomplete_def by (intro frame_intro) (use staging_not_safe [OF inst] in auto)
  have same: "fs_get (s_files t) p = fs_get (s_files s) p" if "p \<in> ?S" for p
    using framed_get [OF fr1 _ 1] framed_get [OF fr2 _ 2] framed_get [OF framed_release_name [of "- ?S"] _ 3] framed_get [OF fr4 _ 4] that
    by simp
  have keep: "fs_get (s_files t) p = fs_get (s_files s) p" if "to_keep ip (pl_release d) p" for p
    using same that by (simp add: safe_def spared_def)
  note three = three_to_keep [OF inst, THEN keep]
  have links_t: "\<not> p_is_symlink (s_files t) (ip_config ip)" "\<not> p_is_symlink (s_files t) (ip_unit ip)"
    using links three by (simp_all add: p_is_symlink_def)
  have "case old of None \<Rightarrow> fs_get (s_files t) (ip_current ip) = None | Some r \<Rightarrow> pointed_to E ip (s_files t) r"
    using old three by (auto simp: current_target_def pointed_to_def Let_def split: option.splits node.splits if_splits)
  then have "planned E ip d (s_files t)"
    using old_unit_ok [OF 5 links_t(2)] links_t(1) d by (simp add: planned_def)
  moreover have "same_on ?S (s_files s) t" using same by (simp add: same_on_def)
  ultimately show ?thesis
    using framed_flags [OF fr1 1] framed_flags [OF fr2 2] framed_flags [OF framed_release_name [of "{}"] 3] framed_flags [OF fr4 4] by simp
qed

lemma make_plan_ok:
  assumes run: "make_plan E ip opts raw s = (Inr (Inr d), t)" and inst: "installation ip (pl_release d)"
    and conf: "commands_confined E ip (pl_release d)"
  shows "planned E ip d (s_files t) \<and> same_on (safe ip (pl_release d)) (s_files s) t
    \<and> s_backup t = s_backup s \<and> s_stopped t = s_stopped s \<and> s_switched t = s_switched s"
proof -
  obtain source u v old where
    1: "prepare_paths E ip s = (Inr (), u)" and 2: "validate_sqlite_writable E ip u = (Inr (), v)"
    and old: "Inr old = current_target E ip (s_files v)" and 3: "plan_release E ip opts source old v = (Inr d, t)"
    using run unfolding make_plan_def
    by (auto simp: check_linux_def reject_root_def split: if_splits bool.splits option.splits)
  let ?S = "safe ip (pl_release d)"
  have uv: "fs_get (s_files v) p = fs_get (s_files u) p" if "p \<in> ?S" for p
    using framed_get [OF framed_sqlite [OF inst] _ 2] that by simp
  have su: "fs_get (s_files u) p = fs_get (s_files s) p" if "p \<in> ?S" for p
    using framed_get [OF framed_prepare [OF inst] _ 1] that by simp
  have "ip_config ip \<in> ?S" "ip_unit ip \<in> ?S" using three_to_keep [OF inst] by (simp_all add: safe_def spared_def)
  then have links: "\<not> p_is_symlink (s_files v) (ip_config ip)" "\<not> p_is_symlink (s_files v) (ip_unit ip)"
    using prepare_ok [OF 1] uv by (simp_all add: p_is_symlink_def)
  note rest = plan_release_ok [OF 3 inst conf links old [symmetric]]
  then show ?thesis
    using uv su framed_flags [OF framed_prepare [OF inst] 1] framed_flags [OF framed_sqlite [OF inst] 2] by (simp add: same_on_def)
qed

definition plan_of :: "deploy_env \<Rightarrow> install_paths \<Rightarrow> options \<Rightarrow> path \<Rightarrow> sys \<Rightarrow> plan option" where
  "plan_of E ip opts raw s = (case make_plan E ip opts raw (s\<lparr>s_backup := None, s_stopped := False, s_switched := False\<rparr>) of
     (Inr (Inr d), _) \<Rightarrow> Some d | _ \<Rightarrow> None)"

lemma rolled_back_run:
  assumes run: "deploy E ip opts raw s = (RolledBack e, t)" and d: "plan_of E ip opts raw s = Some d"
  obtains s1 u where "make_plan E ip opts raw (s\<lparr>s_backup := None, s_stopped := False, s_switched := False\<rparr>) = (Inr (Inr d), s1)"
    "io_seq (deploy_steps E ip opts d) s1 = (Inl e, u)" "io_seq (recover_steps E ip d) u = (Inr (), t)"
  using run d by (auto simp: deploy_def plan_of_def transact_def split: prod.splits sum.splits)

lemma database_restored_cong:
  assumes "\<And>q. q \<in> set (db_files ip) \<Longrightarrow> fs_get F q = fs_get F' q"
  shows "database_restored E ip F G = database_restored E ip F' G"
proof -
  have "list_all (\<lambda>q. fs_get G q = fs_get F q) (db_files ip) = list_all (\<lambda>q. fs_get G q = fs_get F' q) (db_files ip)"
    using assms by (simp add: list_all_iff)
  moreover have "fs_get F (database_path ip) = fs_get F' (database_path ip)"
    "file_text F (beside (database_path ip) ''machinedeck.db-wal'') = file_text F' (beside (database_path ip) ''machinedeck.db-wal'')"
    using assms by (simp_all add: file_text_def db_files_def)
  ultimately show ?thesis by (simp only: database_restored_def)
qed

lemma rolled_back:
  assumes run: "deploy E ip opts raw s = (RolledBack e, t)" and d: "plan_of E ip opts raw s = Some d"
    and inst: "installation ip (pl_release d)" and conf: "commands_confined E ip (pl_release d)"
  shows "to_keep ip (pl_release d) p \<Longrightarrow> p \<noteq> ip_current ip \<Longrightarrow> fs_get (s_files t) p = fs_get (s_files s) p"
    and "current_restored E ip (s_files s) (s_files t)" and "database_restored E ip (s_files s) (s_files t)"
proof -
  obtain s1 u where 1: "make_plan E ip opts raw (s\<lparr>s_backup := None, s_stopped := False, s_switched := False\<rparr>) = (Inr (Inr d), s1)"
    and 2: "io_seq (deploy_steps E ip opts d) s1 = (Inl e, u)" and 3: "io_seq (recover_steps E ip d) u = (Inr (), t)"
    by (rule rolled_back_run [OF run d])
  note plan = make_plan_ok [OF 1 inst conf]
  have "recoverable E ip d (s_files s1) u"
    by (rule transaction_recoverable [OF inst conf _ _ _ 2]) (use plan in \<open>simp_all add: planned_def\<close>)
  note hb = handler_restores [OF inst conf _ this 3]
  have same: "fs_get (s_files s1) q = fs_get (s_files s) q" if "q \<in> safe ip (pl_release d)" for q
    using plan that by (simp add: same_on_def)
  then have keep: "fs_get (s_files s1) q = fs_get (s_files s) q" if "to_keep ip (pl_release d) q" for q
    using that by (simp add: safe_def spared_def)
  show "to_keep ip (pl_release d) p \<Longrightarrow> p \<noteq> ip_current ip \<Longrightarrow> fs_get (s_files t) p = fs_get (s_files s) p"
    using hb(1) plan keep by simp
  show "current_restored E ip (s_files s) (s_files t)"
    using hb(2) plan three_to_keep(3) [OF inst] keep [OF three_to_keep(3) [OF inst]] by (simp add: current_restored_def pointed_to_def)
  have "database_restored E ip (s_files s1) (s_files t)" using hb(3) plan by simp
  then show "database_restored E ip (s_files s) (s_files t)"
    using database_restored_cong [of ip "s_files s1" "s_files s"] same by (simp add: safe_def)
qed

section \<open>The service\<close>

text \<open>\<open>offline m\<close>: \<open>m\<close> runs no command, so the service stays as it is.\<close>

definition offline :: "'a io \<Rightarrow> bool" where
  "offline m \<longleftrightarrow> (\<forall>s. s_active (snd (m s)) = s_active s)"

named_theorems offline_intro \<open>operations that run no command\<close>

lemma offline_get: "offline m \<Longrightarrow> m s = (r, t) \<Longrightarrow> s_active t = s_active s"
  by (metis offline_def snd_conv)

lemma offline_basic [offline_intro]: "offline (io_ret x)" "offline (io_get f)" "offline (io_raise e)" "offline (sys_op E ok g)" "offline (unique_name E)"
  by (simp_all add: offline_def io_ret_def io_get_def io_raise_def sys_op_def unique_name_def)

lemma offline_bind [offline_intro]: "offline m \<Longrightarrow> (\<And>x. offline (f x)) \<Longrightarrow> offline (io_bind m f)"
  unfolding offline_def io_bind_def by (auto split: prod.splits sum.splits) (metis snd_conv)+

lemma offline_seq [offline_intro]: "(\<And>m. m \<in> set ms \<Longrightarrow> offline m) \<Longrightarrow> offline (io_seq ms)"
  by (induction ms) (auto intro: offline_intro)

lemma offline_when [offline_intro]: "offline m \<Longrightarrow> offline (io_when b m)"
  by (simp add: io_when_def offline_intro)

lemma offline_if [offline_intro]: "offline m \<Longrightarrow> offline n \<Longrightarrow> offline (if b then m else n)"
  by simp

lemma offline_option [offline_intro]: "offline a \<Longrightarrow> (\<And>y. offline (b y)) \<Longrightarrow> offline (case x of None \<Rightarrow> a | Some y \<Rightarrow> b y)"
  by (cases x) auto

lemma offline_files [offline_intro]:
  "offline (create_file E p c)" "offline (write_file E p c)" "offline (make_link E q p)" "offline (rename E p q)"
  "offline (unlink_missing_ok E p)" "offline (chmod E p)" "offline (remove_tree E p)"
  unfolding create_file_def write_file_def make_link_def rename_def unlink_missing_ok_def chmod_def remove_tree_def
  by (auto intro!: offline_intro)

lemma offline_copy [offline_intro]: "offline (copy_node E p q)"
  unfolding copy_node_def by (auto intro!: offline_intro split: node.splits)

lemma handler_offline:
  "offline (restore_current E ip d)" "offline (restore_unit E ip d)" "offline (undo_database E ip d)"
  "offline (io_when b (unlink_missing_ok E p))" "offline (discard_release E p b)"
  unfolding restore_current_def restore_unit_def undo_database_def discard_release_def switch_current_def
    restore_database_def remove_database_def Let_def io_seq.simps list.map
  by (intro offline_intro)+

text \<open>What systemctl does to the service.\<close>

definition service_commands :: "deploy_env \<Rightarrow> bool" where
  "service_commands E \<longleftrightarrow> (\<forall>fs act.
     \<not> snd (snd (de_exec E (simple_command [''systemctl'', ''--user'', ''stop'', service_name]) fs act))
     \<and> snd (snd (de_exec E (simple_command [''systemctl'', ''--user'', ''start'', service_name]) fs act))
     \<and> snd (snd (de_exec E (simple_command reload) fs act)) = act)"

lemma best_effort_active: "best_effort E args s = (r, t) \<Longrightarrow> s_active t = snd (snd (de_exec E (simple_command args) (s_files s) (s_active s)))"
  by (auto simp: best_effort_def run_process_def Let_def split: prod.splits run_result.splits)

lemma handler_service:
  assumes run: "io_seq (recover_steps E ip d) s = (Inr (), t)" and old: "pl_old d \<noteq> None" and laws: "service_commands E"
  shows "s_active t = s_stopped t"
proof -
  obtain s1 s2 s3 s4 s5 s6 s7 s8 where
    r: "silence_service E d s = (Inr (), s1)" "restore_current E ip d s1 = (Inr (), s2)" "restore_unit E ip d s2 = (Inr (), s3)"
      "undo_database E ip d s3 = (Inr (), s4)" "io_when (\<not> pl_config_existed d) (unlink_missing_ok E (ip_config ip)) s4 = (Inr (), s5)"
      "discard_release E (pl_release d) (Some (pl_release d) \<noteq> pl_old d) s5 = (Inr (), s6)"
      "discard_release E (pl_release d) True s6 = (Inr (), s7)" "best_effort E reload s7 = (Inr (), s8)" "restart_service E s8 = (Inr (), t)"
    using run unfolding recover_steps_def by (auto simp del: when_ok)
  have "\<not> s_active s1"
    using best_effort_active [of E _ s "Inr ()" s1] r(1) old laws by (auto simp: silence_service_def service_commands_def)
  then have "\<not> s_active s7"
    using offline_get [OF handler_offline(1) r(2)] offline_get [OF handler_offline(2) r(3)] offline_get [OF handler_offline(3) r(4)]
      offline_get [OF handler_offline(4) r(5)] offline_get [OF handler_offline(5) r(6)] offline_get [OF handler_offline(5) r(7)] by simp
  then have s8: "\<not> s_active s8" using best_effort_active [OF r(8)] laws by (simp add: service_commands_def)
  show ?thesis
  proof (cases "s_stopped s8")
    case False
    then show ?thesis using r(9) s8 by (auto simp: restart_service_def split: if_splits)
  next
    case True
    then have go: "best_effort E [''systemctl'', ''--user'', ''start'', service_name] s8 = (Inr (), t)"
      using r(9) by (auto simp: restart_service_def split: if_splits)
    have "s_stopped t = s_stopped s8"
      using framed_flags [OF framed_best_effort [of E _ UNIV] go] by (simp add: confined_def)
    then show ?thesis using best_effort_active [OF go] laws True by (simp add: service_commands_def)
  qed
qed

end
