(* ===== verification/Deployment.thy ===== *)
theory Deployment
  imports Rollback
begin

text \<open>
  The properties of \<open>deploy\<close> in \<open>scripts/machinedeck_deploy.py\<close>, and a host with an installed release
  on which they are evaluated.
\<close>

section \<open>A successful deployment\<close>

lemma finally_ok: "io_finally m k s = (Inr x, t) \<longleftrightarrow> (\<exists>u y. m s = (Inr x, u) \<and> k u = (Inr y, t))"
  by (auto simp: io_finally_def split: prod.splits sum.splits)

lemma unlink_other: "unlink_missing_ok E q s = (r, t) \<Longrightarrow> p \<noteq> q \<Longrightarrow> fs_get (s_files t) p = fs_get (s_files s) p"
  by (auto simp: unlink_missing_ok_def sys_op_def split: if_splits)

lemma atomic_write_ok:
  assumes "atomic_write E p c s = (Inr x, t)"
  shows "fs_get (s_files t) p = Some (File c)"
proof -
  let ?tmp = "\<lambda>u. child (path_parent p) (''.'' @ path_name p @ ''.'' @ u)"
  obtain u v v1 v2 w where
    1: "write_file E (?tmp u) c v = (Inr (), v1)" "chmod E (?tmp u) v1 = (Inr (), v2)" "rename E (?tmp u) p v2 = (Inr (), w)"
    and 2: "unlink_missing_ok E (?tmp u) w = (Inr (), t)"
    using assms by (auto simp: atomic_write_def Let_def finally_ok)
  have "p \<noteq> child (path_parent p) (''.'' @ path_name p @ ''.'' @ u)"
  proof
    assume "p = child (path_parent p) (''.'' @ path_name p @ ''.'' @ u)"
    then have "path_name p = ''.'' @ path_name p @ ''.'' @ u" by (metis name_child)
    then have "length (path_name p) = length (''.'' @ path_name p @ ''.'' @ u)" by (rule arg_cong)
    then show False by simp
  qed
  moreover have "fs_get (s_files w) p = Some (File c)"
    using rename_ok [OF 1(3)] write_file_ok [OF 1(1)] chmod_files [OF 1(2)] by simp
  ultimately show ?thesis using unlink_other [OF 2] by simp
qed

lemma health_ok:
  "wait_for_health E port i n s = (Inr x, t) \<Longrightarrow> t = s \<and> (\<exists>k < i + n. de_health E (s_files s) (s_active s) port k = Inr 200)"
proof (induction n arbitrary: i)
  case 0
  then show ?case by simp
next
  case (Suc n)
  show ?case
  proof (cases "de_health E (s_files s) (s_active s) port i = Inr 200")
    case True
    then show ?thesis using Suc.prems by (auto intro!: exI [of _ i])
  next
    case False
    then have "wait_for_health E port (Suc i) n s = (Inr x, t)"
      using Suc.prems by (auto split: sum.splits if_splits)
    from Suc.IH [OF this] show ?thesis by simp
  qed
qed

text \<open>What a finished deployment promises: the pointer, the unit rendered for the configuration, the health check.\<close>

definition deployed_state :: "deploy_env \<Rightarrow> install_paths \<Rightarrow> options \<Rightarrow> path \<Rightarrow> sys \<Rightarrow> bool" where
  "deployed_state E ip opts release s \<longleftrightarrow>
     fs_get (s_files s) (ip_current ip) = Some (Link release)
     \<and> (case fs_get (s_files s) (ip_config ip) of
          Some (File c) \<Rightarrow>
            (case read_server_configuration (de_toml E) (Some c) of
               Inl _ \<Rightarrow> False
             | Inr server \<Rightarrow>
                 map_option (\<lambda>n. case n of File u \<Rightarrow> Inr u | _ \<Rightarrow> Inl os_error) (fs_get (s_files s) (ip_unit ip))
                   = Some (service_unit (tl_str (de_toml E)) ip (ip_current ip) server)
                 \<and> (\<not> o_start opts \<or> list_ex (\<lambda>k. de_health E (s_files s) (s_active s) (sc_port server) k = Inr 200) [0..<30]))
        | _ \<Rightarrow> False)"

lemma activate_ok:
  assumes inst: "installation ip rel" and conf: "commands_confined E ip rel"
    and run: "activate E ip opts s = (Inr x, t)" and link: "fs_get (s_files s) (ip_current ip) = Some (Link r)"
    and cfg: "fs_get (s_files s) (ip_config ip) = Some (File c)"
  shows "deployed_state E ip opts r t"
proof -
  have "p_text E (s_files s) (ip_config ip) = Some c" using cfg by (simp add: p_text_def followed_def)
  then obtain server body s1 s2 where
    server: "Inr server = read_server_configuration (de_toml E) (Some c)"
    and body: "Inr body = service_unit (tl_str (de_toml E)) ip (ip_current ip) server"
    and 1: "atomic_write E (ip_unit ip) body s = (Inr (), s1)" and 2: "run_checked E reload s1 = (Inr (), s2)"
    and 3: "start_service E opts (sc_port server) s2 = (Inr (), t)"
    using run by (auto simp: activate_def read_configuration_def)
  let ?T = "- {p. spared ip rel p}"
  have loose: "confined E c ?T" for c using conf by (auto simp: commands_confined_def)
  have "ip_unit ip = child (ip_user_unit_dir ip) service_name" using inst by (simp add: installation_def layout_def)
  then have fr1: "framed (insert (ip_unit ip) ?T) (atomic_write E (ip_unit ip) body)"
    using framed_file_write [OF inst, of "ip_user_unit_dir ip" "insert (ip_unit ip) ?T" service_name] by (auto simp: safe_def)
  have fr2: "framed ?T (run_checked E reload)" by (intro frame_intro loose)
  have fr3: "framed ?T (start_service E opts (sc_port server))"
    unfolding start_service_def io_seq.simps by (intro frame_intro loose)
  have three: "spared ip rel (ip_config ip)" "spared ip rel (ip_unit ip)" "spared ip rel (ip_current ip)"
    using three_to_keep [OF inst] by (simp_all add: spared_def)
  have late: "fs_get (s_files t) p = fs_get (s_files s1) p" if "spared ip rel p" for p
    using framed_get [OF fr2 _ 2] framed_get [OF fr3 _ 3] that by simp
  have early: "fs_get (s_files s1) p = fs_get (s_files s) p" if "spared ip rel p" "p \<noteq> ip_unit ip" for p
    using framed_get [OF fr1 _ 1] that by simp
  note names = installation_names [OF inst]
  have "fs_get (s_files t) (ip_unit ip) = Some (File body)" using late three atomic_write_ok [OF 1] by simp
  moreover have "fs_get (s_files t) (ip_current ip) = Some (Link r)" "fs_get (s_files t) (ip_config ip) = Some (File c)"
    using late early three names link cfg by auto
  moreover have "list_ex (\<lambda>k. de_health E (s_files t) (s_active t) (sc_port server) k = Inr 200) [0..<30]" if "o_start opts"
    using 3 that by (auto simp: start_service_def list_ex_iff dest!: health_ok simp del: wait_for_health.simps)
  ultimately show ?thesis using server [symmetric] body [symmetric] by (auto simp: deployed_state_def)
qed

text \<open>The configuration file does not become a symlink on the way.\<close>

abbreviation plain_config :: "install_paths \<Rightarrow> sys \<Rightarrow> bool" where
  "plain_config ip s \<equiv> \<not> p_is_symlink (s_files s) (ip_config ip)"

lemma preserves_plain: "framed T m \<Longrightarrow> ip_config ip \<notin> T \<Longrightarrow> preserves (plain_config ip) m"
  by (auto simp: preserves_def framed_def p_is_symlink_def)

lemma atomic_write_plain: "atomic_write E p c s = (Inr x, t) \<Longrightarrow> \<not> p_is_symlink (s_files t) p"
  using atomic_write_ok by (fastforce simp: p_is_symlink_def)

lemma build_plain:
  assumes inst: "installation ip (pl_release d)" and conf: "commands_confined E ip (pl_release d)"
    and run: "io_seq (build_steps E ip d) s = (Inr x, t)" and s: "plain_config ip s"
  shows "plain_config ip t"
proof -
  have safe: "ip_config ip \<in> safe ip (pl_release d)" using three_to_keep [OF inst] by (simp add: safe_def spared_def)
  have quiet: "preserves (plain_config ip) m" if "framed (- safe ip (pl_release d)) m" for m :: "'a io"
    by (rule preserves_plain [OF that]) (simp add: safe)
  have split: "build_steps E ip d = take 7 (build_steps E ip d) @ [write_config E ip d, stop_service E d]"
    by (simp add: build_steps_def Let_def)
  obtain u v where 1: "io_seq (take 7 (build_steps E ip d)) s = (Inr (), u)" and 2: "write_config E ip d u = (Inr (), v)"
    and 3: "stop_service E d v = (Inr (), t)"
    using run by (subst (asm) split) (auto simp: seq_append_ok)
  have "plain_config ip u"
    using preserves_run [OF preserves_seq [OF preserves_plain [OF build_step_framed [OF inst conf]]] s 1] safe by simp
  then have "plain_config ip v"
    using 2 by (auto simp: write_config_def split: if_splits dest: atomic_write_plain)
  moreover have "preserves (plain_config ip) (stop_service E d)"
    by (rule stop_service_preserves [OF conf]) (auto intro: preserves_plain simp: safe)
  ultimately show ?thesis using 3 preserves_run by blast
qed

lemma save_plain:
  assumes inst: "installation ip (pl_release d)" and run: "save_database E ip s = (r, t)" and s: "plain_config ip s"
  shows "plain_config ip t"
proof -
  have "preserves (plain_config ip) (backup_database E ip)"
    using installation_names [OF inst] by (intro preserves_plain [OF framed_backup]) auto
  moreover have "preserves (plain_config ip) (io_mod (\<lambda>s. s\<lparr>s_backup := b\<rparr>))" for b
    by (simp add: preserves_def io_mod_def)
  ultimately have "preserves (plain_config ip) (save_database E ip)"
    unfolding save_database_def by (rule preserves_bind)
  then show ?thesis using s run preserves_run by blast
qed

lemma deployed:
  assumes run: "deploy E ip opts raw s = (Deployed r, t)" and d: "plan_of E ip opts raw s = Some d"
    and inst: "installation ip (pl_release d)" and conf: "commands_confined E ip (pl_release d)"
  shows "r = pl_release d" and "deployed_state E ip opts r t"
    and "to_keep ip (pl_release d) p \<Longrightarrow> p \<notin> {ip_current ip, ip_unit ip, ip_config ip} \<Longrightarrow> fs_get (s_files t) p = fs_get (s_files s) p"
proof -
  let ?s = "s\<lparr>s_backup := None, s_stopped := False, s_switched := False\<rparr>"
  obtain s1 where 1: "make_plan E ip opts raw ?s = (Inr (Inr d), s1)"
    and 2: "io_seq (deploy_steps E ip opts d) s1 = (Inr (), t)" and r: "r = pl_release d"
    using run d by (auto simp: deploy_def plan_of_def transact_def split: prod.splits sum.splits)
  show "r = pl_release d" by (rule r)
  note plan = make_plan_ok [OF 1 inst conf]
  have "recoverable E ip d (s_files s1) t"
    by (rule transaction_recoverable [OF inst conf _ _ _ 2]) (use plan in \<open>simp_all add: planned_def\<close>)
  then show "fs_get (s_files t) p = fs_get (s_files s) p"
    if "to_keep ip (pl_release d) p" "p \<notin> {ip_current ip, ip_unit ip, ip_config ip}"
    using plan that by (auto simp: recoverable_def holds_old_def same_on_def safe_def spared_def)
  obtain u v where 3: "io_seq (build_steps E ip d) s1 = (Inr (), u)" and 4: "save_database E ip u = (Inr (), v)"
    and 5: "io_seq (commit_steps E ip opts d) v = (Inr (), t)"
    using 2 by (auto simp: deploy_steps_def seq_append_ok)
  have v: "plain_config ip v"
    using save_plain [OF inst 4 build_plain [OF inst conf 3]] plan by (simp add: planned_def)
  obtain v1 v2 v3 v4 v5 where
    6: "migrate E ip (pl_release d) v = (Inr (), v1)" "chmod E (database_path ip) v1 = (Inr (), v2)"
      "unlink E (under (pl_release d) ''.installing'') v2 = (Inr (), v3)"
    and 7: "switch_current E ip (pl_release d) v3 = (Inr (), v5)" "v4 = v5\<lparr>s_switched := True\<rparr>" and 8: "activate E ip opts v4 = (Inr (), t)"
    using 5 by (auto simp: commit_steps_def switch_release_def io_mod_def)
  have three: "spared ip (pl_release d) (ip_config ip)" using three_to_keep [OF inst] by (simp add: spared_def)
  have mig: "framed (- {p. spared ip (pl_release d) p}) (migrate E ip (pl_release d))"
    unfolding migrate_def using conf by (intro frame_intro) (simp add: commands_confined_def)
  have "ip_config ip \<noteq> under (pl_release d) ''.installing''"
    using three_to_keep(1) [OF inst] by (auto simp: to_keep_def under_one)
  then have "fs_get (s_files v3) (ip_config ip) = fs_get (s_files v) (ip_config ip)"
    using framed_get [OF mig _ 6(1), of "ip_config ip"] three chmod_files [OF 6(2)]
      framed_get [OF framed_files(6) [of "under (pl_release d) ''.installing''" "{under (pl_release d) ''.installing''}"] _ 6(3), of "ip_config ip"]
    by simp
  then have "fs_get (s_files v4) (ip_config ip) = fs_get (s_files v) (ip_config ip)"
    using switch_current_result(3) [OF inst 7(1), of "ip_config ip"] 7(2) three installation_names(1) [OF inst] by (simp add: safe_def)
  then have plain: "plain_config ip v4" using v by (simp add: p_is_symlink_def)
  obtain active where "Inr active = read_server_configuration (de_toml E) (p_text E (s_files v4) (ip_config ip))"
    using 8 by (auto simp: activate_def read_configuration_def)
  then obtain c where c: "fs_get (s_files v4) (ip_config ip) = Some (File c)"
    using plain by (auto simp: read_server_configuration_def p_text_def followed_def p_is_symlink_def cannot_read_def
        split: option.splits node.splits)
  have "fs_get (s_files v4) (ip_current ip) = Some (Link (pl_release d))"
    using switch_current_result(1) [OF inst 7(1)] 7(2) by simp
  from activate_ok [OF inst conf 8 this c] show "deployed_state E ip opts r t" by (simp add: r)
qed

section \<open>A host with an installed release\<close>

definition demo_paths :: install_paths where
  "demo_paths = discover_paths path_of (path_of ''/h'')
     (map_of [(''HOME'', ''/h''), (''XDG_DATA_HOME'', ''/d''), (''XDG_STATE_HOME'', ''/t''), (''XDG_CONFIG_HOME'', ''/c'')])"

definition exits :: "int \<Rightarrow> run_result" where
  "exits n = Exit \<lparr>co_status = n, co_out = [], co_err = []\<rparr>"

text \<open>Commands on the host of the examples: pip ends with status \<open>pip\<close>, the migration changes the database and ends with \<open>mig\<close>.\<close>

definition demo_exec :: "int \<Rightarrow> int \<Rightarrow> command \<Rightarrow> files \<Rightarrow> bool \<Rightarrow> run_result \<times> files \<times> bool" where
  "demo_exec pip mig c fs act =
     (let verb = hd (drop 2 (c_args c))
      in if verb = ''is-active'' then (exits (if act then 0 else 3), fs, act)
         else if verb = ''stop'' then (exits 0, fs, False)
         else if verb = ''start'' \<or> verb = ''enable'' then (exits 0, fs, True)
         else if drop 1 (c_args c) = [''upgrade'', ''head''] then (exits mig, fs_put (path_of ''/t/machinedeck/machinedeck.db'') (File ''new'') fs, act)
         else (exits (if verb = ''pip'' then pip else 0), fs, act))"

definition demo_env :: "nat \<Rightarrow> int \<Rightarrow> int \<Rightarrow> deploy_env" where
  "demo_env bad pip mig =
     \<lparr>de_exec = demo_exec pip mig, de_fault = (\<lambda>n. n = bad), de_resolve = (\<lambda>fs p. p), de_unique = (\<lambda>n. replicate n (CHR ''x'')),
      de_time = (\<lambda>f n. ''T''), de_copy_db = (\<lambda>c w. c), de_port_free = (\<lambda>_ act _. \<not> act),
      de_health = (\<lambda>_ act _ _. if act then Inr 200 else Inl os_error), de_answer = None, de_root = False, de_linux = True, de_modern = True,
      de_user = ''u'', de_python = ''p'', de_environ = [],
      de_toml = \<lparr>tl_load = Some (\<lambda>_. Some [(''network'', TTable [(''trusted_networks'', TArr [])])]), tl_json = (\<lambda>_. None), tl_str = (\<lambda>_. [])\<rparr>, de_detected = (''h'', [])\<rparr>"

definition demo_files :: files where
  "demo_files = map (\<lambda>(s, n). (path_of s, n))
     [(''/'', Dir), (''/d'', Dir), (''/d/machinedeck'', Dir), (''/d/machinedeck/releases'', Dir),
      (''/d/machinedeck/releases/1'', Dir), (''/d/machinedeck/current'', Link (path_of ''/d/machinedeck/releases/1'')),
      (''/t'', Dir), (''/t/machinedeck'', Dir), (''/t/machinedeck/backups'', Dir), (''/t/machinedeck/machinedeck.db'', File ''old''),
      (''/c'', Dir), (''/c/machinedeck'', Dir), (''/c/machinedeck/config.toml'', File []), (''/c/systemd'', Dir), (''/c/systemd/user'', Dir),
      (''/c/systemd/user/machinedeck.service'', File ''unit''),
      (''/s'', Dir), (''/s/backend'', Dir), (''/s/backend/app'', Dir), (''/s/backend/alembic'', Dir),
      (''/s/backend/alembic.ini'', File []), (''/s/backend/pyproject.toml'', File (''[project]'' @ [LF] @ ''version='' @ [QUOTE] @ ''2'' @ [QUOTE])),
      (''/s/frontend'', Dir), (''/s/frontend/index.html'', File []), (''/s/scripts'', Dir), (''/s/scripts/machinedeck_deploy.py'', File [])]"

definition demo_sys :: sys where
  "demo_sys = \<lparr>s_files = demo_files, s_active = True, s_tick = 0, s_backup = None, s_stopped = False, s_switched = False\<rparr>"

definition demo_upgrade :: options where
  "demo_upgrade = \<lparr>o_upgrade = True, o_start = True, o_linger = False, o_yes = False, o_access = None, o_origins = [], o_proxies = [], o_networks = []\<rparr>"

lemma database_not_spared: "installation ip rel \<Longrightarrow> \<not> spared ip rel (database_path ip)"
  by (auto simp: spared_def to_keep_def db_files_def database_child installation_def layout_def separate_def)

lemma demo_installation: "installation demo_paths (child (ip_releases demo_paths) ''2-T-xxxxxxxx'')"
  by code_simp

lemma demo_database: "database_path demo_paths = path_of ''/t/machinedeck/machinedeck.db''"
  by code_simp

lemma drop_one_length: "drop (Suc 0) xs = [x, y] \<Longrightarrow> length xs = 3"
  by (cases xs) auto

lemma demo_confined: "installation demo_paths rel \<Longrightarrow> commands_confined (demo_env bad pip mig) demo_paths rel"
  using database_not_spared [of demo_paths rel]
  by (auto simp: commands_confined_def confined_def demo_env_def demo_exec_def Let_def database_command_def demo_database
      dest: drop_one_length)

lemma demo_service: "service_commands (demo_env bad pip mig)"
  by (simp add: service_commands_def demo_env_def demo_exec_def simple_command_def reload_def Let_def)

definition demo_deploy :: "nat \<Rightarrow> int \<Rightarrow> outcome \<times> sys" where
  "demo_deploy bad mig = deploy (demo_env bad 0 mig) demo_paths demo_upgrade (path_of ''/s'') demo_sys"

definition demo_plan :: "nat \<Rightarrow> int \<Rightarrow> plan option" where
  "demo_plan bad mig = plan_of (demo_env bad 0 mig) demo_paths demo_upgrade (path_of ''/s'') demo_sys"

lemma demo_plans: "map_option (\<lambda>d. (pl_release d, pl_old d)) (demo_plan 1000 1) = Some (child (ip_releases demo_paths) ''2-T-xxxxxxxx'', Some (path_of ''/d/machinedeck/releases/1''))"
  by code_simp

lemma demo_plans_ok: "map_option (\<lambda>d. (pl_release d, pl_old d)) (demo_plan 1000 0) = Some (child (ip_releases demo_paths) ''2-T-xxxxxxxx'', Some (path_of ''/d/machinedeck/releases/1''))"
  by code_simp

lemma demo_plans_10: "map_option (\<lambda>d. (pl_release d, pl_old d)) (demo_plan 10 0) = Some (child (ip_releases demo_paths) ''2-T-xxxxxxxx'', Some (path_of ''/d/machinedeck/releases/1''))"
  by code_simp

lemma demo_migration_fails: "fst (demo_deploy 1000 1) = RolledBack (OtherDeploy ''CalledProcessError'')"
  by code_simp

lemma demo_mkdir_fails: "fst (demo_deploy 10 0) = RolledBack os_error \<and> \<not> s_stopped (snd (demo_deploy 10 0))"
  by code_simp

lemma demo_succeeds: "fst (demo_deploy 1000 0) = Deployed (child (ip_releases demo_paths) ''2-T-xxxxxxxx'')"
  by code_simp

section \<open>Properties\<close>

text \<open>
  Property C7. A deployment that fails and whose handler completes leaves every path it has to keep
  (the other releases, the files of the configuration and unit directories) as it found it, the
  pointer to the current release on the release it pointed to, and the database as it was before the
  migration: untouched, or replaced by the backup with its log files removed, or absent if there was
  none. This holds for every failing file operation, command and health check, at every step.
\<close>

theorem failed_deployment_undone:
  assumes run: "deploy E ip opts raw s = (RolledBack e, t)" and d: "plan_of E ip opts raw s = Some d"
    and inst: "installation ip (pl_release d)" and conf: "commands_confined E ip (pl_release d)"
  shows "(\<forall>p. to_keep ip (pl_release d) p \<and> p \<noteq> ip_current ip \<longrightarrow> fs_get (s_files t) p = fs_get (s_files s) p)
    \<and> current_restored E ip (s_files s) (s_files t) \<and> database_restored E ip (s_files s) (s_files t)"
  using rolled_back [OF run d inst conf] by simp

theorem failed_deployment_undone_witness:
  "\<exists>t. demo_deploy 1000 1 = (RolledBack (OtherDeploy ''CalledProcessError''), t)
     \<and> fs_get (s_files t) (ip_unit demo_paths) = fs_get demo_files (ip_unit demo_paths)
     \<and> database_restored (demo_env 1000 0 1) demo_paths demo_files (s_files t)"
proof -
  obtain t where t: "demo_deploy 1000 1 = (RolledBack (OtherDeploy ''CalledProcessError''), t)"
    using demo_migration_fails by (metis prod.collapse)
  obtain d where d: "demo_plan 1000 1 = Some d" "pl_release d = child (ip_releases demo_paths) ''2-T-xxxxxxxx''"
    using demo_plans by auto
  have inst: "installation demo_paths (pl_release d)" using d(2) demo_installation by simp
  from failed_deployment_undone [OF t [unfolded demo_deploy_def] d(1) [unfolded demo_plan_def] inst demo_confined [OF inst]]
  show ?thesis using t three_to_keep(2) [OF inst] installation_names(2) [OF inst] by (auto simp: demo_sys_def)
qed

text \<open>
  Property C19. After an upgrade that was rolled back the service runs exactly when the deployment
  had got as far as stopping it. So an upgrade that fails before that step, such as one whose mkdir
  or pip fails, leaves a service stopped that ran before: the handler stops it and does not start it.
\<close>

theorem failed_upgrade_service:
  assumes run: "deploy E ip opts raw s = (RolledBack e, t)" and d: "plan_of E ip opts raw s = Some d"
    and old: "pl_old d \<noteq> None" and laws: "service_commands E"
  shows "s_active t \<longleftrightarrow> s_stopped t"
  using rolled_back_run [OF run d] handler_service [OF _ old laws] by metis

theorem failed_upgrade_service_witness:
  "\<exists>t. demo_deploy 10 0 = (RolledBack os_error, t) \<and> s_active demo_sys \<and> \<not> s_active t"
proof -
  obtain t where t: "demo_deploy 10 0 = (RolledBack os_error, t)" "\<not> s_stopped t"
    using demo_mkdir_fails by (metis prod.collapse)
  obtain d where d: "demo_plan 10 0 = Some d" "pl_old d \<noteq> None" using demo_plans_10 by auto
  from failed_upgrade_service [OF t(1) [unfolded demo_deploy_def] d(1) [unfolded demo_plan_def] d(2) demo_service]
  show ?thesis using t by (simp add: demo_sys_def)
qed

text \<open>
  Property C20. A deployment that succeeds has switched the pointer to the new release, written the
  unit rendered for the configuration that is on disk, and, when it started the service, seen its
  health endpoint answer 200 within 30 attempts; the other releases and the other files of the
  configuration and unit directories are untouched.
\<close>

theorem deployment_succeeds:
  assumes run: "deploy E ip opts raw s = (Deployed r, t)" and d: "plan_of E ip opts raw s = Some d"
    and inst: "installation ip (pl_release d)" and conf: "commands_confined E ip (pl_release d)"
  shows "r = pl_release d \<and> deployed_state E ip opts r t
    \<and> (\<forall>p. to_keep ip r p \<and> p \<notin> {ip_current ip, ip_unit ip, ip_config ip} \<longrightarrow> fs_get (s_files t) p = fs_get (s_files s) p)"
  using deployed [OF run d inst conf] by simp

theorem deployment_succeeds_witness:
  "\<exists>t. demo_deploy 1000 0 = (Deployed (child (ip_releases demo_paths) ''2-T-xxxxxxxx''), t)
     \<and> fs_get (s_files t) (ip_current demo_paths) = Some (Link (child (ip_releases demo_paths) ''2-T-xxxxxxxx''))"
proof -
  obtain t where t: "demo_deploy 1000 0 = (Deployed (child (ip_releases demo_paths) ''2-T-xxxxxxxx''), t)"
    using demo_succeeds by (metis prod.collapse)
  obtain d where d: "demo_plan 1000 0 = Some d" "pl_release d = child (ip_releases demo_paths) ''2-T-xxxxxxxx''"
    using demo_plans_ok by auto
  have inst: "installation demo_paths (pl_release d)" using d(2) demo_installation by simp
  from deployment_succeeds [OF t [unfolded demo_deploy_def] d(1) [unfolded demo_plan_def] inst demo_confined [OF inst]]
  show ?thesis using t by (simp add: deployed_state_def)
qed

end
