(* ===== verification/PortDiscovery.thy ===== *)
theory PortDiscovery
  imports RuntimeAdapter
begin

text \<open>
  \<open>orchestration/port_discovery.py\<close>: which ports the processes of a unit or the containers of a
  Compose project publish, and which sockets listen on the host. What the program asks of the
  host (the connections and processes psutil lists, the pids in a control group, the answers of
  \<open>systemctl\<close> and of the Docker CLI, the containers of the Docker SDK) is the record \<open>host_view\<close>,
  one snapshot of it. The exceptions that leave a discovery are a PortDiscoveryError, a ValueError
  (pydantic refusing a port out of range) or another one.
\<close>

datatype disc_exn = DiscoveryErr string | ValueErr string | OtherExc string

datatype transport = Tcp | Udp

datatype port_source = SrcProcess | SrcCompose | SrcSystem

record observed_port =
  ob_bind :: string
  ob_port :: int
  ob_proto :: transport
  ob_pid :: "int option"
  ob_process :: "string option"
  ob_source :: port_source
  ob_service :: "string option"
  ob_container :: "string option"
  ob_container_port :: "int option"
  ob_app :: "string option"

text \<open>One entry of \<open>psutil.net_connections\<close>: \<open>cn_laddr\<close> is empty for an unbound socket.\<close>

record connection =
  cn_pid :: "int option"
  cn_laddr :: "(string \<times> int) option"
  cn_stream :: bool
  cn_listen :: bool

record host_view =
  hv_command :: "string list \<Rightarrow> adapter_result"
  hv_connections :: "disc_exn + connection list"
  hv_process_name :: "int \<Rightarrow> string option"
  hv_children :: "int \<Rightarrow> int list"
  hv_cgroup_root :: path
  hv_resolve :: "path \<Rightarrow> path"
  hv_procs :: "path \<Rightarrow> string list"
  hv_sdk :: "string \<Rightarrow> string + (string \<times> json) list"
  hv_loads :: "string \<Rightarrow> json option"

definition normalize_address :: "string \<Rightarrow> string" where
  "normalize_address v =
     (if v = [] \<or> v = ''*'' then ''0.0.0.0''
      else case ip_address v of Some a \<Rightarrow> ip_str a | None \<Rightarrow> v)"

section \<open>Processes\<close>

fun str_values :: "string list \<Rightarrow> (string \<times> string) list \<Rightarrow> (string \<times> string) list" where
  "str_values [] vs = vs"
| "str_values (l # ls) vs =
     (case partition_on (CHR ''='') l of (k, sep, v) \<Rightarrow>
        str_values ls (if sep then (k, v) # vs else vs))"

definition value_or :: "string \<Rightarrow> string \<Rightarrow> (string \<times> string) list \<Rightarrow> string" where
  "value_or k d vs = (case map_of vs k of Some v \<Rightarrow> v | None \<Rightarrow> d)"

text \<open>The files below the target that could be read, each as its lines; \<open>isdigit\<close> accepts only
  digits in an ASCII file.\<close>

definition read_cgroup_pids :: "host_view \<Rightarrow> string \<Rightarrow> disc_exn + int list" where
  "read_cgroup_pids hv cg =
     (let pure = path_of cg
      in if \<not> path_is_absolute pure \<or> ''..'' \<in> set (path_parts pure)
         then Inl (DiscoveryErr ''systemd returned an unsafe control group path'')
         else (let root = hv_resolve hv (hv_cgroup_root hv);
                   target = hv_resolve hv (path_join root (Path [] (path_parts pure)))
               in if target \<noteq> root \<and> \<not> path_relative_to target root
                  then Inl (DiscoveryErr ''Control group escaped the cgroup root'')
                  else Inr (map (num_val 10) (filter (\<lambda>v. v \<noteq> [] \<and> list_all is_dec v) (hv_procs hv target)))))"

definition unit_processes :: "host_view \<Rightarrow> string \<Rightarrow> disc_exn + int list" where
  "unit_processes hv app =
     (case unit_name_for app of Inl e \<Rightarrow> Inl (OtherExc (exc_text e)) | Inr unit \<Rightarrow>
      let r = hv_command hv [''systemctl'', ''--user'', ''show'', unit, ''--property=MainPID,ControlGroup'', ''--no-pager'']
      in if \<not> succeeded r then Inl (DiscoveryErr (or_else (message r) (''Cannot read process group for '' @ unit)))
         else (let vs = str_values (splitlines (message r)) [];
                   main = (case py_int (value_or ''MainPID'' ''0'' vs) of Some n \<Rightarrow> n | None \<Rightarrow> 0);
                   base = (if 0 < main then [main] else []);
                   cg = value_or ''ControlGroup'' [] vs
               in res_bind (if cg = [] then Inr [] else read_cgroup_pids hv cg) (\<lambda>group.
                    let pids = dict_fromkeys (base @ group)
                    in Inr (if 0 < main \<and> length pids = 1
                            then dict_fromkeys (pids @ hv_children hv main) else pids))))"

text \<open>\<open>ObservedPort\<close> refuses a port outside 1 to 65535.\<close>

definition observed :: "observed_port \<Rightarrow> disc_exn + observed_port" where
  "observed o1 = (if 1 \<le> ob_port o1 \<and> ob_port o1 \<le> 65535 then Inr o1 else Inl (ValueErr ''ValidationError''))"

definition observe ::
    "host_view \<Rightarrow> port_source \<Rightarrow> string option \<Rightarrow> connection \<Rightarrow> (disc_exn + observed_port) option"
where
  "observe hv src app c =
     (case cn_laddr c of None \<Rightarrow> None
      | Some (addr, port) \<Rightarrow>
          if cn_stream c \<and> \<not> cn_listen c then None
          else Some (observed \<lparr>ob_bind = normalize_address addr, ob_port = port,
                 ob_proto = (if cn_stream c then Tcp else Udp), ob_pid = cn_pid c,
                 ob_process = (case cn_pid c of None \<Rightarrow> None
                    | Some p \<Rightarrow> if p = 0 then None else hv_process_name hv p),
                 ob_source = src, ob_service = None, ob_container = None, ob_container_port = None,
                 ob_app = app\<rparr>))"

definition discover_process :: "host_view \<Rightarrow> manifest \<Rightarrow> disc_exn + observed_port list" where
  "discover_process hv m =
     res_bind (unit_processes hv (man_id m)) (\<lambda>pids.
       if pids = [] then Inr []
       else res_bind (hv_connections hv) (\<lambda>cs.
         res_list (List.map_filter (observe hv SrcProcess (Some (man_id m)))
                (filter (\<lambda>c. case cn_pid c of None \<Rightarrow> False | Some p \<Rightarrow> p \<in> set pids) cs))))"

section \<open>Compose containers\<close>

text \<open>
  \<open>d.get(k, {})\<close>, and with \<open>falsy\<close> also \<open>or {}\<close>, read as an object. Any Exception here is caught
  by \<open>discover\<close>, so its text is all that matters.
\<close>

fun get_fields :: "bool \<Rightarrow> string \<Rightarrow> (string \<times> json) list \<Rightarrow> string + (string \<times> json) list" where
  "get_fields falsy k fs = (case map_of fs k of
     None \<Rightarrow> Inr []
   | Some (JObj gs) \<Rightarrow> Inr gs
   | Some v \<Rightarrow> if falsy \<and> v \<in> {JNull, JBool False, JInt 0, JStr [], JList []} then Inr []
               else Inl ''AttributeError'')"

fun get_string :: "string \<Rightarrow> (string \<times> json) list \<Rightarrow> string option" where
  "get_string k fs = (case map_of fs k of Some (JStr s) \<Rightarrow> Some s | _ \<Rightarrow> None)"

text \<open>\<open>str(binding.get("HostPort", ""))\<close> for a string or a number.\<close>

fun host_port_text :: "(string \<times> json) list \<Rightarrow> string" where
  "host_port_text fs = (case map_of fs ''HostPort'' of
     Some (JStr s) \<Rightarrow> s | Some (JInt n) \<Rightarrow> int_str n | Some v \<Rightarrow> ''None'' | None \<Rightarrow> [])"

text \<open>\<open>isdigit\<close> followed by \<open>int\<close>: the superscripts that \<open>isdigit\<close> accepts make \<open>int\<close> raise.\<close>

definition digits_to_int :: "string \<Rightarrow> (string + int) option" where
  "digits_to_int s = (if \<not> py_isdigit s then None
     else case py_int s of Some n \<Rightarrow> Some (Inr n) | None \<Rightarrow> Some (Inl ''ValueError''))"

fun host_ip :: "(string \<times> json) list \<Rightarrow> string + string" where
  "host_ip fs = (case map_of fs ''HostIp'' of
     None \<Rightarrow> Inr (normalize_address [])
   | Some (JStr s) \<Rightarrow> Inr (normalize_address s)
   | Some _ \<Rightarrow> Inl ''ValidationError'')"

definition bind_one ::
    "string \<Rightarrow> string option \<Rightarrow> string \<Rightarrow> transport \<Rightarrow> string + int \<Rightarrow> json \<Rightarrow> (string + observed_port) option"
where
  "bind_one app service cid proto cport b =
     (case b of
        JObj fs \<Rightarrow>
          (case digits_to_int (host_port_text fs) of
             None \<Rightarrow> None
           | Some hp \<Rightarrow> Some (res_bind (host_ip fs) (\<lambda>addr. res_bind hp (\<lambda>p. res_bind cport (\<lambda>cp.
               if 1 \<le> p \<and> p \<le> 65535
               then Inr \<lparr>ob_bind = addr, ob_port = p, ob_proto = proto, ob_pid = None, ob_process = None,
                    ob_source = SrcCompose, ob_service = service, ob_container = Some (take 12 cid),
                    ob_container_port = Some cp, ob_app = Some app\<rparr>
               else Inl ''ValidationError'')))))
      | _ \<Rightarrow> Some (Inl ''AttributeError''))"

definition transport_of :: "string \<Rightarrow> transport option" where
  "transport_of s = (if s = ''tcp'' then Some Tcp else if s = ''udp'' then Some Udp else None)"

fun port_entry ::
    "string \<Rightarrow> string option \<Rightarrow> string \<Rightarrow> string \<times> json \<Rightarrow> (string + observed_port) list"
where
  "port_entry app service cid (key, JList bindings) =
     (case partition_on (CHR ''/'') key of (ptext, _, proto) \<Rightarrow>
        (case (transport_of proto, digits_to_int ptext) of
           (Some t, Some cport) \<Rightarrow> List.map_filter (bind_one app service cid t cport) bindings
         | _ \<Rightarrow> []))"
| "port_entry app service cid (key, _) = []"

definition in_project :: "host_view \<Rightarrow> path \<Rightarrow> string option \<Rightarrow> (string \<times> json) list \<Rightarrow> bool" where
  "in_project hv wd pn labels \<longleftrightarrow>
     get_string ''com.docker.compose.project'' labels = Some (compose_identifier wd pn)
     \<and> (case get_string ''com.docker.compose.project.working_dir'' labels of
          None \<Rightarrow> True
        | Some d \<Rightarrow> d = [] \<or> hv_resolve hv (path_of d) = wd)"

fun container_ports ::
    "host_view \<Rightarrow> string \<Rightarrow> path \<Rightarrow> string option \<Rightarrow> string \<times> json \<Rightarrow> (string + observed_port) list"
where
  "container_ports hv app wd pn (cid, JObj attrs) =
     (case res_bind (get_fields False ''Config'' attrs) (get_fields True ''Labels'') of
        Inl e \<Rightarrow> [Inl e]
      | Inr labels \<Rightarrow>
          if \<not> in_project hv wd pn labels then []
          else (case res_bind (get_fields False ''NetworkSettings'' attrs) (get_fields True ''Ports'') of
                  Inl e \<Rightarrow> [Inl e]
                | Inr ports \<Rightarrow>
                    concat (map (port_entry app (get_string ''com.docker.compose.service'' labels) cid) ports)))"
| "container_ports hv app wd pn (cid, _) = [Inl ''AttributeError'']"

definition observed_from_containers ::
    "host_view \<Rightarrow> string \<Rightarrow> path \<Rightarrow> string option \<Rightarrow> (string \<times> json) list \<Rightarrow> string + observed_port list"
where
  "observed_from_containers hv app wd pn cs = res_list (concat (map (container_ports hv app wd pn) cs))"

definition discover_sdk :: "host_view \<Rightarrow> string \<Rightarrow> path \<Rightarrow> string option \<Rightarrow> string + observed_port list" where
  "discover_sdk hv app wd pn =
     res_bind (hv_sdk hv (compose_identifier wd pn)) (observed_from_containers hv app wd pn)"

fun inspected :: "json list \<Rightarrow> (string \<times> json) list" where
  "inspected [] = []"
| "inspected (JObj fs # vs) = (case get_string ''Id'' fs of Some s \<Rightarrow> s | None \<Rightarrow> [], JObj fs) # inspected vs"
| "inspected (_ # vs) = inspected vs"

definition discover_cli :: "host_view \<Rightarrow> string \<Rightarrow> path \<Rightarrow> string option \<Rightarrow> string + observed_port list" where
  "discover_cli hv app wd pn =
     (let listed = hv_command hv [''docker'', ''ps'', ''--all'', ''--filter'',
             ''label=com.docker.compose.project='' @ compose_identifier wd pn, ''--format'', ''{{.ID}}'']
      in if \<not> succeeded listed then Inl (or_else (message listed) ''Cannot list Compose containers'')
         else let ids = filter (\<lambda>l. l \<noteq> []) (splitlines (message listed))
              in if ids = [] then Inr []
                 else let insp = hv_command hv ([''docker'', ''inspect''] @ ids)
                      in if \<not> succeeded insp then Inl (or_else (message insp) ''Cannot inspect Compose containers'')
                         else case hv_loads hv (message insp) of
                             None \<Rightarrow> Inl ''Docker inspect returned invalid JSON''
                           | Some (JList vs) \<Rightarrow> observed_from_containers hv app wd pn (inspected vs)
                           | Some _ \<Rightarrow> Inl ''Docker inspect returned an unexpected response'')"

definition discover_compose :: "host_view \<Rightarrow> string \<Rightarrow> path \<Rightarrow> string option \<Rightarrow> disc_exn + observed_port list" where
  "discover_compose hv app wd pn =
     (case discover_sdk hv app wd pn of
        Inr ps \<Rightarrow> Inr ps
      | Inl sdk_error \<Rightarrow>
          (case discover_cli hv app wd pn of
             Inr ps \<Rightarrow> Inr ps
           | Inl cli_error \<Rightarrow> Inl (DiscoveryErr (''Docker Engine discovery failed via SDK ('' @ sdk_error
                  @ '') and CLI ('' @ cli_error @ '')''))))"

definition discover :: "host_view \<Rightarrow> manifest \<Rightarrow> disc_exn + observed_port list" where
  "discover hv m = (case man_runtime m of
     ProcessRuntime _ _ \<Rightarrow> discover_process hv m
   | ComposeRuntime wd cf pn \<Rightarrow> discover_compose hv (man_id m) wd pn)"

section \<open>Listeners of the host\<close>

definition scan_host_listeners :: "host_view \<Rightarrow> disc_exn + observed_port list" where
  "scan_host_listeners hv =
     res_bind (hv_connections hv) (\<lambda>cs. res_list (List.map_filter (observe hv SrcSystem None) cs))"

end
