(* ===== verification/Ports.thy ===== *)
theory Ports
  imports PortDiscovery
begin

text \<open>
  \<open>orchestration/ports.py\<close> and \<open>schemas/ports.py\<close>: which declared ports an application really has,
  what else listens on them, and the URLs of its Web endpoints. A request reads the host twice, so
  the operations take two views of it: one for the application's own ports and one for the scan
  of all listeners. \<open>requery\<close> is \<open>urlencode(parse_qsl(query, keep_blank_values=True), doseq=True)\<close>.
\<close>

datatype port_status = DECLARED | LISTENING | NOT_LISTENING | UNDECLARED | CONFLICTED | PS_UNKNOWN

record port_view =
  pv_id :: string
  pv_name :: string
  pv_protocol :: protocol
  pv_declared :: "port_definition option"
  pv_observed :: "observed_port option"
  pv_status :: port_status
  pv_url :: "string option"

record port_conflict =
  pc_proto :: transport
  pc_bind :: string
  pc_port :: int
  pc_pid :: "int option"
  pc_process :: "string option"
  pc_app :: "string option"
  pc_managed :: bool

datatype ports_exn = PortServiceError string string | PortDisc disc_exn | PortOther string

section \<open>Addresses and URLs\<close>

fun transport_protocol :: "protocol \<Rightarrow> transport" where
  "transport_protocol HTTP = Tcp"
| "transport_protocol HTTPS = Tcp"
| "transport_protocol TCP = Tcp"
| "transport_protocol UDP = Udp"

definition addresses_conflict :: "string \<Rightarrow> string \<Rightarrow> bool" where
  "addresses_conflict a b =
     (case (ip_address a, ip_address b) of
        (Some x, Some y) \<Rightarrow>
          if x = y then True
          else if a = ''::'' \<or> b = ''::'' then True
          else if a = ''0.0.0.0'' \<and> ip_version y = 4 then True
          else if b = ''0.0.0.0'' \<and> ip_version x = 4 then True
          else False
      | _ \<Rightarrow> a = b)"

definition host_label_ok :: "string \<Rightarrow> bool" where
  "host_label_ok l \<longleftrightarrow> l \<noteq> [] \<and> length l \<le> 63 \<and> is_alnum (hd l) \<and> is_alnum (last l)
     \<and> list_all (\<lambda>c. is_alnum c \<or> c = CHR ''-'') l"

definition hostname_ok :: "string \<Rightarrow> bool" where
  "hostname_ok v \<longleftrightarrow> 1 \<le> length v \<and> length v \<le> 253 \<and> list_all host_label_ok (split_on (CHR ''.'') v)"

fun public_host :: "string option \<Rightarrow> string option" where
  "public_host None = None"
| "public_host (Some v) =
     (if has_any [CHR ''/'', BACKSLASH, CHR ''@'', CHR ''#'', CHR ''?'', CR, LF] v then None
      else case ip_address v of
          Some a \<Rightarrow> Some (if ip_version a = 6 then ''['' @ ip_str a @ '']'' else ip_str a)
        | None \<Rightarrow> if hostname_ok v then Some (py_lower v) else None)"

definition quote_safe :: "char \<Rightarrow> bool" where
  "quote_safe c \<longleftrightarrow> is_alnum c \<or> c \<in> set ''/%:@-._~!$&'' \<or> cp c = 39 \<or> c \<in> set ''()*+,;=''"

definition hex_upper :: "int \<Rightarrow> char" where
  "hex_upper n = ''0123456789ABCDEF'' ! nat n"

definition quote_path :: "string \<Rightarrow> string" where
  "quote_path s = concat (map (\<lambda>b. if quote_safe b then [b]
     else [CHR ''%'', hex_upper (cp b div 16), hex_upper (cp b mod 16)]) (utf8 s))"

fun scheme_of :: "protocol \<Rightarrow> string" where
  "scheme_of HTTP = ''http''"
| "scheme_of HTTPS = ''https''"
| "scheme_of TCP = ''tcp''"
| "scheme_of UDP = ''udp''"

definition endpoint_host :: "settings \<Rightarrow> ip \<Rightarrow> string \<Rightarrow> string option" where
  "endpoint_host st a scope =
     (if ip_is_unspecified a \<or> ip_is_loopback a
      then public_host (if scope = ''local'' then public_host_local st else public_host_lan st)
      else public_host (Some (ip_str a)))"

text \<open>A validated port has a literal address and a Web path that splits, so neither lookup fails.\<close>

definition endpoint_url :: "settings \<Rightarrow> (string \<Rightarrow> string) \<Rightarrow> port_definition \<Rightarrow> string \<Rightarrow> string option" where
  "endpoint_url st requery p scope =
     (if \<not> is_web (port_protocol p) \<or> \<not> port_browser p then None
      else case ip_address (port_bind p) of None \<Rightarrow> None
      | Some a \<Rightarrow>
          (case endpoint_host st a scope of None \<Rightarrow> None
           | Some host \<Rightarrow>
               (case urlsplit (case port_path p of Some s \<Rightarrow> or_else s ''/'' | None \<Rightarrow> ''/'') of None \<Rightarrow> None
                | Some u \<Rightarrow>
                    Some (urlunsplit_http (scheme_of (port_protocol p)) (host @ '':'' @ int_str (port_host p))
                      (quote_path (or_else (u_path u) ''/'')) (requery (u_query u))))))"

section \<open>Listeners, owners and conflicts\<close>

text \<open>The manifests whose discovery raises one of the three named exceptions are skipped.\<close>

fun managed_observations ::
    "host_fs \<Rightarrow> codec \<Rightarrow> host_view \<Rightarrow> app_row list \<Rightarrow> disc_exn + observed_port list"
where
  "managed_observations fs cd hv [] = Inr []"
| "managed_observations fs cd hv (r # rs) =
     (case decode fs cd (ap_config r) of
        None \<Rightarrow> managed_observations fs cd hv rs
      | Some m \<Rightarrow>
          (case discover hv m of
             Inl (OtherExc e) \<Rightarrow> Inl (OtherExc e)
           | Inl _ \<Rightarrow> managed_observations fs cd hv rs
           | Inr items \<Rightarrow>
               res_bind (managed_observations fs cd hv rs) (\<lambda>rest.
                 Inr (map (\<lambda>i. i\<lparr>ob_app := Some (ap_id r)\<rparr>) items @ rest))))"

definition same_socket :: "observed_port \<Rightarrow> observed_port \<Rightarrow> bool" where
  "same_socket l i \<longleftrightarrow> (ob_pid l \<noteq> None \<and> ob_pid i \<noteq> None \<and> ob_pid l = ob_pid i)
     \<or> (ob_proto l = ob_proto i \<and> ob_port l = ob_port i \<and> addresses_conflict (ob_bind l) (ob_bind i))"

definition with_owner :: "observed_port list \<Rightarrow> observed_port \<Rightarrow> observed_port" where
  "with_owner managed l = (case List.find (same_socket l) managed of
     None \<Rightarrow> l | Some owner \<Rightarrow> l\<lparr>ob_app := ob_app owner\<rparr>)"

definition system_ports :: "host_fs \<Rightarrow> codec \<Rightarrow> host_view \<Rightarrow> db \<Rightarrow> disc_exn + observed_port list" where
  "system_ports fs cd hv d =
     res_bind (scan_host_listeners hv) (\<lambda>listeners.
     res_bind (managed_observations fs cd hv (applications d)) (\<lambda>managed.
       Inr (map (with_owner managed) listeners)))"

definition conflict_of :: "transport \<Rightarrow> observed_port \<Rightarrow> port_conflict" where
  "conflict_of t l = \<lparr>pc_proto = t, pc_bind = ob_bind l, pc_port = ob_port l, pc_pid = ob_pid l,
     pc_process = ob_process l, pc_app = ob_app l, pc_managed = (ob_app l \<noteq> None)\<rparr>"

definition in_the_way :: "manifest \<Rightarrow> port_definition \<Rightarrow> observed_port \<Rightarrow> bool" where
  "in_the_way m p l \<longleftrightarrow> ob_proto l = transport_protocol (port_protocol p) \<and> ob_port l = port_host p
     \<and> addresses_conflict (port_bind p) (ob_bind l) \<and> ob_app l \<noteq> Some (man_id m)"

definition conflicts :: "host_fs \<Rightarrow> codec \<Rightarrow> host_view \<Rightarrow> db \<Rightarrow> manifest \<Rightarrow> disc_exn + port_conflict list" where
  "conflicts fs cd hv d m =
     (if man_ports m = [] then Inr []
      else res_bind (system_ports fs cd hv d) (\<lambda>listeners.
        Inr (concat (map (\<lambda>p. map (conflict_of (transport_protocol (port_protocol p)))
                                (filter (in_the_way m p) listeners)) (man_ports m)))))"

section \<open>The view of an application's ports\<close>

definition port_manifest :: "settings \<Rightarrow> host_fs \<Rightarrow> codec \<Rightarrow> db \<Rightarrow> string \<Rightarrow> ports_exn + manifest" where
  "port_manifest st fs cd d k =
     (case row_get ap_id k (applications d) of
        None \<Rightarrow> Inl (PortServiceError ''APP_NOT_FOUND'' (''Application not found: '' @ k))
      | Some r \<Rightarrow>
          (case decode fs cd (ap_config r) of
             None \<Rightarrow> Inl (PortOther ''ValidationError'')
           | Some m \<Rightarrow>
               (let v = validate_manifest_paths st fs (allowed_roots st) m
                in if vr_valid v then Inr m
                   else Inl (PortServiceError ''CONFIG_INVALID''
                          (join_with ''; '' (map issue_message (vr_errors v)))))))"

definition app_status_of :: "db \<Rightarrow> string \<Rightarrow> app_status" where
  "app_status_of d k = (case latest_state d k of Some i \<Rightarrow> in_status i | None \<Rightarrow> UNKNOWN)"

definition matches :: "port_definition \<Rightarrow> observed_port \<Rightarrow> bool" where
  "matches p i \<longleftrightarrow> ob_proto i = transport_protocol (port_protocol p) \<and> ob_port i = port_host p
     \<and> ob_bind i = port_bind p"

record view_env =
  ve_conflicts :: "port_conflict list"
  ve_reliable :: bool
  ve_state :: app_status

definition declared_status :: "view_env \<Rightarrow> port_definition \<Rightarrow> port_status" where
  "declared_status e p =
     (if list_ex (\<lambda>c. pc_proto c = transport_protocol (port_protocol p) \<and> pc_port c = port_host p) (ve_conflicts e)
      then CONFLICTED
      else if \<not> ve_reliable e then PS_UNKNOWN
      else if ve_state e \<in> {RUNNING, UNHEALTHY} then NOT_LISTENING
      else DECLARED)"

definition declared_view ::
    "settings \<Rightarrow> (string \<Rightarrow> string) \<Rightarrow> string \<Rightarrow> view_env \<Rightarrow> port_definition \<Rightarrow> observed_port option \<Rightarrow> port_view"
where
  "declared_view st requery scope e p i =
     \<lparr>pv_id = port_id p, pv_name = port_name p, pv_protocol = port_protocol p, pv_declared = Some p,
      pv_observed = i, pv_status = (if i \<noteq> None then LISTENING else declared_status e p),
      pv_url = endpoint_url st requery p scope\<rparr>"

fun declared_views ::
    "settings \<Rightarrow> (string \<Rightarrow> string) \<Rightarrow> string \<Rightarrow> view_env \<Rightarrow> port_definition list \<Rightarrow> observed_port list
       \<Rightarrow> port_view list \<times> observed_port list"
where
  "declared_views st requery scope e [] remaining = ([], remaining)"
| "declared_views st requery scope e (p # ps) remaining =
     (let i = List.find (matches p) remaining;
          rest = (case i of Some x \<Rightarrow> remove1 x remaining | None \<Rightarrow> remaining);
          (vs, left) = declared_views st requery scope e ps rest
      in (declared_view st requery scope e p i # vs, left))"

fun transport_name :: "transport \<Rightarrow> string" where
  "transport_name Tcp = ''tcp''"
| "transport_name Udp = ''udp''"

definition undeclared_view :: "observed_port \<Rightarrow> port_view" where
  "undeclared_view i =
     \<lparr>pv_id = ''observed-'' @ transport_name (ob_proto i) @ ''-'' @ int_str (ob_port i),
      pv_name = ''Observed '' @ py_upper (transport_name (ob_proto i)) @ '' '' @ int_str (ob_port i),
      pv_protocol = (case ob_proto i of Tcp \<Rightarrow> TCP | Udp \<Rightarrow> UDP), pv_declared = None,
      pv_observed = Some i, pv_status = UNDECLARED, pv_url = None\<rparr>"

text \<open>\<open>_observed\<close> turns a PortDiscoveryError into an unreliable empty answer.\<close>

fun or_unreliable :: "disc_exn + 'a list \<Rightarrow> ports_exn + 'a list \<times> bool" where
  "or_unreliable (Inr xs) = Inr (xs, True)"
| "or_unreliable (Inl (DiscoveryErr e)) = Inr ([], False)"
| "or_unreliable (Inl e) = Inl (PortDisc e)"

definition ports ::
    "settings \<Rightarrow> (string \<Rightarrow> string) \<Rightarrow> host_fs \<Rightarrow> codec \<Rightarrow> host_view \<Rightarrow> host_view \<Rightarrow> db \<Rightarrow> string \<Rightarrow> string
       \<Rightarrow> ports_exn + port_view list"
where
  "ports st requery fs cd hv1 hv2 d k scope =
     res_bind (port_manifest st fs cd d k) (\<lambda>m.
     res_bind (or_unreliable (discover hv1 m)) (\<lambda>(seen, ok1).
     res_bind (or_unreliable (conflicts fs cd hv2 d m)) (\<lambda>(cs, ok2).
       let e = \<lparr>ve_conflicts = cs, ve_reliable = (ok1 \<and> ok2), ve_state = app_status_of d k\<rparr>;
           (vs, left) = declared_views st requery scope e (man_ports m) seen
       in Inr (vs @ map undeclared_view left))))"

definition web_view :: "port_view \<Rightarrow> bool" where
  "web_view v = (case pv_declared v of None \<Rightarrow> False | Some p \<Rightarrow> is_web (port_protocol p) \<and> port_browser p)"

definition primary_view :: "port_view \<Rightarrow> bool" where
  "primary_view v = (case pv_declared v of None \<Rightarrow> False | Some p \<Rightarrow> port_primary p)"

definition endpoints ::
    "settings \<Rightarrow> (string \<Rightarrow> string) \<Rightarrow> host_fs \<Rightarrow> codec \<Rightarrow> host_view \<Rightarrow> host_view \<Rightarrow> db \<Rightarrow> string \<Rightarrow> string
       \<Rightarrow> ports_exn + port_view option \<times> port_view list"
where
  "endpoints st requery fs cd hv1 hv2 d k scope =
     (if scope \<noteq> ''local'' \<and> scope \<noteq> ''lan''
      then Inl (PortServiceError ''SCOPE_INVALID'' ''Endpoint scope must be local or lan'')
      else res_bind (ports st requery fs cd hv1 hv2 d k scope) (\<lambda>vs.
        let es = filter web_view vs in Inr (List.find primary_view es, es)))"

fun port_error :: "ports_exn \<Rightarrow> http_error" where
  "port_error (PortServiceError code msg) =
     HttpError (if code = ''APP_NOT_FOUND'' then 404 else 400) (DCode code msg)"
| "port_error _ = unhandled"

definition api_ports ::
    "settings \<Rightarrow> (string \<Rightarrow> string) \<Rightarrow> host_fs \<Rightarrow> codec \<Rightarrow> host_view \<Rightarrow> host_view \<Rightarrow> db \<Rightarrow> string
       \<Rightarrow> http_error + port_view list"
where
  "api_ports st requery fs cd hv1 hv2 d k = map_error port_error (ports st requery fs cd hv1 hv2 d k ''local'')"

definition api_endpoints ::
    "settings \<Rightarrow> (string \<Rightarrow> string) \<Rightarrow> host_fs \<Rightarrow> codec \<Rightarrow> host_view \<Rightarrow> host_view \<Rightarrow> db \<Rightarrow> string \<Rightarrow> string
       \<Rightarrow> http_error + port_view option \<times> port_view list"
where
  "api_endpoints st requery fs cd hv1 hv2 d k scope =
     map_error port_error (endpoints st requery fs cd hv1 hv2 d k scope)"

section \<open>Conflicts\<close>

lemma addresses_conflict_sym: "addresses_conflict a b = addresses_conflict b a"
  by (auto simp: addresses_conflict_def split: option.splits)

lemma addresses_conflict_refl [simp]: "addresses_conflict a a"
  by (auto simp: addresses_conflict_def split: option.splits)

lemma conflicts_Inr:
  assumes "conflicts fs cd hv d m = Inr cs" "man_ports m \<noteq> []"
  obtains ls where "system_ports fs cd hv d = Inr ls"
    "set cs = {conflict_of (transport_protocol (port_protocol p)) l | p l.
        p \<in> set (man_ports m) \<and> l \<in> set ls \<and> in_the_way m p l}"
proof -
  obtain ls where ls: "system_ports fs cd hv d = Inr ls"
    "cs = concat (map (\<lambda>p. map (conflict_of (transport_protocol (port_protocol p)))
                                (filter (in_the_way m p) ls)) (man_ports m))"
    using assms by (auto simp: conflicts_def)
  show thesis by (rule that [OF ls(1)]) (auto simp: ls(2))
qed

lemma system_ports_listener:
  assumes "system_ports fs cd hv d = Inr ls" "l \<in> set ls"
  shows "\<exists>l0 all. scan_host_listeners hv = Inr all \<and> l0 \<in> set all \<and> ob_bind l = ob_bind l0 \<and> ob_port l = ob_port l0
    \<and> ob_proto l = ob_proto l0 \<and> ob_pid l = ob_pid l0"
proof -
  obtain all managed where s: "scan_host_listeners hv = Inr all" "ls = map (with_owner managed) all"
    using assms(1) by (auto simp: system_ports_def)
  then obtain l0 where "l0 \<in> set all" "l = with_owner managed l0" using assms(2) by auto
  with s show ?thesis by (intro exI [of _ l0]) (auto simp: with_owner_def split: option.splits)
qed

section \<open>The view accounts for every observation\<close>

lemma declared_views_spec:
  assumes "declared_views st requery scope e ps remaining = (vs, left)"
  shows "map pv_declared vs = map Some ps
    \<and> mset (List.map_filter pv_observed vs) + mset left = mset remaining
    \<and> (\<forall>v\<in>set vs. \<exists>p\<in>set ps. v = declared_view st requery scope e p (pv_observed v)
        \<and> (\<forall>i. pv_observed v = Some i \<longrightarrow> matches p i)
        \<and> (pv_observed v = None \<longrightarrow> (\<forall>i\<in>set left. \<not> matches p i)))"
  using assms
proof (induction ps arbitrary: remaining vs left)
  case Nil
  then show ?case by (simp add: map_filter_def)
next
  case (Cons p ps)
  let ?i = "List.find (matches p) remaining"
  let ?rest = "case ?i of Some x \<Rightarrow> remove1 x remaining | None \<Rightarrow> remaining"
  obtain ws where ws: "declared_views st requery scope e ps ?rest = (ws, left)"
      "vs = declared_view st requery scope e p ?i # ws"
    using Cons.prems by (auto simp: Let_def split: prod.splits)
  note IH = Cons.IH [OF ws(1)]
  have sub: "set left \<subseteq> set remaining"
  proof -
    have "mset left \<subseteq># mset ?rest" using IH by (metis mset_subset_eq_add_right)
    then have "set left \<subseteq> set ?rest" by (metis set_mset_mono set_mset_mset)
    moreover have "set ?rest \<subseteq> set remaining" by (auto split: option.splits dest: subsetD [OF set_remove1_subset])
    ultimately show ?thesis by blast
  qed
  have ob: "pv_observed (declared_view st requery scope e p i) = i"
    "pv_declared (declared_view st requery scope e p i) = Some p" for i
    by (simp_all add: declared_view_def)
  have m: "mset (List.map_filter pv_observed vs) + mset left = mset remaining"
  proof (cases ?i)
    case None
    then show ?thesis using IH by (simp add: ws(2) ob map_filter_def)
  next
    case (Some x)
    then show ?thesis using IH mset_remove1_find [OF Some] by (simp add: ws(2) ob map_filter_def)
  qed
  have h: "(\<forall>i. ?i = Some i \<longrightarrow> matches p i) \<and> (?i = None \<longrightarrow> (\<forall>i\<in>set left. \<not> matches p i))"
    using sub by (auto dest: find_SomeD simp: find_None_conv)
  show ?case
    using IH m h by (auto simp: ws(2) ob)
qed

lemma map_filter_append: "List.map_filter f (xs @ ys) = List.map_filter f xs @ List.map_filter f ys"
  by (simp add: map_filter_def)

lemma map_filter_undeclared: "List.map_filter pv_observed (map undeclared_view left) = left"
  by (induction left) (auto simp: map_filter_def undeclared_view_def)

section \<open>Public hosts\<close>

definition netloc_clean :: "string \<Rightarrow> bool" where
  "netloc_clean h \<longleftrightarrow> \<not> has_any [CHR ''/'', BACKSLASH, CHR ''@'', CHR ''#'', CHR ''?'', CR, LF] h"

definition clean_char :: "char \<Rightarrow> bool" where
  "clean_char c \<longleftrightarrow> c \<notin> set [CHR ''/'', BACKSLASH, CHR ''@'', CHR ''#'', CHR ''?'', CR, LF]"

lemma netloc_clean_all: "netloc_clean s \<longleftrightarrow> (\<forall>c\<in>set s. clean_char c)"
  unfolding netloc_clean_def clean_char_def has_any_def list_ex_iff by blast

lemma netloc_clean_simps [simp]:
  "netloc_clean []" "netloc_clean (a @ b) \<longleftrightarrow> netloc_clean a \<and> netloc_clean b"
  "netloc_clean (c # s) \<longleftrightarrow> clean_char c \<and> netloc_clean s"
  by (auto simp: netloc_clean_all)

lemma clean_literals [simp]:
  "clean_char (CHR ''-'')" "clean_char (CHR ''.'')" "clean_char (CHR '':'')" "clean_char (CHR ''%'')"
  "clean_char (CHR ''['')" "clean_char (CHR '']'')"
  by code_simp+

lemma clean_alnum: "is_alnum c \<Longrightarrow> clean_char c"
proof -
  have "list_all (\<lambda>c. \<not> is_alnum c) [CHR ''/'', BACKSLASH, CHR ''@'', CHR ''#'', CHR ''?'', CR, LF]" by code_simp
  then show "is_alnum c \<Longrightarrow> clean_char c" unfolding clean_char_def list_all_iff by blast
qed

lemma hex_alnum: "is_hex c \<Longrightarrow> is_alnum c"
  by (auto simp: is_hex_def is_alnum_def is_dec_def is_lower_def is_upper_def)

lemma dec_alnum: "is_dec c \<Longrightarrow> is_alnum c"
  by (simp add: is_alnum_def)

lemma v4_str_clean:
  assumes "v4_parse v = Some n"
  shows "netloc_clean (v4_str n)"
proof -
  have "v4_parse (v4_str n) = Some n" using v4_parse_str v4_parse_range [OF assms] by blast
  then have "\<forall>c\<in>set (v4_str n). is_dec c \<or> c = CHR ''.''" by (rule v4_parse_chars)
  then show ?thesis unfolding netloc_clean_all [of "v4_str n"] using clean_alnum dec_alnum clean_literals by blast
qed

lemma v6_str_clean: "netloc_clean (v6_str n)"
  unfolding netloc_clean_all [of "v6_str n"] using v6_str_chars clean_alnum hex_alnum clean_literals by blast

lemma ip_str_clean:
  assumes "ip_address v = Some a" "netloc_clean v"
  shows "netloc_clean (ip_str a)"
proof (cases "v4_parse v")
  case (Some n)
  then show ?thesis using assms(1) v4_str_clean by (auto simp: ip_address_def)
next
  case None
  then have p: "v6_parse v = Some a" using assms(1) by (simp add: ip_address_def)
  obtain b sep sc where part: "partition_on (CHR ''%'') v = (b, sep, sc)" by (cases "partition_on (CHR ''%'') v")
  show ?thesis
  proof (cases sep)
    case True
    then have "v = b @ [CHR ''%''] @ sc" using part partition_on_found [of "CHR ''%''" v b sc] by simp
    then have "netloc_clean sc" using assms(2) by (simp del: append_Cons)
    then show ?thesis using p part True v6_str_clean by (auto simp: v6_parse_def split: if_splits)
  next
    case False
    then show ?thesis using p part v6_str_clean by (auto simp: v6_parse_def split: if_splits)
  qed
qed

lemma lower_alnum: "is_alnum c \<or> c = CHR ''-'' \<or> c = CHR ''.'' \<Longrightarrow>
    is_alnum (lower_char c) \<or> lower_char c = CHR ''-'' \<or> lower_char c = CHR ''.''"
proof -
  have "lower_char (CHR ''-'') = CHR ''-''" "lower_char (CHR ''.'') = CHR ''.''" by code_simp+
  moreover have "is_alnum (lower_char c)" if "is_alnum c"
    using that by (auto simp: is_alnum_def lower_char_def is_dec_def is_lower_def is_upper_def)
  ultimately show "is_alnum c \<or> c = CHR ''-'' \<or> c = CHR ''.'' \<Longrightarrow>
    is_alnum (lower_char c) \<or> lower_char c = CHR ''-'' \<or> lower_char c = CHR ''.''" by metis
qed

lemma lower_clean: "list_all (\<lambda>c. is_alnum c \<or> c = CHR ''-'' \<or> c = CHR ''.'') v \<Longrightarrow> netloc_clean (py_lower v)"
  unfolding py_lower_def netloc_clean_all list_all_iff
proof
  fix d assume v: "\<forall>c\<in>set v. is_alnum c \<or> c = CHR ''-'' \<or> c = CHR ''.''" "d \<in> set (map lower_char v)"
  then obtain c where "c \<in> set v" "d = lower_char c" by auto
  then show "clean_char d" using v(1) lower_alnum [of c] clean_alnum clean_literals by metis
qed

lemma hostname_chars:
  assumes "hostname_ok v"
  shows "list_all (\<lambda>c. is_alnum c \<or> c = CHR ''-'' \<or> c = CHR ''.'') v"
proof -
  have l: "\<forall>p\<in>set (split_on (CHR ''.'') v). \<forall>c\<in>set p. is_alnum c \<or> c = CHR ''-''"
    using assms by (auto simp: hostname_ok_def host_label_ok_def list_all_iff)
  have "\<forall>c\<in>set (join_with ''.'' (split_on (CHR ''.'') v)). is_alnum c \<or> c = CHR ''-'' \<or> c = CHR ''.''"
  proof
    fix c assume "c \<in> set (join_with ''.'' (split_on (CHR ''.'') v))"
    then show "is_alnum c \<or> c = CHR ''-'' \<or> c = CHR ''.''" using join_chars [of c "''.''"] l by auto
  qed
  then show ?thesis by (simp add: join_split list_all_iff)
qed

lemma public_host_clean:
  assumes "public_host v = Some h"
  shows "netloc_clean h"
proof -
  obtain s where s: "v = Some s" using assms by (cases v) auto
  have c: "netloc_clean s" using assms by (auto simp: s netloc_clean_def split: if_splits)
  show ?thesis
  proof (cases "ip_address s")
    case None
    then show ?thesis using assms lower_clean hostname_chars by (auto simp: s split: if_splits)
  next
    case (Some a)
    then show ?thesis using assms ip_str_clean [OF Some c] by (auto simp: s split: if_splits)
  qed
qed

section \<open>Paths of URLs\<close>

definition path_clean :: "string \<Rightarrow> bool" where
  "path_clean s \<longleftrightarrow> list_all quote_safe s"

lemma quote_safe_hex: "is_hex c \<Longrightarrow> quote_safe c"
  using hex_alnum by (simp add: quote_safe_def)

lemma hex_upper_chars:
  assumes "0 \<le> n" "n < 16"
  shows "quote_safe (hex_upper n)"
proof -
  have "hex_upper n \<in> set ''0123456789ABCDEF''" unfolding hex_upper_def by (rule nth_mem) (use assms in simp)
  moreover have "list_all quote_safe ''0123456789ABCDEF''" by code_simp
  ultimately show ?thesis unfolding list_all_iff by blast
qed

lemma quote_path_clean: "path_clean (quote_path s)"
proof -
  have "quote_safe (CHR ''%'')" by code_simp
  moreover have "quote_safe (hex_upper (cp b div 16))" "quote_safe (hex_upper (cp b mod 16))" for b
    using cp_range [of b] by (intro hex_upper_chars; simp)+
  ultimately show ?thesis by (auto simp: path_clean_def quote_path_def list_all_iff)
qed

lemma quote_path_slash: "s \<noteq> [] \<Longrightarrow> hd s = CHR ''/'' \<Longrightarrow> startswith ''/'' (quote_path s)"
proof -
  assume "s \<noteq> []" "hd s = CHR ''/''"
  then obtain r where "s = CHR ''/'' # r" by (cases s) auto
  moreover have "quote_safe (CHR ''/'')" by code_simp
  ultimately show ?thesis by (simp add: quote_path_def utf8_def startswith_def)
qed

lemma partition_fst: "fst (partition_on c s) = takeWhile (\<lambda>x. x \<noteq> c) s"
  by (induction s) (auto split: prod.splits)

lemma urlsplit_path:
  assumes u: "urlsplit s = Some u" and s: "startswith ''/'' s" and n: "u_netloc u = []"
  shows "u_path u = [] \<or> hd (u_path u) = CHR ''/''"
proof -
  obtain r where r: "s = CHR ''/'' # r" using s by (auto simp: startswith_iff)
  have sl: "\<not> c0_or_space (CHR ''/'')" "\<not> url_unsafe (CHR ''/'')" "\<not> is_lower (CHR ''/'')" "\<not> is_upper (CHR ''/'')"
    by code_simp+
  define s1 where "s1 = CHR ''/'' # filter (\<lambda>c. \<not> url_unsafe c) r"
  have s1: "filter (\<lambda>c. \<not> url_unsafe c) (dropWhile c0_or_space s) = s1"
    by (simp add: r sl s1_def)
  have sch: "split_scheme s1 = ([], s1)" by (auto simp: split_scheme_def s1_def sl split: prod.splits)
  obtain nl s3 where nl: "split_netloc s1 = (nl, s3)" by fastforce
  have path: "u_path u = takeWhile (\<lambda>x. x \<noteq> CHR ''?'') (takeWhile (\<lambda>x. x \<noteq> CHR ''#'') s3)"
  proof -
    have "urlsplit s = (if netloc_ok nl then Some \<lparr>u_scheme = [], u_netloc = nl,
        u_path = fst (partition_on (CHR ''?'') (fst (partition_on (CHR ''#'') s3))),
        u_query = snd (snd (partition_on (CHR ''?'') (fst (partition_on (CHR ''#'') s3)))),
        u_fragment = snd (snd (partition_on (CHR ''#'') s3))\<rparr> else None)"
      unfolding urlsplit_def Let_def s1 sch nl case_prod_beta fst_conv snd_conv by (rule refl)
    then show ?thesis using u by (cases "netloc_ok nl") (auto simp: partition_fst)
  qed
  have "s3 = [] \<or> netloc_end (hd s3)"
  proof (cases "startswith ''//'' s1")
    case True
    then have "s3 = dropWhile (\<lambda>c. \<not> netloc_end c) (drop 2 s1)" using nl by (simp add: split_netloc_def)
    then show ?thesis using hd_dropWhile [of "\<lambda>c. \<not> netloc_end c" "drop 2 s1"] by blast
  next
    case False
    then have "s3 = s1" using nl by (simp add: split_netloc_def)
    then show ?thesis by (simp add: s1_def netloc_end_def)
  qed
  then show ?thesis unfolding path by (cases s3) (auto simp: netloc_end_def)
qed

section \<open>A sample view of the host\<close>

definition sample_view :: "connection list \<Rightarrow> host_view" where
  "sample_view cs = \<lparr>hv_command = (\<lambda>_. cmd_ok\<lparr>message := ''MainPID=7''\<rparr>), hv_connections = Inr cs,
     hv_process_name = (\<lambda>_. None), hv_children = (\<lambda>_. []), hv_cgroup_root = path_of ''/sys/fs/cgroup'',
     hv_resolve = (\<lambda>p. p), hv_procs = (\<lambda>_. []), hv_sdk = (\<lambda>_. Inr []), hv_loads = (\<lambda>_. None)\<rparr>"

definition own_socket :: connection where
  "own_socket = \<lparr>cn_pid = Some 7, cn_laddr = Some (''127.0.0.1'', 8080), cn_stream = True, cn_listen = True\<rparr>"

definition other_socket :: connection where
  "other_socket = \<lparr>cn_pid = Some 9, cn_laddr = Some (''0.0.0.0'', 8080), cn_stream = True, cn_listen = True\<rparr>"

section \<open>Properties\<close>



text \<open>
  The view of an application's ports accounts for everything once: it starts with
  one entry per declared port, in order, and ends with one UNDECLARED entry per remaining
  observation, and the observations in it are, with multiplicity, exactly those discovered. An
  entry is LISTENING exactly when it carries an observation, which then has the declared
  transport, number and address; and no observation of a declared port is left undeclared while
  that port is shown as not listening.
\<close>

theorem port_view_complete:
  assumes "ports st requery fs cd hv1 hv2 d k scope = Inr vs"
  shows "\<exists>m seen left ws. port_manifest st fs cd d k = Inr m \<and> vs = ws @ map undeclared_view left
    \<and> map pv_declared ws = map Some (man_ports m)
    \<and> (discover hv1 m = Inr seen \<or> (seen = [] \<and> \<not> is_ok (discover hv1 m)))
    \<and> mset (List.map_filter pv_observed vs) = mset seen
    \<and> (\<forall>v\<in>set ws. (pv_status v = LISTENING \<longleftrightarrow> pv_observed v \<noteq> None) \<and> pv_status v \<noteq> UNDECLARED
        \<and> (\<exists>p\<in>set (man_ports m). pv_declared v = Some p
            \<and> (\<forall>i. pv_observed v = Some i \<longrightarrow> matches p i)
            \<and> (pv_status v \<noteq> LISTENING \<longrightarrow> (\<forall>i\<in>set left. \<not> matches p i))))"
proof -
  have "\<exists>m x y. port_manifest st fs cd d k = Inr m \<and> or_unreliable (discover hv1 m) = Inr x
    \<and> or_unreliable (conflicts fs cd hv2 d m) = Inr y
    \<and> vs = (case declared_views st requery scope \<lparr>ve_conflicts = fst y, ve_reliable = (snd x \<and> snd y),
          ve_state = app_status_of d k\<rparr> (man_ports m) (fst x) of (ws, left) \<Rightarrow> ws @ map undeclared_view left)"
    using assms by (force simp: ports_def case_prod_beta Let_def)
  then obtain m seen ok1 cs ok2 where m: "port_manifest st fs cd d k = Inr m"
    and seen: "or_unreliable (discover hv1 m) = Inr (seen, ok1)"
    and cs: "or_unreliable (conflicts fs cd hv2 d m) = Inr (cs, ok2)"
    and vs: "vs = (case declared_views st requery scope \<lparr>ve_conflicts = cs, ve_reliable = (ok1 \<and> ok2),
          ve_state = app_status_of d k\<rparr> (man_ports m) seen of (ws, left) \<Rightarrow> ws @ map undeclared_view left)"
    by auto
  define e where "e = \<lparr>ve_conflicts = cs, ve_reliable = (ok1 \<and> ok2), ve_state = app_status_of d k\<rparr>"
  obtain ws left where w: "declared_views st requery scope e (man_ports m) seen = (ws, left)" by fastforce
  have v: "vs = ws @ map undeclared_view left" using vs by (simp add: e_def [symmetric] w)
  note S = declared_views_spec [OF w]
  have "mset (List.map_filter pv_observed vs) = mset seen"
    using S by (simp add: v map_filter_append map_filter_undeclared)
  moreover have "discover hv1 m = Inr seen \<or> (seen = [] \<and> \<not> is_ok (discover hv1 m))"
    using seen by (cases "discover hv1 m" rule: or_unreliable.cases) auto
  moreover have "(pv_status v = LISTENING \<longleftrightarrow> pv_observed v \<noteq> None) \<and> pv_status v \<noteq> UNDECLARED
        \<and> (\<exists>p\<in>set (man_ports m). pv_declared v = Some p
            \<and> (\<forall>i. pv_observed v = Some i \<longrightarrow> matches p i)
            \<and> (pv_status v \<noteq> LISTENING \<longrightarrow> (\<forall>i\<in>set left. \<not> matches p i)))" if vin: "v \<in> set ws" for v
  proof -
    obtain p where p: "p \<in> set (man_ports m)" "v = declared_view st requery scope e p (pv_observed v)"
        "\<forall>i. pv_observed v = Some i \<longrightarrow> matches p i"
        "pv_observed v = None \<longrightarrow> (\<forall>i\<in>set left. \<not> matches p i)"
      using bspec [OF conjunct2 [OF conjunct2 [OF S]] vin] by (elim bexE conjE) (rule that; assumption)
    have st: "pv_status v = (if pv_observed v \<noteq> None then LISTENING else declared_status e p)"
      and de: "pv_declared v = Some p"
      using arg_cong [OF p(2), of pv_status] arg_cong [OF p(2), of pv_declared] by (simp_all add: declared_view_def)
    have "declared_status e p \<noteq> LISTENING" "declared_status e p \<noteq> UNDECLARED"
      by (simp_all add: declared_status_def)
    then show ?thesis using p st de by auto
  qed
  ultimately show ?thesis using m v S by blast
qed

definition sample_db :: db where
  "sample_db = empty_db\<lparr>applications := [app_record sample_sources sample_codec sample_manifest empty_store]\<rparr>"



end
