(* ===== verification/Lifecycle.thy ===== *)
theory Lifecycle
  imports Ports
begin

text \<open>
  \<open>orchestration/lifecycle_service.py\<close> and its handlers in \<open>api/applications.py\<close>: the actions
  start, stop and restart, the status poll and the log read. An operation acts on the session's
  store and on the world \<open>'w\<close> the adapter drives, and gives a response or the exception that
  leaves it: a LifecycleError, or one the service does not handle (\<open>Uncaught\<close>).

  The per-application lock makes each action atomic, so an action is one function; the object the
  code holds for the state row is the row value, saved at each commit.
\<close>

datatype life_exn = LifecycleError string string "port_conflict list" | Uncaught string

record 'w service =
  sv_su :: sources
  sv_st :: settings
  sv_fs :: host_fs
  sv_cd :: codec
  sv_caller :: caller
  sv_adapter :: "manifest \<Rightarrow> 'w adapter"
  sv_view :: "'w \<Rightarrow> host_view"

record action_response =
  lr_app :: string
  lr_exec :: string
  lr_action :: string
  lr_status :: app_status
  lr_succeeded :: bool
  lr_error_code :: "string option"
  lr_message :: string

section \<open>Helpers of the service\<close>

definition life_application :: "'w service \<Rightarrow> string \<Rightarrow> store \<Rightarrow> life_exn + app_row \<times> manifest" where
  "life_application sv k s =
     (case row_get ap_id k (applications (working s)) of
        None \<Rightarrow> Inl (LifecycleError ''APP_NOT_FOUND'' (''Application not found: '' @ k) [])
      | Some r \<Rightarrow>
          (case decode (sv_fs sv) (sv_cd sv) (ap_config r) of
             None \<Rightarrow> Inl (Uncaught ''ValidationError'')
           | Some m \<Rightarrow>
               (let v = validate_manifest_paths (sv_st sv) (sv_fs sv) (allowed_roots (sv_st sv)) m
                in if vr_valid v then Inr (r, m)
                   else Inl (LifecycleError ''CONFIG_INVALID''
                          (join_with ''; '' (map issue_message (vr_errors v))) []))))"

definition new_state :: "sources \<Rightarrow> string \<Rightarrow> store \<Rightarrow> inst_row" where
  "new_state su k s =
     \<lparr>in_id = next_id su s, in_app = k, in_status = STOPPED, in_runtime = None, in_started = None,
      in_stopped = None, in_exit = None, in_error = None, in_gpu = None, in_metadata = JObj [],
      in_created = now su s, in_updated = now su (tick s)\<rparr>"

definition state_record :: "'w service \<Rightarrow> string \<Rightarrow> store \<Rightarrow> inst_row \<times> store" where
  "state_record sv k s =
     (case latest_state (working s) k of
        Some i \<Rightarrow> (i, s)
      | None \<Rightarrow> (let i = new_state (sv_su sv) k s in (i, add_inst i (tick (tick (draw s))))))"

text \<open>Saving the state object and committing; the object then has the saved \<open>updated_at\<close>.\<close>

definition save_state :: "'w service \<Rightarrow> inst_row \<Rightarrow> store \<Rightarrow> inst_row \<times> store" where
  "save_state sv i s =
     (let s' = commit (save_inst (sv_su sv) i s)
      in (case row_get in_id (in_id i) (instances (working s')) of Some r \<Rightarrow> r | None \<Rightarrow> i, s'))"

text \<open>The time stamps that \<open>_transition\<close> and \<open>_apply_runtime_state\<close> set for the new status.\<close>

definition stamp :: "'w service \<Rightarrow> app_status \<Rightarrow> store \<Rightarrow> inst_row \<Rightarrow> inst_row \<times> store" where
  "stamp sv st s i =
     (if st = RUNNING
      then (case in_started i of
              Some t \<Rightarrow> (i\<lparr>in_stopped := None\<rparr>, s)
            | None \<Rightarrow> (i\<lparr>in_started := Some (now (sv_su sv) s), in_stopped := None\<rparr>, tick s))
      else if st = STOPPED then (i\<lparr>in_stopped := Some (now (sv_su sv) s)\<rparr>, tick s)
      else (i, s))"

definition transition ::
    "'w service \<Rightarrow> inst_row \<Rightarrow> app_status \<Rightarrow> string option \<Rightarrow> bool \<Rightarrow> store \<Rightarrow> (transition_error + inst_row) \<times> store"
where
  "transition sv i target err enforce s =
     (case (if enforce then require_transition (in_status i) target else Inr ()) of
        Inl e \<Rightarrow> (Inl e, s)
      | Inr _ \<Rightarrow>
          (let (i1, s1) = stamp sv target s (i\<lparr>in_status := target, in_error := err\<rparr>);
               (i2, s2) = save_state sv i1 s1
           in (Inr i2, s2)))"

definition apply_runtime_state :: "'w service \<Rightarrow> inst_row \<Rightarrow> runtime_state \<Rightarrow> store \<Rightarrow> inst_row \<times> store" where
  "apply_runtime_state sv i rs s =
     (let (i1, s1) = stamp sv (rs_status rs) s
            (i\<lparr>in_status := rs_status rs, in_runtime := Some (rs_identifier rs),
               in_metadata := rs_metadata rs, in_error := rs_error rs\<rparr>)
      in save_state sv i1 s1)"

definition new_execution :: "'w service \<Rightarrow> string \<Rightarrow> string \<Rightarrow> store \<Rightarrow> exec_row \<times> store" where
  "new_execution sv k act s =
     (let su = sv_su sv;
          ex = \<lparr>ex_id = next_id su s, ex_app = k, ex_action = act, ex_status = EX_RUNNING,
                ex_by = call_actor (sv_caller sv), ex_requested = now su (tick s), ex_started = Some (now su s),
                ex_finished = None, ex_exit = None, ex_error_code = None, ex_error = None, ex_log = None\<rparr>
      in (ex, commit (add_exec ex (tick (tick (draw s))))))"

definition finish_details ::
    "exec_row \<Rightarrow> string option \<Rightarrow> string option \<Rightarrow> (string \<times> json) list \<Rightarrow> caller \<Rightarrow> json"
where
  "finish_details ex code msg details c =
     JObj ([(''execution_id'', JStr (ex_id ex)), (''error_code'', opt_str code), (''error_message'', opt_str msg)]
       @ details @ request_details c)"

definition finish_execution ::
    "'w service \<Rightarrow> exec_row \<Rightarrow> bool \<Rightarrow> int option \<Rightarrow> string option \<Rightarrow> string option \<Rightarrow> (string \<times> json) list
       \<Rightarrow> store \<Rightarrow> store"
where
  "finish_execution sv ex ok exit code msg details s =
     (let su = sv_su sv;
          ex' = ex\<lparr>ex_status := (if ok then EX_SUCCEEDED else EX_FAILED), ex_finished := Some (now su s),
                   ex_exit := exit, ex_error_code := code, ex_error := msg\<rparr>;
          s1 = tick s;
          ev = \<lparr>au_id = next_id su s1, au_actor = call_actor (sv_caller sv),
                au_action = ''application.'' @ ex_action ex, au_target_type = ''application'',
                au_target_id = ex_app ex, au_result = (if ok then ''success'' else ''failure''),
                au_details = finish_details ex code msg details (sv_caller sv), au_created = now su s1\<rparr>
      in commit (add_audit ev (save_exec su ex' (tick (draw s1)))))"

definition conflict_json :: "port_conflict \<Rightarrow> json" where
  "conflict_json c = JObj
     [(''protocol'', JStr (transport_name (pc_proto c))), (''bind_address'', JStr (pc_bind c)),
      (''port'', JInt (pc_port c)), (''pid'', case pc_pid c of None \<Rightarrow> JNull | Some p \<Rightarrow> JInt p),
      (''process_name'', opt_str (pc_process c)), (''application_id'', opt_str (pc_app c)),
      (''managed_by_machinedeck'', JBool (pc_managed c))]"

section \<open>Status and logs\<close>

fun exn_text :: "py_exn \<Rightarrow> string" where
  "exn_text (RuntimeErr t) = t"
| "exn_text (OtherErr t) = t"

definition status_op :: "'w service \<Rightarrow> string \<Rightarrow> store \<Rightarrow> 'w \<Rightarrow> (life_exn + inst_row) \<times> store \<times> 'w" where
  "status_op sv k s w =
     (case life_application sv k s of
        Inl e \<Rightarrow> (Inl e, s, w)
      | Inr (r, m) \<Rightarrow>
          (let (i, s1) = state_record sv k s
           in if \<not> ap_enabled r
              then (let (i', s2) = save_state sv (i\<lparr>in_status := DISABLED\<rparr>) s1 in (Inr i', s2, w))
              else (case ad_status (sv_adapter sv m) w of
                      (Inl e, w1) \<Rightarrow> (Inl (Uncaught (exn_text e)), s1, w1)
                    | (Inr rs, w1) \<Rightarrow>
                        (let (i', s2) = apply_runtime_state sv i rs s1 in (Inr i', s2, w1)))))"

definition logs_op :: "'w service \<Rightarrow> string \<Rightarrow> int \<Rightarrow> store \<Rightarrow> 'w \<Rightarrow> (life_exn + string \<times> string list) \<times> 'w" where
  "logs_op sv k n s w =
     (if \<not> (1 \<le> n \<and> n \<le> 5000)
      then (Inl (LifecycleError ''CONFIG_INVALID'' ''lines must be between 1 and 5000'' []), w)
      else case life_application sv k s of
          Inl e \<Rightarrow> (Inl e, w)
        | Inr (r, m) \<Rightarrow>
            (case ad_logs (sv_adapter sv m) n w of
               (Inl (RuntimeErr t), w1) \<Rightarrow> (Inl (LifecycleError ''LOG_READ_FAILED'' t []), w1)
             | (Inl (OtherErr t), w1) \<Rightarrow> (Inl (Uncaught t), w1)
             | (Inr ls, w1) \<Rightarrow>
                 (Inr (if runtime_type (man_runtime m) = ''process'' then ''journal'' else ''docker'', ls), w1)))"

section \<open>Actions\<close>

definition action_guard :: "string \<Rightarrow> string \<Rightarrow> app_status \<Rightarrow> life_exn option" where
  "action_guard k act current =
     (if act = ''start'' \<and> current \<in> {RUNNING, STARTING, CHECKING}
      then Some (LifecycleError ''APP_ALREADY_RUNNING'' (''Application is already running: '' @ k) [])
      else if act \<in> {''stop'', ''restart''} \<and> current \<in> {STOPPED, DISABLED}
      then Some (LifecycleError ''APP_NOT_RUNNING'' (''Application is not running: '' @ k) [])
      else None)"

definition port_check ::
    "'w service \<Rightarrow> string \<Rightarrow> string \<Rightarrow> manifest \<Rightarrow> exec_row \<Rightarrow> store \<Rightarrow> 'w \<Rightarrow> (life_exn + unit) \<times> store"
where
  "port_check sv k act m ex s w =
     (if act \<notin> {''start'', ''restart''} then (Inr (), s)
      else case conflicts (sv_fs sv) (sv_cd sv) (sv_view sv w) (working s) m of
          Inl (DiscoveryErr e) \<Rightarrow>
            (Inl (LifecycleError ''PORT_DISCOVERY_UNAVAILABLE''
                    ''Cannot safely validate declared ports before startup'' []),
             finish_execution sv ex False None (Some ''PORT_DISCOVERY_UNAVAILABLE'') (Some e) [] s)
        | Inl (ValueErr e) \<Rightarrow> (Inl (Uncaught e), s)
        | Inl (OtherExc e) \<Rightarrow> (Inl (Uncaught e), s)
        | Inr [] \<Rightarrow> (Inr (), s)
        | Inr cs \<Rightarrow>
            (Inl (LifecycleError ''PORT_CONFLICT''
                    (''One or more declared ports are already in use for '' @ k) cs),
             finish_execution sv ex False None (Some ''PORT_CONFLICT'')
               (Some ''One or more declared ports are already in use'')
               [(''conflicts'', JList (map conflict_json cs))] s))"

definition begin_transition ::
    "'w service \<Rightarrow> string \<Rightarrow> inst_row \<Rightarrow> store \<Rightarrow> (transition_error + inst_row) \<times> store"
where
  "begin_transition sv act i s =
     (if act = ''start''
      then (case transition sv i CHECKING None True s of
              (Inl e, s1) \<Rightarrow> (Inl e, s1)
            | (Inr i1, s1) \<Rightarrow> transition sv i1 STARTING None True s1)
      else transition sv i (if act = ''stop'' then STOPPING else STARTING) None True s)"

definition adapter_op :: "'w adapter \<Rightarrow> string \<Rightarrow> 'w \<Rightarrow> (py_exn + adapter_result) \<times> 'w" where
  "adapter_op a act = (if act = ''start'' then ad_start a else if act = ''stop'' then ad_stop a else ad_restart a)"

definition expected_statuses :: "string \<Rightarrow> app_status set" where
  "expected_statuses act = (if act \<in> {''start'', ''restart''} then {STARTING, RUNNING, UNHEALTHY} else {STOPPED})"

definition result_message :: "adapter_result \<Rightarrow> runtime_state \<Rightarrow> string" where
  "result_message r rs = or_else (message r) (case rs_error rs of Some e \<Rightarrow> e | None \<Rightarrow> [])"

text \<open>From the call of the adapter to the response.\<close>

definition run_adapter ::
    "'w service \<Rightarrow> string \<Rightarrow> string \<Rightarrow> 'w adapter \<Rightarrow> exec_row \<Rightarrow> inst_row \<Rightarrow> store \<Rightarrow> 'w
       \<Rightarrow> (life_exn + action_response) \<times> store \<times> 'w"
where
  "run_adapter sv k act a ex i s w =
     (case adapter_op a act w of
        (Inl e, w1) \<Rightarrow> (Inl (Uncaught (exn_text e)), s, w1)
      | (Inr r, w1) \<Rightarrow>
          if \<not> succeeded r
          then (let s1 = snd (transition sv i FAILED (Some (message r)) False s);
                    s2 = finish_execution sv ex False (exit_code r) (error_code r) (Some (message r)) [] s1
                in (Inr \<lparr>lr_app = k, lr_exec = ex_id ex, lr_action = act, lr_status = FAILED,
                         lr_succeeded = False, lr_error_code = error_code r, lr_message = message r\<rparr>, s2, w1))
          else (case ad_status a w1 of
                  (Inl e, w2) \<Rightarrow> (Inl (Uncaught (exn_text e)), s, w2)
                | (Inr rs, w2) \<Rightarrow>
                    (let (i1, s1) = apply_runtime_state sv i rs s;
                         ok = (in_status i1 \<in> expected_statuses act);
                         code = (if ok then None else Some ''STATE_CONFIRMATION_FAILED'');
                         msg = result_message r rs;
                         s2 = finish_execution sv ex ok (exit_code r) code (if ok then None else Some msg) [] s1
                     in (Inr \<lparr>lr_app = k, lr_exec = ex_id ex, lr_action = act, lr_status = in_status i1,
                              lr_succeeded = ok, lr_error_code = code, lr_message = msg\<rparr>, s2, w2))))"

definition action_op ::
    "'w service \<Rightarrow> string \<Rightarrow> string \<Rightarrow> store \<Rightarrow> 'w \<Rightarrow> (life_exn + action_response) \<times> store \<times> 'w"
where
  "action_op sv k act s w =
     (if act \<notin> {''start'', ''stop'', ''restart''}
      then (Inl (LifecycleError ''ACTION_INVALID'' (''Unsupported lifecycle action: '' @ act) []), s, w)
      else case life_application sv k s of
          Inl e \<Rightarrow> (Inl e, s, w)
        | Inr (r, m) \<Rightarrow>
            if \<not> ap_enabled r
            then (Inl (LifecycleError ''APP_DISABLED'' (''Application is disabled: '' @ k) []), s, w)
            else (let (i, s1) = state_record sv k s in
              case action_guard k act (in_status i) of
                Some e \<Rightarrow> (Inl e, s1, w)
              | None \<Rightarrow>
                  (let (ex, s2) = new_execution sv k act s1 in
                   case port_check sv k act m ex s2 w of
                     (Inl e, s3) \<Rightarrow> (Inl e, s3, w)
                   | (Inr _, s3) \<Rightarrow>
                       (case begin_transition sv act i s3 of
                          (Inl (InvalidStateTransition t), s4) \<Rightarrow>
                            (Inl (LifecycleError ''STATE_TRANSITION_INVALID'' t []),
                             finish_execution sv ex False None (Some ''STATE_TRANSITION_INVALID'') (Some t) [] s4, w)
                        | (Inr i1, s4) \<Rightarrow> run_adapter sv k act (sv_adapter sv m) ex i1 s4 w))))"

section \<open>Handlers\<close>

datatype life_http = LifeHttp int string string "port_conflict list" | LifeCrash

fun lifecycle_error :: "life_exn \<Rightarrow> life_http" where
  "lifecycle_error (LifecycleError code msg details) =
     LifeHttp (if code = ''APP_NOT_FOUND'' then 404 else 409) code msg details"
| "lifecycle_error (Uncaught t) = LifeCrash"

definition api_action ::
    "'w service \<Rightarrow> string \<Rightarrow> string \<Rightarrow> string \<Rightarrow> store \<Rightarrow> 'w \<Rightarrow> (life_http + action_response) \<times> store \<times> 'w"
where
  "api_action sv body k act s w =
     (if body \<noteq> []
      then (Inl (LifeHttp 400 ''ARGUMENTS_NOT_ALLOWED''
             ''Lifecycle requests do not accept commands, units, paths, or arguments.'' []), s, w)
      else (case action_op sv k act (rollback s) w of
              (r, s1, w1) \<Rightarrow> (map_error lifecycle_error r, rollback s1, w1)))"

definition api_status ::
    "'w service \<Rightarrow> string \<Rightarrow> store \<Rightarrow> 'w \<Rightarrow> (life_http + inst_row) \<times> store \<times> 'w"
where
  "api_status sv k s w =
     (case status_op sv k (rollback s) w of (r, s1, w1) \<Rightarrow> (map_error lifecycle_error r, rollback s1, w1))"

section \<open>The state row\<close>

definition put_inst :: "inst_row \<Rightarrow> db \<Rightarrow> db" where
  "put_inst i d = d\<lparr>instances := map (\<lambda>x. if in_id x = in_id i then i else x) (instances d)\<rparr>"

definition has_inst :: "inst_row \<Rightarrow> db \<Rightarrow> bool" where
  "has_inst i d \<longleftrightarrow> (\<exists>x\<in>set (instances d). in_id x = in_id i \<and> in_app x = in_app i)"

definition db_ok :: "db \<Rightarrow> bool" where
  "db_ok d \<longleftrightarrow> distinct (map in_id (instances d)) \<and> distinct (map in_app (instances d))"

lemma put_inst_frame [simp]:
  "applications (put_inst i d) = applications d" "executions (put_inst i d) = executions d"
  "audit_events (put_inst i d) = audit_events d" "administrators (put_inst i d) = administrators d"
  by (simp_all add: put_inst_def)

lemma put_inst_twice: "in_id j = in_id i \<Longrightarrow> put_inst j (put_inst i d) = put_inst j d"
  by (auto simp: put_inst_def)

lemma unique_inst:
  assumes "distinct (map in_id (instances d))" "has_inst i d" "x \<in> set (instances d)" "in_id x = in_id i"
  shows "in_app x = in_app i"
  using assms by (auto simp: has_inst_def distinct_map inj_on_def)

lemma put_inst_keys:
  assumes "distinct (map in_id (instances d))" "has_inst i d"
  shows "map in_id (instances (put_inst i d)) = map in_id (instances d)"
    "map in_app (instances (put_inst i d)) = map in_app (instances d)"
  using unique_inst [OF assms] by (auto simp: put_inst_def)

lemma put_inst_has: "distinct (map in_id (instances d)) \<Longrightarrow> has_inst i d \<Longrightarrow> has_inst i (put_inst i d)"
  by (auto simp: has_inst_def put_inst_def)

lemma has_inst_cong: "in_id j = in_id i \<Longrightarrow> in_app j = in_app i \<Longrightarrow> has_inst j d = has_inst i d"
  by (simp add: has_inst_def)

lemma put_inst_mem: "has_inst i d \<Longrightarrow> i \<in> set (instances (put_inst i d))"
  by (auto simp: has_inst_def put_inst_def image_iff)

lemma put_inst_latest:
  assumes "db_ok d" "has_inst i d"
  shows "latest_state (put_inst i d) (in_app i) = Some i"
proof -
  have "distinct (map in_app (instances (put_inst i d)))"
    using assms put_inst_keys by (simp add: db_ok_def)
  moreover have m: "i \<in> set (instances (put_inst i d))" by (rule put_inst_mem [OF assms(2)])
  ultimately have u: "\<And>x. x \<in> set (instances (put_inst i d)) \<Longrightarrow> in_app x = in_app i \<Longrightarrow> x = i"
    by (auto simp: distinct_map inj_on_def)
  obtain q where q: "latest_state (put_inst i d) (in_app i) = Some q"
    using m latest_state_None [of "put_inst i d" "in_app i"]
    by (cases "latest_state (put_inst i d) (in_app i)") auto
  then show ?thesis using u latest_state_mem by blast
qed

lemma put_inst_ok: "db_ok d \<Longrightarrow> has_inst i d \<Longrightarrow> db_ok (put_inst i d)"
  using put_inst_keys by (simp add: db_ok_def)

lemma put_inst_registry:
  assumes "registry_ok su fs cd n d" "has_inst i d"
  shows "registry_ok su fs cd n (put_inst i d)"
proof -
  have d: "distinct (map in_id (instances d))" using assms(1) by (simp add: registry_ok_def db_wf_def)
  note k = put_inst_keys [OF d assms(2)]
  have "in_id ` set (instances (put_inst i d)) = in_id ` set (instances d)"
    "in_app ` set (instances (put_inst i d)) = in_app ` set (instances d)"
    using k by (metis list.set_map)+
  then show ?thesis using assms(1) k by (simp add: registry_ok_def db_wf_def ids_drawn_def)
qed

lemma registry_db_ok: "registry_ok su fs cd n d \<Longrightarrow> db_ok d"
  by (simp add: registry_ok_def db_wf_def db_ok_def)

text \<open>What a save of the state object does.\<close>

definition saved :: "inst_row \<Rightarrow> store \<Rightarrow> inst_row \<Rightarrow> store \<Rightarrow> bool" where
  "saved i s i' s' \<longleftrightarrow> in_id i' = in_id i \<and> in_app i' = in_app i \<and> in_status i' = in_status i
     \<and> working s' = put_inst i' (working s) \<and> committed s' = working s' \<and> drawn s' = drawn s"

lemma save_state_saved:
  assumes d: "distinct (map in_id (instances (working s)))" and i: "has_inst i (working s)"
    and e: "save_state sv i s = (i', s')"
  shows "saved i s i' s'"
proof -
  have "row_get in_id (in_id i) (instances (working s)) \<noteq> None"
    unfolding row_get_None using i unfolding has_inst_def by (metis imageI)
  then obtain old where old: "row_get in_id (in_id i) (instances (working s)) = Some old" by blast
  let ?t = "now (sv_su sv) s"
  let ?i = "if i = old then i else touch_inst ?t i"
  have s': "s' = commit (save_inst (sv_su sv) i s)" using e by (auto simp: save_state_def Let_def)
  have "row_get in_id (in_id i) (row_save in_id touch_inst ?t i (instances (working s))) = Some ?i"
    by (rule inst_rows.save_get [OF old d])
  then have i': "i' = ?i" using e by (simp add: save_state_def Let_def)
  have f: "in_id ?i = in_id i" "in_app ?i = in_app i" "in_status ?i = in_status i"
    by (simp_all add: touch_inst_def)
  have "x = old" if "x \<in> set (instances (working s))" "in_id x = in_id i" for x
    using row_get_mem [OF d that(1)] old that(2) by simp
  then have "row_save in_id touch_inst ?t i (instances (working s))
      = map (\<lambda>x. if in_id x = in_id ?i then ?i else x) (instances (working s))"
    unfolding row_save_def f by (intro map_cong refl) auto
  then have "working s' = put_inst ?i (working s)" unfolding s' put_inst_def by simp
  moreover have "committed s' = working s'" "drawn s' = drawn s" by (simp_all add: s')
  ultimately show ?thesis unfolding saved_def i' f by blast
qed

lemma stamp_frame:
  assumes "stamp sv st s i = (i1, s1)"
  shows "in_id i1 = in_id i" "in_app i1 = in_app i" "in_status i1 = in_status i"
    "working s1 = working s" "committed s1 = committed s" "drawn s1 = drawn s"
  using assms by (auto simp: stamp_def split: if_splits option.splits)

lemma transition_Inr:
  assumes d: "distinct (map in_id (instances (working s)))" and i: "has_inst i (working s)"
    and e: "transition sv i t err enforce s = (Inr i', s')"
  shows "saved (i\<lparr>in_status := t\<rparr>) s i' s'"
proof -
  obtain i1 s1 where st: "stamp sv t s (i\<lparr>in_status := t, in_error := err\<rparr>) = (i1, s1)" by fastforce
  have sv: "save_state sv i1 s1 = (i', s')"
    using e by (auto simp: transition_def st split: sum.splits if_splits prod.splits)
  note f = stamp_frame [OF st]
  have "has_inst i1 (working s1)" using i f by (simp add: has_inst_def)
  with save_state_saved [OF _ this sv] d f show ?thesis by (simp add: saved_def)
qed

lemma transition_enforced:
  "transition sv i t err True s = (Inl e, s') \<Longrightarrow> s' = s \<and> require_transition (in_status i) t = Inl e"
  "transition sv i t err True s = (Inr i', s') \<Longrightarrow> require_transition (in_status i) t = Inr ()"
  by (auto simp: transition_def split: sum.splits prod.splits)

lemma transition_free: "\<exists>i' s'. transition sv i t err False s = (Inr i', s')"
  by (auto simp: transition_def split: prod.splits)

lemma apply_runtime_saved:
  assumes d: "distinct (map in_id (instances (working s)))" and i: "has_inst i (working s)"
    and e: "apply_runtime_state sv i rs s = (i', s')"
  shows "saved (i\<lparr>in_status := rs_status rs\<rparr>) s i' s'"
proof -
  obtain i1 s1 where st: "stamp sv (rs_status rs) s (i\<lparr>in_status := rs_status rs, in_runtime := Some (rs_identifier rs),
               in_metadata := rs_metadata rs, in_error := rs_error rs\<rparr>) = (i1, s1)" by fastforce
  have sv: "save_state sv i1 s1 = (i', s')"
    using e by (auto simp: apply_runtime_state_def st split: prod.splits)
  note f = stamp_frame [OF st]
  have "has_inst i1 (working s1)" using i f by (simp add: has_inst_def)
  with save_state_saved [OF _ this sv] d f show ?thesis by (simp add: saved_def)
qed

section \<open>The state row of an action\<close>

definition service_ok :: "'w service \<Rightarrow> store \<Rightarrow> bool" where
  "service_ok sv s \<longleftrightarrow> store_ok (sv_su sv) (sv_fs sv) (sv_cd sv) s"

definition reg_ok :: "'w service \<Rightarrow> store \<Rightarrow> bool" where
  "reg_ok sv s \<longleftrightarrow> registry_ok (sv_su sv) (sv_fs sv) (sv_cd sv) (drawn s) (working s)"

lemma service_reg: "service_ok sv s \<Longrightarrow> reg_ok sv s \<and> committed s = working s"
  by (simp add: service_ok_def reg_ok_def store_ok_def)

lemma reg_db_ok: "reg_ok sv s \<Longrightarrow> db_ok (working s)"
  unfolding reg_ok_def by (rule registry_db_ok)

lemma reg_distinct: "reg_ok sv s \<Longrightarrow> distinct (map in_id (instances (working s)))"
  by (drule reg_db_ok) (simp add: db_ok_def)

lemma saved_reg:
  assumes "reg_ok sv s" "has_inst i (working s)" "saved i s i' s'"
  shows "reg_ok sv s'" "has_inst i' (working s')" "latest_state (working s') (in_app i) = Some i'"
proof -
  have h: "has_inst i' (working s)" using assms(2,3) by (simp add: saved_def has_inst_def)
  show "reg_ok sv s'"
    using put_inst_registry [OF _ h] assms(1,3) by (simp add: saved_def reg_ok_def)
  show "has_inst i' (working s')"
    using put_inst_has [OF reg_distinct [OF assms(1)] h] assms(3) by (simp add: saved_def)
  show "latest_state (working s') (in_app i) = Some i'"
    using put_inst_latest [OF reg_db_ok [OF assms(1)] h] assms(3) by (simp add: saved_def)
qed

lemma registry_ok_new_state:
  assumes ok: "registry_ok su fs cd n d" and i: "in_id i = fresh su n" "in_app i = k"
    and none: "\<forall>r\<in>set (instances d). in_app r \<noteq> k" and app: "k \<in> ap_id ` set (applications d)"
  shows "registry_ok su fs cd (Suc n) (d\<lparr>instances := instances d @ [i]\<rparr>)"
proof -
  have "fresh su n \<notin> in_id ` set (instances d)"
    using ok by (auto simp: registry_ok_def dest: ids_drawn_fresh)
  moreover have "ids_drawn su (Suc n) d" using ok by (auto simp: registry_ok_def intro: ids_drawn_mono)
  ultimately show ?thesis
    using ok i none app by (auto simp: registry_ok_def db_wf_def ids_drawn_def image_iff)
qed

lemma state_record_spec:
  assumes ok: "reg_ok sv s" and app: "row_get ap_id k (applications (working s)) \<noteq> None"
    and e: "state_record sv k s = (i, s1)"
  shows "reg_ok sv s1" "has_inst i (working s1)" "in_app i = k" "committed s1 = committed s"
    "latest_state (working s1) k = Some i" "applications (working s1) = applications (working s)"
    "executions (working s1) = executions (working s)" "audit_events (working s1) = audit_events (working s)"
    "(case latest_state (working s) k of Some j \<Rightarrow> i = j \<and> s1 = s | None \<Rightarrow> in_status i = STOPPED)"
proof -
  have "reg_ok sv s1 \<and> has_inst i (working s1) \<and> in_app i = k \<and> committed s1 = committed s
    \<and> latest_state (working s1) k = Some i \<and> applications (working s1) = applications (working s)
    \<and> executions (working s1) = executions (working s) \<and> audit_events (working s1) = audit_events (working s)
    \<and> (case latest_state (working s) k of Some j \<Rightarrow> i = j \<and> s1 = s | None \<Rightarrow> in_status i = STOPPED)"
  proof (cases "latest_state (working s) k")
    case (Some j)
    then have "i = j" "s1 = s" using e by (auto simp: state_record_def)
    then show ?thesis using ok Some latest_state_mem [OF Some] by (auto simp: has_inst_def)
  next
    case None
    then have n: "i = new_state (sv_su sv) k s" "s1 = add_inst i (tick (tick (draw s)))"
      using e by (auto simp: state_record_def Let_def)
    have none: "\<forall>r\<in>set (instances (working s)). in_app r \<noteq> k" using None by (simp add: latest_state_None)
    have f: "in_id i = fresh (sv_su sv) (drawn s)" "in_app i = k" "in_status i = STOPPED"
      by (simp_all add: n(1) new_state_def next_id_def)
    have "k \<in> ap_id ` set (applications (working s))" using app by (simp add: row_get_None)
    then have "reg_ok sv s1"
      using registry_ok_new_state [OF _ f(1,2) none] ok by (simp add: reg_ok_def n(2))
    moreover have "latest_state (working s1) k = Some i"
      using none f by (simp add: n(2) latest_state_def filter_empty_conv)
    ultimately show ?thesis using f None by (simp add: n(2) has_inst_def)
  qed
  then show "reg_ok sv s1" "has_inst i (working s1)" "in_app i = k" "committed s1 = committed s"
    "latest_state (working s1) k = Some i" "applications (working s1) = applications (working s)"
    "executions (working s1) = executions (working s)" "audit_events (working s1) = audit_events (working s)"
    "(case latest_state (working s) k of Some j \<Rightarrow> i = j \<and> s1 = s | None \<Rightarrow> in_status i = STOPPED)"
    by blast+
qed

section \<open>Executions\<close>

lemma registry_ok_exec:
  assumes "registry_ok su fs cd n d" "distinct (map ex_id xs)" "ex_id ` set xs \<subseteq> fresh su ` {..<n}"
  shows "registry_ok su fs cd n (d\<lparr>executions := xs\<rparr>)"
  using assms by (simp add: registry_ok_def db_wf_def ids_drawn_def)

lemma new_execution_spec:
  assumes ok: "reg_ok sv s" and e: "new_execution sv k act s = (ex, s1)"
  shows "reg_ok sv s1" "executions (working s1) = executions (working s) @ [ex]" "committed s1 = working s1"
    "working s1 = (working s)\<lparr>executions := executions (working s1)\<rparr>"
    "ex_app ex = k" "ex_action ex = act" "ex_status ex = EX_RUNNING"
    "ex_id ex \<notin> ex_id ` set (executions (working s))"
proof -
  have s1: "s1 = commit (add_exec ex (tick (tick (draw s))))" and ex: "ex_id ex = fresh (sv_su sv) (drawn s)"
      "ex_app ex = k" "ex_action ex = act" "ex_status ex = EX_RUNNING"
    using e by (auto simp: new_execution_def Let_def next_id_def)
  have R: "registry_ok (sv_su sv) (sv_fs sv) (sv_cd sv) (drawn s) (working s)" using ok by (simp add: reg_ok_def)
  have new: "ex_id ex \<notin> ex_id ` set (executions (working s))"
    using R unfolding ex(1) by (auto simp: registry_ok_def dest: ids_drawn_fresh)
  have w: "working s1 = (working s)\<lparr>executions := executions (working s) @ [ex]\<rparr>" by (simp add: s1)
  have "registry_ok (sv_su sv) (sv_fs sv) (sv_cd sv) (Suc (drawn s)) (working s1)"
    unfolding w
  proof (rule registry_ok_exec)
    show "registry_ok (sv_su sv) (sv_fs sv) (sv_cd sv) (Suc (drawn s)) (working s)"
      using R by (rule registry_ok_mono) simp
    show "distinct (map ex_id (executions (working s) @ [ex]))"
      using R new by (simp add: registry_ok_def db_wf_def)
    have "ex_id ` set (executions (working s)) \<subseteq> fresh (sv_su sv) ` {..<drawn s}"
      using R by (simp add: registry_ok_def ids_drawn_def)
    then show "ex_id ` set (executions (working s) @ [ex]) \<subseteq> fresh (sv_su sv) ` {..<Suc (drawn s)}"
      using ex(1) by (auto simp: lessThan_Suc)
  qed
  then show "reg_ok sv s1" by (simp add: reg_ok_def s1)
  show "executions (working s1) = executions (working s) @ [ex]"
    "working s1 = (working s)\<lparr>executions := executions (working s1)\<rparr>" by (simp_all add: w)
  show "committed s1 = working s1" by (simp add: s1)
  show "ex_app ex = k" "ex_action ex = act" "ex_status ex = EX_RUNNING"
    "ex_id ex \<notin> ex_id ` set (executions (working s))" using ex new by simp_all
qed

text \<open>The one finished execution and the one audit event an action leaves.\<close>

definition finished :: "exec_row \<Rightarrow> bool \<Rightarrow> string option \<Rightarrow> exec_row \<Rightarrow> bool" where
  "finished ex ok code ex' \<longleftrightarrow> ex_id ex' = ex_id ex \<and> ex_app ex' = ex_app ex \<and> ex_action ex' = ex_action ex
     \<and> ex_status ex' = (if ok then EX_SUCCEEDED else EX_FAILED) \<and> ex_finished ex' \<noteq> None
     \<and> ex_error_code ex' = code"

definition recorded :: "'w service \<Rightarrow> exec_row \<Rightarrow> bool \<Rightarrow> audit_row \<Rightarrow> bool" where
  "recorded sv ex ok ev \<longleftrightarrow> au_action ev = ''application.'' @ ex_action ex \<and> au_target_id ev = ex_app ex
     \<and> au_actor ev = call_actor (sv_caller sv) \<and> au_result ev = (if ok then ''success'' else ''failure'')"

lemma row_save_last:
  assumes "key r \<notin> key ` set xs" "key x = key r"
  shows "row_save key (\<lambda>t r. r) t r (xs @ [x]) = xs @ [r]"
proof -
  have "row_save key (\<lambda>t r. r) t r xs = xs"
    unfolding row_save_def using assms(1) by (intro map_idI) (metis imageI)
  then show ?thesis using assms(2) by (auto simp: row_save_def)
qed

lemma finish_execution_spec:
  assumes xs: "executions (working s) = xs @ [ex]" "ex_id ex \<notin> ex_id ` set xs" and ok: "reg_ok sv s"
    and e: "s' = finish_execution sv ex good exit code msg details s"
  shows "\<exists>ex' ev. finished ex good code ex' \<and> recorded sv ex good ev
    \<and> working s' = (working s)\<lparr>executions := xs @ [ex'], audit_events := audit_events (working s) @ [ev]\<rparr>
    \<and> committed s' = working s' \<and> reg_ok sv s'"
proof -
  let ?ex = "ex\<lparr>ex_status := (if good then EX_SUCCEEDED else EX_FAILED), ex_finished := Some (now (sv_su sv) s),
                   ex_exit := exit, ex_error_code := code, ex_error := msg\<rparr>"
  have touch: "touch_exec = (\<lambda>t r. r)" by (intro ext) (simp add: touch_exec_def)
  have sv: "row_save ex_id touch_exec t ?ex (xs @ [ex]) = xs @ [?ex]" for t
    unfolding touch by (rule row_save_last) (use xs(2) in simp_all)
  obtain ev where ev: "s' = commit (add_audit ev (save_exec (sv_su sv) ?ex (tick (draw (tick s)))))"
    and r: "recorded sv ex good ev"
    using e by (auto simp: finish_execution_def Let_def recorded_def)
  have w: "working s' = (working s)\<lparr>executions := xs @ [?ex], audit_events := audit_events (working s) @ [ev]\<rparr>"
    by (simp add: ev xs(1) sv)
  have R: "registry_ok (sv_su sv) (sv_fs sv) (sv_cd sv) (drawn s') (working s)"
    using ok unfolding reg_ok_def by (rule registry_ok_mono) (simp add: ev)
  have "registry_ok (sv_su sv) (sv_fs sv) (sv_cd sv) (drawn s') ((working s)\<lparr>executions := xs @ [?ex]\<rparr>)"
    using R xs by (intro registry_ok_exec) (auto simp: registry_ok_def db_wf_def ids_drawn_def)
  then have "reg_ok sv s'" unfolding reg_ok_def w by (simp add: registry_ok_def db_wf_def ids_drawn_def)
  moreover have "finished ex good code ?ex" by (simp add: finished_def)
  moreover have "committed s' = working s'" by (simp add: ev)
  ultimately show ?thesis using r w by blast
qed

section \<open>An action from its guard to its response\<close>

lemma latest_state_exec_audit [simp]:
  "latest_state (d\<lparr>executions := e, audit_events := a\<rparr>) k = latest_state d k"
  by (simp add: latest_state_def)

definition first_target :: "string \<Rightarrow> app_status" where
  "first_target act = (if act = ''start'' then CHECKING else if act = ''stop'' then STOPPING else STARTING)"

lemma begin_transition_Inl:
  assumes "begin_transition sv act i s = (Inl e, s')"
    and d: "distinct (map in_id (instances (working s)))" and h: "has_inst i (working s)"
  shows "s' = s \<and> require_transition (in_status i) (first_target act) = Inl e"
proof (cases "act = ''start''")
  case True
  obtain r s1 where t: "transition sv i CHECKING None True s = (r, s1)" by fastforce
  show ?thesis
  proof (cases r)
    case (Inl e')
    then show ?thesis using assms(1) t True transition_enforced(1) [of sv i CHECKING None s]
      by (auto simp: begin_transition_def first_target_def)
  next
    case (Inr i1)
    then have "in_status i1 = CHECKING"
      using transition_Inr [OF d h] t by (fastforce simp: saved_def)
    moreover have "transition sv i1 STARTING None True s1 = (Inl e, s')"
      using assms(1) t True Inr by (simp add: begin_transition_def)
    ultimately show ?thesis using transition_enforced(1) [of sv i1 STARTING None s1 e s']
      by (simp add: require_transition_def)
  qed
next
  case False
  then have "transition sv i (first_target act) None True s = (Inl e, s')"
    using assms(1) by (simp add: begin_transition_def first_target_def)
  then show ?thesis by (rule transition_enforced(1))
qed

lemma begin_transition_Inr:
  assumes e: "begin_transition sv act i s = (Inr i', s')" and ok: "reg_ok sv s" and h: "has_inst i (working s)"
  shows "reg_ok sv s'" "has_inst i' (working s')" "in_app i' = in_app i" "committed s' = working s'"
    "latest_state (working s') (in_app i) = Some i'" "applications (working s') = applications (working s)"
    "executions (working s') = executions (working s)" "audit_events (working s') = audit_events (working s)"
    "require_transition (in_status i) (first_target act) = Inr ()"
    "in_status i' = (if act = ''stop'' then STOPPING else STARTING)"
proof -
  have step: "reg_ok sv s1 \<and> has_inst j' (working s1) \<and> in_app j' = in_app j \<and> committed s1 = working s1
      \<and> latest_state (working s1) (in_app j) = Some j' \<and> applications (working s1) = applications (working s0)
      \<and> executions (working s1) = executions (working s0) \<and> audit_events (working s1) = audit_events (working s0)
      \<and> require_transition (in_status j) t = Inr () \<and> in_status j' = t"
    if "reg_ok sv s0" "has_inst j (working s0)" "transition sv j t None True s0 = (Inr j', s1)" for j j' t s0 s1
  proof -
    have sv: "saved (j\<lparr>in_status := t\<rparr>) s0 j' s1" by (rule transition_Inr [OF reg_distinct that(2,3)]) (rule that(1))
    have h: "has_inst (j\<lparr>in_status := t\<rparr>) (working s0)" using that(2) by (simp add: has_inst_def)
    show ?thesis using saved_reg [OF that(1) h sv] sv transition_enforced(2) [OF that(3)] by (simp add: saved_def)
  qed
  have "reg_ok sv s' \<and> has_inst i' (working s') \<and> in_app i' = in_app i \<and> committed s' = working s'
      \<and> latest_state (working s') (in_app i) = Some i' \<and> applications (working s') = applications (working s)
      \<and> executions (working s') = executions (working s) \<and> audit_events (working s') = audit_events (working s)
      \<and> require_transition (in_status i) (first_target act) = Inr ()
      \<and> in_status i' = (if act = ''stop'' then STOPPING else STARTING)"
  proof (cases "act = ''start''")
    case True
    then obtain i1 s1 where t: "transition sv i CHECKING None True s = (Inr i1, s1)"
        "transition sv i1 STARTING None True s1 = (Inr i', s')"
      using e by (auto simp: begin_transition_def split: sum.splits prod.splits)
    note a = step [OF ok h t(1)]
    then have r: "reg_ok sv s1" "has_inst i1 (working s1)" by blast+
    show ?thesis using a step [OF r t(2)] True by (simp add: first_target_def)
  next
    case False
    then have "transition sv i (first_target act) None True s = (Inr i', s')"
      using e by (auto simp: begin_transition_def first_target_def split: if_splits)
    from step [OF ok h this] False show ?thesis by (simp add: first_target_def split: if_splits)
  qed
  then show "reg_ok sv s'" "has_inst i' (working s')" "in_app i' = in_app i" "committed s' = working s'"
    "latest_state (working s') (in_app i) = Some i'" "applications (working s') = applications (working s)"
    "executions (working s') = executions (working s)" "audit_events (working s') = audit_events (working s)"
    "require_transition (in_status i) (first_target act) = Inr ()"
    "in_status i' = (if act = ''stop'' then STOPPING else STARTING)"
    by blast+
qed

text \<open>\<open>answered\<close>: what a response says and what the database holds are the same.\<close>

definition answered :: "'w service \<Rightarrow> string \<Rightarrow> string \<Rightarrow> db \<Rightarrow> db \<Rightarrow> action_response \<Rightarrow> bool" where
  "answered sv k act d d' r \<longleftrightarrow>
     (\<exists>ex ex' ev i. executions d' = executions d @ [ex'] \<and> finished ex (lr_succeeded r) (lr_error_code r) ex'
        \<and> audit_events d' = audit_events d @ [ev] \<and> recorded sv ex (lr_succeeded r) ev
        \<and> ex_id ex = lr_exec r \<and> ex_app ex = k \<and> ex_action ex = act \<and> ex_id ex \<notin> ex_id ` set (executions d)
        \<and> latest_state d' k = Some i \<and> in_status i = lr_status r)
     \<and> applications d' = applications d \<and> lr_app r = k \<and> lr_action r = act"

lemma run_adapter_spec:
  assumes e: "run_adapter sv k act a ex i s w = (Inr r, s', w')" and ok: "reg_ok sv s"
    and h: "has_inst i (working s)" "in_app i = k" and xs: "executions (working s) = xs @ [ex]" "ex_id ex \<notin> ex_id ` set xs"
    and ex: "ex_app ex = k" "ex_action ex = act"
  shows "answered sv k act ((working s)\<lparr>executions := xs\<rparr>) (working s') r \<and> reg_ok sv s' \<and> committed s' = working s'
    \<and> (\<exists>res w1. adapter_op a act w = (Inr res, w1)
        \<and> (if succeeded res
           then \<exists>rs. ad_status a w1 = (Inr rs, w') \<and> lr_status r = rs_status rs
              \<and> (lr_succeeded r \<longleftrightarrow> rs_status rs \<in> expected_statuses act)
           else w' = w1 \<and> lr_status r = FAILED \<and> \<not> lr_succeeded r))"
proof -
  obtain res w1 where res: "adapter_op a act w = (Inr res, w1)"
    using e by (auto simp: run_adapter_def split: sum.splits prod.splits)
  note d = reg_distinct [OF ok]
  show ?thesis
  proof (cases "succeeded res")
    case False
    obtain i1 s1 where t: "transition sv i FAILED (Some (message res)) False s = (Inr i1, s1)"
      using transition_free by blast
    have sv: "saved (i\<lparr>in_status := FAILED\<rparr>) s i1 s1" by (rule transition_Inr [OF d h(1) t])
    have h': "has_inst (i\<lparr>in_status := FAILED\<rparr>) (working s)" using h(1) by (simp add: has_inst_def)
    note S = saved_reg [OF ok h' sv]
    have r: "r = \<lparr>lr_app = k, lr_exec = ex_id ex, lr_action = act, lr_status = FAILED,
                         lr_succeeded = False, lr_error_code = error_code res, lr_message = message res\<rparr>"
      and s': "s' = finish_execution sv ex False (exit_code res) (error_code res) (Some (message res)) [] s1"
      and w: "w' = w1"
      using e False by (auto simp: run_adapter_def res t)
    have x1: "executions (working s1) = xs @ [ex]" using xs sv by (simp add: saved_def)
    from finish_execution_spec [OF x1 xs(2) S(1) s'] obtain ex' ev where f:
      "finished ex False (error_code res) ex'" "recorded sv ex False ev"
      "working s' = (working s1)\<lparr>executions := xs @ [ex'], audit_events := audit_events (working s1) @ [ev]\<rparr>"
      "committed s' = working s'" "reg_ok sv s'" by blast
    have "answered sv k act ((working s)\<lparr>executions := xs\<rparr>) (working s') r"
      unfolding answered_def f(3) using f(1,2) S(3) sv ex h(2) xs(2) by (auto simp: r saved_def)
    then show ?thesis using f res False w by (simp add: r)
  next
    case True
    obtain rs w2 where st: "ad_status a w1 = (Inr rs, w2)"
      using e True by (auto simp: run_adapter_def res Let_def split: sum.splits prod.splits if_splits)
    obtain i1 s1 where ap: "apply_runtime_state sv i rs s = (i1, s1)" by fastforce
    have sv: "saved (i\<lparr>in_status := rs_status rs\<rparr>) s i1 s1" by (rule apply_runtime_saved [OF d h(1) ap])
    have h': "has_inst (i\<lparr>in_status := rs_status rs\<rparr>) (working s)" using h(1) by (simp add: has_inst_def)
    note S = saved_reg [OF ok h' sv]
    have i1: "in_status i1 = rs_status rs" using sv by (simp add: saved_def)
    let ?ok = "rs_status rs \<in> expected_statuses act"
    let ?code = "if ?ok then None else Some ''STATE_CONFIRMATION_FAILED''"
    have r: "r = \<lparr>lr_app = k, lr_exec = ex_id ex, lr_action = act, lr_status = rs_status rs,
                  lr_succeeded = ?ok, lr_error_code = ?code, lr_message = result_message res rs\<rparr>"
      and s': "s' = finish_execution sv ex ?ok (exit_code res) ?code
                 (if ?ok then None else Some (result_message res rs)) [] s1"
      and w: "w' = w2"
      using e True by (auto simp: run_adapter_def res st ap Let_def i1)
    have x1: "executions (working s1) = xs @ [ex]" using xs sv by (simp add: saved_def)
    from finish_execution_spec [OF x1 xs(2) S(1) s'] obtain ex' ev where f:
      "finished ex ?ok ?code ex'" "recorded sv ex ?ok ev"
      "working s' = (working s1)\<lparr>executions := xs @ [ex'], audit_events := audit_events (working s1) @ [ev]\<rparr>"
      "committed s' = working s'" "reg_ok sv s'" by blast
    have "answered sv k act ((working s)\<lparr>executions := xs\<rparr>) (working s') r"
      unfolding answered_def f(3) using f(1,2) S(3) sv ex h(2) xs(2) i1 by (auto simp: r saved_def)
    then show ?thesis using f res True st w by (simp add: r)
  qed
qed

lemma life_application_Inr:
  "life_application sv k s = Inr (r, m) \<longleftrightarrow> row_get ap_id k (applications (working s)) = Some r
     \<and> decode (sv_fs sv) (sv_cd sv) (ap_config r) = Some m
     \<and> vr_valid (validate_manifest_paths (sv_st sv) (sv_fs sv) (allowed_roots (sv_st sv)) m)"
  by (auto simp: life_application_def Let_def split: option.splits if_splits)

lemma port_check_Inr: "port_check sv k act m ex s w = (Inr u, s') \<Longrightarrow> s' = s"
  by (auto simp: port_check_def split: if_splits sum.splits list.splits disc_exn.splits)

text \<open>Where a lifecycle error can come from, after the execution row was written.\<close>

lemma port_check_Inl:
  assumes "port_check sv k act m ex s w = (Inl (LifecycleError code msg det), s')"
  shows "\<exists>emsg details. s' = finish_execution sv ex False None (Some code) emsg details s"
  using assms
  by (auto simp: port_check_def split: if_splits sum.splits list.splits disc_exn.splits)

lemma action_guard_error: "action_guard k act st = Some e \<Longrightarrow> \<exists>code msg. e = LifecycleError code msg []"
  by (auto simp: action_guard_def split: if_splits)

lemma action_stages:
  assumes a: "action_op sv k act s w = (res, s', w')" and ok: "service_ok sv s"
    and act: "act \<in> {''start'', ''stop'', ''restart''}" and la: "life_application sv k s = Inr (r, m)" and en: "ap_enabled r"
  obtains (guard) i s1 e where "state_record sv k s = (i, s1)" "action_guard k act (in_status i) = Some e"
      "res = Inl e" "s' = s1" "w' = w"
    | (ports) i s1 ex s2 e where "state_record sv k s = (i, s1)" "action_guard k act (in_status i) = None"
      "new_execution sv k act s1 = (ex, s2)" "port_check sv k act m ex s2 w = (Inl e, s')" "res = Inl e" "w' = w"
    | (transition) i s1 ex s2 t where "state_record sv k s = (i, s1)" "action_guard k act (in_status i) = None"
      "new_execution sv k act s1 = (ex, s2)" "port_check sv k act m ex s2 w = (Inr (), s2)"
      "begin_transition sv act i s2 = (Inl (InvalidStateTransition t), s2)"
      "res = Inl (LifecycleError ''STATE_TRANSITION_INVALID'' t [])" "w' = w"
      "s' = finish_execution sv ex False None (Some ''STATE_TRANSITION_INVALID'') (Some t) [] s2"
    | (adapter) i s1 ex s2 i1 s4 where "state_record sv k s = (i, s1)" "action_guard k act (in_status i) = None"
      "new_execution sv k act s1 = (ex, s2)" "port_check sv k act m ex s2 w = (Inr (), s2)"
      "begin_transition sv act i s2 = (Inr i1, s4)"
      "run_adapter sv k act (sv_adapter sv m) ex i1 s4 w = (res, s', w')"
proof -
  obtain i s1 where sr: "state_record sv k s = (i, s1)" by fastforce
  have app: "row_get ap_id k (applications (working s)) \<noteq> None" using la by (simp add: life_application_Inr)
  have R: "reg_ok sv s" using ok service_reg by blast
  note S = state_record_spec [OF R app sr]
  have op: "action_op sv k act s w = (case action_guard k act (in_status i) of
                Some e \<Rightarrow> (Inl e, s1, w)
              | None \<Rightarrow>
                  (let (ex, s2) = new_execution sv k act s1 in
                   case port_check sv k act m ex s2 w of
                     (Inl e, s3) \<Rightarrow> (Inl e, s3, w)
                   | (Inr _, s3) \<Rightarrow>
                       (case begin_transition sv act i s3 of
                          (Inl (InvalidStateTransition t), s4) \<Rightarrow>
                            (Inl (LifecycleError ''STATE_TRANSITION_INVALID'' t []),
                             finish_execution sv ex False None (Some ''STATE_TRANSITION_INVALID'') (Some t) [] s4, w)
                        | (Inr i1, s4) \<Rightarrow> run_adapter sv k act (sv_adapter sv m) ex i1 s4 w)))"
    using act la en sr by (simp add: action_op_def)
  show thesis
  proof (cases "action_guard k act (in_status i)")
    case (Some e)
    then show thesis using guard [OF sr Some] a op by simp
  next
    case None
    obtain ex s2 where ex: "new_execution sv k act s1 = (ex, s2)" by fastforce
    note N = new_execution_spec [OF S(1) ex]
    have h2: "has_inst i (working s2)" using S(2) N(4) by (simp add: has_inst_def) (metis db.select_convs(3) db.surjective db.update_convs(4))
    obtain pr s3 where pc: "port_check sv k act m ex s2 w = (pr, s3)" by fastforce
    show thesis
    proof (cases pr)
      case (Inl e)
      then show thesis using ports [OF sr None ex] pc a op None ex by simp
    next
      case (Inr u)
      have s3: "s3 = s2" by (rule port_check_Inr [OF pc [unfolded Inr]])
      obtain br s4 where bt: "begin_transition sv act i s2 = (br, s4)" by fastforce
      show thesis
      proof (cases br)
        case (Inl e)
        obtain t where t: "e = InvalidStateTransition t" by (cases e)
        have "s4 = s2" using begin_transition_Inl [OF bt [unfolded Inl] reg_distinct [OF N(1)] h2] by blast
        then show thesis using transition [OF sr None ex] pc a op None ex Inr s3 bt Inl t by simp
      next
        case i1: (Inr i1)
        then show thesis using adapter [OF sr None ex] pc a op None ex Inr s3 bt by simp
      qed
    qed
  qed
qed

lemma has_inst_exec: "has_inst i (d\<lparr>executions := e\<rparr>) = has_inst i d"
  by (simp add: has_inst_def)

lemma action_response_spec:
  assumes a: "action_op sv k act s w = (Inr r, s', w')" and ok: "service_ok sv s"
  shows "act \<in> {''start'', ''stop'', ''restart''} \<and> answered sv k act (working s) (committed s') r \<and> service_ok sv s'
    \<and> (\<exists>row m res w1. life_application sv k s = Inr (row, m) \<and> ap_enabled row
        \<and> adapter_op (sv_adapter sv m) act w = (Inr res, w1)
        \<and> (if succeeded res
           then \<exists>rs. ad_status (sv_adapter sv m) w1 = (Inr rs, w') \<and> lr_status r = rs_status rs
              \<and> (lr_succeeded r \<longleftrightarrow> rs_status rs \<in> expected_statuses act)
           else w' = w1 \<and> lr_status r = FAILED \<and> \<not> lr_succeeded r))"
proof -
  have act: "act \<in> {''start'', ''stop'', ''restart''}"
    using a by (auto simp: action_op_def split: if_splits)
  obtain row m where la: "life_application sv k s = Inr (row, m)" and en: "ap_enabled row"
    using a act by (auto simp: action_op_def split: if_splits sum.splits prod.splits)
  have R: "reg_ok sv s" using ok service_reg by blast
  have app: "row_get ap_id k (applications (working s)) \<noteq> None" using la by (simp add: life_application_Inr)
  show ?thesis
  proof (cases rule: action_stages [OF a ok act la en])
    case (1 i s1 e)
    then show ?thesis by simp
  next
    case (2 i s1 ex s2 e)
    then show ?thesis by simp
  next
    case (3 i s1 ex s2 t)
    then show ?thesis by simp
  next
    case (4 i s1 ex s2 i1 s4)
    note S = state_record_spec [OF R app 4(1)]
    note N = new_execution_spec [OF S(1) 4(3)]
    have h2: "has_inst i (working s2)" using S(2) has_inst_exec N(4) by metis
    note B = begin_transition_Inr [OF 4(5) N(1) h2]
    have x4: "executions (working s4) = executions (working s) @ [ex]" using B(7) N(2) S(7) by simp
    have new: "ex_id ex \<notin> ex_id ` set (executions (working s))" using N(8) S(7) by simp
    have "in_app i1 = k" using B(3) S(3) by simp
    from run_adapter_spec [OF 4(6) B(1,2) this x4 new N(5,6)]
    have A: "answered sv k act ((working s4)\<lparr>executions := executions (working s)\<rparr>) (working s') r"
      "reg_ok sv s'" "committed s' = working s'"
      "\<exists>res w1. adapter_op (sv_adapter sv m) act w = (Inr res, w1)
        \<and> (if succeeded res
           then \<exists>rs. ad_status (sv_adapter sv m) w1 = (Inr rs, w') \<and> lr_status r = rs_status rs
              \<and> (lr_succeeded r \<longleftrightarrow> rs_status rs \<in> expected_statuses act)
           else w' = w1 \<and> lr_status r = FAILED \<and> \<not> lr_succeeded r)" by blast+
    have aud: "audit_events (working s4) = audit_events (working s)" "applications (working s4) = applications (working s)"
    proof -
      have w2: "audit_events (working s2) = audit_events (working s1)" "applications (working s2) = applications (working s1)"
        by (subst N(4), simp)+
      show "audit_events (working s4) = audit_events (working s)" "applications (working s4) = applications (working s)"
        using B(6,8) S(6,8) w2 by simp_all
    qed
    have "answered sv k act (working s) (committed s') r"
      using A(1) aud by (simp add: answered_def A(3))
    then show ?thesis using act la en A by (auto simp: service_ok_def reg_ok_def store_ok_def)
  qed
qed

section \<open>Refusals\<close>

lemma finish_frame:
  assumes "executions (working s) = xs @ [ex]" "ex_id ex \<notin> ex_id ` set xs" "reg_ok sv s"
  shows "\<exists>ex' ev. finished ex good code ex' \<and> recorded sv ex good ev
    \<and> executions (working (finish_execution sv ex good exit code msg details s)) = xs @ [ex']
    \<and> audit_events (working (finish_execution sv ex good exit code msg details s)) = audit_events (working s) @ [ev]
    \<and> applications (working (finish_execution sv ex good exit code msg details s)) = applications (working s)
    \<and> instances (working (finish_execution sv ex good exit code msg details s)) = instances (working s)
    \<and> committed (finish_execution sv ex good exit code msg details s)
        = working (finish_execution sv ex good exit code msg details s)
    \<and> reg_ok sv (finish_execution sv ex good exit code msg details s)"
  using finish_execution_spec [OF assms refl, where good = good and exit = exit and code = code and msg = msg
      and details = details] by force

definition refused :: "'w service \<Rightarrow> string \<Rightarrow> string \<Rightarrow> string \<Rightarrow> db \<Rightarrow> db \<Rightarrow> bool" where
  "refused sv k act code d d' \<longleftrightarrow>
     (\<exists>ex ex' ev. executions d' = executions d @ [ex'] \<and> finished ex False (Some code) ex'
        \<and> audit_events d' = audit_events d @ [ev] \<and> recorded sv ex False ev \<and> ex_app ex = k \<and> ex_action ex = act)"

lemma latest_state_instances: "instances d = instances d' \<Longrightarrow> latest_state d k = latest_state d' k"
  by (simp add: latest_state_def)

lemma action_refusal_spec:
  assumes a: "action_op sv k act s w = (Inl (LifecycleError code msg det), s', w')" and ok: "service_ok sv s"
  shows "w' = w \<and> applications (committed s') = applications (committed s)
    \<and> (\<forall>i. latest_state (committed s) k = Some i \<longrightarrow> latest_state (committed s') k = Some i)
    \<and> (committed s' = committed s \<or> refused sv k act code (committed s) (committed s'))
    \<and> registry_ok (sv_su sv) (sv_fs sv) (sv_cd sv) (drawn s') (committed s')"
proof -
  have R: "reg_ok sv s" and C: "committed s = working s" using ok service_reg by blast+
  have R0: "registry_ok (sv_su sv) (sv_fs sv) (sv_cd sv) (drawn s) (committed s)" using R C by (simp add: reg_ok_def)
  show ?thesis
  proof (cases "act \<in> {''start'', ''stop'', ''restart''} \<and> (\<exists>row m. life_application sv k s = Inr (row, m) \<and> ap_enabled row)")
    case False
    then have "s' = s \<and> w' = w" using a by (auto simp: action_op_def split: if_splits sum.splits prod.splits)
    then show ?thesis using R0 by simp
  next
    case True
    then obtain row m where act: "act \<in> {''start'', ''stop'', ''restart''}"
        and la: "life_application sv k s = Inr (row, m)" and en: "ap_enabled row" by blast
    have app: "row_get ap_id k (applications (working s)) \<noteq> None" using la by (simp add: life_application_Inr)
    have after: ?thesis
      if sr: "state_record sv k s = (i, s1)" and ex: "new_execution sv k act s1 = (ex, s2)" and w: "w' = w"
        and s': "s' = finish_execution sv ex False None (Some code) emsg details s2" for i s1 ex s2 emsg details
    proof -
      note S = state_record_spec [OF R app sr]
      note N = new_execution_spec [OF S(1) ex]
      have x2: "executions (working s2) = executions (working s) @ [ex]" using N(2) S(7) by simp
      have new: "ex_id ex \<notin> ex_id ` set (executions (working s))" using N(8) S(7) by simp
      obtain ex' ev where F: "finished ex False (Some code) ex'" "recorded sv ex False ev"
        "executions (working s') = executions (working s) @ [ex']"
        "audit_events (working s') = audit_events (working s2) @ [ev]"
        "applications (working s') = applications (working s2)" "instances (working s') = instances (working s2)"
        "committed s' = working s'" "reg_ok sv s'"
        using finish_frame [OF x2 new N(1), of False "Some code" None emsg details] unfolding s' by blast
      have w2: "audit_events (working s2) = audit_events (working s)" "applications (working s2) = applications (working s)"
        "instances (working s2) = instances (working s1)"
        using S(6,8) by (subst N(4), simp)+
      have l: "latest_state (committed s') k = Some i"
        using latest_state_instances [of "working s'" "working s1" k] F(6,7) w2(3) S(5) by simp
      have "refused sv k act code (committed s) (committed s')"
        unfolding refused_def using F N(5,6) w2 by (auto simp: C F(7))
      moreover have "\<forall>j. latest_state (committed s) k = Some j \<longrightarrow> latest_state (committed s') k = Some j"
        using S(9) l by (auto simp: C)
      moreover have "applications (committed s') = applications (committed s)" using F(5,7) w2 C by simp
      ultimately show ?thesis using w F(7,8) by (simp add: reg_ok_def)
    qed
    show ?thesis
    proof (cases rule: action_stages [OF a ok act la en])
      case (1 i s1 e)
      note S = state_record_spec [OF R app 1(1)]
      have "drawn s \<le> drawn s1" using 1(1) by (auto simp: state_record_def Let_def split: option.splits)
      then show ?thesis using 1(4,5) S(4) R0 registry_ok_mono by auto
    next
      case (2 i s1 ex s2 e)
      then obtain emsg details where "s' = finish_execution sv ex False None (Some code) emsg details s2"
        using port_check_Inl [of sv k act m ex s2 w code msg det s'] by auto
      with 2 show ?thesis by (intro after) auto
    next
      case (3 i s1 ex s2 t)
      then show ?thesis by (intro after [of i s1 ex s2 "Some t" "[]"]) auto
    next
      case (4 i s1 ex s2 i1 s4)
      then show ?thesis by (auto simp: run_adapter_def Let_def split: sum.splits prod.splits if_splits)
    qed
  qed
qed

section \<open>Which states let an action through\<close>

definition startable :: "string \<Rightarrow> app_status set" where
  "startable act = (if act = ''start'' then {STOPPED, QUEUED, FAILED, UNKNOWN}
     else if act = ''stop'' then {RUNNING, UNHEALTHY, FAILED, UNKNOWN, STOPPING}
     else {CHECKING, STARTING, RUNNING, UNHEALTHY})"

lemma startable_iff:
  assumes "act \<in> {''start'', ''stop'', ''restart''}"
  shows "st \<in> startable act \<longleftrightarrow> action_guard k act st = None \<and> require_transition st (first_target act) = Inr ()"
  using assms by (cases st) (auto simp: startable_def action_guard_def first_target_def require_transition_def)

lemma port_check_clear:
  assumes "act \<in> {''start'', ''restart''} \<longrightarrow> conflicts (sv_fs sv) (sv_cd sv) (sv_view sv w) (working s) m = Inr []"
  shows "port_check sv k act m ex s w = (Inr (), s)"
  using assms by (auto simp: port_check_def)

lemma managed_observations_cong: "applications d = applications d' \<Longrightarrow> conflicts fs cd hv d m = conflicts fs cd hv d' m"
  by (simp add: conflicts_def system_ports_def)

lemma run_adapter_no_error: "run_adapter sv k act a ex i s w \<noteq> (Inl (LifecycleError c t d), s', w')"
  by (auto simp: run_adapter_def Let_def split: sum.splits prod.splits if_splits)

lemma action_startable:
  assumes ok: "service_ok sv s" and act: "act \<in> {''start'', ''stop'', ''restart''}"
    and la: "life_application sv k s = Inr (row, m)" and en: "ap_enabled row"
    and st: "latest_state (working s) k = Some i"
    and free: "act \<in> {''start'', ''restart''} \<longrightarrow> conflicts (sv_fs sv) (sv_cd sv) (sv_view sv w) (working s) m = Inr []"
  shows "(\<exists>code msg det. fst (action_op sv k act s w) = Inl (LifecycleError code msg det))
    \<longleftrightarrow> in_status i \<notin> startable act"
proof -
  obtain res s' w' where a: "action_op sv k act s w = (res, s', w')" by (cases "action_op sv k act s w")
  have R: "reg_ok sv s" using ok service_reg by blast
  have app: "row_get ap_id k (applications (working s)) \<noteq> None" using la by (simp add: life_application_Inr)
  have sr: "state_record sv k s = (i, s)" using st by (simp add: state_record_def)
  note S = state_record_spec [OF R app sr]
  show ?thesis
  proof (cases rule: action_stages [OF a ok act la en])
    case (1 j s1 e)
    then show ?thesis using sr startable_iff [OF act, of "in_status i" k] action_guard_error [OF 1(2)] a by auto
  next
    case (2 j s1 ex s2 e)
    then have "s1 = s" using sr by simp
    then have "applications (working s2) = applications (working s)"
      using new_execution_spec(4) [OF S(1)] 2(3) by (metis db.select_convs(1) db.surjective db.update_convs(4))
    then have "port_check sv k act m ex s2 w = (Inr (), s2)"
      using free managed_observations_cong by (intro port_check_clear) metis
    with 2 show ?thesis by simp
  next
    case (3 j s1 ex s2 t)
    then have j: "j = i" "s1 = s" using sr by auto
    note N = new_execution_spec [OF S(1)] 
    have N1: "reg_ok sv s2" "has_inst i (working s2)"
      using new_execution_spec(1,4) [OF S(1) 3(3) [unfolded j]] S(2) has_inst_exec by metis+
    have "require_transition (in_status i) (first_target act) = Inl (InvalidStateTransition t)"
      using begin_transition_Inl [OF 3(5) [unfolded j] reg_distinct [OF N1(1)] N1(2)] by blast
    then show ?thesis using startable_iff [OF act, of "in_status i" k] a 3 by simp
  next
    case (4 j s1 ex s2 i1 s4)
    then have j: "j = i" "s1 = s" using sr by auto
    have N1: "reg_ok sv s2" "has_inst i (working s2)"
      using new_execution_spec(1,4) [OF S(1) 4(3) [unfolded j]] S(2) has_inst_exec by metis+
    have "require_transition (in_status i) (first_target act) = Inr ()"
      using begin_transition_Inr(9) [OF 4(5) [unfolded j] N1] by blast
    moreover have "\<nexists>c t d. res = Inl (LifecycleError c t d)" using 4(6) run_adapter_no_error by metis
    ultimately show ?thesis using startable_iff [OF act, of "in_status i" k] 4(2) j a by auto
  qed
qed

section \<open>A sample service\<close>

definition calm_adapter :: "app_status \<Rightarrow> unit adapter" where
  "calm_adapter st =
     \<lparr>ad_start = (\<lambda>w. (Inr cmd_ok, w)), ad_stop = (\<lambda>w. (Inr cmd_ok, w)), ad_restart = (\<lambda>w. (Inr cmd_ok, w)),
      ad_status = (\<lambda>w. (Inr \<lparr>rs_status = st, rs_identifier = ''demo'', rs_metadata = JObj [], rs_error = None\<rparr>, w)),
      ad_logs = (\<lambda>n w. (Inr [], w))\<rparr>"

definition sample_service :: "unit service" where
  "sample_service = \<lparr>sv_su = sample_sources, sv_st = sample_settings, sv_fs = plain_fs, sv_cd = sample_codec,
     sv_caller = sample_caller, sv_adapter = (\<lambda>_. calm_adapter RUNNING), sv_view = (\<lambda>_. sample_view [])\<rparr>"

lemma sample_service_ok [simp]:
  "service_ok sample_service sample_store" "service_ok sample_service running_store"
  by (simp_all add: service_ok_def sample_service_def)

lemma sample_app: "\<exists>row m. life_application sample_service ''demo'' sample_store = Inr (row, m) \<and> ap_enabled row"
proof -
  have "(case life_application sample_service ''demo'' sample_store of Inr (row, _) \<Rightarrow> ap_enabled row | _ \<Rightarrow> False)"
    by code_simp
  then show ?thesis by (auto split: sum.splits)
qed

lemma sample_state: "\<exists>i. latest_state (working sample_store) ''demo'' = Some i \<and> in_status i = STOPPED"
proof -
  have "(case latest_state (working sample_store) ''demo'' of Some i \<Rightarrow> in_status i = STOPPED | None \<Rightarrow> False)"
    by code_simp
  then show ?thesis by (auto split: option.splits)
qed

lemma sample_free: "conflicts plain_fs sample_codec (sample_view []) (working sample_store) m = Inr []"
proof -
  have "system_ports plain_fs sample_codec (sample_view []) (working sample_store) = Inr []" by code_simp
  then show ?thesis by (simp add: conflicts_def)
qed

lemma calm_run: "is_ok (fst (run_adapter sv k act (calm_adapter st) ex i s w))"
  by (auto simp: run_adapter_def adapter_op_def calm_adapter_def cmd_ok_def Let_def split: prod.splits)

lemma sample_starts: "is_ok (fst (action_op sample_service ''demo'' ''start'' sample_store ()))"
proof -
  obtain row m where la: "life_application sample_service ''demo'' sample_store = Inr (row, m)" and en: "ap_enabled row"
    using sample_app by blast
  obtain i where i: "latest_state (working sample_store) ''demo'' = Some i" "in_status i = STOPPED"
    using sample_state by blast
  obtain res s' w' where a: "action_op sample_service ''demo'' ''start'' sample_store () = (res, s', w')"
    by (cases "action_op sample_service ''demo'' ''start'' sample_store ()")
  have act: "''start'' \<in> {''start'', ''stop'', ''restart''}" by simp
  have free: "''start'' \<in> {''start'', ''restart''} \<longrightarrow> conflicts (sv_fs sample_service) (sv_cd sample_service)
      (sv_view sample_service ()) (working sample_store) m = Inr []"
    using sample_free by (simp add: sample_service_def)
  have ne: "\<not> (\<exists>code msg det. res = Inl (LifecycleError code msg det))"
    using action_startable [OF sample_service_ok(1) act la en i(1) free] a i(2) by (simp add: startable_def)
  show ?thesis
  proof (cases rule: action_stages [OF a sample_service_ok(1) act la en])
    case (1 j s1 e)
    then show ?thesis using ne action_guard_error by blast
  next
    case (2 j s1 ex s2 e)
    have "s1 = sample_store" using 2(1) i(1) by (simp add: state_record_def)
    then have "applications (working s2) = applications (working sample_store)"
      using 2(3) by (auto simp: new_execution_def Let_def)
    then have "port_check sample_service ''demo'' ''start'' m ex s2 () = (Inr (), s2)"
      using free managed_observations_cong by (intro port_check_clear) metis
    with 2 show ?thesis by simp
  next
    case (3 j s1 ex s2 t)
    then show ?thesis using ne by blast
  next
    case (4 j s1 ex s2 i1 s4)
    have "sv_adapter sample_service m = calm_adapter RUNNING" by (simp add: sample_service_def)
    then show ?thesis using 4(6) calm_run a by (metis fst_conv)
  qed
qed

section \<open>Properties\<close>

text \<open>
  Property C6. Every response of a lifecycle action is true and accounted for. The committed
  database has exactly one execution more, finished with the result and error code of the
  response, and exactly one audit event more, naming the actor, the action and the result; the
  application's newest state has the status of the response. The action succeeded exactly when the
  adapter did and the status it then reported is one the action aims at.
\<close>

theorem action_accounted:
  assumes "service_ok sv s" "action_op sv k act s w = (Inr r, s', w')"
  shows "(\<exists>ex ex' ev i. executions (committed s') = executions (committed s) @ [ex']
        \<and> ex_id ex = lr_exec r \<and> ex_app ex = k \<and> ex_action ex = act
        \<and> finished ex (lr_succeeded r) (lr_error_code r) ex'
        \<and> audit_events (committed s') = audit_events (committed s) @ [ev] \<and> recorded sv ex (lr_succeeded r) ev
        \<and> latest_state (committed s') k = Some i \<and> in_status i = lr_status r)
    \<and> applications (committed s') = applications (committed s) \<and> service_ok sv s'
    \<and> (\<exists>m res w1. adapter_op (sv_adapter sv m) act w = (Inr res, w1)
        \<and> (lr_succeeded r \<longleftrightarrow> succeeded res \<and> lr_status r \<in> expected_statuses act)
        \<and> (if succeeded res then \<exists>rs. ad_status (sv_adapter sv m) w1 = (Inr rs, w') \<and> lr_status r = rs_status rs
           else w' = w1 \<and> lr_status r = FAILED))"
proof -
  have C: "committed s = working s" using assms(1) service_reg by blast
  note S = action_response_spec [OF assms(2,1)]
  then have "\<exists>m res w1. adapter_op (sv_adapter sv m) act w = (Inr res, w1)
        \<and> (lr_succeeded r \<longleftrightarrow> succeeded res \<and> lr_status r \<in> expected_statuses act)
        \<and> (if succeeded res then \<exists>rs. ad_status (sv_adapter sv m) w1 = (Inr rs, w') \<and> lr_status r = rs_status rs
           else w' = w1 \<and> lr_status r = FAILED)"
    by (auto split: if_splits) metis+
  then show ?thesis using S unfolding answered_def C by blast
qed

theorem action_accounted_witness:
  "\<exists>r s' w'. action_op sample_service ''demo'' ''start'' sample_store () = (Inr r, s', w')
    \<and> applications (committed s') = applications (committed sample_store)
    \<and> (\<exists>ex'. executions (committed s') = executions (committed sample_store) @ [ex'])"
proof -
  obtain r s' w' where a: "action_op sample_service ''demo'' ''start'' sample_store () = (Inr r, s', w')"
    using sample_starts by (cases "action_op sample_service ''demo'' ''start'' sample_store ()") (auto simp: is_ok_iff)
  from action_accounted [OF sample_service_ok(1) a] a show ?thesis by blast
qed

text \<open>
  Property C11. A lifecycle error means the action did not happen: the adapter was never called,
  the registry and the application's state are as before, and the database is either untouched
  or has one more execution, FAILED with the error's code, and the one audit event that records it.
\<close>

theorem refused_action_inert:
  assumes "service_ok sv s" "action_op sv k act s w = (Inl (LifecycleError code msg det), s', w')"
  shows "w' = w \<and> applications (committed s') = applications (committed s)
    \<and> (\<forall>i. latest_state (committed s) k = Some i \<longrightarrow> latest_state (committed s') k = Some i)
    \<and> (committed s' = committed s
       \<or> (\<exists>ex ex' ev. executions (committed s') = executions (committed s) @ [ex'] \<and> finished ex False (Some code) ex'
            \<and> audit_events (committed s') = audit_events (committed s) @ [ev] \<and> recorded sv ex False ev
            \<and> ex_app ex = k \<and> ex_action ex = act))
    \<and> registry_ok (sv_su sv) (sv_fs sv) (sv_cd sv) (drawn s') (committed s')"
  using action_refusal_spec [OF assms(2,1)] unfolding refused_def by blast

theorem refused_action_inert_witness:
  "\<exists>code msg det s' w'. action_op sample_service ''demo'' ''start'' running_store ()
      = (Inl (LifecycleError code msg det), s', w')
    \<and> applications (committed s') = applications (committed running_store)"
proof -
  have "(case fst (action_op sample_service ''demo'' ''start'' running_store ()) of
      Inl (LifecycleError _ _ _) \<Rightarrow> True | _ \<Rightarrow> False)" by code_simp
  then obtain code msg det s' w' where a: "action_op sample_service ''demo'' ''start'' running_store ()
      = (Inl (LifecycleError code msg det), s', w')"
    by (cases "action_op sample_service ''demo'' ''start'' running_store ()")
      (auto split: sum.splits life_exn.splits)
  from refused_action_inert [OF sample_service_ok(2) a] a show ?thesis by blast
qed

text \<open>
  For an enabled application with a valid configuration and no port in the way, the
  recorded status alone decides whether an action is let through to the adapter: start from
  STOPPED, QUEUED, FAILED or UNKNOWN; stop from RUNNING, UNHEALTHY, FAILED, UNKNOWN or STOPPING;
  restart from CHECKING, STARTING, RUNNING or UNHEALTHY. So no action runs twice at once: a
  starting or running application is never started again.
\<close>

theorem action_gate:
  assumes "service_ok sv s" "act \<in> {''start'', ''stop'', ''restart''}"
    and "life_application sv k s = Inr (row, m)" "ap_enabled row" "latest_state (working s) k = Some i"
    and "act \<in> {''start'', ''restart''} \<longrightarrow> conflicts (sv_fs sv) (sv_cd sv) (sv_view sv w) (working s) m = Inr []"
  shows "(\<exists>code msg det. fst (action_op sv k act s w) = Inl (LifecycleError code msg det)) \<longleftrightarrow>
    in_status i \<notin> (if act = ''start'' then {STOPPED, QUEUED, FAILED, UNKNOWN}
      else if act = ''stop'' then {RUNNING, UNHEALTHY, FAILED, UNKNOWN, STOPPING}
      else {CHECKING, STARTING, RUNNING, UNHEALTHY})"
  using action_startable [OF assms] unfolding startable_def .

section \<open>Every outcome keeps the database in order\<close>

definition kept :: "'w service \<Rightarrow> store \<Rightarrow> bool" where
  "kept sv s \<longleftrightarrow> registry_ok (sv_su sv) (sv_fs sv) (sv_cd sv) (drawn s) (committed s)"

lemma kept_rollback: "kept sv s \<Longrightarrow> service_ok sv (rollback s)"
  by (simp add: kept_def service_ok_def store_ok_def)

lemma service_kept: "service_ok sv s \<Longrightarrow> kept sv s"
  by (simp add: kept_def service_ok_def store_ok_def)

lemma reg_kept: "reg_ok sv s \<Longrightarrow> committed s = working s \<Longrightarrow> kept sv s"
  by (simp add: kept_def reg_ok_def)

lemma kept_mono: "kept sv s \<Longrightarrow> committed s' = committed s \<Longrightarrow> drawn s \<le> drawn s' \<Longrightarrow> kept sv s'"
  using registry_ok_mono by (simp add: kept_def)

lemma run_adapter_uncaught:
  assumes "run_adapter sv k act a ex i s w = (Inl e, s', w')"
  shows "s' = s \<and> (\<exists>t. e = Uncaught t)"
  using assms by (auto simp: run_adapter_def Let_def split: sum.splits prod.splits if_splits)

lemma state_record_drawn: "state_record sv k s = (i, s1) \<Longrightarrow> drawn s \<le> drawn s1"
  by (auto simp: state_record_def Let_def split: option.splits)

lemma action_kept:
  assumes a: "action_op sv k act s w = (res, s', w')" and ok: "service_ok sv s"
  shows "kept sv s'"
proof (cases res)
  case (Inr r)
  from action_response_spec [OF a [unfolded Inr] ok] have "service_ok sv s'" by simp
  then show ?thesis by (rule service_kept)
next
  case (Inl e)
  show ?thesis
  proof (cases e)
    case (LifecycleError code msg det)
    then show ?thesis using action_refusal_spec [of sv k act s w code msg det s' w'] a ok Inl by (simp add: kept_def)
  next
    case (Uncaught t)
    have R: "reg_ok sv s" using ok service_reg by blast
    show ?thesis
    proof (cases "act \<in> {''start'', ''stop'', ''restart''} \<and> (\<exists>row m. life_application sv k s = Inr (row, m) \<and> ap_enabled row)")
      case False
      then have "s' = s" using a by (auto simp: action_op_def split: if_splits sum.splits prod.splits)
      then show ?thesis using service_kept [OF ok] by simp
    next
      case True
      then obtain row m where act: "act \<in> {''start'', ''stop'', ''restart''}"
        and la: "life_application sv k s = Inr (row, m)" and en: "ap_enabled row" by blast
      have app: "row_get ap_id k (applications (working s)) \<noteq> None" using la by (simp add: life_application_Inr)
      show ?thesis
      proof (cases rule: action_stages [OF a ok act la en])
        case (1 i s1 e)
        then show ?thesis using Inl Uncaught action_guard_error by blast
      next
        case (2 i s1 ex s2 e')
        then have "s' = s2" using Inl Uncaught
          by (auto simp: port_check_def split: if_splits sum.splits list.splits disc_exn.splits)
        then show ?thesis
          using new_execution_spec(1,3) [OF state_record_spec(1) [OF R app 2(1)] 2(3)] reg_kept by metis
      next
        case (3 i s1 ex s2 t)
        then show ?thesis using Inl Uncaught by simp
      next
        case (4 i s1 ex s2 i1 s4)
        note S = state_record_spec [OF R app 4(1)]
        note N = new_execution_spec [OF S(1) 4(3)]
        have "has_inst i (working s2)" using S(2) has_inst_exec N(4) by metis
        from begin_transition_Inr(1,4) [OF 4(5) N(1) this] have "kept sv s4" by (rule reg_kept)
        moreover have "s' = s4" using run_adapter_uncaught [OF 4(6) [unfolded Inl]] by simp
        ultimately show ?thesis by simp
      qed
    qed
  qed
qed

lemma status_kept:
  assumes e: "status_op sv k s w = (res, s', w')" and ok: "service_ok sv s"
  shows "kept sv s'"
proof -
  have R: "reg_ok sv s" using ok service_reg by blast
  show ?thesis
  proof (cases "life_application sv k s")
    case (Inl x)
    then show ?thesis using e service_kept [OF ok] by (auto simp: status_op_def)
  next
    case (Inr rm)
    obtain r m where rm: "rm = (r, m)" by (cases rm)
    have app: "row_get ap_id k (applications (working s)) \<noteq> None" using Inr by (simp add: rm life_application_Inr)
    obtain i s1 where sr: "state_record sv k s = (i, s1)" by fastforce
    note S = state_record_spec [OF R app sr]
    note D = reg_distinct [OF S(1)]
    have k: "kept sv s2" if "saved j s1 i2 s2" "has_inst j (working s1)" for j i2 s2
      using saved_reg(1) [OF S(1) that(2,1)] that(1) by (intro reg_kept) (auto simp: saved_def)
    show ?thesis
    proof (cases "ap_enabled r")
      case False
      obtain i2 s2 where sv: "save_state sv (i\<lparr>in_status := DISABLED\<rparr>) s1 = (i2, s2)" by fastforce
      have h: "has_inst (i\<lparr>in_status := DISABLED\<rparr>) (working s1)" using S(2) by (simp add: has_inst_def)
      have "s' = s2" using e Inr rm sr False sv by (auto simp: status_op_def)
      then show ?thesis using k [OF save_state_saved [OF D h sv] h] by simp
    next
      case True
      obtain ar w1 where st: "ad_status (sv_adapter sv m) w = (ar, w1)" by fastforce
      show ?thesis
      proof (cases ar)
        case (Inl x)
        then have "s' = s1" using e Inr rm sr True st by (auto simp: status_op_def)
        then show ?thesis using kept_mono [OF service_kept [OF ok]] S(4) state_record_drawn [OF sr] by simp
      next
        case rs: (Inr rs)
        obtain i2 s2 where ap: "apply_runtime_state sv i rs s1 = (i2, s2)" by fastforce
        have h: "has_inst (i\<lparr>in_status := rs_status rs\<rparr>) (working s1)" using S(2) by (simp add: has_inst_def)
        have "s' = s2" using e Inr rm sr True st rs ap by (auto simp: status_op_def)
        then show ?thesis using k [OF apply_runtime_saved [OF D S(2) ap] h] by simp
      qed
    qed
  qed
qed

section \<open>The reachable states of the server\<close>

text \<open>Requests run one after the other, each in a session of its own, from an empty database.\<close>

inductive served :: "'w service \<Rightarrow> store \<Rightarrow> 'w \<Rightarrow> bool" for sv where
  fresh_start: "served sv empty_store w"
| registry: "served sv s w \<Longrightarrow> op_storable (sv_fs sv) (sv_cd sv) op \<Longrightarrow>
    served sv (rollback (run_registry (sv_su sv) (sv_fs sv) (sv_cd sv) op s)) w"
| act: "served sv s w \<Longrightarrow> action_op sv k a s w = (res, s', w') \<Longrightarrow> served sv (rollback s') w'"
| poll: "served sv s w \<Longrightarrow> status_op sv k s w = (res, s', w') \<Longrightarrow> served sv (rollback s') w'"
| elsewhere: "served sv s w \<Longrightarrow> served sv s w'"

inductive_cases servedE: "served sv s w"

lemma empty_service_ok: "inj (fresh (sv_su sv)) \<Longrightarrow> service_ok sv empty_store"
  by (simp add: service_ok_def store_ok_def registry_ok_def empty_store_def) (simp add: empty_db_def)

text \<open>
  Whatever requests the server has answered, including those that ended in an
  exception, and whatever the host did in between, application ids and execution ids are unique,
  every application has at most one state row, every state row belongs to a registered
  application, and every stored manifest still validates and agrees with its row.
\<close>

theorem served_integrity:
  assumes "served sv s w" "inj (fresh (sv_su sv))"
  shows "committed s = working s
    \<and> distinct (map ap_id (applications (committed s))) \<and> distinct (map in_app (instances (committed s)))
    \<and> distinct (map ex_id (executions (committed s)))
    \<and> in_app ` set (instances (committed s)) \<subseteq> ap_id ` set (applications (committed s))
    \<and> (\<forall>r\<in>set (applications (committed s)). \<exists>m. decode (sv_fs sv) (sv_cd sv) (ap_config r) = Some m
        \<and> man_id m = ap_id r \<and> man_name m = ap_name r \<and> man_enabled m = ap_enabled r)"
proof -
  have "service_ok sv s" using assms
  proof (induction rule: served.induct)
    case (fresh_start w)
    then show ?case by (rule empty_service_ok)
  next
    case (registry s w op)
    then have "store_ok (sv_su sv) (sv_fs sv) (sv_cd sv) (run_registry (sv_su sv) (sv_fs sv) (sv_cd sv) op s)"
      by (intro reg.run_inv) (simp_all add: service_ok_def)
    then show ?case by (simp add: service_ok_def store_ok_def)
  next
    case (act s w k a res s' w')
    show ?case by (rule kept_rollback [OF action_kept [OF act.hyps(2) act.IH [OF act.prems]]])
  next
    case (poll s w k res s' w')
    show ?case by (rule kept_rollback [OF status_kept [OF poll.hyps(2) poll.IH [OF poll.prems]]])
  next
    case (elsewhere s w w')
    then show ?case by simp
  qed
  then show ?thesis
    by (fastforce simp: service_ok_def store_ok_def registry_ok_def db_wf_def row_ok_def split: option.splits)
qed

theorem served_integrity_witness:
  "distinct (map in_app (instances (committed (rollback sample_store))))"
proof -
  have "served sample_service (rollback (run_registry (sv_su sample_service) (sv_fs sample_service)
      (sv_cd sample_service) (OpCreate sample_caller False sample_manifest) empty_store)) ()"
    by (intro served.registry served.fresh_start) (simp add: sample_service_def)
  then have "served sample_service (rollback sample_store) ()"
    by (simp add: sample_store_def sample_service_def)
  from served_integrity [OF this] show ?thesis by (simp add: sample_service_def)
qed

section \<open>Two gaps\<close>

lemma update_instances:
  "instances (working (run_registry su fs cd (OpUpdate c j m) s)) = instances (working s)"
  by (simp add: update_application_def Let_def split: option.splits sum.splits)

lemma disabled_refused:
  assumes ok: "service_ok sv s" and st: "latest_state (working s) k = Some i" "in_status i = DISABLED"
  shows "\<not> is_ok (fst (action_op sv k act s w))"
proof -
  obtain res s' w' where a: "action_op sv k act s w = (res, s', w')" by (cases "action_op sv k act s w")
  show ?thesis
  proof (cases "act \<in> {''start'', ''stop'', ''restart''} \<and> (\<exists>row m. life_application sv k s = Inr (row, m) \<and> ap_enabled row)")
    case False
    then show ?thesis by (auto simp: action_op_def split: sum.splits prod.splits)
  next
    case True
    then obtain row m where act: "act \<in> {''start'', ''stop'', ''restart''}"
      and la: "life_application sv k s = Inr (row, m)" and en: "ap_enabled row" by blast
    have R: "reg_ok sv s" using ok service_reg by blast
    have app: "row_get ap_id k (applications (working s)) \<noteq> None" using la by (simp add: life_application_Inr)
    have sr: "state_record sv k s = (i, s)" using st by (simp add: state_record_def)
    note S = state_record_spec [OF R app sr]
    show ?thesis
    proof (cases rule: action_stages [OF a ok act la en])
      case (4 j s1 ex s2 i1 s4)
      then have j: "j = i" "s1 = s" using sr by auto
      have N1: "reg_ok sv s2" "has_inst i (working s2)"
        using new_execution_spec(1,4) [OF S(1) 4(3) [unfolded j]] S(2) has_inst_exec by metis+
      have "DISABLED \<in> startable act"
        using begin_transition_Inr(9) [OF 4(5) [unfolded j] N1] 4(2) st(2) j
        by (simp add: startable_iff [OF act, of DISABLED k])
      then show ?thesis by (simp add: startable_def split: if_splits)
    qed (simp_all add: a)
  qed
qed

text \<open>
  Updating an application to an enabled manifest does not revive its state: while
  its newest state row says DISABLED no start, stop or restart of it is carried out, whatever the
  new manifest says.
\<close>

theorem reenabled_stays_refused:
  assumes "service_ok sv s" "storable (sv_fs sv) (sv_cd sv) m"
    and "latest_state (working s) k = Some i" "in_status i = DISABLED"
  shows "\<not> is_ok (fst (action_op sv k act (run_registry (sv_su sv) (sv_fs sv) (sv_cd sv) (OpUpdate c k m) s) w))"
proof (rule disabled_refused)
  show "service_ok sv (run_registry (sv_su sv) (sv_fs sv) (sv_cd sv) (OpUpdate c k m) s)"
    using assms(1,2) unfolding service_ok_def by (intro conjI reg.run_inv) simp_all
  show "latest_state (working (run_registry (sv_su sv) (sv_fs sv) (sv_cd sv) (OpUpdate c k m) s)) k = Some i"
    using assms(3) latest_state_instances [OF update_instances] by metis
qed (rule assms(4))

text \<open>
  Property C32. An exception of the adapter or of port discovery that the service does not expect
  leaves no account of the action: at most an execution that stays RUNNING is added, and no audit
  event at all.
\<close>

theorem unexpected_exception_unaccounted:
  assumes "service_ok sv s" "action_op sv k act s w = (Inl (Uncaught t), s', w')"
  shows "audit_events (committed s') = audit_events (committed s)
    \<and> (\<exists>ex. executions (committed s') = executions (committed s) @ [ex]
         \<and> ex_app ex = k \<and> ex_action ex = act \<and> ex_status ex = EX_RUNNING \<and> ex_finished ex = None)"
proof -
  note ok = assms(1) and a = assms(2)
  have R: "reg_ok sv s" and C: "committed s = working s" using ok service_reg by blast+
  have rows: "decode (sv_fs sv) (sv_cd sv) (ap_config r) \<noteq> None" if "row_get ap_id k (applications (working s)) = Some r" for r
    using registry_ok_row [OF R [unfolded reg_ok_def] conjunct1 [OF row_get_Some [OF that]]] by (auto simp: row_ok_def split: option.splits)
  have "act \<in> {''start'', ''stop'', ''restart''} \<and> (\<exists>row m. life_application sv k s = Inr (row, m) \<and> ap_enabled row)"
    using a rows by (auto simp: action_op_def life_application_def Let_def split: if_splits sum.splits prod.splits option.splits)
  then obtain row m where act: "act \<in> {''start'', ''stop'', ''restart''}"
    and la: "life_application sv k s = Inr (row, m)" and en: "ap_enabled row" by blast
  have app: "row_get ap_id k (applications (working s)) \<noteq> None" using la by (simp add: life_application_Inr)
  have created: ?thesis if sr: "state_record sv k s = (i, s1)" and nx: "new_execution sv k act s1 = (ex, s2)"
    and rest: "executions (committed s') = executions (working s2)" "audit_events (committed s') = audit_events (working s2)"
    for i s1 ex s2
  proof -
    note S = state_record_spec [OF R app sr]
    note N = new_execution_spec [OF S(1) nx]
    have "audit_events (working s2) = audit_events (working s1)" by (subst N(4)) simp
    moreover have "audit_events (working s1) = audit_events (working s)" "executions (working s1) = executions (working s)"
      using sr by (auto simp: state_record_def Let_def split: option.splits)
    moreover have "ex_finished ex = None" using nx by (auto simp: new_execution_def Let_def)
    ultimately show ?thesis using N(2,5-7) rest C by auto
  qed
  show ?thesis
  proof (cases rule: action_stages [OF a ok act la en])
    case (1 i s1 e)
    then show ?thesis using action_guard_error by blast
  next
    case (2 i s1 ex s2 e')
    then have "s' = s2"
      by (auto simp: port_check_def split: if_splits sum.splits list.splits disc_exn.splits)
    moreover have "committed s2 = working s2" using 2(3) by (auto simp: new_execution_def Let_def)
    ultimately show ?thesis using created [OF 2(1,3)] by simp
  next
    case (3 i s1 ex s2 t)
    then show ?thesis by simp
  next
    case (4 i s1 ex s2 i1 s4)
    note S = state_record_spec [OF R app 4(1)]
    note N = new_execution_spec [OF S(1) 4(3)]
    have "has_inst i (working s2)" using S(2) has_inst_exec N(4) by metis
    note B = begin_transition_Inr [OF 4(5) N(1) this]
    have "s' = s4" using run_adapter_uncaught [OF 4(6)] by simp
    then show ?thesis using created [OF 4(1,3)] B(4,7,8) by simp
  qed
qed

theorem unexpected_exception_unaccounted_witness:
  "\<exists>s' w'. action_op (sample_service\<lparr>sv_adapter := (\<lambda>_. (calm_adapter RUNNING)\<lparr>ad_stop := (\<lambda>w. (Inl (OtherErr ''no pipe''), w))\<rparr>)\<rparr>)
      ''demo'' ''stop'' running_store () = (Inl (Uncaught ''no pipe''), s', w')
    \<and> audit_events (committed s') = audit_events (committed running_store)"
proof -
  let ?sv = "sample_service\<lparr>sv_adapter := (\<lambda>_. (calm_adapter RUNNING)\<lparr>ad_stop := (\<lambda>w. (Inl (OtherErr ''no pipe''), w))\<rparr>)\<rparr>"
  have "fst (action_op ?sv ''demo'' ''stop'' running_store ()) = Inl (Uncaught ''no pipe'')" by code_simp
  then obtain s' w' where a: "action_op ?sv ''demo'' ''stop'' running_store () = (Inl (Uncaught ''no pipe''), s', w')"
    by (cases "action_op ?sv ''demo'' ''stop'' running_store ()") simp
  have "service_ok ?sv running_store" using sample_service_ok(2) by (simp add: service_ok_def)
  from unexpected_exception_unaccounted [OF this a] a show ?thesis by blast
qed

end
