(* ===== verification/Collectors.thy ===== *)
theory Collectors
  imports Complex_Main Registry "HOL-Library.AList" "HOL-Library.Sublist"
begin

text \<open>
  \<open>dashboard/collectors.py\<close>, \<open>dashboard/ownership.py\<close> and the data of \<open>schemas/dashboard.py\<close>: what a
  dashboard snapshot is made of. The libraries that measure the host (psutil, NVML) are parameters:
  a call is a value or a raised exception. A float is a rational number here, so the rounding of
  the mean and of the division by 1000 is not modelled.
\<close>

section \<open>Exceptions\<close>

text \<open>An exception is the family an \<open>except\<close> clause names and the name of its class.\<close>

datatype family = FamOS | FamRuntime | FamPsutil | FamOther

datatype py_error = PyError (pe_family: family) (pe_name: string)

definition measured_errors :: "family list" where
  "measured_errors = [FamOS, FamRuntime, FamPsutil]"

definition error_code :: "py_error \<Rightarrow> string" where
  "error_code e = py_upper (pe_name e)"

definition validation_error :: py_error where
  "validation_error = PyError FamOther ''ValidationError''"

definition checked :: "bool \<Rightarrow> 'a \<Rightarrow> py_error + 'a" where
  "checked ok x = (if ok then Inr x else Inl validation_error)"

section \<open>Data\<close>

datatype freshness = LIVE | STALE | OFFLINE

record collector_state =
  cs_available :: bool
  cs_code :: "string option"
  cs_message :: "string option"

record disk_metrics =
  dm_mount :: string
  dm_filesystem :: "string option"
  dm_total :: "int option"
  dm_used :: "int option"
  dm_free :: "int option"
  dm_percent :: "rat option"
  dm_available :: bool
  dm_error :: "string option"

record host_metrics =
  hm_cpu :: "rat option"
  hm_cores :: "rat list"
  hm_load :: "(rat \<times> rat \<times> rat) option"
  hm_memory :: "(int \<times> int \<times> int \<times> rat) option"
  hm_swap :: "(int \<times> int \<times> rat) option"
  hm_disks :: "disk_metrics list"
  hm_uptime :: "rat option"

record gpu_process =
  gp_pid :: int
  gp_vram :: "int option"
  gp_name :: "string option"
  gp_app :: "string option"
  gp_managed :: bool

record gpu_metrics =
  gm_index :: int
  gm_uuid :: string
  gm_name :: string
  gm_utilization :: "rat option"
  gm_total :: int
  gm_used :: int
  gm_free :: int
  gm_temperature :: "rat option"
  gm_power :: "rat option"
  gm_power_limit :: "rat option"
  gm_fan :: "rat option"
  gm_count :: int
  gm_processes :: "gpu_process list"
  gm_available :: bool
  gm_error :: "string option"

record app_summary =
  as_total :: nat
  as_running :: nat
  as_stopped :: nat
  as_starting :: nat
  as_stopping :: nat
  as_unhealthy :: nat
  as_failed :: nat
  as_queued :: nat
  as_unknown :: nat
  as_disabled :: nat

record snapshot =
  sn_collected :: int
  sn_duration :: rat
  sn_freshness :: freshness
  sn_host :: host_metrics
  sn_gpus :: "gpu_metrics list"
  sn_apps :: app_summary
  sn_collectors :: "(string \<times> collector_state) list"

definition available :: collector_state where
  "available = \<lparr>cs_available = True, cs_code = None, cs_message = None\<rparr>"

definition unavailable :: "string \<Rightarrow> string option \<Rightarrow> collector_state" where
  "unavailable code m = \<lparr>cs_available = False, cs_code = Some code, cs_message = m\<rparr>"

definition percentage :: "rat \<Rightarrow> bool" where
  "percentage v \<longleftrightarrow> 0 \<le> v \<and> v \<le> 100"

definition optional :: "('a \<Rightarrow> bool) \<Rightarrow> 'a option \<Rightarrow> bool" where
  "optional P v = (case v of None \<Rightarrow> True | Some x \<Rightarrow> P x)"

section \<open>Disks\<close>

text \<open>\<open>hp_usage\<close> is total, used, free and percent; times are in seconds.\<close>

record host_probe =
  hp_abspath :: "string \<Rightarrow> string"
  hp_partitions :: "py_error + (string \<times> string) list"
  hp_exists :: "string \<Rightarrow> py_error + bool"
  hp_usage :: "string \<Rightarrow> py_error + int \<times> int \<times> int \<times> rat"
  hp_cores :: "py_error + rat list"
  hp_memory :: "py_error + int \<times> int \<times> int \<times> rat"
  hp_swap :: "py_error + int \<times> int \<times> rat"
  hp_load :: "py_error + rat \<times> rat \<times> rat"
  hp_boot :: "py_error + rat"
  hp_now :: rat

definition components :: "string \<Rightarrow> string list" where
  "components p = filter (\<lambda>c. c \<noteq> [] \<and> c \<noteq> ''.'') (split_on (CHR ''/'') p)"

text \<open>\<open>os.path.commonpath\<close> of two absolute paths.\<close>

definition common_path :: "string \<Rightarrow> string \<Rightarrow> string" where
  "common_path a b = ''/'' @ join_with ''/'' (longest_common_prefix (components a) (components b))"

text \<open>\<open>max\<close> of pairs: the longer mount point, then the greater name; the first of equal ones.\<close>

fun best_match :: "(nat \<times> string) \<Rightarrow> (nat \<times> string) list \<Rightarrow> nat \<times> string" where
  "best_match b [] = b"
| "best_match b (x # xs) = best_match (if fst b < fst x \<or> (fst b = fst x \<and> snd b < snd x) then x else b) xs"

definition filesystem :: "host_probe \<Rightarrow> string \<Rightarrow> py_error + string option" where
  "filesystem hp path =
     (case hp_partitions hp of
        Inl e \<Rightarrow> if pe_family e \<in> set measured_errors then Inr None else Inl e
      | Inr ps \<Rightarrow>
          let configured = hp_abspath hp path;
              matches = List.map_filter (\<lambda>(mount, fstype). let m = hp_abspath hp mount
                in if startswith ''/'' configured = startswith ''/'' m \<and> common_path configured m = m
                   then Some (length m, fstype) else None) ps
          in Inr (case matches of [] \<Rightarrow> None | m # ms \<Rightarrow> Some (snd (best_match m ms))))"

definition make_disk :: "disk_metrics \<Rightarrow> py_error + disk_metrics" where
  "make_disk d = checked (list_all (optional (\<lambda>n. 0 \<le> n)) [dm_total d, dm_used d, dm_free d] \<and> optional percentage (dm_percent d)) d"

definition missing_disk :: "string \<Rightarrow> disk_metrics" where
  "missing_disk path = \<lparr>dm_mount = path, dm_filesystem = None, dm_total = None, dm_used = None, dm_free = None, dm_percent = None,
     dm_available = False, dm_error = Some ''Configured path is unavailable''\<rparr>"

definition measured_disk :: "host_probe \<Rightarrow> string \<Rightarrow> py_error + disk_metrics" where
  "measured_disk hp path =
     res_bind (hp_exists hp path) (\<lambda>there.
     if \<not> there then Inl (PyError FamOS ''FileNotFoundError'')
     else res_bind (hp_usage hp path) (\<lambda>(total, used, free, percent).
       res_bind (filesystem hp path) (\<lambda>fstype.
         make_disk \<lparr>dm_mount = path, dm_filesystem = fstype, dm_total = Some total, dm_used = Some used, dm_free = Some free,
           dm_percent = Some percent, dm_available = True, dm_error = None\<rparr>)))"

definition disk_entry :: "host_probe \<Rightarrow> string \<Rightarrow> py_error + disk_metrics" where
  "disk_entry hp path = (case measured_disk hp path of
     Inr d \<Rightarrow> Inr d
   | Inl e \<Rightarrow> if pe_family e \<in> set measured_errors then Inr (missing_disk path) else Inl e)"

definition disks :: "host_probe \<Rightarrow> string list \<Rightarrow> py_error + disk_metrics list \<times> collector_state" where
  "disks hp paths = res_bind (res_list (map (disk_entry hp) paths)) (\<lambda>ds.
     let failures = length (filter (\<lambda>d. \<not> dm_available d) ds)
     in Inr (ds, if failures = 0 then available
       else \<lparr>cs_available = failures < length paths,
         cs_code = Some (if failures < length paths then ''DISK_METRICS_PARTIAL'' else ''DISK_METRICS_UNAVAILABLE''),
         cs_message = Some (int_str (int failures) @ '' configured disk path(s) are unavailable'')\<rparr>))"

section \<open>The host\<close>

definition empty_host :: "disk_metrics list \<Rightarrow> host_metrics" where
  "empty_host ds = \<lparr>hm_cpu = None, hm_cores = [], hm_load = None, hm_memory = None, hm_swap = None, hm_disks = ds, hm_uptime = None\<rparr>"

definition mean :: "rat list \<Rightarrow> rat" where
  "mean vs = (if vs = [] then 0 else sum_list vs / of_nat (length vs))"

definition make_host :: "host_metrics \<Rightarrow> py_error + host_metrics" where
  "make_host h = checked
     (optional percentage (hm_cpu h)
      \<and> optional (\<lambda>(t, u, a, p). 0 \<le> t \<and> 0 \<le> u \<and> 0 \<le> a \<and> percentage p) (hm_memory h)
      \<and> optional (\<lambda>(t, u, p). 0 \<le> t \<and> 0 \<le> u \<and> percentage p) (hm_swap h)
      \<and> optional (\<lambda>u. 0 \<le> u) (hm_uptime h)) h"

definition load_average :: "host_probe \<Rightarrow> py_error + (rat \<times> rat \<times> rat) option" where
  "load_average hp = (case hp_load hp of
     Inr l \<Rightarrow> Inr (Some l)
   | Inl e \<Rightarrow> if pe_family e = FamOS \<or> pe_name e = ''AttributeError'' then Inr None else Inl e)"

definition measured_host :: "host_probe \<Rightarrow> disk_metrics list \<Rightarrow> py_error + host_metrics" where
  "measured_host hp ds =
     res_bind (hp_cores hp) (\<lambda>cores.
     res_bind (hp_memory hp) (\<lambda>memory.
     res_bind (hp_swap hp) (\<lambda>swap.
     res_bind (load_average hp) (\<lambda>load.
     res_bind (hp_boot hp) (\<lambda>boot.
       make_host \<lparr>hm_cpu = Some (mean cores), hm_cores = cores, hm_load = load, hm_memory = Some memory, hm_swap = Some swap,
         hm_disks = ds, hm_uptime = Some (max 0 (hp_now hp - boot))\<rparr>)))))"

definition collect_host :: "host_probe \<Rightarrow> string list \<Rightarrow> py_error + host_metrics \<times> (string \<times> collector_state) list" where
  "collect_host hp paths =
     res_bind (disks hp paths) (\<lambda>(ds, disk_state).
       case measured_host hp ds of
         Inr h \<Rightarrow> Inr (h, [(''host'', available), (''disks'', disk_state)])
       | Inl e \<Rightarrow>
           if pe_family e \<in> set measured_errors
           then Inr (empty_host ds, [(''host'', unavailable ''HOST_METRICS_UNAVAILABLE'' (Some (error_code e))), (''disks'', disk_state)])
           else Inl e)"

section \<open>GPUs\<close>

text \<open>
  What NVML answers for a device; a process is its pid and the memory it reports, if that is a
  number. \<open>nv_name\<close> is \<open>psutil.Process(pid).name()\<close>.
\<close>

record device_probe =
  dv_handle :: "py_error + unit"
  dv_memory :: "py_error + int \<times> int \<times> int"
  dv_utilization :: "py_error + rat"
  dv_temperature :: "py_error + rat"
  dv_power :: "py_error + rat"
  dv_power_limit :: "py_error + rat"
  dv_fan :: "py_error + rat"
  dv_compute :: "py_error + (int \<times> int option) list"
  dv_graphics :: "py_error + (int \<times> int option) list"
  dv_uuid :: "py_error + string"
  dv_name :: "py_error + string"

record nvml_probe =
  nv_load :: "py_error + unit"
  nv_init :: "py_error + unit"
  nv_count :: "py_error + int"
  nv_device :: "int \<Rightarrow> device_probe"
  nv_name :: "int \<Rightarrow> py_error + string"

record gpu_state =
  gs_module :: bool
  gs_initialized :: bool

fun or_none :: "py_error + 'a \<Rightarrow> 'a option" where
  "or_none (Inl _) = None"
| "or_none (Inr x) = Some x"

definition gpu_initialize :: "nvml_probe \<Rightarrow> gpu_state \<Rightarrow> collector_state option \<times> gpu_state" where
  "gpu_initialize nv st =
     (if gs_initialized st then (None, st)
      else case res_bind (nv_load nv) (\<lambda>_. nv_init nv) of
        Inr _ \<Rightarrow> (None, \<lparr>gs_module = True, gs_initialized = True\<rparr>)
      | Inl e \<Rightarrow> (Some (unavailable ''NVML_NOT_AVAILABLE'' (Some (error_code e))), \<lparr>gs_module = False, gs_initialized = False\<rparr>))"

definition used_memory :: "int option \<Rightarrow> int option" where
  "used_memory raw = (case raw of Some n \<Rightarrow> if 0 \<le> n \<and> n < 2 ^ 63 then Some n else None | None \<Rightarrow> None)"

fun add_processes :: "(int \<times> int option) list \<Rightarrow> (int \<times> int option) list \<Rightarrow> (int \<times> int option) list" where
  "add_processes d [] = d"
| "add_processes d ((pid, raw) # ps) =
     add_processes (AList.update pid (case used_memory raw of Some n \<Rightarrow> Some n
       | None \<Rightarrow> (case map_of d pid of Some v \<Rightarrow> v | None \<Rightarrow> None)) d) ps"

definition device_processes :: "device_probe \<Rightarrow> (int \<times> int option) list" where
  "device_processes dv = foldl (\<lambda>d running. add_processes d (case or_none running of Some ps \<Rightarrow> ps | None \<Rightarrow> [])) []
     [dv_compute dv, dv_graphics dv]"

definition enrich :: "(int \<Rightarrow> py_error + string) \<Rightarrow> (int \<times> string) list \<Rightarrow> (int \<times> int option) list \<Rightarrow> py_error + gpu_process list" where
  "enrich name_of owners ps = res_list (map (\<lambda>(pid, used).
     res_bind (case name_of pid of Inr n \<Rightarrow> Inr (Some n)
         | Inl e \<Rightarrow> if pe_family e \<in> {FamPsutil, FamOS} then Inr None else Inl e) (\<lambda>name.
       checked (1 \<le> pid \<and> optional (\<lambda>n. 0 \<le> n) used)
         \<lparr>gp_pid = pid, gp_vram = used, gp_name = name, gp_app = map_of owners pid, gp_managed = (map_of owners pid \<noteq> None)\<rparr>)) ps)"

definition make_gpu :: "gpu_metrics \<Rightarrow> py_error + gpu_metrics" where
  "make_gpu g = checked
     (0 \<le> gm_index g \<and> optional percentage (gm_utilization g) \<and> 0 \<le> gm_total g \<and> 0 \<le> gm_used g \<and> 0 \<le> gm_free g
      \<and> optional (\<lambda>w. 0 \<le> w) (gm_power g) \<and> optional (\<lambda>w. 0 \<le> w) (gm_power_limit g) \<and> optional percentage (gm_fan g)
      \<and> 0 \<le> gm_count g) g"

definition missing_gpu :: "int \<Rightarrow> string \<Rightarrow> gpu_metrics" where
  "missing_gpu i code = \<lparr>gm_index = i, gm_uuid = ''unavailable-'' @ int_str i, gm_name = ''GPU '' @ int_str i, gm_utilization = None,
     gm_total = 0, gm_used = 0, gm_free = 0, gm_temperature = None, gm_power = None, gm_power_limit = None, gm_fan = None,
     gm_count = 0, gm_processes = [], gm_available = False, gm_error = Some code\<rparr>"

definition measured_gpu :: "nvml_probe \<Rightarrow> int \<Rightarrow> py_error + gpu_metrics" where
  "measured_gpu nv i =
     (let dv = nv_device nv i
      in res_bind (dv_handle dv) (\<lambda>_.
         res_bind (dv_memory dv) (\<lambda>(total, used, free).
         res_bind (enrich (nv_name nv) [] (device_processes dv)) (\<lambda>ps.
         res_bind (dv_uuid dv) (\<lambda>uuid.
         res_bind (dv_name dv) (\<lambda>name.
           make_gpu \<lparr>gm_index = i, gm_uuid = uuid, gm_name = name, gm_utilization = or_none (dv_utilization dv),
             gm_total = total, gm_used = used, gm_free = free, gm_temperature = or_none (dv_temperature dv),
             gm_power = map_option (\<lambda>w. w / 1000) (or_none (dv_power dv)),
             gm_power_limit = map_option (\<lambda>w. w / 1000) (or_none (dv_power_limit dv)), gm_fan = or_none (dv_fan dv),
             gm_count = int (length ps), gm_processes = ps, gm_available = True, gm_error = None\<rparr>))))))"

definition gpu_device :: "nvml_probe \<Rightarrow> int \<Rightarrow> gpu_metrics" where
  "gpu_device nv i = (case measured_gpu nv i of Inr g \<Rightarrow> g | Inl e \<Rightarrow> missing_gpu i (error_code e))"

definition gpu_close :: "gpu_state \<Rightarrow> gpu_state" where
  "gpu_close st = \<lparr>gs_module = False, gs_initialized = False\<rparr>"

definition collect_gpus :: "nvml_probe \<Rightarrow> gpu_state \<Rightarrow> (gpu_metrics list \<times> collector_state) \<times> gpu_state" where
  "collect_gpus nv st =
     (case gpu_initialize nv st of
        (Some failure, st1) \<Rightarrow> (([], failure), st1)
      | (None, st1) \<Rightarrow>
          (case nv_count nv of
             Inl e \<Rightarrow> (([], unavailable ''GPU_METRICS_UNAVAILABLE'' (Some (error_code e))), gpu_close st1)
           | Inr number \<Rightarrow>
               let gpus = map (gpu_device nv) [0..number - 1];
                   failures = int (length (filter (\<lambda>g. \<not> gm_available g) gpus))
               in ((gpus, if failures = 0 then available
                     else \<lparr>cs_available = failures < number, cs_code = Some ''GPU_METRICS_PARTIAL'',
                       cs_message = Some (int_str failures @ '' GPU(s) could not be queried'')\<rparr>), st1)))"

section \<open>Applications\<close>

definition empty_summary :: app_summary where
  "empty_summary = \<lparr>as_total = 0, as_running = 0, as_stopped = 0, as_starting = 0, as_stopping = 0, as_unhealthy = 0,
     as_failed = 0, as_queued = 0, as_unknown = 0, as_disabled = 0\<rparr>"

text \<open>The first row of every application, of the rows newest first.\<close>

fun latest_statuses :: "inst_row list \<Rightarrow> (string \<times> app_status) list" where
  "latest_statuses [] = []"
| "latest_statuses (r # rs) = (in_app r, in_status r) # filter (\<lambda>e. fst e \<noteq> in_app r) (latest_statuses rs)"

fun count_status :: "app_status \<Rightarrow> app_summary \<Rightarrow> app_summary" where
  "count_status RUNNING c = c\<lparr>as_running := Suc (as_running c)\<rparr>"
| "count_status STOPPED c = c\<lparr>as_stopped := Suc (as_stopped c)\<rparr>"
| "count_status STARTING c = c\<lparr>as_starting := Suc (as_starting c)\<rparr>"
| "count_status CHECKING c = c\<lparr>as_starting := Suc (as_starting c)\<rparr>"
| "count_status STOPPING c = c\<lparr>as_stopping := Suc (as_stopping c)\<rparr>"
| "count_status UNHEALTHY c = c\<lparr>as_unhealthy := Suc (as_unhealthy c)\<rparr>"
| "count_status FAILED c = c\<lparr>as_failed := Suc (as_failed c)\<rparr>"
| "count_status QUEUED c = c\<lparr>as_queued := Suc (as_queued c)\<rparr>"
| "count_status _ c = c\<lparr>as_unknown := Suc (as_unknown c)\<rparr>"

definition count_app :: "(string \<times> app_status) list \<Rightarrow> app_row \<Rightarrow> app_summary \<Rightarrow> app_summary" where
  "count_app latest a c =
     (if \<not> ap_enabled a then c\<lparr>as_disabled := Suc (as_disabled c)\<rparr>
      else count_status (case map_of latest (ap_id a) of Some st \<Rightarrow> st | None \<Rightarrow> STOPPED) c)"

definition summarise :: "db \<Rightarrow> app_summary" where
  "summarise d =
     (let latest = latest_statuses (sort_key (\<lambda>r. - in_created r) (instances d));
          counts = foldl (\<lambda>c a. count_app latest a c) empty_summary (applications d)
      in counts\<lparr>as_total := length (applications d)\<rparr>)"

definition collect_apps :: "py_error + db \<Rightarrow> app_summary \<times> collector_state" where
  "collect_apps source = (case source of
     Inr d \<Rightarrow> (summarise d, available)
   | Inl e \<Rightarrow> (empty_summary, unavailable ''APPLICATION_SUMMARY_UNAVAILABLE'' (Some (error_code e))))"

section \<open>The snapshot\<close>

text \<open>
  The three collectors run in threads; each result is a value or the exception it ended with.
  Times are microseconds, \<open>ms\<close> is the duration of the collection.
\<close>

definition host_part :: "py_error + host_metrics \<times> (string \<times> collector_state) list \<Rightarrow> host_metrics \<times> (string \<times> collector_state) list" where
  "host_part r = (case r of Inr x \<Rightarrow> x
   | Inl e \<Rightarrow> (empty_host [], [(''host'', unavailable ''HOST_METRICS_UNAVAILABLE'' (Some (error_code e))),
       (''disks'', unavailable ''DISK_METRICS_UNAVAILABLE'' None)]))"

definition gpu_part :: "py_error + gpu_metrics list \<times> collector_state \<Rightarrow> gpu_metrics list \<times> collector_state" where
  "gpu_part r = (case r of Inr x \<Rightarrow> x | Inl e \<Rightarrow> ([], unavailable ''GPU_METRICS_UNAVAILABLE'' (Some (error_code e))))"

definition app_part :: "py_error + app_summary \<times> collector_state \<Rightarrow> app_summary \<times> collector_state" where
  "app_part r = (case r of Inr x \<Rightarrow> x
   | Inl e \<Rightarrow> (empty_summary, unavailable ''APPLICATION_SUMMARY_UNAVAILABLE'' (Some (error_code e))))"

definition make_snapshot ::
    "int \<Rightarrow> rat \<Rightarrow> py_error + host_metrics \<times> (string \<times> collector_state) list \<Rightarrow> py_error + gpu_metrics list \<times> collector_state
       \<Rightarrow> py_error + app_summary \<times> collector_state \<Rightarrow> py_error + snapshot"
where
  "make_snapshot tm ms host gpu apps =
     (case (host_part host, gpu_part gpu, app_part apps) of
        ((h, hs), (gs, g), (a, ac)) \<Rightarrow>
          checked (0 \<le> ms)
            \<lparr>sn_collected = tm, sn_duration = ms, sn_freshness = LIVE, sn_host = h, sn_gpus = gs, sn_apps = a,
             sn_collectors = AList.update ''applications'' ac (AList.update ''nvml'' g hs)\<rparr>)"

definition collect_snapshot ::
    "int \<Rightarrow> rat \<Rightarrow> host_probe \<Rightarrow> string list \<Rightarrow> nvml_probe \<Rightarrow> gpu_state \<Rightarrow> py_error + db \<Rightarrow> (py_error + snapshot) \<times> gpu_state"
where
  "collect_snapshot tm ms hp paths nv st source =
     (case collect_gpus nv st of (gpus, st1) \<Rightarrow>
        (make_snapshot tm ms (collect_host hp paths) (Inr gpus) (Inr (collect_apps source)), st1))"

end
