(* ===== verification/Dashboard.thy ===== *)
theory Dashboard
  imports Collectors Auth
begin

text \<open>
  \<open>dashboard/service.py\<close> and \<open>api/dashboard.py\<close>: the service that keeps the newest snapshot and hands
  it to its subscribers, and the handlers of the dashboard. The service runs in one event loop: its
  operations interleave only where they wait, so a step is an operation up to its next wait. The
  relation \<open>metrics_step\<close> has every such interleaving of the collection loop, the subscribers and
  the shutdown. Times are microseconds.

  \<open>ms_log\<close>, \<open>sb_got\<close> and \<open>sb_since\<close> record what happened (the snapshots published, those a subscriber
  was given, and how many had been published before it came) for the properties; no operation reads them.
\<close>

section \<open>Freshness\<close>

definition snapshot_freshness :: "int \<Rightarrow> int \<Rightarrow> freshness" where
  "snapshot_freshness collected tm =
     (let age = max 0 (tm - collected)
      in if age \<le> 5000000 then LIVE else if age \<le> 15000000 then STALE else OFFLINE)"

definition refresh :: "int \<Rightarrow> snapshot \<Rightarrow> snapshot" where
  "refresh tm sn = sn\<lparr>sn_freshness := snapshot_freshness (sn_collected sn) tm\<rparr>"

section \<open>The service\<close>

text \<open>A queue item None is the notice that the service stops.\<close>

record subscriber =
  sb_id :: nat
  sb_queue :: "snapshot option list"
  sb_got :: "snapshot list"
  sb_since :: nat

record metrics =
  ms_snapshot :: "snapshot option"
  ms_running :: bool
  ms_subscribers :: "subscriber list"
  ms_log :: "snapshot list"

text \<open>A queue holds one item; a new one replaces it.\<close>

definition put_latest :: "snapshot option \<Rightarrow> subscriber \<Rightarrow> subscriber" where
  "put_latest x s = s\<lparr>sb_queue := (if 1 \<le> length (sb_queue s) then drop 1 (sb_queue s) else sb_queue s) @ [x]\<rparr>"

definition publish :: "snapshot \<Rightarrow> metrics \<Rightarrow> metrics" where
  "publish sn m = m\<lparr>ms_snapshot := Some sn, ms_subscribers := map (put_latest (Some sn)) (ms_subscribers m), ms_log := ms_log m @ [sn]\<rparr>"

definition collect_and_publish :: "py_error + snapshot \<Rightarrow> metrics \<Rightarrow> (py_error + snapshot) \<times> metrics" where
  "collect_and_publish r m = (case r of Inl e \<Rightarrow> (Inl e, m) | Inr sn \<Rightarrow> (Inr sn, publish sn m))"

definition start :: "py_error + snapshot \<Rightarrow> metrics \<Rightarrow> (py_error + unit) \<times> metrics" where
  "start r m = (if ms_running m then (Inr (), m)
     else case collect_and_publish r m of
       (Inl e, m1) \<Rightarrow> (Inl e, m1) | (Inr _, m1) \<Rightarrow> (Inr (), m1\<lparr>ms_running := True\<rparr>))"

text \<open>One round of the collection loop; a failing collection keeps the last snapshot.\<close>

definition run_round :: "py_error + snapshot \<Rightarrow> metrics \<Rightarrow> metrics" where
  "run_round r m = snd (collect_and_publish r m)"

definition stop :: "metrics \<Rightarrow> metrics" where
  "stop m = m\<lparr>ms_running := False, ms_subscribers := map (put_latest None) (ms_subscribers m)\<rparr>"

text \<open>\<open>r\<close> is what a collection would give, for the case that there is no snapshot yet.\<close>

definition latest :: "py_error + snapshot \<Rightarrow> int \<Rightarrow> metrics \<Rightarrow> (py_error + snapshot) \<times> metrics" where
  "latest r tm m =
     (case ms_snapshot m of
        Some sn \<Rightarrow> (Inr (refresh tm sn), m)
      | None \<Rightarrow> (case collect_and_publish r m of
          (Inl e, m1) \<Rightarrow> (Inl e, m1) | (Inr sn, m1) \<Rightarrow> (Inr (refresh tm sn), m1)))"

definition subscribe :: "nat \<Rightarrow> py_error + snapshot \<Rightarrow> int \<Rightarrow> metrics \<Rightarrow> (py_error + unit) \<times> metrics" where
  "subscribe k r tm m =
     (case latest r tm m of
        (Inl e, m1) \<Rightarrow> (Inl e, m1)
      | (Inr sn, m1) \<Rightarrow> (Inr (), m1\<lparr>ms_subscribers := ms_subscribers m1 @
          [\<lparr>sb_id = k, sb_queue = [Some sn], sb_got = [], sb_since = length (ms_log m1) - 1\<rparr>]\<rparr>))"

text \<open>The generator of a subscriber goes on: the snapshot it yields, or its end.\<close>

definition next_item :: "int \<Rightarrow> subscriber \<Rightarrow> (snapshot option \<times> subscriber) option" where
  "next_item tm s =
     (case sb_queue s of
        [] \<Rightarrow> None
      | None # q \<Rightarrow> Some (None, s\<lparr>sb_queue := q\<rparr>)
      | Some sn # q \<Rightarrow> Some (Some (refresh tm sn), s\<lparr>sb_queue := q, sb_got := sb_got s @ [refresh tm sn]\<rparr>))"

definition discard :: "nat \<Rightarrow> metrics \<Rightarrow> metrics" where
  "discard k m = m\<lparr>ms_subscribers := filter (\<lambda>s. sb_id s \<noteq> k) (ms_subscribers m)\<rparr>"

definition advance :: "nat \<Rightarrow> int \<Rightarrow> metrics \<Rightarrow> (snapshot option \<times> metrics) option" where
  "advance k tm m =
     (case List.find (\<lambda>s. sb_id s = k) (ms_subscribers m) of
        None \<Rightarrow> None
      | Some s \<Rightarrow>
          (case next_item tm s of
             None \<Rightarrow> None
           | Some (None, _) \<Rightarrow> Some (None, discard k m)
           | Some (Some sn, s') \<Rightarrow> Some (Some sn, m\<lparr>ms_subscribers := map (\<lambda>x. if sb_id x = k then s' else x) (ms_subscribers m)\<rparr>)))"

definition new_metrics :: metrics where
  "new_metrics = \<lparr>ms_snapshot = None, ms_running = False, ms_subscribers = [], ms_log = []\<rparr>"

text \<open>
  A collection gives a LIVE snapshot; a subscriber's id is new. \<open>collects\<close> is a read that found no
  snapshot and whose collection ends when another one has already published.
\<close>

definition live :: "py_error + snapshot \<Rightarrow> bool" where
  "live r = (case r of Inl _ \<Rightarrow> True | Inr sn \<Rightarrow> sn_freshness sn = LIVE)"

inductive metrics_step :: "metrics \<Rightarrow> metrics \<Rightarrow> bool" where
  starts: "live r \<Longrightarrow> metrics_step m (snd (start r m))"
| round: "live r \<Longrightarrow> ms_running m \<Longrightarrow> metrics_step m (run_round r m)"
| collects: "live r \<Longrightarrow> metrics_step m (snd (collect_and_publish r m))"
| reads: "live r \<Longrightarrow> metrics_step m (snd (latest r t m))"
| subscribes: "live r \<Longrightarrow> k \<notin> sb_id ` set (ms_subscribers m) \<Longrightarrow> metrics_step m (snd (subscribe k r t m))"
| advances: "advance k t m = Some (x, m') \<Longrightarrow> metrics_step m m'"
| leaves: "metrics_step m (discard k m)"
| stops: "metrics_step m (stop m)"

section \<open>The handlers\<close>

definition dashboard_snapshot ::
    "settings \<Rightarrow> crypto \<Rightarrow> sources \<Rightarrow> request \<Rightarrow> py_error + snapshot \<Rightarrow> int \<Rightarrow> store \<Rightarrow> metrics
       \<Rightarrow> (http_error + py_error + snapshot) \<times> store \<times> metrics"
where
  "dashboard_snapshot st cr su rq r tm s m =
     (case require_http_auth st cr su rq s of
        (Inl e, s1) \<Rightarrow> (Inl e, s1, m)
      | (Inr _, s1) \<Rightarrow> (case latest r tm m of (x, m1) \<Rightarrow> (Inr x, s1, m1)))"

text \<open>
  What a wait of the stream ends with: whether the login session is over, what the generator gave
  (nothing yet, its end, a snapshot), and whether sending it succeeded.
\<close>

datatype wakeup = Wakeup (wk_expired: bool) (wk_item: "snapshot option option") (wk_sent: bool)

datatype stream_end = Open | Closed int string | Gone

fun stream_wakeups :: "wakeup list \<Rightarrow> snapshot list \<times> stream_end" where
  "stream_wakeups [] = ([], Open)"
| "stream_wakeups (w # ws) =
     (if wk_expired w then ([], Closed 4401 ''Session expired or revoked'')
      else case wk_item w of
        None \<Rightarrow> stream_wakeups ws
      | Some None \<Rightarrow> ([], Closed 1012 ''Dashboard collector stopped'')
      | Some (Some sn) \<Rightarrow>
          if \<not> wk_sent w then ([], Gone)
          else (case stream_wakeups ws of (sns, e) \<Rightarrow> (sn # sns, e)))"

definition dashboard_stream ::
    "settings \<Rightarrow> crypto \<Rightarrow> sources \<Rightarrow> bool \<Rightarrow> request \<Rightarrow> (string \<times> string) list \<Rightarrow> store \<Rightarrow> wakeup list
       \<Rightarrow> (int + snapshot list \<times> stream_end) \<times> store"
where
  "dashboard_stream st cr su up rq query s ws =
     (case authenticate_websocket st cr su up rq s of
        (Inl code, s1) \<Rightarrow> (Inl code, s1)
      | (Inr _, s1) \<Rightarrow> if query \<noteq> [] then (Inl 4400, s1) else (Inr (stream_wakeups ws), s1))"

section \<open>The collectors\<close>

text \<open>Rows newest first give every application the status the registry shows.\<close>

lemma latest_statuses_find: "map_of (latest_statuses rs) k = map_option in_status (List.find (\<lambda>r. in_app r = k) rs)"
proof (induction rs)
  case Nil
  then show ?case by simp
next
  case (Cons r rs)
  have "map_of (filter (\<lambda>e. fst e \<noteq> x) xs) k = (if k = x then None else map_of xs k)" for x and xs :: "(string \<times> app_status) list"
    by (induction xs) auto
  with Cons show ?case by simp
qed

lemma find_insort_newest:
  "newest rs = (case rs of [] \<Rightarrow> None | _ \<Rightarrow> Some (hd (sort_key (\<lambda>r. - in_created r) rs)))"
proof (induction rs)
  case Nil
  then show ?case by simp
next
  case (Cons r rs)
  show ?case
  proof (cases rs)
    case Nil
    then show ?thesis by simp
  next
    case (Cons q qs)
    then have "sort_key (\<lambda>r. - in_created r) rs \<noteq> []" by (metis length_sort list.size(3) list.distinct(1) length_0_conv)
    then obtain x xs where s: "sort_key (\<lambda>r. - in_created r) rs = x # xs" by (cases "sort_key (\<lambda>r. - in_created r) rs") auto
    then have "newest rs = Some x" using Cons.IH Cons by simp
    then show ?thesis using s by simp
  qed
qed

lemma find_filter: "List.find P xs = (case filter P xs of [] \<Rightarrow> None | x # _ \<Rightarrow> Some x)"
  by (induction xs) auto

lemma latest_agrees:
  "map_of (latest_statuses (sort_key (\<lambda>r. - in_created r) (instances d))) k = map_option in_status (latest_state d k)"
proof -
  have "filter (\<lambda>r. in_app r = k) (sort_key (\<lambda>r. - in_created r) (instances d))
      = sort_key (\<lambda>r. - in_created r) (filter (\<lambda>r. in_app r = k) (instances d))"
    by (rule filter_sort)
  then show ?thesis
    by (auto simp: latest_statuses_find find_filter latest_state_def find_insort_newest split: list.splits)
qed

definition shown_status :: "db \<Rightarrow> app_row \<Rightarrow> app_status" where
  "shown_status d a = (if \<not> ap_enabled a then DISABLED else case latest_state d (ap_id a) of Some i \<Rightarrow> in_status i | None \<Rightarrow> STOPPED)"

abbreviation tally :: "('a \<Rightarrow> bool) \<Rightarrow> 'a list \<Rightarrow> nat" where
  "tally P xs \<equiv> length (filter P xs)"

lemma count_app_fields:
  assumes "sts = latest_statuses (sort_key (\<lambda>r. - in_created r) (instances d))"
  shows "count_app sts a c =
     c\<lparr>as_running := as_running c + (if shown_status d a = RUNNING then 1 else 0),
       as_stopped := as_stopped c + (if shown_status d a = STOPPED then 1 else 0),
       as_starting := as_starting c + (if shown_status d a \<in> {STARTING, CHECKING} then 1 else 0),
       as_stopping := as_stopping c + (if shown_status d a = STOPPING then 1 else 0),
       as_unhealthy := as_unhealthy c + (if shown_status d a = UNHEALTHY then 1 else 0),
       as_failed := as_failed c + (if shown_status d a = FAILED then 1 else 0),
       as_queued := as_queued c + (if shown_status d a = QUEUED then 1 else 0),
       as_unknown := as_unknown c + (if ap_enabled a \<and> shown_status d a \<in> {UNKNOWN, DISABLED} then 1 else 0),
       as_disabled := as_disabled c + (if ap_enabled a then 0 else 1)\<rparr>"
proof -
  define st where "st = shown_status d a"
  have "(case map_of sts (ap_id a) of Some st \<Rightarrow> st | None \<Rightarrow> STOPPED) = st" if "ap_enabled a"
    using that by (auto simp: assms latest_agrees st_def shown_status_def split: option.splits)
  moreover have "st = DISABLED" if "\<not> ap_enabled a" using that by (simp add: st_def shown_status_def)
  ultimately show ?thesis unfolding st_def [symmetric] by (cases st) (auto simp: count_app_def)
qed

lemma summarise_fields:
  fixes d defines "n \<equiv> \<lambda>P. tally (\<lambda>a. P (shown_status d a)) (applications d)"
  shows "summarise d = \<lparr>as_total = length (applications d), as_running = n (\<lambda>s. s = RUNNING), as_stopped = n (\<lambda>s. s = STOPPED),
     as_starting = n (\<lambda>s. s \<in> {STARTING, CHECKING}), as_stopping = n (\<lambda>s. s = STOPPING), as_unhealthy = n (\<lambda>s. s = UNHEALTHY),
     as_failed = n (\<lambda>s. s = FAILED), as_queued = n (\<lambda>s. s = QUEUED),
     as_unknown = tally (\<lambda>a. ap_enabled a \<and> shown_status d a \<in> {UNKNOWN, DISABLED}) (applications d),
     as_disabled = tally (\<lambda>a. \<not> ap_enabled a) (applications d)\<rparr>"
proof -
  define sts where "sts = latest_statuses (sort_key (\<lambda>r. - in_created r) (instances d))"
  note step = count_app_fields [OF sts_def]
  have "foldl (\<lambda>c a. count_app sts a c) c as =
      \<lparr>as_total = as_total c,
       as_running = as_running c + tally (\<lambda>a. shown_status d a = RUNNING) as,
       as_stopped = as_stopped c + tally (\<lambda>a. shown_status d a = STOPPED) as,
       as_starting = as_starting c + tally (\<lambda>a. shown_status d a \<in> {STARTING, CHECKING}) as,
       as_stopping = as_stopping c + tally (\<lambda>a. shown_status d a = STOPPING) as,
       as_unhealthy = as_unhealthy c + tally (\<lambda>a. shown_status d a = UNHEALTHY) as,
       as_failed = as_failed c + tally (\<lambda>a. shown_status d a = FAILED) as,
       as_queued = as_queued c + tally (\<lambda>a. shown_status d a = QUEUED) as,
       as_unknown = as_unknown c + tally (\<lambda>a. ap_enabled a \<and> shown_status d a \<in> {UNKNOWN, DISABLED}) as,
       as_disabled = as_disabled c + tally (\<lambda>a. \<not> ap_enabled a) as\<rparr>" for c as
  proof (induction as arbitrary: c)
    case Nil
    then show ?case by simp
  next
    case (Cons a as)
    show ?case unfolding foldl_Cons Cons.IH unfolding step by simp
  qed
  from this [of empty_summary "applications d"] show ?thesis
    by (simp add: summarise_def Let_def n_def empty_summary_def flip: sts_def)
qed

lemma tally_sort: "tally P (sort_key f xs) = tally P xs"
proof -
  have "mset (filter P (sort_key f xs)) = mset (filter P xs)" by simp
  then show ?thesis by (metis size_mset)
qed

lemma response_shown: "response fs cd d a = Inr r \<Longrightarrow> ar_status r = shown_status d a \<and> ar_enabled r = ap_enabled a"
  by (auto simp: response_def shown_status_def split: option.splits)

lemma list_tally:
  assumes "list_applications fs cd s = Inr rs" "\<And>a r. response fs cd (working s) a = Inr r \<Longrightarrow> P r = Q a"
  shows "tally P rs = tally Q (applications (working s))"
proof -
  have "map (response fs cd (working s)) xs = map Inr rs \<Longrightarrow> tally P rs = tally Q xs" for xs rs
    by (induction xs arbitrary: rs) (auto simp: Cons_eq_map_conv assms(2))
  then show ?thesis using assms(1) tally_sort by (auto simp: list_applications_def res_list_Inr_iff)
qed


text \<open>The registry of one application whose state row says DISABLED though it is enabled.\<close>

definition odd_store :: store where
  "odd_store = sample_store\<lparr>working := set_statuses DISABLED (working sample_store)\<rparr>"


lemma host_keys: "collect_host hp paths = Inr (h, states) \<Longrightarrow> \<exists>a b. states = [(''host'', a), (''disks'', b)]"
  by (cases "disks hp paths"; cases "measured_host hp (fst (projr (disks hp paths)))")
    (auto simp: collect_host_def split: if_splits)

text \<open>A collector reported as unavailable has nothing to show, and one without an error code has everything.\<close>

lemma tally_none: "tally P xs = 0 \<longleftrightarrow> list_all (\<lambda>x. \<not> P x) xs" and tally_all: "tally P xs = length xs \<longleftrightarrow> list_all P xs"
  by (simp add: filter_empty_conv list_all_iff) (metis filter_id_conv length_filter_less less_irrefl list_all_iff)

lemma gpus_honest:
  assumes run: "collect_gpus nv st = ((gs, c), st')"
  shows "(\<not> cs_available c \<longrightarrow> list_all (\<lambda>g. \<not> gm_available g) gs) \<and> (cs_code c = None \<longrightarrow> cs_available c \<and> list_all gm_available gs)"
proof -
  obtain i st1 where i: "gpu_initialize nv st = (i, st1)" by fastforce
  show ?thesis
  proof (cases "i = None \<and> is_ok (nv_count nv)")
    case False
    then have "gs = [] \<and> \<not> cs_available c \<and> cs_code c \<noteq> None"
      using run i by (cases i; cases "nv_count nv")
        (auto simp: collect_gpus_def unavailable_def gpu_initialize_def split: if_splits sum.splits)
    then show ?thesis by simp
  next
    case True
    then obtain n where n: "nv_count nv = Inr n" by (auto simp: is_ok_iff)
    let ?k = "tally (\<lambda>g. \<not> gm_available g) gs"
    have gs: "gs = map (gpu_device nv) [0..n - 1]" and c: "c = (if int ?k = 0 then available
        else \<lparr>cs_available = int ?k < n, cs_code = Some ''GPU_METRICS_PARTIAL'', cs_message = Some (int_str (int ?k) @ '' GPU(s) could not be queried'')\<rparr>)"
      using run i n True by (auto simp: collect_gpus_def Let_def)
    have len: "length gs = nat n" by (simp add: gs)
    have "?k \<le> length gs" by (rule length_filter_le)
    then show ?thesis
      using c len tally_none [of "\<lambda>g. \<not> gm_available g" gs] tally_all [of "\<lambda>g. \<not> gm_available g" gs]
      by (cases "?k = 0") (auto simp: available_def)
  qed
qed

lemma disks_honest:
  assumes run: "disks hp paths = Inr (ds, c)"
  shows "(\<not> cs_available c \<longrightarrow> list_all (\<lambda>d. \<not> dm_available d) ds) \<and> (cs_code c = None \<longrightarrow> cs_available c \<and> list_all dm_available ds)"
proof -
  let ?k = "tally (\<lambda>d. \<not> dm_available d) ds"
  have len: "length ds = length paths" and c: "c = (if ?k = 0 then available
      else \<lparr>cs_available = ?k < length paths,
        cs_code = Some (if ?k < length paths then ''DISK_METRICS_PARTIAL'' else ''DISK_METRICS_UNAVAILABLE''),
        cs_message = Some (int_str (int ?k) @ '' configured disk path(s) are unavailable'')\<rparr>)"
    using run res_list_length [of "map (disk_entry hp) paths" ds] by (auto simp: disks_def Let_def)
  have "?k \<le> length ds" by (rule length_filter_le)
  then show ?thesis
    using c len tally_none [of "\<lambda>d. \<not> dm_available d" ds] tally_all [of "\<lambda>d. \<not> dm_available d" ds]
    by (cases "?k = 0") (auto simp: available_def)
qed

section \<open>Subscribers\<close>

definition plain :: "snapshot \<Rightarrow> snapshot" where
  "plain sn = sn\<lparr>sn_freshness := LIVE\<rparr>"

definition seen :: "subscriber \<Rightarrow> snapshot list" where
  "seen s = map plain (sb_got s @ List.map_filter id (sb_queue s))"

text \<open>
  At most one item waits; what a subscriber was given or is about to be given are snapshots published
  since it came, in their order; and unless it was told to stop, the last of them is the newest.
\<close>

definition subscriber_ok :: "snapshot list \<Rightarrow> subscriber \<Rightarrow> bool" where
  "subscriber_ok pub s \<longleftrightarrow> length (sb_queue s) \<le> 1 \<and> sb_since s < length pub \<and> subseq (seen s) (drop (sb_since s) pub)
     \<and> (None \<in> set (sb_queue s) \<or> (seen s \<noteq> [] \<and> last (seen s) = last pub))"

definition metrics_ok :: "metrics \<Rightarrow> bool" where
  "metrics_ok m \<longleftrightarrow> distinct (map sb_id (ms_subscribers m)) \<and> list_all (subscriber_ok (ms_log m)) (ms_subscribers m)
     \<and> list_all (\<lambda>sn. plain sn = sn) (ms_log m) \<and> ms_snapshot m = (if ms_log m = [] then None else Some (last (ms_log m)))"

lemma plain_refresh [simp]: "plain (refresh tm sn) = plain sn" "plain (plain sn) = plain sn"
  by (simp_all add: plain_def refresh_def)

lemma live_plain: "live (Inr sn) \<Longrightarrow> plain sn = sn"
  by (simp add: live_def plain_def)

lemma put_latest_id [simp]: "sb_id (put_latest x s) = sb_id s" "sb_id \<circ> put_latest x = sb_id"
  by (simp_all add: put_latest_def comp_def)

lemma put_latest_seen:
  assumes "length (sb_queue s) \<le> 1"
  shows "seen (put_latest x s) = map plain (sb_got s) @ map plain (List.map_filter id [x])" "length (sb_queue (put_latest x s)) = 1"
    "sb_queue (put_latest x s) = [x]" "sb_id (put_latest x s) = sb_id s" "sb_since (put_latest x s) = sb_since s"
  using assms by (cases "sb_queue s"; simp add: put_latest_def seen_def)+

lemma got_subseq: "subseq (seen s) l \<Longrightarrow> subseq (map plain (sb_got s)) l"
  by (rule subseq_order.trans [OF prefix_imp_subseq]) (auto simp: seen_def)

lemma subscriber_published:
  assumes s: "subscriber_ok pub s" and sn: "plain sn = sn"
  shows "subscriber_ok (pub @ [sn]) (put_latest (Some sn) s)"
proof -
  have "subseq (map plain (sb_got s) @ [sn]) (drop (sb_since s) pub @ [sn])"
    using got_subseq s by (simp add: subscriber_ok_def list_emb_append_mono)
  then show ?thesis
    using s sn put_latest_seen [of s "Some sn"] by (simp add: subscriber_ok_def)
qed

lemma subscriber_stopped:
  assumes s: "subscriber_ok pub s" shows "subscriber_ok pub (put_latest None s)"
  using s got_subseq put_latest_seen [of s None] by (simp add: subscriber_ok_def)

lemma subscriber_advanced:
  assumes s: "subscriber_ok pub s" and n: "next_item tm s = Some (Some sn, s')"
  shows "subscriber_ok pub s' \<and> sb_id s' = sb_id s"
proof -
  obtain x where x: "sb_queue s = [Some x]" "s' = s\<lparr>sb_queue := [], sb_got := sb_got s @ [refresh tm x]\<rparr>"
    using n s by (cases "sb_queue s") (auto simp: next_item_def subscriber_ok_def split: option.splits)
  then have "seen s' = seen s" by (simp add: seen_def)
  then show ?thesis using s x by (simp add: subscriber_ok_def)
qed

lemma publish_ok:
  assumes m: "metrics_ok m" and sn: "plain sn = sn"
  shows "metrics_ok (publish sn m)"
  using m sn subscriber_published by (auto simp: metrics_ok_def publish_def list_all_iff)

lemma collect_ok: "metrics_ok m \<Longrightarrow> live r \<Longrightarrow> metrics_ok (snd (collect_and_publish r m))"
  by (auto simp: collect_and_publish_def intro: publish_ok live_plain split: sum.splits)

lemma running_ok [simp]: "metrics_ok (m\<lparr>ms_running := b\<rparr>) = metrics_ok m"
  by (simp add: metrics_ok_def)

lemma latest_ok:
  assumes m: "metrics_ok m" and r: "live r" and l: "latest r tm m = (x, m')"
  shows "metrics_ok m'" and "x = Inr sn \<Longrightarrow> ms_log m' \<noteq> [] \<and> plain sn = last (ms_log m')"
    and "map sb_id (ms_subscribers m') = map sb_id (ms_subscribers m)"
proof -
  show "metrics_ok m'" using l m collect_ok [OF m r]
    by (cases "ms_snapshot m"; cases r) (auto simp: latest_def collect_and_publish_def split: if_splits)
  show "ms_log m' \<noteq> [] \<and> plain sn = last (ms_log m')" if "x = Inr sn"
    using l m r that
    by (cases "ms_snapshot m"; cases r)
      (auto simp: latest_def collect_and_publish_def publish_def metrics_ok_def list_all_iff live_plain split: if_splits)
  show "map sb_id (ms_subscribers m') = map sb_id (ms_subscribers m)"
    using l by (cases "ms_snapshot m"; cases r)
      (auto simp: latest_def collect_and_publish_def publish_def put_latest_def comp_def)
qed

lemma subscribe_ok:
  assumes m: "metrics_ok m" and r: "live r" and k: "k \<notin> sb_id ` set (ms_subscribers m)"
  shows "metrics_ok (snd (subscribe k r tm m))"
proof -
  obtain x m' where l: "latest r tm m = (x, m')" by fastforce
  note l_ok = latest_ok [OF m r l]
  show ?thesis
  proof (cases x)
    case (Inl e)
    then show ?thesis using l l_ok(1) by (simp add: subscribe_def)
  next
    case (Inr sn)
    then have sn: "ms_log m' \<noteq> []" "plain sn = last (ms_log m')" using l_ok(2) by auto
    then have "drop (length (ms_log m') - 1) (ms_log m') = [last (ms_log m')]"
      by (metis append_butlast_last_id append_eq_conv_conj length_butlast)
    then have "subscriber_ok (ms_log m') \<lparr>sb_id = k, sb_queue = [Some sn], sb_got = [], sb_since = length (ms_log m') - 1\<rparr>"
      using sn by (simp add: subscriber_ok_def seen_def)
    moreover have "k \<notin> set (map sb_id (ms_subscribers m'))" using k l_ok(3) by simp
    ultimately show ?thesis using l Inr l_ok(1) by (simp add: subscribe_def metrics_ok_def)
  qed
qed

lemma advance_ok:
  assumes m: "metrics_ok m" and a: "advance k tm m = Some (x, m')"
  shows "metrics_ok m'"
proof -
  obtain s where s: "s \<in> set (ms_subscribers m)" "sb_id s = k" "List.find (\<lambda>s. sb_id s = k) (ms_subscribers m) = Some s"
    using a find_SomeD by (fastforce simp: advance_def split: option.splits)
  have drop: "metrics_ok (discard j m)" for j
    using m by (auto simp: metrics_ok_def discard_def list_all_iff distinct_map inj_on_def)
  show ?thesis
  proof (cases x)
    case None
    then have "m' = discard k m" using a s(3) by (auto simp: advance_def split: option.splits prod.splits)
    then show ?thesis using drop by simp
  next
    case (Some sn)
    then obtain s' where n: "next_item tm s = Some (Some sn, s')"
      and m': "m' = m\<lparr>ms_subscribers := map (\<lambda>x. if sb_id x = k then s' else x) (ms_subscribers m)\<rparr>"
      using a s(3) by (auto simp: advance_def split: option.splits prod.splits)
    have s': "subscriber_ok (ms_log m) s' \<and> sb_id s' = k"
      using subscriber_advanced [OF _ n] m s by (auto simp: metrics_ok_def list_all_iff)
    then have "sb_id \<circ> (\<lambda>x. if sb_id x = k then s' else x) = sb_id"
      by (auto simp: fun_eq_iff)
    then show ?thesis using m m' s' by (auto simp: metrics_ok_def list_all_iff)
  qed
qed

lemma metrics_step_ok: "metrics_step m m' \<Longrightarrow> metrics_ok m \<Longrightarrow> metrics_ok m'"
proof (induction rule: metrics_step.induct)
  case (starts r m)
  then show ?case using collect_ok [of m r]
    by (auto simp: start_def split: prod.splits sum.splits)
next
  case (round r m)
  then show ?case by (simp add: run_round_def collect_ok)
next
  case (collects r m)
  then show ?case by (simp add: collect_ok)
next
  case (reads r t m)
  then show ?case using latest_ok(1) by (metis prod.collapse)
next
  case (subscribes r k m t)
  then show ?case by (intro subscribe_ok)
next
  case (advances k t m x m')
  then show ?case by (rule advance_ok [rotated])
next
  case (leaves m k)
  then show ?case by (auto simp: metrics_ok_def discard_def list_all_iff distinct_map inj_on_def)
next
  case (stops m)
  show ?case using stops subscriber_stopped by (auto simp: metrics_ok_def stop_def list_all_iff)
qed

lemma metrics_reachable_ok: "metrics_step\<^sup>*\<^sup>* new_metrics m \<Longrightarrow> metrics_ok m"
proof (induction rule: rtranclp_induct)
  case base
  then show ?case by (simp add: new_metrics_def metrics_ok_def)
next
  case (step m m')
  then show ?case by (auto intro: metrics_step_ok)
qed

text \<open>
  Property C26. Under every interleaving of collections, reads, subscriptions, disconnections and stops,
  at most one snapshot waits for a subscriber, however slow it is; the snapshots it is given are ones
  published since it came, in the order of their publication (their freshness apart, which is that of
  the moment); and unless a stop waits for it, the last one it was given or is waiting is the newest.
\<close>

theorem subscribers_follow:
  assumes "metrics_step\<^sup>*\<^sup>* new_metrics m" "s \<in> set (ms_subscribers m)"
  shows "length (sb_queue s) \<le> 1 \<and> subseq (seen s) (drop (sb_since s) (ms_log m))
    \<and> (None \<in> set (sb_queue s) \<or> (seen s \<noteq> [] \<and> last (seen s) = last (ms_log m)))"
  using metrics_reachable_ok [OF assms(1)] assms(2) by (auto simp: metrics_ok_def list_all_iff subscriber_ok_def)

definition shot :: "nat \<Rightarrow> snapshot" where
  "shot n = \<lparr>sn_collected = int n * 2000000, sn_duration = 3, sn_freshness = LIVE, sn_host = empty_host [], sn_gpus = [],
     sn_apps = empty_summary, sn_collectors = []\<rparr>"

text \<open>A subscriber that comes after the first collection and reads nothing while two more are published.\<close>

definition slow_reader :: metrics where
  "slow_reader = run_round (Inr (shot 3)) (run_round (Inr (shot 2))
     (snd (subscribe 7 (Inr (shot 9)) 0 (snd (start (Inr (shot 1)) new_metrics)))))"

lemma slow_reader_reachable: "metrics_step\<^sup>*\<^sup>* new_metrics slow_reader"
proof -
  have live: "live (Inr (shot n))" for n by (simp add: live_def shot_def)
  let ?a = "snd (start (Inr (shot 1)) new_metrics)" and ?r = "Inr (shot 9)"
  let ?b = "snd (subscribe 7 ?r 0 ?a)" let ?c = "run_round (Inr (shot 2)) ?b"
  have "metrics_step new_metrics ?a" by (rule starts [OF live])
  moreover have "metrics_step ?a ?b"
    by (rule subscribes [OF live]) (simp add: start_def collect_and_publish_def publish_def new_metrics_def)
  moreover have run: "ms_running ?b" "ms_running ?c"
    by (simp_all add: start_def collect_and_publish_def publish_def new_metrics_def subscribe_def latest_def run_round_def)
  then have "metrics_step ?b ?c" "metrics_step ?c slow_reader"
    unfolding slow_reader_def by (simp_all add: round [OF live])
  ultimately show ?thesis by (meson converse_rtranclp_into_rtranclp r_into_rtranclp)
qed

lemma slow_reader_waits:
  "ms_subscribers slow_reader = [\<lparr>sb_id = 7, sb_queue = [Some (shot 3)], sb_got = [], sb_since = 0\<rparr>]"
  "ms_log slow_reader = [shot 1, shot 2, shot 3]"
  by (simp_all add: slow_reader_def start_def collect_and_publish_def publish_def new_metrics_def subscribe_def latest_def
      run_round_def put_latest_def)

lemma subscribers_follow_witness:
  "\<exists>s \<in> set (ms_subscribers slow_reader). length (ms_log slow_reader) = 3 \<and> length (sb_queue s) \<le> 1
     \<and> subseq (seen s) (ms_log slow_reader) \<and> last (seen s) = last (ms_log slow_reader)"
  using subscribers_follow [OF slow_reader_reachable, of "hd (ms_subscribers slow_reader)"]
  by (simp add: slow_reader_waits)

section \<open>The snapshot\<close>

lemma host_honest:
  "\<exists>h d hm. host_part (collect_host hp paths) = (hm, [(''host'', h), (''disks'', d)])
    \<and> (\<not> cs_available h \<longrightarrow> hm = empty_host (hm_disks hm))
    \<and> (\<not> cs_available d \<longrightarrow> list_all (\<lambda>x. \<not> dm_available x) (hm_disks hm))
    \<and> (cs_code d = None \<longrightarrow> list_all dm_available (hm_disks hm) \<and> length (hm_disks hm) = length paths)"
proof (cases "disks hp paths")
  case (Inl e)
  then show ?thesis by (auto simp: collect_host_def host_part_def empty_host_def unavailable_def)
next
  case (Inr p)
  obtain ds c where p: "p = (ds, c)" by fastforce
  note ds = disks_honest [OF Inr [unfolded p]]
  have len: "length ds = length paths"
    using Inr p res_list_length [of "map (disk_entry hp) paths" ds] by (auto simp: disks_def Let_def)
  have kept: "measured_host hp ds = Inr hm \<Longrightarrow> hm_disks hm = ds" for hm
    by (auto simp: measured_host_def make_host_def checked_def split: if_splits)
  show ?thesis
    using Inr p ds len kept
    by (cases "measured_host hp ds")
      (auto simp: collect_host_def host_part_def empty_host_def unavailable_def available_def)
qed

lemma gpus_complete:
  assumes run: "collect_gpus nv st = ((gs, c), st')" and c: "cs_code c = None"
  shows "\<exists>n. nv_count nv = Inr n \<and> length gs = nat n"
proof -
  obtain i st1 where i: "gpu_initialize nv st = (i, st1)" by fastforce
  have "i = None" using run i c
    by (cases i) (auto simp: collect_gpus_def gpu_initialize_def unavailable_def split: if_splits sum.splits)
  then show ?thesis using run i c by (cases "nv_count nv") (auto simp: collect_gpus_def unavailable_def Let_def)
qed

text \<open>
  Whatever the libraries answer or raise and whatever the host lacks, the collection gives
  a snapshot (its duration being no less than zero): every collector reports its state, one that is
  unavailable shows nothing, and one without an error code shows everything it was asked for.
\<close>

theorem snapshot_total:
  assumes ms: "0 \<le> ms" and run: "collect_snapshot tm ms hp paths nv st source = (r, st')"
  shows "\<exists>sn h d g a. r = Inr sn \<and> sn_collectors sn = [(''host'', h), (''disks'', d), (''nvml'', g), (''applications'', a)]
    \<and> (\<not> cs_available h \<longrightarrow> sn_host sn = empty_host (hm_disks (sn_host sn)))
    \<and> (\<not> cs_available d \<longrightarrow> list_all (\<lambda>x. \<not> dm_available x) (hm_disks (sn_host sn)))
    \<and> (cs_code d = None \<longrightarrow> list_all dm_available (hm_disks (sn_host sn)) \<and> length (hm_disks (sn_host sn)) = length paths)
    \<and> (\<not> cs_available g \<longrightarrow> list_all (\<lambda>x. \<not> gm_available x) (sn_gpus sn))
    \<and> (cs_code g = None \<longrightarrow> list_all gm_available (sn_gpus sn) \<and> (\<exists>n. nv_count nv = Inr n \<and> length (sn_gpus sn) = nat n))
    \<and> (if cs_available a then \<exists>d. source = Inr d \<and> sn_apps sn = summarise d else sn_apps sn = empty_summary)"
proof -
  obtain gs g where g: "collect_gpus nv st = ((gs, g), st')"
    using run by (auto simp: collect_snapshot_def split: prod.splits)
  obtain h d hm where host: "host_part (collect_host hp paths) = (hm, [(''host'', h), (''disks'', d)])"
    and honest: "\<not> cs_available h \<longrightarrow> hm = empty_host (hm_disks hm)"
      "\<not> cs_available d \<longrightarrow> list_all (\<lambda>x. \<not> dm_available x) (hm_disks hm)"
      "cs_code d = None \<longrightarrow> list_all dm_available (hm_disks hm) \<and> length (hm_disks hm) = length paths"
    using host_honest [of hp paths] by (elim exE conjE) (rule that)
  obtain as a where apps: "collect_apps source = (as, a)" by fastforce
  then have a: "if cs_available a then \<exists>d. source = Inr d \<and> as = summarise d else as = empty_summary"
    by (auto simp: collect_apps_def available_def unavailable_def split: sum.splits)
  have "r = Inr \<lparr>sn_collected = tm, sn_duration = ms, sn_freshness = LIVE, sn_host = hm, sn_gpus = gs, sn_apps = as,
      sn_collectors = [(''host'', h), (''disks'', d), (''nvml'', g), (''applications'', a)]\<rparr>"
    using run g host apps ms by (auto simp: collect_snapshot_def make_snapshot_def gpu_part_def app_part_def checked_def)
  then show ?thesis using honest a gpus_honest [OF g] gpus_complete [OF g] by auto
qed

end
