(* ===== verification/Server.thy ===== *)
theory Server
  imports Lifecycle AuditEvents Dashboard
begin

text \<open>
  \<open>main.py\<close> with the routers of \<open>api/applications.py\<close>, \<open>api/system.py\<close>, \<open>api/dashboard.py\<close> and
  \<open>api/audit.py\<close>: which handler serves a request, the authentication in front of it, the session of
  the database around it, and what the handler hands to the components. A state of the server is the
  store, the host behind the runtime adapters (with the unit files) and the dashboard service.

  FastAPI's part is a parameter: \<open>si_parses\<close> says that the body is JSON if it is sent as JSON (FastAPI answers
  422 before any dependency runs if it is not), \<open>si_body\<close> decodes the body into the fields of a manifest
  (which \<open>validate_manifest\<close> then checks), \<open>si_int\<close> reads a query parameter as an integer, \<open>si_filters\<close> the
  query of the audit log. A failing one of these is answered 422, after the authentication.
\<close>

text \<open>A request; \<open>hr_rival\<close>: another request commits a row with the same key first.\<close>

record http_request =
  hr_rq :: request
  hr_path :: string
  hr_query :: "(string \<times> string) list"
  hr_body :: string
  hr_rival :: bool

record ('w, 'h) site =
  si_st :: settings
  si_cr :: crypto
  si_su :: sources
  si_fs :: host_fs
  si_cd :: codec
  si_adapter :: "manifest \<Rightarrow> 'w adapter"
  si_view :: "'w \<Rightarrow> host_view"
  si_pe :: process_env
  si_units :: "'w \<Rightarrow> 'h unit_world"
  si_requery :: "string \<Rightarrow> string"
  si_cursor :: cursor_codec
  si_qs :: qs_codec
  si_parses :: "http_request \<Rightarrow> bool"
  si_body :: "string \<Rightarrow> manifest option"
  si_int :: "string \<Rightarrow> int option"
  si_filters :: "(string \<times> string) list \<Rightarrow> audit_filters option"

datatype endpoint =
    ListApps | CreateApp | ValidateApp | GetApp string | UpdateApp string | DeleteApp string | ValidateSaved string
  | ActApp string string | AppStatus string | AppLogs string | UnitCheck string | AppPorts string | RefreshPorts string
  | AppEndpoints string | SystemPorts | Snapshot | AuditList | AuditGet string

datatype reply =
    AApps "app_response list" | AApp app_response | AValidation validation_response | ANone | AAction action_response
  | AState inst_row | ALogs string "string list" | AUnit consistency_result | APorts "port_view list"
  | AEndpoints "port_view option" "port_view list" | ASockets "observed_port list" | ASnapshot snapshot
  | AEvents "audit_response list" bool "string option" | AEvent audit_response
  | AInvalid | AError http_error | ALife life_http | ACrash py_error

type_synonym 'w server = "store \<times> 'w \<times> metrics"

section \<open>Routes\<close>

definition app_route :: "string \<Rightarrow> string list \<Rightarrow> endpoint option" where
  "app_route verb rest = (case rest of
     [] \<Rightarrow> map_of [(''GET'', ListApps), (''POST'', CreateApp)] verb
   | [k] \<Rightarrow> if verb = ''POST'' \<and> k = ''validate'' then Some ValidateApp
            else map_of [(''GET'', GetApp k), (''PUT'', UpdateApp k), (''DELETE'', DeleteApp k)] verb
   | [k, p] \<Rightarrow> map_of
       [((''POST'', ''validate''), ValidateSaved k), ((''POST'', ''start''), ActApp ''start'' k), ((''POST'', ''stop''), ActApp ''stop'' k),
        ((''POST'', ''restart''), ActApp ''restart'' k), ((''GET'', ''status''), AppStatus k), ((''GET'', ''logs''), AppLogs k),
        ((''GET'', ''unit-consistency''), UnitCheck k), ((''GET'', ''ports''), AppPorts k), ((''GET'', ''endpoints''), AppEndpoints k)] (verb, p)
   | [k, p, q] \<Rightarrow> if verb = ''POST'' \<and> p = ''ports'' \<and> q = ''refresh'' then Some (RefreshPorts k) else None
   | _ \<Rightarrow> None)"

definition audit_route :: "string \<Rightarrow> string list \<Rightarrow> endpoint option" where
  "audit_route verb rest = (if verb \<noteq> ''GET'' then None else case rest of [] \<Rightarrow> Some AuditList | [k] \<Rightarrow> Some (AuditGet k) | _ \<Rightarrow> None)"

definition find_route :: "string \<Rightarrow> string \<Rightarrow> endpoint option" where
  "find_route verb path =
     (case split_on (CHR ''/'') path of
        [] # a # b # c # rest \<Rightarrow>
          if a \<noteq> ''api'' \<or> b \<noteq> ''v1'' then None
          else if c = ''applications'' then app_route verb rest
          else if c = ''audit-events'' then audit_route verb rest
          else if verb = ''GET'' \<and> c = ''system'' \<and> rest = [''ports''] then Some SystemPorts
          else if verb = ''GET'' \<and> (c = ''dashboard'' \<and> rest = [] \<or> c = ''system'' \<and> rest = [''overview'']) then Some Snapshot
          else None
      | _ \<Rightarrow> None)"

text \<open>The endpoints with a body parameter.\<close>

definition takes_body :: "endpoint \<Rightarrow> bool" where
  "takes_body e = (case e of CreateApp \<Rightarrow> True | ValidateApp \<Rightarrow> True | UpdateApp _ \<Rightarrow> True | _ \<Rightarrow> False)"

section \<open>Handlers\<close>

definition audit_actor :: "authed option \<Rightarrow> string" where
  "audit_actor au = (case au of None \<Rightarrow> ''phase1-api'' | Some a \<Rightarrow> ad_username (ah_admin a))"

definition caller_of :: "authed \<Rightarrow> http_request \<Rightarrow> caller" where
  "caller_of au hr = \<lparr>call_actor = audit_actor (Some au), call_method = Some (rq_method (hr_rq hr)), call_path = Some (hr_path hr)\<rparr>"

definition plain_caller :: caller where
  "plain_caller = \<lparr>call_actor = ''phase1-api'', call_method = None, call_path = None\<rparr>"

definition lifecycle_service :: "('w, 'h) site \<Rightarrow> caller \<Rightarrow> 'w service" where
  "lifecycle_service si c = \<lparr>sv_su = si_su si, sv_st = si_st si, sv_fs = si_fs si, sv_cd = si_cd si, sv_caller = c,
     sv_adapter = si_adapter si, sv_view = si_view si\<rparr>"

definition answered_by :: "('a \<Rightarrow> reply) \<Rightarrow> http_error + 'a \<Rightarrow> reply" where
  "answered_by f r = (case r of Inl e \<Rightarrow> AError e | Inr x \<Rightarrow> f x)"

definition life_answer :: "('a \<Rightarrow> reply) \<Rightarrow> life_http + 'a \<Rightarrow> reply" where
  "life_answer f r = (case r of Inl e \<Rightarrow> ALife e | Inr x \<Rightarrow> f x)"

definition request_manifest :: "('w, 'h) site \<Rightarrow> http_request \<Rightarrow> manifest option" where
  "request_manifest si hr = Option.bind (si_body si (hr_body hr)) (validate_manifest (si_fs si))"

definition log_lines :: "('w, 'h) site \<Rightarrow> http_request \<Rightarrow> int option" where
  "log_lines si hr = (case map_of (hr_query hr) ''lines'' of
     None \<Rightarrow> Some 200
   | Some v \<Rightarrow> (case si_int si v of Some n \<Rightarrow> if 1 \<le> n \<and> n \<le> 5000 then Some n else None | None \<Rightarrow> None))"

definition endpoint_scope :: "http_request \<Rightarrow> string option" where
  "endpoint_scope hr = (case map_of (hr_query hr) ''scope'' of
     None \<Rightarrow> Some ''local'' | Some v \<Rightarrow> if v = ''local'' \<or> v = ''lan'' then Some v else None)"

definition arguments_not_allowed :: life_http where
  "arguments_not_allowed = LifeHttp 400 ''ARGUMENTS_NOT_ALLOWED'' ''Lifecycle requests do not accept commands, units, paths, or arguments.'' []"

definition api_unit_consistency :: "('w, 'h) site \<Rightarrow> string \<Rightarrow> 'w \<Rightarrow> store \<Rightarrow> (http_error + consistency_result) \<times> store" where
  "api_unit_consistency si k w s =
     (case check_application_unit (si_pe si) (si_su si) (si_st si) (si_fs si) (si_cd si) k (si_units si w) s of
        (Inr r, s1) \<Rightarrow> (Inr r, s1)
      | (Inl m, s1) \<Rightarrow>
          (Inl (case row_get ap_id k (applications (working s)) of
                  None \<Rightarrow> HttpError 404 (DText m)
                | Some r \<Rightarrow> if decode (si_fs si) (si_cd si) (ap_config r) = None then HttpError 404 (DText m) else unhandled), s1))"

definition api_system_ports :: "('w, 'h) site \<Rightarrow> 'w \<Rightarrow> db \<Rightarrow> http_error + observed_port list" where
  "api_system_ports si w d = (case system_ports (si_fs si) (si_cd si) (si_view si w) d of
     Inr ps \<Rightarrow> Inr ps
   | Inl (DiscoveryErr m) \<Rightarrow> Inl (HttpError 503 (DCode ''PORT_DISCOVERY_UNAVAILABLE'' m))
   | Inl _ \<Rightarrow> Inl unhandled)"

definition app_ports :: "('w, 'h) site \<Rightarrow> string \<Rightarrow> 'w \<Rightarrow> db \<Rightarrow> reply" where
  "app_ports si k w d = answered_by APorts (api_ports (si_st si) (si_requery si) (si_fs si) (si_cd si) (si_view si w) (si_view si w) d k)"

text \<open>\<open>r\<close> is what a collection of the dashboard would give, \<open>tm\<close> the time; only \<open>Snapshot\<close> uses them.\<close>

definition handle ::
    "('w, 'h) site \<Rightarrow> py_error + snapshot \<Rightarrow> int \<Rightarrow> endpoint \<Rightarrow> http_request \<Rightarrow> authed \<Rightarrow> 'w server \<Rightarrow> reply \<times> 'w server"
where
  "handle si r tm e hr au srv =
     (case srv of (s, w, m) \<Rightarrow>
      let c = caller_of au hr; st = si_st si; fs = si_fs si; cd = si_cd si; su = si_su si; roots = allowed_roots st
      in case e of
           ListApps \<Rightarrow> (answered_by AApps (map_error get_error (list_applications fs cd s)), s, w, m)
         | CreateApp \<Rightarrow> (case request_manifest si hr of None \<Rightarrow> (AInvalid, s, w, m)
             | Some man \<Rightarrow> (case api_create su st fs cd c (hr_rival hr) man s of (x, s1) \<Rightarrow> (answered_by AApp x, s1, w, m)))
         | ValidateApp \<Rightarrow> (case request_manifest si hr of None \<Rightarrow> (AInvalid, s, w, m)
             | Some man \<Rightarrow> (AValidation (validate_manifest_paths st fs roots man), s, w, m))
         | GetApp k \<Rightarrow> (answered_by AApp (api_get fs cd k s), s, w, m)
         | UpdateApp k \<Rightarrow> (case request_manifest si hr of None \<Rightarrow> (AInvalid, s, w, m)
             | Some man \<Rightarrow> (case api_update su st fs cd c k man s of (x, s1) \<Rightarrow> (answered_by AApp x, s1, w, m)))
         | DeleteApp k \<Rightarrow> (case api_delete su c k s of (x, s1) \<Rightarrow> (answered_by (\<lambda>_. ANone) x, s1, w, m))
         | ValidateSaved k \<Rightarrow> (answered_by AValidation (api_validate_saved st fs cd k s), s, w, m)
         | ActApp act k \<Rightarrow> if hr_body hr \<noteq> [] then (ALife arguments_not_allowed, s, w, m)
             else (case action_op (lifecycle_service si c) k act s w of (x, s1, w1) \<Rightarrow>
               (life_answer AAction (map_error lifecycle_error x), s1, w1, m))
         | AppStatus k \<Rightarrow> (case status_op (lifecycle_service si plain_caller) k s w of (x, s1, w1) \<Rightarrow>
               (life_answer AState (map_error lifecycle_error x), s1, w1, m))
         | AppLogs k \<Rightarrow> (case log_lines si hr of None \<Rightarrow> (AInvalid, s, w, m)
             | Some n \<Rightarrow> (case logs_op (lifecycle_service si plain_caller) k n s w of (x, w1) \<Rightarrow>
                 (life_answer (\<lambda>(src, ls). ALogs src ls) (map_error lifecycle_error x), s, w1, m)))
         | UnitCheck k \<Rightarrow> (case api_unit_consistency si k w s of (x, s1) \<Rightarrow> (answered_by AUnit x, s1, w, m))
         | AppPorts k \<Rightarrow> (app_ports si k w (working s), s, w, m)
         | RefreshPorts k \<Rightarrow> if hr_body hr \<noteq> [] then (ALife arguments_not_allowed, s, w, m)
             else (app_ports si k w (working s), s, w, m)
         | AppEndpoints k \<Rightarrow> (case endpoint_scope hr of None \<Rightarrow> (AInvalid, s, w, m)
             | Some sc \<Rightarrow> (answered_by (\<lambda>(p, es). AEndpoints p es)
                 (api_endpoints st (si_requery si) fs cd (si_view si w) (si_view si w) (working s) k sc), s, w, m))
         | SystemPorts \<Rightarrow> (answered_by ASockets (api_system_ports si w (working s)), s, w, m)
         | Snapshot \<Rightarrow> (case latest r tm m of (x, m1) \<Rightarrow> (case x of Inr sn \<Rightarrow> ASnapshot sn | Inl er \<Rightarrow> ACrash er, s, w, m1))
         | AuditList \<Rightarrow> (case si_filters si (hr_query hr) of None \<Rightarrow> (AInvalid, s, w, m)
             | Some f \<Rightarrow> (answered_by (\<lambda>(es, more, nxt). AEvents es more nxt) (api_list_events (si_cursor si) (si_qs si) (working s) f), s, w, m))
         | AuditGet k \<Rightarrow> if 1 \<le> length k \<and> length k \<le> 36 then (answered_by AEvent (api_get_event (si_qs si) (working s) k), s, w, m)
             else (AInvalid, s, w, m))"

text \<open>A request to the API: its session begins with what is committed and ends by discarding the rest.\<close>

definition serve ::
    "('w, 'h) site \<Rightarrow> py_error + snapshot \<Rightarrow> int \<Rightarrow> http_request \<Rightarrow> 'w server \<Rightarrow> reply option \<times> 'w server"
where
  "serve si r tm hr srv =
     (case srv of (s, w, m) \<Rightarrow>
      case find_route (rq_method (hr_rq hr)) (hr_path hr) of
        None \<Rightarrow> (None, srv)
      | Some e \<Rightarrow> if takes_body e \<and> \<not> si_parses si hr then (Some AInvalid, rollback s, w, m)
          else (case require_http_auth (si_st si) (si_cr si) (si_su si) (hr_rq hr) (rollback s) of
             (Inl er, s1) \<Rightarrow> (Some (AError er), rollback s1, w, m)
           | (Inr au, s1) \<Rightarrow> (case handle si r tm e hr au (s1, w, m) of (a, s2, w2, m2) \<Rightarrow> (Some a, rollback s2, w2, m2))))"

section \<open>Around the routes\<close>

text \<open>The lifespan of the server up to its first request; the schema is there.\<close>

definition startup :: "('w, 'h) site \<Rightarrow> py_error + snapshot \<Rightarrow> 'w server \<Rightarrow> (string + unit) \<times> 'w server" where
  "startup si r srv = (case srv of (s, w, m) \<Rightarrow>
     (case reconcile_all_user_units (si_pe si) (si_su si) (si_st si) (si_fs si) (si_cd si) (si_units si w) (rollback s) of
        (Inl e, s1) \<Rightarrow> (Inl e, rollback s1, w, m)
      | (Inr _, s1) \<Rightarrow> (case start r m of
          (Inl e, m1) \<Rightarrow> (Inl (pe_name e), rollback s1, w, m1) | (Inr _, m1) \<Rightarrow> (Inr (), rollback s1, w, m1))))"

text \<open>Of a validation error of an authentication route, nothing of the input is sent back.\<close>

definition scrub_errors :: "string \<Rightarrow> (string \<times> json) list list \<Rightarrow> (string \<times> json) list list" where
  "scrub_errors path errors =
     (if \<not> startswith ''/api/v1/auth/'' path then errors
      else map (filter (\<lambda>e. fst e \<notin> {''input'', ''ctx'', ''url''})) errors)"

section \<open>Only authenticated requests act\<close>

text \<open>The request carries the token of a login that has neither ended nor been revoked.\<close>

definition logged_in :: "('w, 'h) site \<Rightarrow> request \<Rightarrow> store \<Rightarrow> session_row \<Rightarrow> admin_row \<Rightarrow> bool" where
  "logged_in si rq s r a \<longleftrightarrow> (\<exists>t. session_token rq = Some t \<and> se_token r = cr_digest (si_cr si) t)
     \<and> r \<in> set (auth_sessions (committed s)) \<and> se_revoked r = None \<and> now (si_su si) s < se_expires r
     \<and> a \<in> set (administrators (committed s)) \<and> ad_id a = se_admin r"

definition not_forged :: "('w, 'h) site \<Rightarrow> request \<Rightarrow> session_row \<Rightarrow> bool" where
  "not_forged si rq r \<longleftrightarrow> rq_method rq \<in> {''GET'', ''HEAD'', ''OPTIONS''}
     \<or> ((header rq ''origin'' = None \<or> origin_is_trusted (si_st si) (header rq ''origin''))
        \<and> (\<exists>t. header rq ''X-CSRF-Token'' = Some t \<and> t \<noteq> [] \<and> cr_digest (si_cr si) t = se_csrf r))"

definition refusal :: "('w, 'h) site \<Rightarrow> http_request \<Rightarrow> reply option \<Rightarrow> bool" where
  "refusal si hr a \<longleftrightarrow> a = None \<or> a = Some AInvalid \<and> \<not> si_parses si hr
     \<or> (\<exists>code d. a = Some (AError (HttpError code d)) \<and> (code = 401 \<or> code = 403))"

lemma auth_gate:
  assumes a: "require_http_auth (si_st si) (si_cr si) (si_su si) rq (rollback s) = (res, s1)"
  shows "committed s1 = committed s \<and> working s1 = committed s
    \<and> (case res of Inl e \<Rightarrow> (\<exists>code d. e = HttpError code d \<and> (code = 401 \<or> code = 403))
       | Inr au \<Rightarrow> logged_in si rq s (ah_session au) (ah_admin au) \<and> not_forged si rq (ah_session au))"
proof -
  obtain u s2 where t: "authenticate_token (si_cr si) (si_su si) (session_token rq) (rollback s) = (u, s2)" by fastforce
  note spec = authenticate_spec [OF t]
  show ?thesis
  proof (cases u)
    case None
    then show ?thesis using a t spec by (auto simp: require_http_auth_def)
  next
    case (Some au)
    have "logged_in si rq s (ah_session au) (ah_admin au)"
      using spec Some by (auto simp: logged_in_def now_def)
    then show ?thesis
      using a t spec Some
      by (auto simp: require_http_auth_def not_forged_def require_trusted_origin_def split: if_splits option.splits)
  qed
qed

lemma unauthenticated_inert:
  assumes run: "serve si r tm hr (s, w, m) = (a, s', w', m')"
    and none: "\<not> (\<exists>x y. logged_in si (hr_rq hr) s x y \<and> not_forged si (hr_rq hr) x)"
  shows "refusal si hr a \<and> committed s' = committed s \<and> w' = w \<and> m' = m"
proof (cases "find_route (rq_method (hr_rq hr)) (hr_path hr)")
  case None
  then show ?thesis using run by (simp add: serve_def refusal_def)
next
  case (Some e)
  show ?thesis
  proof (cases "takes_body e \<and> \<not> si_parses si hr")
    case True
    then show ?thesis using run Some by (auto simp: serve_def refusal_def)
  next
    case False
    obtain res s1 where g: "require_http_auth (si_st si) (si_cr si) (si_su si) (hr_rq hr) (rollback s) = (res, s1)" by fastforce
    obtain er where "res = Inl er" "\<exists>code d. er = HttpError code d \<and> (code = 401 \<or> code = 403)"
      using auth_gate [OF g] none by (cases res) auto
    then show ?thesis using run Some False g auth_gate [OF g] by (auto simp: serve_def refusal_def)
  qed
qed

text \<open>
  Property C2. No request to the application, system, dashboard or audit routes gets anything, or
  changes anything, without authentication: unless it carries the token of an unexpired, unrevoked
  login of the administrator, and, when its method is not a safe one, the CSRF token of that login
  and no untrusted origin, it is refused with 401 or 403 (or no such route exists, or its body is no JSON), and neither the
  database nor the host nor the dashboard has changed.
\<close>

theorem only_authenticated_requests_act:
  assumes run: "serve si r tm hr (s, w, m) = (a, s', w', m')"
    and none: "\<not> (\<exists>x y. logged_in si (hr_rq hr) s x y \<and> not_forged si (hr_rq hr) x)"
  shows "refusal si hr a \<and> committed s' = committed s \<and> w' = w \<and> m' = m"
  using assms by (rule unauthenticated_inert)

text \<open>A site over the sample parts, whose only decodable body is the sample manifest.\<close>

definition sample_site :: "(unit, unit) site" where
  "sample_site = \<lparr>si_st = sample_settings, si_cr = sample_crypto, si_su = sample_sources, si_fs = plain_fs, si_cd = sample_codec,
     si_adapter = (\<lambda>_. calm_adapter RUNNING), si_view = (\<lambda>_. sample_view []), si_pe = sample_pe, si_units = (\<lambda>_. bare_host),
     si_requery = id, si_cursor = tally_codec, si_qs = \<lparr>qs_parse = (\<lambda>_. []), qs_encode = (\<lambda>_. [])\<rparr>,
     si_parses = (\<lambda>_. True), si_body = (\<lambda>b. if b = ''demo'' then Some sample_manifest else None), si_int = (\<lambda>_. None), si_filters = (\<lambda>_. Some any_event)\<rparr>"

definition idle_metrics :: metrics where
  "idle_metrics = \<lparr>ms_snapshot = None, ms_running = False, ms_subscribers = [], ms_log = []\<rparr>"

definition api_call :: "string \<Rightarrow> string \<Rightarrow> (string \<times> string) list \<Rightarrow> string option \<Rightarrow> string \<Rightarrow> http_request" where
  "api_call verb path hs tok body = \<lparr>hr_rq = local_request verb hs tok, hr_path = path, hr_query = [], hr_body = body, hr_rival = False\<rparr>"

lemma delete_route: "find_route ''DELETE'' ''/api/v1/applications/demo'' = Some (DeleteApp ''demo'')"
  by code_simp

text \<open>A deletion with a stolen cookie but without its CSRF token.\<close>

theorem only_authenticated_requests_act_witness:
  "\<exists>a s' w' m'. serve sample_site (Inl (PyError FamOther ''RuntimeError'')) 0
       (api_call ''DELETE'' ''/api/v1/applications/demo'' [] (Some ''ttt'') []) (sample_store, (), idle_metrics) = (a, s', w', m')
     \<and> find_route ''DELETE'' ''/api/v1/applications/demo'' = Some (DeleteApp ''demo'')
     \<and> refusal sample_site (api_call ''DELETE'' ''/api/v1/applications/demo'' [] (Some ''ttt'') []) a \<and> committed s' = committed sample_store"
proof -
  let ?hr = "api_call ''DELETE'' ''/api/v1/applications/demo'' [] (Some ''ttt'') []"
  obtain a s' w' m' where run: "serve sample_site (Inl (PyError FamOther ''RuntimeError'')) 0 ?hr (sample_store, (), idle_metrics)
      = (a, s', w', m')" by (metis prod_cases4)
  have "\<not> not_forged sample_site (hr_rq ?hr) x" for x
    by (simp add: not_forged_def api_call_def local_request_def header_def)
  then show ?thesis
    using only_authenticated_requests_act [OF run] run delete_route by auto
qed

end
