(* ===== verification/ServerState.thy ===== *)
theory ServerState
  imports Server
begin

text \<open>
  The composition: what every state of a running server satisfies, whatever requests it has answered in
  whatever order. The registry and the lifecycle service know nothing of the tables of the
  authentication, and it knows nothing of theirs; both append to the audit log. Each side is proved
  once, for every predicate its own primitives keep (the two locales), and interpreted on the frame
  of the other side.
\<close>

section \<open>What the operations of each side are made of\<close>

locale supplied =
  fixes inv :: "store \<Rightarrow> bool"
  assumes tick_inv [simp]: "inv s \<Longrightarrow> inv (tick s)" and draw_inv [simp]: "inv s \<Longrightarrow> inv (draw s)"
    and commit_inv [simp]: "inv s \<Longrightarrow> inv (commit s)" and rollback_inv [simp]: "inv s \<Longrightarrow> inv (rollback s)"
    and add_audit_inv [simp]: "inv s \<Longrightarrow> inv (add_audit e s)"

locale api_closed = supplied +
  assumes add_app_inv [simp]: "inv s \<Longrightarrow> inv (add_app r s)" and add_inst_inv [simp]: "inv s \<Longrightarrow> inv (add_inst i s)"
    and add_exec_inv [simp]: "inv s \<Longrightarrow> inv (add_exec x s)" and save_app_inv [simp]: "inv s \<Longrightarrow> inv (save_app su r s)"
    and save_inst_inv [simp]: "inv s \<Longrightarrow> inv (save_inst su i s)" and save_exec_inv [simp]: "inv s \<Longrightarrow> inv (save_exec su x s)"
    and delete_app_inv [simp]: "inv s \<Longrightarrow> inv (delete_app k s)"
begin

lemma audit_inv [simp]: "inv s \<Longrightarrow> inv (audit su c act k d s)"
  by (simp add: audit_def)

lemma create_inv: "inv s \<Longrightarrow> inv (snd (create_application su fs cd c rival m s))"
  by (simp add: create_application_def Let_def)

lemma update_inv: "inv s \<Longrightarrow> inv (snd (update_application su fs cd c k m s))"
  by (simp add: update_application_def Let_def split: option.splits sum.splits)

lemma delete_inv: "inv s \<Longrightarrow> inv (snd (delete_application su c k s))"
  by (simp add: delete_application_def Let_def split: option.splits sum.splits)

lemma api_registry_inv:
  "api_create su st fs cd c rival m s = (x, s') \<Longrightarrow> inv s \<Longrightarrow> inv s'"
  "api_update su st fs cd c k m s = (y, s') \<Longrightarrow> inv s \<Longrightarrow> inv s'"
  "api_delete su c k s = (z, s') \<Longrightarrow> inv s \<Longrightarrow> inv s'"
  using create_inv [of s su fs cd c rival m] update_inv [of s su fs cd c k m] delete_inv [of s su c k]
  by (auto simp: api_create_def api_update_def api_delete_def apfst_def map_prod_def split: sum.splits prod.splits)

lemma state_record_inv: "state_record sv k s = (i, s') \<Longrightarrow> inv s \<Longrightarrow> inv s'"
  by (auto simp: state_record_def Let_def split: option.splits)

lemma save_state_inv: "save_state sv i s = (j, s') \<Longrightarrow> inv s \<Longrightarrow> inv s'"
  by (auto simp: save_state_def Let_def)

lemma stamp_inv: "stamp sv t s i = (j, s') \<Longrightarrow> inv s \<Longrightarrow> inv s'"
  by (auto simp: stamp_def split: if_splits option.splits)

lemma transition_inv: "transition sv i t err enforce s = (x, s') \<Longrightarrow> inv s \<Longrightarrow> inv s'"
  by (auto simp: transition_def Let_def intro: save_state_inv stamp_inv split: sum.splits prod.splits if_splits)

lemma apply_runtime_inv: "apply_runtime_state sv i rs s = (j, s') \<Longrightarrow> inv s \<Longrightarrow> inv s'"
  by (auto simp: apply_runtime_state_def Let_def intro: save_state_inv stamp_inv split: prod.splits)

lemma new_execution_inv: "new_execution sv k act s = (ex, s') \<Longrightarrow> inv s \<Longrightarrow> inv s'"
  by (auto simp: new_execution_def Let_def)

lemma finish_inv [simp]: "inv s \<Longrightarrow> inv (finish_execution sv ex ok exit code msg d s)"
  by (simp add: finish_execution_def Let_def)

lemma port_check_inv: "port_check sv k act m ex s w = (x, s') \<Longrightarrow> inv s \<Longrightarrow> inv s'"
  by (auto simp: port_check_def split: if_splits sum.splits disc_exn.splits list.splits)

lemma begin_inv: "begin_transition sv act i s = (x, s') \<Longrightarrow> inv s \<Longrightarrow> inv s'"
  by (auto simp: begin_transition_def intro: transition_inv split: sum.splits prod.splits if_splits)

lemma run_adapter_inv:
  assumes run: "run_adapter sv k act a ex i s w = (x, s', w')" and s: "inv s"
  shows "inv s'"
proof -
  have "inv (snd (transition sv i t err enforce s))" for t err enforce
    by (rule transition_inv [OF prod.collapse [symmetric] s])
  then show ?thesis using run s
    by (auto simp: run_adapter_def Let_def dest!: apply_runtime_inv split: sum.splits prod.splits if_splits)
qed

lemma status_inv: "status_op sv k s w = (x, s', w') \<Longrightarrow> inv s \<Longrightarrow> inv s'"
  by (auto simp: status_op_def Let_def intro: state_record_inv save_state_inv apply_runtime_inv split: sum.splits prod.splits if_splits)

lemma action_inv: "action_op sv k act s w = (x, s', w') \<Longrightarrow> inv s \<Longrightarrow> inv s'"
  by (auto simp: action_op_def Let_def
      dest!: state_record_inv new_execution_inv port_check_inv begin_inv run_adapter_inv
      split: sum.splits prod.splits if_splits option.splits transition_error.splits)

lemma check_unit_inv: "check_application_unit pe su st fs cd k w s = (x, s') \<Longrightarrow> inv s \<Longrightarrow> inv s'"
  by (auto simp: check_application_unit_def split: option.splits sum.splits)

lemma reconcile_inv: "reconcile_rows pe su st fs cd w rs s = (x, s') \<Longrightarrow> inv s \<Longrightarrow> inv s'"
proof (induction rs arbitrary: x s)
  case (Cons r rs)
  then show ?case by (auto dest: check_unit_inv split: option.splits sum.splits prod.splits runtime.splits)
qed simp

end

locale auth_closed = supplied +
  assumes add_admin_inv [simp]: "inv s \<Longrightarrow> inv (add_admin a s)" and add_session_inv [simp]: "inv s \<Longrightarrow> inv (add_session r s)"
    and add_failure_inv [simp]: "inv s \<Longrightarrow> inv (add_failure f s)" and save_admin_inv [simp]: "inv s \<Longrightarrow> inv (save_admin su a s)"
    and save_session_inv [simp]: "inv s \<Longrightarrow> inv (save_session r s)" and keep_failures_inv [simp]: "inv s \<Longrightarrow> inv (keep_failures P s)"
begin

lemma auth_audit_inv [simp]: "inv s \<Longrightarrow> inv (auth_audit su a b c d e s)"
  by (simp add: auth_audit_def)

lemma authenticate_inv: "authenticate_token cr su t s = (x, s') \<Longrightarrow> inv s \<Longrightarrow> inv s'"
  by (auto simp: authenticate_token_def split: option.splits if_splits)

lemma http_auth_inv: "require_http_auth st cr su rq s = (x, s') \<Longrightarrow> inv s \<Longrightarrow> inv s'"
  by (auto simp: require_http_auth_def dest: authenticate_inv split: option.splits if_splits prod.splits sum.splits)

lemma rotate_inv: "rotate_csrf cr r s = (x, s') \<Longrightarrow> inv s \<Longrightarrow> inv s'"
  by (auto simp: rotate_csrf_def Let_def)

lemma create_administrator_inv: "create_administrator cr su rival u p s = (x, s') \<Longrightarrow> inv s \<Longrightarrow> inv s'"
  by (auto simp: create_administrator_def Let_def split: if_splits)

lemma open_session_inv: "inv s \<Longrightarrow> inv (snd (open_session st cr su a s))"
  by (simp add: open_session_def create_auth_session_def set_session_cookie_def Let_def split: prod.splits)

lemma rate_limited_inv: "rate_limited st cr su remote s = (x, s') \<Longrightarrow> inv s \<Longrightarrow> inv s'"
  by (auto simp: rate_limited_def Let_def)

lemma verify_inv: "verify_credentials cr su u p s = (x, s') \<Longrightarrow> inv s \<Longrightarrow> inv s'"
  by (auto simp: verify_credentials_def Let_def split: if_splits option.splits)

lemma failure_inv [simp]: "inv s \<Longrightarrow> inv (record_login_failure cr su remote reason s)" "inv s \<Longrightarrow> inv (clear_login_failures cr remote s)"
  by (simp_all add: record_login_failure_def clear_login_failures_def Let_def)

lemma setup_inv: "inv s \<Longrightarrow> inv (snd (api_setup st cr su rival rq u p s))"
  by (auto simp: api_setup_def Let_def dest: create_administrator_inv intro: open_session_inv split: sum.splits prod.splits)

lemma login_inv: "inv s \<Longrightarrow> inv (snd (api_login st cr su rq u p s))"
  by (auto simp: api_login_def Let_def dest!: rate_limited_inv verify_inv intro!: open_session_inv
      split: sum.splits prod.splits bool.splits option.splits)

lemma session_inv: "inv s \<Longrightarrow> inv (snd (api_session st cr su rq s))"
  by (auto simp: api_session_def Let_def dest!: http_auth_inv rotate_inv split: sum.splits prod.splits)

lemma logout_inv: "inv s \<Longrightarrow> inv (snd (api_logout st cr su rq s))"
  by (auto simp: api_logout_def Let_def dest!: http_auth_inv split: sum.splits prod.splits)

lemma whoami_inv: "inv s \<Longrightarrow> inv (snd (api_auth_status cr su rq s))"
  by (auto simp: api_auth_status_def dest!: authenticate_inv split: prod.splits)

lemma handler_inv: "inv s \<Longrightarrow> inv (auth_handler st cr su op s)"
  by (cases op) (simp_all add: setup_inv login_inv session_inv logout_inv whoami_inv)

end

section \<open>The two frames\<close>

definition auth_tables :: "db \<Rightarrow> admin_row list \<times> session_row list \<times> failure_row list" where
  "auth_tables d = (administrators d, auth_sessions d, login_failures d)"

definition app_tables :: "db \<Rightarrow> app_row list \<times> inst_row list \<times> exec_row list" where
  "app_tables d = (applications d, instances d, executions d)"

text \<open>Both copies of the database have the same tables \<open>f\<close>; the supplies only advance; events are only appended.\<close>

definition frame :: "(db \<Rightarrow> 'p) \<Rightarrow> 'p \<Rightarrow> audit_row list \<Rightarrow> nat \<Rightarrow> nat \<Rightarrow> store \<Rightarrow> bool" where
  "frame f p es n t s \<longleftrightarrow> f (committed s) = p \<and> f (working s) = p \<and> n \<le> drawn s \<and> t \<le> ticks s
     \<and> prefix es (audit_events (committed s)) \<and> prefix es (audit_events (working s))"

lemma frame_self: "committed s = working s \<Longrightarrow> frame f (f (working s)) (audit_events (working s)) (drawn s) (ticks s) s"
  by (simp add: frame_def)

lemmas store_simps = tick_def draw_def commit_def rollback_def add_audit_def add_app_def add_inst_def add_exec_def
  save_app_def save_inst_def save_exec_def delete_app_def add_admin_def add_session_def add_failure_def
  save_admin_def save_session_def keep_failures_def

interpretation api: api_closed "frame auth_tables p es n t"
  by unfold_locales (auto simp: frame_def auth_tables_def store_simps)

interpretation login: auth_closed "frame app_tables p es n t"
  by unfold_locales (auto simp: frame_def app_tables_def store_simps)

lemma registry_ok_frame: "app_tables d = app_tables d' \<Longrightarrow> registry_ok su fs cd n d = registry_ok su fs cd n d'"
  by (simp add: app_tables_def registry_ok_def db_wf_def ids_drawn_def)

lemma auth_ok_frame:
  assumes ok: "auth_ok st cr su s" and fr: "frame auth_tables (auth_tables (working s)) es (drawn s) (ticks s) s'"
  shows "auth_ok st cr su s'"
proof -
  have "auth_inv st cr su (drawn s') (ticks s') d" if d: "auth_tables d = auth_tables (working s)" for d
  proof (rule iffD1 [OF auth_inv_cong])
    show "auth_inv st cr su (drawn s') (ticks s') (working s)"
      by (rule auth_inv_mono [of st cr su "drawn s" "ticks s"]) (use ok fr in \<open>simp_all add: auth_ok_def frame_def\<close>)
    show "administrators (working s) = administrators d" "auth_sessions (working s) = auth_sessions d"
      "login_failures (working s) = login_failures d" using d by (simp_all add: auth_tables_def)
  qed
  then show ?thesis using ok fr by (simp add: auth_ok_def frame_def)
qed

section \<open>The invariant of the server\<close>

definition server_ok :: "('w, 'h) site \<Rightarrow> store \<Rightarrow> bool" where
  "server_ok si s \<longleftrightarrow> store_ok (si_su si) (si_fs si) (si_cd si) s \<and> auth_ok (si_st si) (si_cr si) (si_su si) s"

text \<open>Every manifest a body can decode to is read back from its YAML as it was.\<close>

definition bodies_storable :: "('w, 'h) site \<Rightarrow> bool" where
  "bodies_storable si \<longleftrightarrow> (\<forall>b m. Option.bind (si_body si b) (validate_manifest (si_fs si)) = Some m \<longrightarrow> storable (si_fs si) (si_cd si) m)"

text \<open>What a request of the API keeps: the login tables, the events so far, and revoked tokens.\<close>

definition kept_by :: "('w, 'h) site \<Rightarrow> store \<Rightarrow> store \<Rightarrow> bool" where
  "kept_by si s s' \<longleftrightarrow> server_ok si s' \<and> prefix (audit_events (committed s)) (audit_events (committed s'))
     \<and> (\<forall>t. revoked_token (si_cr si) t (committed s) \<longrightarrow> revoked_token (si_cr si) t (committed s'))"

lemma kept_by_refl: "server_ok si s \<Longrightarrow> kept_by si s s"
  by (simp add: kept_by_def)

lemma kept_by_trans: "kept_by si s s1 \<Longrightarrow> kept_by si s1 s2 \<Longrightarrow> kept_by si s s2"
  by (auto simp: kept_by_def intro: prefix_order.trans)

lemma revoked_auth_tables: "auth_tables d = auth_tables e \<Longrightarrow> revoked_token cr t d = revoked_token cr t e"
  by (simp add: auth_tables_def revoked_token_def)

lemma api_kept_by:
  assumes ok: "server_ok si s"
    and fr: "frame auth_tables (auth_tables (working s)) (audit_events (working s)) (drawn s) (ticks s) s'"
    and reg: "registry_ok (si_su si) (si_fs si) (si_cd si) (drawn s') (committed s')"
  shows "kept_by si s (rollback s')"
proof -
  have c: "committed s = working s" using ok by (simp add: server_ok_def store_ok_def)
  have "auth_ok (si_st si) (si_cr si) (si_su si) (rollback s')"
    using auth_ok_frame [OF _ fr] ok by (simp add: server_ok_def)
  moreover have "store_ok (si_su si) (si_fs si) (si_cd si) (rollback s')" using reg by (simp add: store_ok_def)
  moreover have "revoked_token (si_cr si) t (committed s') = revoked_token (si_cr si) t (committed s)" for t
    using fr c by (intro revoked_auth_tables) (simp add: frame_def)
  ultimately show ?thesis
    using fr c by (simp add: kept_by_def server_ok_def frame_def)
qed

lemma auth_kept_by:
  assumes ok: "server_ok si s" and s': "s' = rollback (auth_handler (si_st si) (si_cr si) (si_su si) op (rollback s))"
  shows "kept_by si s s'"
proof -
  have c: "committed s = working s" "rollback s = s" using ok by (simp_all add: server_ok_def store_ok_def rollback_def)
  let ?h = "auth_handler (si_st si) (si_cr si) (si_su si) op s"
  have h: "sound_step (si_st si) (si_cr si) (si_su si) s ?h" using ok auth_handler_sound by (simp add: server_ok_def)
  have fr: "frame app_tables (app_tables (working s)) (audit_events (working s)) (drawn s) (ticks s) ?h"
    by (rule login.handler_inv [OF frame_self [OF c(1)]])
  have "registry_ok (si_su si) (si_fs si) (si_cd si) (drawn ?h) (committed ?h)"
    using fr ok registry_ok_mono registry_ok_frame [of "committed ?h" "working s"] c
    by (auto simp: frame_def server_ok_def store_ok_def)
  moreover have "s' = rollback ?h" by (simp only: s' c)
  ultimately show ?thesis
    using h fr c sound_ok [OF h] by (simp add: kept_by_def server_ok_def store_ok_def frame_def sound_step_def)
qed

section \<open>One request\<close>

lemma check_unit_kept:
  assumes e: "check_application_unit pe su st fs cd k w s = (x, s')" and ok: "store_ok su fs cd s"
  shows "store_ok su fs cd s'"
proof (cases "s' = s")
  case False
  let ?sv = "\<lparr>sv_su = su, sv_st = st, sv_fs = fs, sv_cd = cd, sv_caller = plain_caller,
    sv_adapter = (\<lambda>_. calm_adapter RUNNING), sv_view = (\<lambda>_. sample_view [])\<rparr>"
  obtain r i where i: "latest_state (working s) k = Some i" and s': "s' = commit (save_inst su (note_consistency r i) s)"
    using e False by (auto simp: check_application_unit_def split: option.splits sum.splits)
  have h: "has_inst (note_consistency r i) (working s)"
    using latest_state_mem [OF i] by (auto simp: has_inst_def note_consistency_def)
  have R: "reg_ok ?sv s" using ok by (simp add: reg_ok_def store_ok_def)
  obtain j where "save_state ?sv (note_consistency r i) s = (j, s')" by (simp add: save_state_def Let_def s')
  then have sd: "saved (note_consistency r i) s j s'" by (rule save_state_saved [OF reg_distinct [OF R] h])
  then show ?thesis using saved_reg(1) [OF R h sd] by (simp add: store_ok_def reg_ok_def saved_def)
qed (simp add: ok)

lemma reconcile_kept:
  "reconcile_rows pe su st fs cd w rs s = (x, s') \<Longrightarrow> store_ok su fs cd s \<Longrightarrow> store_ok su fs cd s'"
proof (induction rs arbitrary: x s)
  case (Cons r rs)
  then show ?case by (auto dest: check_unit_kept split: option.splits sum.splits prod.splits runtime.splits)
qed simp

text \<open>The branches of \<open>handle\<close> that leave the store alone, and the seven that may not.\<close>

lemma handle_store:
  assumes h: "handle si r tm e hr au (s, w, m) = (a, s', w', m')"
  obtains (same) "s' = s"
  | (create) man x c where "request_manifest si hr = Some man"
      "api_create (si_su si) (si_st si) (si_fs si) (si_cd si) c (hr_rival hr) man s = (x, s')"
  | (update) man x c k where "request_manifest si hr = Some man"
      "api_update (si_su si) (si_st si) (si_fs si) (si_cd si) c k man s = (x, s')"
  | (delete) x c k where "api_delete (si_su si) c k s = (x, s')"
  | (action) x c k act where "action_op (lifecycle_service si c) k act s w = (x, s', w')"
  | (status) x c k where "status_op (lifecycle_service si c) k s w = (x, s', w')"
  | (unit) x k where "check_application_unit (si_pe si) (si_su si) (si_st si) (si_fs si) (si_cd si) k (si_units si w) s = (x, s')"
proof (cases e)
  case CreateApp
  then show thesis using h create same by (auto simp: handle_def Let_def split: option.splits prod.splits)
next
  case (UpdateApp k)
  then show thesis using h update same by (auto simp: handle_def Let_def split: option.splits prod.splits)
next
  case (DeleteApp k)
  then show thesis using h delete by (auto simp: handle_def Let_def split: prod.splits)
next
  case (ActApp act k)
  then show thesis using h action same by (auto simp: handle_def Let_def split: prod.splits if_splits)
next
  case (AppStatus k)
  then show thesis using h status by (auto simp: handle_def Let_def split: prod.splits)
next
  case (UnitCheck k)
  then show thesis using h unit by (auto simp: handle_def api_unit_consistency_def Let_def split: prod.splits sum.splits)
qed (use h same in \<open>auto simp: handle_def Let_def split: option.splits prod.splits if_splits\<close>)

lemma api_registry_runs:
  "api_create su st fs cd c rival m s = (x, s') \<Longrightarrow> s' \<in> {s, snd (create_application su fs cd c rival m s)}"
  "api_update su st fs cd c k m s = (x, s') \<Longrightarrow> s' \<in> {s, snd (update_application su fs cd c k m s)}"
  "api_delete su c k s = (y, s') \<Longrightarrow> s' = snd (delete_application su c k s)"
  by (cases "create_application su fs cd c rival m s"; cases "update_application su fs cd c k m s";
      cases "delete_application su c k s"; auto simp: api_create_def api_update_def api_delete_def split: sum.splits)+

lemma handle_kept:
  assumes h: "handle si r tm e hr au (s, w, m) = (a, s', w', m')" and ok: "store_ok (si_su si) (si_fs si) (si_cd si) s"
    and b: "bodies_storable si"
  shows "registry_ok (si_su si) (si_fs si) (si_cd si) (drawn s') (committed s')"
proof -
  have weak: ?thesis if "store_ok (si_su si) (si_fs si) (si_cd si) s'" using that by (simp add: store_ok_def)
  have st: "storable (si_fs si) (si_cd si) man" if "request_manifest si hr = Some man" for man
    using that b by (simp add: request_manifest_def bodies_storable_def)
  have sv: "service_ok (lifecycle_service si c) s" for c using ok by (simp add: service_ok_def lifecycle_service_def)
  from h show ?thesis
  proof (cases rule: handle_store)
    case same
    then show ?thesis using ok by (intro weak) simp
  next
    case (create man x c)
    then show ?thesis using create_ok [OF ok st [OF create(1)]] api_registry_runs(1) [OF create(2)] ok by (intro weak) auto
  next
    case (update man x c k)
    then show ?thesis using update_ok [OF ok st [OF update(1)]] api_registry_runs(2) [OF update(2)] ok by (intro weak) auto
  next
    case (delete x c k)
    then show ?thesis using delete_ok [OF ok, of c k] api_registry_runs(3) [OF delete] by (intro weak) simp
  next
    case (action x c k act)
    then show ?thesis using action_kept [OF action sv] by (simp add: kept_def lifecycle_service_def)
  next
    case (status x c k)
    then show ?thesis using status_kept [OF status sv] by (simp add: kept_def lifecycle_service_def)
  next
    case (unit x k)
    then show ?thesis using check_unit_kept [OF unit ok] by (intro weak)
  qed
qed

lemma handle_frame:
  assumes h: "handle si r tm e hr au (s, w, m) = (a, s', w', m')" and s: "frame auth_tables p es n t s"
  shows "frame auth_tables p es n t s'"
  using h
proof (cases rule: handle_store)
  case same
  then show ?thesis using s by simp
qed (use s in \<open>blast intro: api.api_registry_inv api.action_inv api.status_inv api.check_unit_inv\<close>)+

lemma auth_supply:
  assumes a: "require_http_auth st cr su rq s = (res, s1)"
  shows "s1 = s \<or> s1 = tick s"
  using a by (auto simp: require_http_auth_def authenticate_token_def split: option.splits if_splits sum.splits)

lemma server_ok_rollback: "server_ok si s \<Longrightarrow> rollback s = s"
  by (simp add: server_ok_def store_ok_def rollback_def)

lemma serve_ends:
  assumes run: "serve si r tm hr (s, w, m) = (a, s', w', m')" and r: "rollback s = s"
  obtains (early) "s' = s"
  | (refused) er s1 where "require_http_auth (si_st si) (si_cr si) (si_su si) (hr_rq hr) s = (Inl er, s1)" "s' = rollback s1"
  | (handled) e au s1 x s2 where "require_http_auth (si_st si) (si_cr si) (si_su si) (hr_rq hr) s = (Inr au, s1)"
      "handle si r tm e hr au (s1, w, m) = (x, s2, w', m')" "s' = rollback s2"
  using run r by (auto simp: serve_def split: option.splits if_splits sum.splits prod.splits)

lemma serve_kept_by:
  assumes run: "serve si r tm hr (s, w, m) = (a, s', w', m')" and ok: "server_ok si s" and b: "bodies_storable si"
  shows "kept_by si s s'"
proof -
  have c: "committed s = working s" using ok by (simp add: server_ok_def store_ok_def)
  let ?fr = "frame auth_tables (auth_tables (working s)) (audit_events (working s)) (drawn s) (ticks s)"
  have s1: "?fr s1" "store_ok (si_su si) (si_fs si) (si_cd si) s1"
    if "require_http_auth (si_st si) (si_cr si) (si_su si) (hr_rq hr) s = (res, s1)" for res s1
    using auth_supply [OF that] frame_self [OF c] ok by (auto simp: server_ok_def store_ok_def)
  from run server_ok_rollback [OF ok] show ?thesis
  proof (cases rule: serve_ends)
    case early
    then show ?thesis using kept_by_refl [OF ok] by simp
  next
    case (refused er s2)
    show ?thesis unfolding refused(2)
      by (rule api_kept_by [OF ok s1(1) [OF refused(1)]]) (use s1(2) [OF refused(1)] in \<open>simp add: store_ok_def\<close>)
  next
    case (handled e au s2 x s3)
    show ?thesis unfolding handled(3)
      by (rule api_kept_by [OF ok handle_frame [OF handled(2) s1(1) [OF handled(1)]]
            handle_kept [OF handled(2) s1(2) [OF handled(1)] b]])
  qed
qed

lemma startup_kept_by:
  assumes run: "startup si r (s, w, m) = (x, s', w', m')" and ok: "server_ok si s"
  shows "kept_by si s s'"
proof -
  let ?rows = "filter (\<lambda>r. ap_runtime_type r = ''process'') (applications (working s))"
  obtain y s1 where rec: "reconcile_rows (si_pe si) (si_su si) (si_st si) (si_fs si) (si_cd si) (si_units si w) ?rows s = (y, s1)"
    by fastforce
  have c: "committed s = working s" "store_ok (si_su si) (si_fs si) (si_cd si) s"
    using ok by (simp_all add: server_ok_def store_ok_def)
  have "s' = rollback s1"
    using run rec server_ok_rollback [OF ok] c(1) by (auto simp: startup_def reconcile_all_user_units_def split: sum.splits prod.splits)
  then show ?thesis
    using api_kept_by [OF ok api.reconcile_inv [OF rec frame_self [OF c(1)]]] reconcile_kept [OF rec c(2)] by (simp add: store_ok_def)
qed

section \<open>The runs of the server\<close>

text \<open>One step: a start of the process, a request of the API, a request of the authentication routes,
  or anything that happens on the host or among the subscribers of the dashboard.\<close>

inductive server_step :: "('w, 'h) site \<Rightarrow> 'w server \<Rightarrow> 'w server \<Rightarrow> bool" for si where
  boots: "startup si r srv = (x, srv') \<Longrightarrow> server_step si srv srv'"
| answers: "serve si r tm hr srv = (a, srv') \<Longrightarrow> server_step si srv srv'"
| authenticates: "s' = rollback (auth_handler (si_st si) (si_cr si) (si_su si) op (rollback s)) \<Longrightarrow> server_step si (s, w, m) (s', w, m)"
| elsewhere: "server_step si (s, w, m) (s, w', m')"

definition runs_to :: "('w, 'h) site \<Rightarrow> 'w server \<Rightarrow> 'w server \<Rightarrow> bool" where
  "runs_to si = (server_step si)\<^sup>*\<^sup>*"

lemma step_kept_by:
  assumes st: "server_step si (s, w, m) (s', w', m')" and ok: "server_ok si s" and b: "bodies_storable si"
  shows "kept_by si s s'"
  using st
proof (cases rule: server_step.cases)
  case (boots r x)
  then show ?thesis using startup_kept_by [OF _ ok] by blast
next
  case (answers r tm hr a)
  then show ?thesis using serve_kept_by [OF _ ok b] by blast
next
  case (authenticates op)
  then show ?thesis by (intro auth_kept_by [OF ok]) simp
next
  case elsewhere
  then show ?thesis using kept_by_refl [OF ok] by simp
qed

lemma runs_kept_by:
  assumes run: "runs_to si (s, w, m) srv" and ok: "server_ok si s" and b: "bodies_storable si"
  shows "kept_by si s (fst srv)"
  using run unfolding runs_to_def
proof (induction rule: rtranclp_induct)
  case base
  then show ?case by (simp add: kept_by_refl [OF ok])
next
  case (step y z)
  obtain s1 w1 m1 s2 w2 m2 where yz: "y = (s1, w1, m1)" "z = (s2, w2, m2)" by (metis prod_cases3)
  then have k: "kept_by si s s1" using step.IH by simp
  have "kept_by si s1 s2"
    by (rule step_kept_by [OF step.hyps(2) [unfolded yz] _ b]) (use k in \<open>simp add: kept_by_def\<close>)
  then show ?case using kept_by_trans [OF k] yz by simp
qed

lemma fresh_server_ok: "random_ok (si_cr si) (si_su si) \<Longrightarrow> server_ok si empty_store"
  unfolding server_ok_def store_ok_def registry_ok_def
  by (simp add: empty_auth_ok random_ok_def) (simp add: empty_store_def empty_db_def db_wf_def ids_drawn_def)

lemma fresh_run:
  assumes "runs_to si (empty_store, w, m) (s, w', m')" "random_ok (si_cr si) (si_su si)" "bodies_storable si"
  shows "server_ok si s"
  using runs_kept_by [OF assms(1) fresh_server_ok [OF assms(2)] assms(3)] by (simp add: kept_by_def)

section \<open>A sample run\<close>

lemma run_auth_runs: "runs_to si (s, w, m) (run_auth (si_st si) (si_cr si) (si_su si) ops s, w, m)"
proof (induction ops arbitrary: s)
  case (Cons op ops)
  have "server_step si (s, w, m) (rollback (auth_handler (si_st si) (si_cr si) (si_su si) op (rollback s)), w, m)"
    by (rule server_step.authenticates) simp
  then show ?case using Cons.IH unfolding runs_to_def by (auto intro: converse_rtranclp_into_rtranclp)
qed (simp add: runs_to_def)

definition first_setup :: store where
  "first_setup = run_auth sample_settings sample_crypto sample_sources
     [OpSetup False (local_request ''POST'' [] None) ''admin'' ''password''] empty_store"

definition after_logout :: store where
  "after_logout = run_auth sample_settings sample_crypto sample_sources
     [OpLogout (local_request ''POST'' [(''x-csrf-token'', ''ttttt'')] (Some ''tttt''))] first_setup"

lemma sample_parts: "si_st sample_site = sample_settings" "si_cr sample_site = sample_crypto" "si_su sample_site = sample_sources"
  by (simp_all add: sample_site_def)

lemma sample_env: "random_ok (si_cr sample_site) (si_su sample_site)" "bodies_storable sample_site"
  using sample_random by (simp_all add: sample_parts bodies_storable_def) (simp add: sample_site_def)

lemma sample_run:
  "runs_to sample_site (empty_store, (), idle_metrics) (first_setup, (), idle_metrics)"
  "runs_to sample_site (first_setup, (), idle_metrics) (after_logout, (), idle_metrics)"
  unfolding first_setup_def after_logout_def by (rule run_auth_runs [of sample_site, unfolded sample_parts])+

lemma sample_run_past: "runs_to sample_site (empty_store, (), idle_metrics) (after_logout, (), idle_metrics)"
  using sample_run unfolding runs_to_def by (rule rtranclp_trans)

lemma after_logout_rows:
  "list_ex (\<lambda>r. se_token r = ''tttt'' \<and> se_revoked r \<noteq> None) (auth_sessions (committed after_logout))"
  "map au_action (audit_events (committed first_setup)) = [''auth.setup'']"
  "map au_action (audit_events (committed after_logout)) = [''auth.setup'', ''auth.logout'']"
  by code_simp+

section \<open>Properties\<close>

text \<open>
  Property C1. Whatever the server, started on an empty database, has answered - requests of the
  application routes, logins, setups and logouts in any order, restarts and changes of the host in
  between - the two sides keep each other's tables in order: application ids, execution ids, state rows,
  sessions and their token digests are unique, a state row belongs to an application, every stored
  manifest loads and agrees with its row, at most one administrator exists, every session is his, and
  no address has more failed logins in one window than the settings allow.
\<close>

theorem server_sound:
  assumes run: "runs_to si (empty_store, w, m) (s, w', m')"
    and env: "random_ok (si_cr si) (si_su si)" "bodies_storable si"
  shows "distinct (map ap_id (applications (committed s))) \<and> distinct (map ex_id (executions (committed s)))
    \<and> distinct (map in_app (instances (committed s)))
    \<and> in_app ` set (instances (committed s)) \<subseteq> ap_id ` set (applications (committed s))
    \<and> (\<forall>r\<in>set (applications (committed s)). \<exists>man. decode (si_fs si) (si_cd si) (ap_config r) = Some man
        \<and> man_id man = ap_id r \<and> man_name man = ap_name r \<and> man_enabled man = ap_enabled r)
    \<and> length (administrators (committed s)) \<le> 1
    \<and> distinct (map se_id (auth_sessions (committed s))) \<and> distinct (map se_token (auth_sessions (committed s)))
    \<and> se_admin ` set (auth_sessions (committed s)) \<subseteq> ad_id ` set (administrators (committed s))
    \<and> (\<forall>key x. int (length (failures_from key x (login_window (si_st si)) (login_failures (committed s))))
          \<le> max 0 (login_max_failures (si_st si)))"
proof -
  have ok: "server_ok si s" by (rule fresh_run [OF run env])
  then have "registry_ok (si_su si) (si_fs si) (si_cd si) (drawn s) (committed s)" by (simp add: server_ok_def store_ok_def)
  moreover have "sessions_ok (si_cr si) (si_su si) (drawn s) (committed s)"
    "throttled (si_st si) (si_su si) (ticks s) (login_failures (committed s))"
    using ok by (simp_all add: server_ok_def auth_ok_def auth_inv_def)
  ultimately show ?thesis
    unfolding sessions_ok_def throttled_def
    by (fastforce simp: registry_ok_def db_wf_def row_ok_def split: option.splits)
qed

theorem server_sound_witness:
  "distinct (map se_token (auth_sessions (committed after_logout))) \<and> length (administrators (committed after_logout)) \<le> 1
    \<and> auth_sessions (committed after_logout) \<noteq> []"
  using server_sound [OF sample_run_past sample_env] after_logout_rows(1) by fastforce

text \<open>
  Property C4. The audit log is append-only: no request, whoever sends it and whether it succeeds or
  fails, and no restart removes or rewrites an event that has been committed.
\<close>

theorem audit_log_append_only:
  assumes "runs_to si (empty_store, w, m) (s, w', m')" "runs_to si (s, w', m') (s2, w2, m2)"
    and "random_ok (si_cr si) (si_su si)" "bodies_storable si"
  shows "prefix (audit_events (committed s)) (audit_events (committed s2))"
  using runs_kept_by [OF assms(2) fresh_run [OF assms(1,3,4)] assms(4)] by (simp add: kept_by_def)

theorem audit_log_append_only_witness:
  "prefix (audit_events (committed first_setup)) (audit_events (committed after_logout))
    \<and> length (audit_events (committed first_setup)) = 1 \<and> length (audit_events (committed after_logout)) = 2"
  using audit_log_append_only [OF sample_run sample_env] after_logout_rows(2,3) [THEN arg_cong, of length] by simp

lemma revoked_refused:
  assumes ok: "server_ok si s" and t: "session_token rq = Some t" "revoked_token (si_cr si) t (committed s)"
  shows "\<not> logged_in si rq s x y"
proof
  assume l: "logged_in si rq s x y"
  then have x: "x \<in> set (auth_sessions (committed s))" "se_token x = cr_digest (si_cr si) t" "se_revoked x = None"
    using t(1) by (auto simp: logged_in_def)
  obtain r where r: "r \<in> set (auth_sessions (committed s))" "se_token r = cr_digest (si_cr si) t" "se_revoked r \<noteq> None"
    using t(2) by (auto simp: revoked_token_def)
  have "distinct (map se_token (auth_sessions (committed s)))"
    using ok by (simp add: server_ok_def auth_ok_def auth_inv_def sessions_ok_def)
  then have "x = r" using x r by (simp add: distinct_map inj_on_def)
  then show False using x r by simp
qed

text \<open>
  Property C3. A logout is final everywhere: once a token is revoked, no later request that carries it -
  after any requests of anyone, restarts included - reaches an application, system, dashboard or audit
  route; it is refused and changes nothing.
\<close>

theorem revoked_token_refused_everywhere:
  assumes past: "runs_to si (empty_store, w, m) (s, w', m')" and env: "random_ok (si_cr si) (si_su si)" "bodies_storable si"
    and t: "revoked_token (si_cr si) t (committed s)" "session_token (hr_rq hr) = Some t"
    and later: "runs_to si (s, w', m') (s2, w2, m2)" and run: "serve si r tm hr (s2, w2, m2) = (a, s3, w3, m3)"
  shows "refusal si hr a \<and> committed s3 = committed s2 \<and> w3 = w2 \<and> m3 = m2"
proof -
  have ok: "server_ok si s" by (rule fresh_run [OF past env])
  have k: "kept_by si s s2" using runs_kept_by [OF later ok env(2)] by simp
  then have "\<not> logged_in si (hr_rq hr) s2 x y" for x y
    using t by (intro revoked_refused) (auto simp: kept_by_def)
  then show ?thesis by (intro unauthenticated_inert [OF run]) blast
qed

theorem revoked_token_refused_everywhere_witness:
  "\<exists>a s' w' m'. serve sample_site (Inl (PyError FamOther ''RuntimeError'')) 0
       (api_call ''GET'' ''/api/v1/audit-events'' [] (Some ''tttt'') []) (after_logout, (), idle_metrics) = (a, s', w', m')
     \<and> refusal sample_site (api_call ''GET'' ''/api/v1/audit-events'' [] (Some ''tttt'') []) a \<and> committed s' = committed after_logout"
proof -
  let ?hr = "api_call ''GET'' ''/api/v1/audit-events'' [] (Some ''tttt'') []"
  obtain a s' w' m' where run: "serve sample_site (Inl (PyError FamOther ''RuntimeError'')) 0 ?hr (after_logout, (), idle_metrics)
      = (a, s', w', m')" by (metis prod_cases4)
  have "cr_digest (si_cr sample_site) ''tttt'' = ''tttt''" by (simp add: sample_parts sample_crypto_def)
  then have "revoked_token (si_cr sample_site) ''tttt'' (committed after_logout)"
    using after_logout_rows(1) by (simp add: revoked_token_def list_ex_iff)
  moreover have "session_token (hr_rq ?hr) = Some ''tttt''" by (simp add: api_call_def local_request_def session_token_def)
  moreover have "runs_to sample_site (after_logout, (), idle_metrics) (after_logout, (), idle_metrics)" by (simp add: runs_to_def)
  ultimately show ?thesis using revoked_token_refused_everywhere [OF sample_run_past sample_env] run by blast
qed

end
