(* ===== verification/Doctor.thy ===== *)
theory Doctor
  imports Complex_Main Deploy
begin

text \<open>
  \<open>doctor\<close> and \<open>main\<close> of \<open>scripts/machinedeck_deploy.py\<close>: the checks of an installation, the exit
  status they give, and the exit status of the installer's commands. What Python and the system tell
  the doctor beyond \<open>deploy_env\<close> is \<open>doctor_env\<close>: the version of Python, the permission bits of a
  file, the revision in the database (or the text of SQLite's error), total and free bytes of a file
  system, the format of a percentage and the text of an OSError.
\<close>

record doctor_env =
  dr_python :: string
  dr_mode :: "files \<Rightarrow> path \<Rightarrow> int"
  dr_revision :: "files \<Rightarrow> path \<Rightarrow> string + string option"
  dr_disk :: "files \<Rightarrow> path \<Rightarrow> deploy_exn + int \<times> int"
  dr_percent :: "rat \<Rightarrow> string"
  dr_oserror :: string

record doctor_check =
  dc_status :: string
  dc_name :: string
  dc_detail :: string

definition check :: "string \<Rightarrow> string \<Rightarrow> string \<Rightarrow> doctor_check" where
  "check st name detail = \<lparr>dc_status = st, dc_name = name, dc_detail = detail\<rparr>"

definition pass_or :: "string \<Rightarrow> bool \<Rightarrow> string" where
  "pass_or st ok = (if ok then ''PASS'' else st)"

fun oct_digits :: "nat \<Rightarrow> string" where
  "oct_digits n = (if n < 8 then [] else oct_digits (n div 8)) @ [char_of (48 + n mod 8)]"

definition oct :: "int \<Rightarrow> string" where
  "oct n = ''0o'' @ oct_digits (nat n)"

text \<open>\<open>mode & 0o077 == 0\<close>.\<close>

definition private_mode :: "int \<Rightarrow> bool" where
  "private_mode mode \<longleftrightarrow> mode mod 64 = 0"

definition mode_check :: "doctor_env \<Rightarrow> string \<Rightarrow> files \<Rightarrow> path \<Rightarrow> doctor_check" where
  "mode_check D name fs p = check (pass_or ''ERROR'' (private_mode (dr_mode D fs p))) name (oct (dr_mode D fs p))"

section \<open>Installed files\<close>

definition pointer_checks :: "deploy_env \<Rightarrow> install_paths \<Rightarrow> (doctor_check list \<times> path option) io" where
  "pointer_checks E ip = io_bind (io_get (\<lambda>s. current_target E ip (s_files s))) (\<lambda>r. case r of
     Inl (DeployError m) \<Rightarrow> io_ret ([check ''ERROR'' ''Release pointer'' m], None)
   | Inl e \<Rightarrow> io_raise e
   | Inr release \<Rightarrow> io_ret ([], release))"

definition version_check :: "deploy_env \<Rightarrow> path option \<Rightarrow> files \<Rightarrow> doctor_check" where
  "version_check E release fs =
     (case Option.bind release (\<lambda>r. p_text E fs (under r ''VERSION'')) of
        Some t \<Rightarrow> check ''PASS'' ''Version'' (py_strip t)
      | None \<Rightarrow> check ''ERROR'' ''Installation'' ''No installed release'')"

definition path_check :: "deploy_env \<Rightarrow> files \<Rightarrow> string \<times> path \<Rightarrow> doctor_check" where
  "path_check E fs e = (case e of (name, p) \<Rightarrow>
     if p_is_symlink fs p then check ''ERROR'' name (''Unsafe symlink: '' @ path_str p)
     else if p_exists E fs p then check ''PASS'' name (path_str p)
     else check ''ERROR'' name (''Missing: '' @ path_str p))"

definition path_checks :: "deploy_env \<Rightarrow> install_paths \<Rightarrow> files \<Rightarrow> doctor_check list" where
  "path_checks E ip fs = map (path_check E fs)
     [(''Configuration'', ip_config ip), (''Database'', database_path ip), (''User unit'', ip_unit ip)]"

section \<open>The server configuration\<close>

definition cookie_policy :: "(toml \<Rightarrow> string) \<Rightarrow> toml \<Rightarrow> string" where
  "cookie_policy rp v = (case v of TBool b \<Rightarrow> if b then ''secure'' else ''insecure'' | _ \<Rightarrow> py_lower (toml_str rp v))"

definition cookie_secure :: "string \<Rightarrow> string \<Rightarrow> bool" where
  "cookie_secure mode policy = (if policy = ''auto'' then mode = ''proxy'' else policy = ''secure'' \<or> policy = ''true'')"

definition cookie_check :: "(toml \<Rightarrow> string) \<Rightarrow> server_configuration \<Rightarrow> doctor_check" where
  "cookie_check rp c =
     (let policy = cookie_policy rp (sc_cookie c); secure = cookie_secure (sc_mode c) policy;
          st = (if sc_mode c = ''lan'' \<and> \<not> secure then ''WARN'' else if sc_mode c = ''proxy'' \<and> \<not> secure then ''ERROR'' else ''PASS'')
      in check st ''Session Cookie policy''
           (policy @ ''; resolved Secure='' @ (if secure then ''true'' else ''false'')
            @ (if st = ''WARN'' then ''; LAN HTTP is not encrypted'' else [])))"

definition external_networks :: "server_configuration \<Rightarrow> string list" where
  "external_networks c = filter (\<lambda>v. v \<noteq> ''127.0.0.0/8'' \<and> v \<noteq> ''::1/128'') (sc_networks c)"

definition listed :: "string \<Rightarrow> string list \<Rightarrow> string" where
  "listed none vs = (if vs = [] then none else join_with '', '' vs)"

definition server_checks :: "(toml \<Rightarrow> string) \<Rightarrow> server_configuration \<Rightarrow> doctor_check list" where
  "server_checks rp c =
     [check ''PASS'' ''Network access mode'' (sc_mode c @ '' ('' @ sc_host c @ '':'' @ int_str (sc_port c) @ '')''),
      cookie_check rp c,
      check (pass_or ''WARN'' (\<not> ((sc_mode c = ''lan'' \<or> sc_mode c = ''proxy'') \<and> access_urls c = []))) ''Trusted browser Origins''
        (listed ''no external access URL configured'' (access_urls c)),
      check (pass_or ''WARN'' (\<not> (sc_mode c = ''proxy'' \<and> sc_proxies c = []))) ''Trusted proxy CIDRs''
        (listed ''none; forwarding headers are ignored'' (sc_proxies c)),
      check (pass_or ''WARN'' (\<not> (sc_mode c = ''lan'' \<and> external_networks c = []))) ''Trusted network CIDRs''
        (listed ''none; trusted networks never bypass authentication'' (sc_networks c))]"

definition ufw_command :: "deploy_env \<Rightarrow> command" where
  "ufw_command E = \<lparr>c_args = [''ufw'', ''status''], c_cwd = None,
     c_env = fold (\<lambda>(k, v). AList.update k v) [(''LC_ALL'', ''C''), (''LANG'', ''C'')] (de_environ E)\<rparr>"

text \<open>UFW is asked in LAN mode only; otherwise the answer does not matter.\<close>

definition firewall_check :: "deploy_env \<Rightarrow> server_configuration \<Rightarrow> doctor_check io" where
  "firewall_check E c =
     io_bind (if sc_mode c = ''lan'' then run_process E False (ufw_command E)
              else io_ret \<lparr>co_status = 0, co_out = [], co_err = []\<rparr>) (\<lambda>r.
     io_bind (io_of (firewall_doctor_check c r)) (\<lambda>a.
       io_ret (check (fa_status a) ''Firewall policy'' (fa_detail a))))"

definition network_checks :: "deploy_env \<Rightarrow> install_paths \<Rightarrow> (doctor_check list \<times> server_configuration option) io" where
  "network_checks E ip =
     io_bind (io_get (\<lambda>s. read_server_configuration (de_toml E) (p_text E (s_files s) (ip_config ip)))) (\<lambda>r. case r of
       Inl (DeployError m) \<Rightarrow> io_ret ([check ''ERROR'' ''Network configuration'' m], None)
     | Inl e \<Rightarrow> io_raise e
     | Inr c \<Rightarrow> (\<lambda>s. case firewall_check E c s of
         (Inr w, t) \<Rightarrow> (Inr (server_checks (tl_str (de_toml E)) c @ [w], Some c), t)
       | (Inl (DeployError m), t) \<Rightarrow>
           (Inr (server_checks (tl_str (de_toml E)) c @ [check ''ERROR'' ''Network configuration'' m], Some c), t)
       | (Inl e, t) \<Rightarrow> (Inl e, t)))"

definition regular :: "deploy_env \<Rightarrow> files \<Rightarrow> path \<Rightarrow> bool" where
  "regular E fs p \<longleftrightarrow> p_exists E fs p \<and> \<not> p_is_symlink fs p"

definition config_checks :: "doctor_env \<Rightarrow> deploy_env \<Rightarrow> install_paths \<Rightarrow> (doctor_check list \<times> server_configuration option) io" where
  "config_checks D E ip = io_bind (io_get s_files) (\<lambda>fs.
     if \<not> regular E fs (ip_config ip) then io_ret ([], None)
     else io_bind (network_checks E ip) (\<lambda>(cs, c).
       io_ret (mode_check D ''Configuration permissions'' fs (ip_config ip) # cs, c)))"

definition database_checks :: "doctor_env \<Rightarrow> deploy_env \<Rightarrow> install_paths \<Rightarrow> files \<Rightarrow> doctor_check list" where
  "database_checks D E ip fs =
     (if \<not> regular E fs (database_path ip) then []
      else [mode_check D ''Database permissions'' fs (database_path ip),
        (case dr_revision D fs (database_path ip) of
           Inr r \<Rightarrow> check ''PASS'' ''Database migration'' (case r of Some v \<Rightarrow> v | None \<Rightarrow> ''no revision'')
         | Inl m \<Rightarrow> check ''ERROR'' ''Database connection'' m)])"

section \<open>The service\<close>

definition probe :: "deploy_env \<Rightarrow> string list \<Rightarrow> command_output io" where
  "probe E args = run_process E False (simple_command args)"

definition succeeded :: "command_output \<Rightarrow> bool" where
  "succeeded r \<longleftrightarrow> co_status r = 0"

definition trouble :: "command_output \<Rightarrow> string" where
  "trouble r = py_strip (or_else (co_err r) ''unavailable'')"

definition answer :: "command_output \<Rightarrow> string" where
  "answer r = py_strip (or_else (co_out r) (or_else (co_err r) ''unavailable''))"

definition bus_args :: "string list" where "bus_args = [''systemctl'', ''--user'', ''show-environment'']"
definition active_args :: "string list" where "active_args = [''systemctl'', ''--user'', ''is-active'', service_name]"
definition pid_args :: "string list" where
  "pid_args = [''systemctl'', ''--user'', ''show'', service_name, ''-p'', ''MainPID'', ''--value'']"

definition service_checks :: "deploy_env \<Rightarrow> doctor_check list io" where
  "service_checks E =
     io_bind (probe E bus_args) (\<lambda>bus.
     io_bind (probe E active_args) (\<lambda>act.
     io_bind (probe E pid_args) (\<lambda>main.
       let pid = py_strip (co_out main)
       in io_ret
        [check (pass_or ''ERROR'' (succeeded bus)) ''systemd user bus'' (if succeeded bus then ''available'' else trouble bus),
         check (pass_or ''ERROR'' (succeeded act)) ''systemd user service'' (py_strip (or_else (co_out act) ''inactive'')),
         check (pass_or ''ERROR'' (succeeded main \<and> pid \<noteq> [] \<and> pid \<noteq> ''0'')) ''Service PID'' (or_else pid ''unavailable'')])))"

definition binding_checks :: "deploy_env \<Rightarrow> install_paths \<Rightarrow> server_configuration option \<Rightarrow> files \<Rightarrow> deploy_exn + doctor_check list" where
  "binding_checks E ip server fs =
     (case (server, p_text E fs (ip_unit ip)) of
        (Some c, Some content) \<Rightarrow>
          res_bind (systemd_quote (sc_host c)) (\<lambda>host.
            let ok = has_sub (''--host '' @ host) content \<and> has_sub (''--port '' @ int_str (sc_port c)) content
            in Inr [check (pass_or ''ERROR'' ok) ''Service binding consistency''
                 (if ok then sc_host c @ '':'' @ int_str (sc_port c) else ''service unit does not match config.toml'')])
      | _ \<Rightarrow> Inr [])"

definition health_check :: "doctor_env \<Rightarrow> deploy_env \<Rightarrow> server_configuration option \<Rightarrow> doctor_check io" where
  "health_check D E server = io_bind (io_get (\<lambda>s. de_health E (s_files s) (s_active s) (case server of Some c \<Rightarrow> sc_port c | None \<Rightarrow> 8080) 0)) (\<lambda>a.
     case a of
       Inr st \<Rightarrow> io_ret (check (pass_or ''ERROR'' (st = 200)) ''HTTP health endpoint'' (''HTTP '' @ int_str st))
     | Inl e \<Rightarrow> if e = os_error then io_ret (check ''ERROR'' ''HTTP health endpoint'' (dr_oserror D)) else io_raise e)"

section \<open>Optional parts\<close>

definition docker_args :: "string list" where "docker_args = [''docker'', ''info'', ''--format'', ''{{.ServerVersion}}'']"
definition compose_args :: "string list" where "compose_args = [''docker'', ''compose'', ''version'']"
definition journal_args :: "string list" where
  "journal_args = [''journalctl'', ''--user'', ''--unit'', service_name, ''--lines'', ''1'', ''--no-pager'']"
definition gpu_args :: "path \<Rightarrow> string list" where
  "gpu_args release = [path_str (under release ''venv/bin/python''), ''-c'',
     ''import pynvml; pynvml.nvmlInit(); print(pynvml.nvmlDeviceGetCount()); pynvml.nvmlShutdown()'']"
definition linger_args :: "deploy_env \<Rightarrow> string list" where
  "linger_args E = [''loginctl'', ''show-user'', (case map_of (de_environ E) ''USER'' of Some u \<Rightarrow> u | None \<Rightarrow> []),
     ''-p'', ''Linger'', ''--value'']"

definition tool_checks :: "deploy_env \<Rightarrow> doctor_check list io" where
  "tool_checks E =
     io_bind (probe E docker_args) (\<lambda>docker.
     io_bind (probe E compose_args) (\<lambda>compose.
     io_bind (probe E journal_args) (\<lambda>journal.
       io_ret
        [check (pass_or ''WARN'' (succeeded docker)) ''Docker Engine'' (answer docker),
         check (pass_or ''WARN'' (succeeded compose)) ''Docker Compose'' (answer compose),
         check (pass_or ''WARN'' (succeeded journal)) ''Journal access'' (if succeeded journal then ''available'' else trouble journal)])))"

definition gpu_checks :: "deploy_env \<Rightarrow> path option \<Rightarrow> doctor_check list io" where
  "gpu_checks E release = (case release of None \<Rightarrow> io_ret []
     | Some r \<Rightarrow> io_bind (probe E (gpu_args r)) (\<lambda>nvml.
         io_ret [check (pass_or ''WARN'' (succeeded nvml)) ''NVIDIA NVML''
           (if succeeded nvml then py_strip (co_out nvml) @ '' GPU(s)'' else trouble nvml)]))"

definition unit_check :: "deploy_env \<Rightarrow> install_paths \<Rightarrow> files \<Rightarrow> doctor_check" where
  "unit_check E ip fs =
     (let managed = (if p_exists E fs (ip_user_unit_dir ip)
                     then filter (\<lambda>q. path_name q \<noteq> service_name) (unit_candidates ip fs) else []);
          unsafe = filter (p_is_symlink fs) managed
      in check (pass_or ''ERROR'' (unsafe = [])) ''Managed units''
           (if unsafe = [] then int_str (int (length managed)) @ '' present''
            else int_str (int (length unsafe)) @ '' unsafe symlink(s)''))"

definition linger_check :: "deploy_env \<Rightarrow> doctor_check io" where
  "linger_check E = io_bind (probe E (linger_args E)) (\<lambda>linger.
     let enabled = succeeded linger \<and> py_strip (co_out linger) = ''yes''
     in io_ret (check (pass_or ''WARN'' enabled) ''systemd linger'' (if enabled then ''enabled'' else ''disabled'')))"

definition disk_check :: "doctor_env \<Rightarrow> deploy_env \<Rightarrow> install_paths \<Rightarrow> files \<Rightarrow> deploy_exn + doctor_check" where
  "disk_check D E ip fs =
     (case dr_disk D fs (if p_exists E fs (ip_state ip) then ip_state ip else ip_home ip) of
        Inr (full, free) \<Rightarrow>
          (let percent = (if full \<noteq> 0 then of_int free / of_int full * 100 else 0)
           in Inr (check (if percent < 10 then ''WARN'' else ''PASS'') ''Disk space'' (dr_percent D percent @ ''% free'')))
      | Inl e \<Rightarrow> if e = os_error then Inr (check ''WARN'' ''Disk space'' (dr_oserror D)) else Inl e)"

section \<open>The doctor\<close>

definition verdict :: "path option \<Rightarrow> doctor_check list \<Rightarrow> int" where
  "verdict release cs =
     (if release = None then 3
      else if list_ex (\<lambda>c. dc_status c = ''ERROR'') cs then 2
      else if list_ex (\<lambda>c. dc_status c = ''WARN'' \<or> dc_status c = ''UNKNOWN'') cs then 1
      else 0)"

definition doctor_linux :: "doctor_env \<Rightarrow> deploy_env \<Rightarrow> install_paths \<Rightarrow> (int \<times> doctor_check list) io" where
  "doctor_linux D E ip =
     io_bind (pointer_checks E ip) (\<lambda>(cs1, release).
     io_bind (io_get s_files) (\<lambda>fs1.
     io_bind (config_checks D E ip) (\<lambda>(cs2, server).
     io_bind (io_get s_files) (\<lambda>fs2.
     io_bind (service_checks E) (\<lambda>cs3.
     io_bind (io_bind (io_get (\<lambda>s. binding_checks E ip server (s_files s))) io_of) (\<lambda>cs4.
     io_bind (health_check D E server) (\<lambda>c5.
     io_bind (tool_checks E) (\<lambda>cs6.
     io_bind (gpu_checks E release) (\<lambda>cs7.
     io_bind (io_get (\<lambda>s. unit_check E ip (s_files s))) (\<lambda>c8.
     io_bind (linger_check E) (\<lambda>c9.
     io_bind (io_bind (io_get (\<lambda>s. disk_check D E ip (s_files s))) io_of) (\<lambda>c10.
       let cs = cs1 @ [version_check E release fs1, check ''PASS'' ''Python'' (dr_python D)] @ path_checks E ip fs1 @ cs2
                @ database_checks D E ip fs2 @ cs3 @ cs4 @ [c5] @ cs6 @ cs7 @ [c8, c9, c10]
       in io_ret (verdict release cs, cs)))))))))))))"

definition doctor :: "doctor_env \<Rightarrow> deploy_env \<Rightarrow> install_paths \<Rightarrow> (int \<times> doctor_check list) io" where
  "doctor D E ip = (if de_linux E then doctor_linux D E ip
     else io_ret (3, [check ''ERROR'' ''Platform'' ''Linux is required'']))"

section \<open>The commands\<close>

datatype invocation = Install path options | Upgrade path bool | Uninstall bool bool bool | Doctor

definition upgrade_options :: "bool \<Rightarrow> options" where
  "upgrade_options start = \<lparr>o_upgrade = True, o_start = start, o_linger = False, o_yes = False, o_access = None,
     o_origins = [], o_proxies = [], o_networks = []\<rparr>"

definition ended :: "outcome \<times> sys \<Rightarrow> (deploy_exn + path) \<times> sys" where
  "ended r = (case r of (Deployed p, t) \<Rightarrow> (Inr p, t) | (Refused e, t) \<Rightarrow> (Inl e, t)
     | (RolledBack e, t) \<Rightarrow> (Inl e, t) | (RollbackFailed e, t) \<Rightarrow> (Inl e, t))"

definition command_body :: "doctor_env \<Rightarrow> deploy_env \<Rightarrow> install_paths \<Rightarrow> invocation \<Rightarrow> int io" where
  "command_body D E ip i = (case i of
     Install source opts \<Rightarrow> io_bind (\<lambda>s. ended (deploy E ip (opts\<lparr>o_upgrade := False\<rparr>) source s)) (\<lambda>_.
       io_bind (read_configuration E ip) (\<lambda>_. io_ret 0))
   | Upgrade source start \<Rightarrow> io_bind (\<lambda>s. ended (deploy E ip (upgrade_options start) source s)) (\<lambda>_. io_ret 0)
   | Uninstall purge managed yes \<Rightarrow> io_bind (uninstall E ip purge managed yes) (\<lambda>_. io_ret 0)
   | Doctor \<Rightarrow> io_bind (doctor D E ip) (\<lambda>(code, cs). io_ret code))"

text \<open>An exception \<open>main\<close> does not handle ends the interpreter with a traceback and status 1.\<close>

definition main :: "doctor_env \<Rightarrow> deploy_env \<Rightarrow> install_paths \<Rightarrow> invocation \<Rightarrow> sys \<Rightarrow> int \<times> sys" where
  "main D E ip i s = (case command_body D E ip i s of
     (Inr code, t) \<Rightarrow> (code, t)
   | (Inl (DeployError m), t) \<Rightarrow> (2, t)
   | (Inl (OtherDeploy n), t) \<Rightarrow> (if n = ''CalledProcessError'' then 2 else 1, t))"

section \<open>What the doctor leaves alone\<close>

definition inert :: "'a io \<Rightarrow> bool" where
  "inert m \<longleftrightarrow> (\<forall>s. snd (m s) = s)"

definition read_only :: "deploy_env \<Rightarrow> command \<Rightarrow> bool" where
  "read_only E c \<longleftrightarrow> (\<forall>fs act. snd (de_exec E c fs act) = (fs, act))"

definition doctor_commands :: "deploy_env \<Rightarrow> command set" where
  "doctor_commands E = {ufw_command E} \<union> simple_command ` ({bus_args, active_args, pid_args, docker_args, compose_args, journal_args,
     linger_args E} \<union> range gpu_args)"

named_theorems inert_intro \<open>operations that change nothing\<close>

lemma inert_basic [inert_intro]: "inert (io_ret x)" "inert (io_raise e)" "inert (io_get f)" "inert (io_of r)"
  by (simp_all add: inert_def io_ret_def io_raise_def io_get_def io_of_def)

lemma inert_bind [inert_intro]: "inert m \<Longrightarrow> (\<And>x. inert (f x)) \<Longrightarrow> inert (io_bind m f)"
  unfolding inert_def io_bind_def by (auto split: prod.splits sum.splits) (metis snd_conv)+

lemma inert_run:
  assumes c: "read_only E c" shows "inert (run_process E b c)"
  unfolding inert_def
proof
  fix s :: sys
  obtain r fs act where x: "de_exec E c (s_files s) (s_active s) = (r, fs, act)" by (metis prod.collapse)
  then have "fs = s_files s" "act = s_active s" using c by (metis read_only_def snd_conv prod.inject)+
  with x show "snd (run_process E b c s) = s" by (auto simp: run_process_def Let_def split: run_result.splits)
qed

lemma inert_probe [inert_intro]:
  assumes "\<forall>c \<in> doctor_commands E. read_only E c"
  shows "inert (probe E bus_args)" "inert (probe E active_args)" "inert (probe E pid_args)" "inert (probe E docker_args)"
    "inert (probe E compose_args)" "inert (probe E journal_args)" "inert (probe E (linger_args E))" "inert (probe E (gpu_args r))"
    "inert (run_process E False (ufw_command E))"
  unfolding probe_def by (rule inert_run; use assms in \<open>auto simp: doctor_commands_def\<close>)+

lemma inert_network:
  assumes "\<forall>c \<in> doctor_commands E. read_only E c" shows "inert (network_checks E ip)"
proof -
  have fw: "inert (firewall_check E c)" for c
    unfolding firewall_check_def using assms by (intro inert_intro) (auto intro: inert_intro)
  have "inert (\<lambda>s. case firewall_check E c s of (Inr w, t) \<Rightarrow> (Inr (f w), t) | (Inl (DeployError m), t) \<Rightarrow> (Inr (g m), t)
      | (Inl e, t) \<Rightarrow> (Inl e, t))" for c and f :: "doctor_check \<Rightarrow> 'b" and g
    unfolding inert_def
  proof
    fix s
    obtain r t where r: "firewall_check E c s = (r, t)" by fastforce
    then have "t = s" using fw by (metis inert_def snd_conv)
    with r show "snd (case firewall_check E c s of (Inr w, t) \<Rightarrow> (Inr (f w), t) | (Inl (DeployError m), t) \<Rightarrow> (Inr (g m), t)
      | (Inl e, t) \<Rightarrow> (Inl e, t)) = s" by (auto split: sum.splits deploy_exn.splits)
  qed
  then show ?thesis
    unfolding network_checks_def by (auto intro!: inert_intro split: sum.splits deploy_exn.splits)
qed

lemma inert_parts:
  assumes "\<forall>c \<in> doctor_commands E. read_only E c"
  shows "inert (pointer_checks E ip)" "inert (config_checks D E ip)" "inert (service_checks E)" "inert (health_check D E server)"
    "inert (tool_checks E)" "inert (gpu_checks E release)" "inert (linger_check E)"
  unfolding pointer_checks_def config_checks_def service_checks_def health_check_def tool_checks_def gpu_checks_def
    linger_check_def Let_def
  using assms inert_network [OF assms]
  by (auto intro!: inert_intro split: sum.splits deploy_exn.splits option.splits prod.splits)

lemma inert_doctor:
  assumes "\<forall>c \<in> doctor_commands E. read_only E c" shows "inert (doctor D E ip)"
  unfolding doctor_def doctor_linux_def Let_def
  using inert_parts [OF assms] by (auto intro!: inert_intro split: prod.splits)

lemma inertD: "inert m \<Longrightarrow> m s = (r, t) \<Longrightarrow> t = s"
  by (metis inert_def snd_conv)

section \<open>What a clean report means\<close>

definition good :: "string \<Rightarrow> bool" where
  "good st \<longleftrightarrow> st \<noteq> ''ERROR'' \<and> st \<noteq> ''WARN'' \<and> st \<noteq> ''UNKNOWN''"

definition clean :: "doctor_check list \<Rightarrow> bool" where
  "clean cs \<longleftrightarrow> list_all (\<lambda>c. good (dc_status c)) cs"

lemma clean_simps [simp]:
  "clean []" "clean (c # cs) \<longleftrightarrow> good (dc_status c) \<and> clean cs" "clean (cs @ ds) \<longleftrightarrow> clean cs \<and> clean ds"
  by (auto simp: clean_def)

lemma good_simps [simp]:
  "good ''PASS''" "good ''INFO''" "\<not> good ''ERROR''" "\<not> good ''WARN''" "\<not> good ''UNKNOWN''" "dc_status (check st n d) = st"
  "good (pass_or ''ERROR'' b) \<longleftrightarrow> b" "good (pass_or ''WARN'' b) \<longleftrightarrow> b"
  by (simp_all add: good_def check_def pass_or_def)

lemma verdict_zero: "verdict release cs = 0 \<longleftrightarrow> release \<noteq> None \<and> clean cs"
  by (auto simp: verdict_def clean_def good_def list_ex_iff list_all_iff)

lemma probe_exit: "probe E args s = (Inr r, t) \<Longrightarrow> succeeded r \<Longrightarrow> fst (de_exec E (simple_command args) (s_files s) (s_active s)) = Exit r"
  by (auto simp: probe_def run_process_def succeeded_def Let_def split: prod.splits run_result.splits)

definition gives_valid :: "(toml \<Rightarrow> string) \<Rightarrow> deploy_exn + server_configuration \<Rightarrow> bool" where
  "gives_valid rp r \<longleftrightarrow> (\<forall>c. r = Inr c \<longrightarrow> validate_server rp c = Inr ())"

lemma gives_valid_simps [simp]: "gives_valid rp (Inl e)" "gives_valid rp (validated_server rp d)" "gives_valid rp port_not_integer"
  by (auto simp: gives_valid_def validated_server_def port_not_integer_def)

lemma gives_valid_bind: "(\<And>x. gives_valid rp (f x)) \<Longrightarrow> gives_valid rp (res_bind m f)"
  by (auto simp: gives_valid_def)

lemma read_validated: "gives_valid (tl_str lib) (read_server_configuration lib t)"
proof -
  have "gives_valid rp (minimal_server_configuration rp js x)" for rp js x
    unfolding minimal_server_configuration_def Let_def by (rule gives_valid_bind) (simp split: option.split)
  moreover have "gives_valid rp (server_of_document rp doc)" for rp doc
    by (simp add: server_of_document_def Let_def split: option.split toml.split)
  ultimately show ?thesis by (simp add: read_server_configuration_def cannot_read_def split: option.split)
qed

text \<open>What UFW says is good: it is not installed, or its rules confine the port to the trusted networks.\<close>

definition firewall_fit :: "deploy_env \<Rightarrow> server_configuration \<Rightarrow> files \<Rightarrow> bool \<Rightarrow> bool" where
  "firewall_fit E c fs act \<longleftrightarrow> (case fst (de_exec E (ufw_command E) fs act) of
     Missing _ \<Rightarrow> True | Broken \<Rightarrow> False
   | Exit r \<Rightarrow> co_status r = 127 \<or> (co_status r = 0 \<and>
       (\<exists>d. assess_ufw_status (join_with [LF] (filter (\<lambda>p. p \<noteq> []) (map py_strip [co_out r, co_err r]))) c
          = Inr \<lparr>fa_status = ''PASS'', fa_detail = d\<rparr>)))"

definition config_fit :: "doctor_env \<Rightarrow> deploy_env \<Rightarrow> install_paths \<Rightarrow> server_configuration \<Rightarrow> files \<Rightarrow> bool \<Rightarrow> bool" where
  "config_fit D E ip c fs act \<longleftrightarrow>
     regular E fs (ip_config ip) \<and> private_mode (dr_mode D fs (ip_config ip))
     \<and> read_server_configuration (de_toml E) (p_text E fs (ip_config ip)) = Inr c \<and> validate_server (tl_str (de_toml E)) c = Inr ()
     \<and> (sc_mode c = ''lan'' \<or> sc_mode c = ''proxy'' \<longrightarrow>
          cookie_secure (sc_mode c) (cookie_policy (tl_str (de_toml E)) (sc_cookie c)) \<and> access_urls c \<noteq> [])
     \<and> (sc_mode c = ''proxy'' \<longrightarrow> sc_proxies c \<noteq> [])
     \<and> (sc_mode c = ''lan'' \<longrightarrow> external_networks c \<noteq> [] \<and> firewall_fit E c fs act)"

lemma firewall_good:
  assumes f: "firewall_check E c s = (Inr w, t)" and g: "good (dc_status w)" and lan: "sc_mode c = ''lan''"
  shows "firewall_fit E c (s_files s) (s_active s)"
proof -
  obtain r a where r: "run_process E False (ufw_command E) s = (Inr r, t)" and a: "firewall_doctor_check c r = Inr a" and st: "dc_status w = fa_status a"
    using f lan unfolding firewall_check_def check_def bind_ok io_of_eq ret_eq if_True by (auto dest: sym)
  have "co_status r = 127 \<or> (co_status r = 0 \<and> assess_ufw_status (join_with [LF] (filter (\<lambda>p. p \<noteq> []) (map py_strip [co_out r, co_err r]))) c = Inr a)"
    using a lan g st by (auto simp: firewall_doctor_check_def Let_def split: if_splits)
  moreover have "fa_status a = ''PASS''"
    if "assess_ufw_status x c = Inr a" for x
    using that g st by (auto simp: assess_ufw_status_def Let_def split: option.splits if_splits prod.splits)
  ultimately show ?thesis
    using r by (cases a) (fastforce simp: firewall_fit_def run_process_def Let_def split: prod.splits run_result.splits)
qed

lemma config_good:
  assumes run: "config_checks D E ip s = (Inr (cs, server), t)" and g: "clean cs" and reg: "regular E (s_files s) (ip_config ip)"
  shows "\<exists>c. server = Some c \<and> config_fit D E ip c (s_files s) (s_active s)"
proof -
  obtain ds where n: "network_checks E ip s = (Inr (ds, server), t)" and cs: "cs = mode_check D ''Configuration permissions'' (s_files s) (ip_config ip) # ds"
    using run reg by (auto simp: config_checks_def split: prod.splits)
  obtain c where c: "read_server_configuration (de_toml E) (p_text E (s_files s) (ip_config ip)) = Inr c"
    using n g cs by (auto simp: network_checks_def split: sum.splits deploy_exn.splits)
  obtain w where w: "firewall_check E c s = (Inr w, t)" "ds = server_checks (tl_str (de_toml E)) c @ [w]" "server = Some c"
    using n g cs c by (auto simp: network_checks_def split: sum.splits deploy_exn.splits prod.splits)
  have "private_mode (dr_mode D (s_files s) (ip_config ip))" "clean (server_checks (tl_str (de_toml E)) c)" "good (dc_status w)"
    using g cs w(2) by (simp_all add: mode_check_def)
  then show ?thesis
    using w c reg read_validated [of "de_toml E" "p_text E (s_files s) (ip_config ip)"] firewall_good [OF w(1)]
    by (auto simp: gives_valid_def config_fit_def server_checks_def cookie_check_def Let_def split: if_splits)
qed

lemma service_good:
  assumes run: "service_checks E s = (Inr cs, t)" and g: "clean cs" and ro: "\<forall>c \<in> doctor_commands E. read_only E c"
  defines "asked \<equiv> \<lambda>args. fst (de_exec E (simple_command args) (s_files s) (s_active s))"
  shows "\<exists>a b r. asked bus_args = Exit a \<and> asked active_args = Exit b \<and> asked pid_args = Exit r
    \<and> co_status a = 0 \<and> co_status b = 0 \<and> co_status r = 0 \<and> py_strip (co_out r) \<notin> {[], ''0''}"
proof -
  obtain a s1 b s2 r where p: "probe E bus_args s = (Inr a, s1)" "probe E active_args s1 = (Inr b, s2)" "probe E pid_args s2 = (Inr r, t)"
    and ok: "succeeded a" "succeeded b" "succeeded r" "py_strip (co_out r) \<notin> {[], ''0''}"
    using run g by (auto simp: service_checks_def Let_def)
  have "s1 = s" "s2 = s" using p inert_probe(1,2) [OF ro] inertD by metis+
  then show ?thesis
    using p ok probe_exit unfolding asked_def succeeded_def by blast
qed

lemma binding_good:
  assumes b: "binding_checks E ip (Some c) fs = Inr cs" and g: "clean cs" and t: "p_text E fs (ip_unit ip) = Some content"
  shows "\<exists>host. systemd_quote (sc_host c) = Inr host \<and> has_sub (''--host '' @ host) content
    \<and> has_sub (''--port '' @ int_str (sc_port c)) content"
  using assms by (auto simp: binding_checks_def Let_def)

lemma disk_good:
  assumes "disk_check D E ip fs = Inr w" "good (dc_status w)"
  shows "\<exists>full free. dr_disk D fs (if p_exists E fs (ip_state ip) then ip_state ip else ip_home ip) = Inr (full, free)
    \<and> full \<noteq> 0 \<and> 10 \<le> of_int free / of_int full * (100 :: rat)"
  using assms by (auto simp: disk_check_def Let_def not_less split: sum.splits if_splits)

text \<open>What the doctor vouches for.\<close>

definition healthy :: "doctor_env \<Rightarrow> deploy_env \<Rightarrow> install_paths \<Rightarrow> files \<Rightarrow> bool \<Rightarrow> bool" where
  "healthy D E ip fs act \<longleftrightarrow> de_linux E
     \<and> (\<exists>r v. current_target E ip fs = Inr (Some r) \<and> p_text E fs (under r ''VERSION'') = Some v)
     \<and> (\<exists>c. config_fit D E ip c fs act
          \<and> (\<forall>content. p_text E fs (ip_unit ip) = Some content \<longrightarrow> (\<exists>host. systemd_quote (sc_host c) = Inr host
                \<and> has_sub (''--host '' @ host) content \<and> has_sub (''--port '' @ int_str (sc_port c)) content))
          \<and> de_health E fs act (sc_port c) 0 = Inr 200)
     \<and> regular E fs (database_path ip) \<and> private_mode (dr_mode D fs (database_path ip))
     \<and> (\<exists>v. dr_revision D fs (database_path ip) = Inr v)
     \<and> regular E fs (ip_unit ip)
     \<and> (p_exists E fs (ip_user_unit_dir ip) \<longrightarrow>
          (\<forall>q \<in> set (unit_candidates ip fs). path_name q \<noteq> service_name \<longrightarrow> \<not> p_is_symlink fs q))
     \<and> (\<exists>a b r. map (\<lambda>args. fst (de_exec E (simple_command args) fs act)) [bus_args, active_args, pid_args] = map Exit [a, b, r]
          \<and> co_status a = 0 \<and> co_status b = 0 \<and> co_status r = 0 \<and> py_strip (co_out r) \<notin> {[], ''0''})
     \<and> (\<exists>full free. dr_disk D fs (if p_exists E fs (ip_state ip) then ip_state ip else ip_home ip) = Inr (full, free)
          \<and> full \<noteq> 0 \<and> 10 \<le> of_int free / of_int full * (100 :: rat))"

lemma doctor_runs:
  assumes ro: "\<forall>c \<in> doctor_commands E. read_only E c" and run: "doctor_linux D E ip s = (Inr (code, cs), t)"
  shows "\<exists>cs1 release cs2 server cs3 cs4 c5 cs6 cs7 c9 c10.
    pointer_checks E ip s = (Inr (cs1, release), s) \<and> config_checks D E ip s = (Inr (cs2, server), s)
    \<and> service_checks E s = (Inr cs3, s) \<and> binding_checks E ip server (s_files s) = Inr cs4
    \<and> health_check D E server s = (Inr c5, s) \<and> linger_check E s = (Inr c9, s) \<and> disk_check D E ip (s_files s) = Inr c10
    \<and> cs = cs1 @ [version_check E release (s_files s), check ''PASS'' ''Python'' (dr_python D)] @ path_checks E ip (s_files s) @ cs2
        @ database_checks D E ip (s_files s) @ cs3 @ cs4 @ [c5] @ cs6 @ cs7 @ [unit_check E ip (s_files s), c9, c10]
    \<and> code = verdict release cs"
proof -
  note parts = inert_parts [OF ro, THEN inertD]
  obtain p1 s1 p2 s2 cs3 s3 cs4 c5 s5 cs6 s6 cs7 s7 c9 s9 c10 where r:
    "pointer_checks E ip s = (Inr p1, s1)" "config_checks D E ip s1 = (Inr p2, s2)" "service_checks E s2 = (Inr cs3, s3)"
    "binding_checks E ip (snd p2) (s_files s3) = Inr cs4" "health_check D E (snd p2) s3 = (Inr c5, s5)"
    "tool_checks E s5 = (Inr cs6, s6)" "gpu_checks E (snd p1) s6 = (Inr cs7, s7)" "linger_check E s7 = (Inr c9, s9)"
    "disk_check D E ip (s_files s9) = Inr c10" and t: "t = s9"
    and c: "code = verdict (snd p1) cs" "cs = fst p1 @ [version_check E (snd p1) (s_files s1), check ''PASS'' ''Python'' (dr_python D)]
        @ path_checks E ip (s_files s1) @ fst p2
        @ database_checks D E ip (s_files s2) @ cs3 @ cs4 @ [c5] @ cs6 @ cs7 @ [unit_check E ip (s_files s7), c9, c10]"
    using run unfolding doctor_linux_def bind_ok io_get_eq io_of_eq ret_eq Let_def
    by (elim exE conjE; simp only: prod.case_eq_if bind_ok io_get_eq io_of_eq ret_eq prod.inject sum.inject) (blast dest: sym)
  have "s1 = s" "s2 = s" "s3 = s" "s5 = s" "s6 = s" "s7 = s" "s9 = s"
    using r parts by metis+
  then show ?thesis using r c by (cases p1; cases p2) auto
qed

lemma paths_good: "clean (path_checks E ip fs) \<longleftrightarrow> regular E fs (ip_config ip) \<and> regular E fs (database_path ip) \<and> regular E fs (ip_unit ip)"
  by (auto simp: path_checks_def path_check_def regular_def)

lemma database_good:
  "regular E fs (database_path ip) \<Longrightarrow> clean (database_checks D E ip fs) \<longleftrightarrow>
     private_mode (dr_mode D fs (database_path ip)) \<and> (\<exists>v. dr_revision D fs (database_path ip) = Inr v)"
  by (auto simp: database_checks_def mode_check_def split: sum.splits)

lemma pointer_good:
  "pointer_checks E ip s = (Inr (cs, release), t) \<Longrightarrow> clean cs \<Longrightarrow> current_target E ip (s_files s) = Inr release"
  by (auto simp: pointer_checks_def split: sum.splits deploy_exn.splits)

lemma version_good: "good (dc_status (version_check E (Some r) fs)) \<Longrightarrow> \<exists>v. p_text E fs (under r ''VERSION'') = Some v"
  by (auto simp: version_check_def split: option.splits)

lemma health_good:
  assumes "health_check D E (Some c) s = (Inr w, t)" "good (dc_status w)"
  shows "de_health E (s_files s) (s_active s) (sc_port c) 0 = Inr 200"
  using assms by (auto simp: health_check_def split: sum.splits if_splits)

lemma units_good:
  "good (dc_status (unit_check E ip fs)) \<Longrightarrow> p_exists E fs (ip_user_unit_dir ip) \<Longrightarrow> q \<in> set (unit_candidates ip fs)
     \<Longrightarrow> path_name q \<noteq> service_name \<Longrightarrow> \<not> p_is_symlink fs q"
  by (auto simp: unit_check_def Let_def filter_empty_conv)

lemma doctor_good:
  assumes ro: "\<forall>c \<in> doctor_commands E. read_only E c" and run: "doctor D E ip s = (Inr (0, cs), t)"
  shows "healthy D E ip (s_files s) (s_active s)"
proof -
  let ?fs = "s_files s" and ?act = "s_active s"
  have linux: "de_linux E" and run': "doctor_linux D E ip s = (Inr (0, cs), t)"
    using run by (auto simp: doctor_def split: if_splits)
  obtain cs1 release cs2 server cs3 cs4 c5 cs6 cs7 c9 c10 where
    r: "pointer_checks E ip s = (Inr (cs1, release), s)" "config_checks D E ip s = (Inr (cs2, server), s)"
      "service_checks E s = (Inr cs3, s)" "binding_checks E ip server ?fs = Inr cs4"
      "health_check D E server s = (Inr c5, s)" "disk_check D E ip ?fs = Inr c10"
    and cs: "cs = cs1 @ [version_check E release ?fs, check ''PASS'' ''Python'' (dr_python D)] @ path_checks E ip ?fs @ cs2
        @ database_checks D E ip ?fs @ cs3 @ cs4 @ [c5] @ cs6 @ cs7 @ [unit_check E ip ?fs, c9, c10]" and v: "verdict release cs = 0"
    using doctor_runs [OF ro run'] by (metis (no_types, lifting))
  have good: "clean cs1" "good (dc_status (version_check E release ?fs))" "clean (path_checks E ip ?fs)" "clean cs2"
      "clean (database_checks D E ip ?fs)" "clean cs3" "clean cs4" "good (dc_status c5)" "good (dc_status (unit_check E ip ?fs))"
      "good (dc_status c10)" and rel: "release \<noteq> None"
    using v unfolding verdict_zero cs by simp_all
  have regular: "regular E ?fs (ip_config ip)" "regular E ?fs (database_path ip)" "regular E ?fs (ip_unit ip)"
    using good(3) paths_good by auto
  obtain c where c: "server = Some c" "config_fit D E ip c ?fs ?act" using config_good [OF r(2) good(4) regular(1)] by blast
  have health: "de_health E ?fs ?act (sc_port c) 0 = Inr 200" using health_good r(5) good(8) c(1) by blast
  have unit: "\<exists>host. systemd_quote (sc_host c) = Inr host \<and> has_sub (''--host '' @ host) content
      \<and> has_sub (''--port '' @ int_str (sc_port c)) content" if "p_text E ?fs (ip_unit ip) = Some content" for content
    using binding_good r(4) good(7) that c(1) by blast
  have release: "\<exists>x v. current_target E ip ?fs = Inr (Some x) \<and> p_text E ?fs (under x ''VERSION'') = Some v"
    using pointer_good [OF r(1) good(1)] good(2) rel version_good by blast
  have service: "\<exists>a b d. map (\<lambda>args. fst (de_exec E (simple_command args) ?fs ?act)) [bus_args, active_args, pid_args] = map Exit [a, b, d]
      \<and> co_status a = 0 \<and> co_status b = 0 \<and> co_status d = 0 \<and> py_strip (co_out d) \<notin> {[], ''0''}"
    using service_good [OF r(3) good(6) ro] by auto
  show ?thesis
    unfolding healthy_def
    using linux release c(2) health unit regular database_good [OF regular(2)] good(5) units_good [OF good(9)] service
      disk_good [OF r(6) good(10)] by blast
qed


section \<open>A host to diagnose\<close>

definition host_paths :: install_paths where
  "host_paths = discover_paths path_of (path_of ''/h'')
     (map_of [(''HOME'', ''/h''), (''XDG_DATA_HOME'', ''/d''), (''XDG_STATE_HOME'', ''/t''), (''XDG_CONFIG_HOME'', ''/c'')])"

definition host_files :: files where
  "host_files = map (\<lambda>(s, n). (path_of s, n))
     [(''/d/machinedeck/releases/1'', Dir), (''/d/machinedeck/releases/1/VERSION'', File (''1'' @ [LF])),
      (''/d/machinedeck/current'', Link (path_of ''/d/machinedeck/releases/1'')), (''/t/machinedeck'', Dir),
      (''/t/machinedeck/machinedeck.db'', File ''db''), (''/c/machinedeck/config.toml'', File []), (''/c/systemd/user'', Dir),
      (''/c/systemd/user/machinedeck.service'', File (''ExecStart=python --host '' @ [QUOTE] @ ''127.0.0.1'' @ [QUOTE] @ '' --port 8080''))]"

definition host_exec :: "command \<Rightarrow> files \<Rightarrow> bool \<Rightarrow> run_result \<times> files \<times> bool" where
  "host_exec c fs act = (Exit \<lparr>co_status = 0, co_out = (if hd (c_args c) = ''loginctl'' then ''yes'' else ''42''), co_err = []\<rparr>, fs, act)"

text \<open>\<open>server\<close> is the table of that name in the configuration.\<close>

definition host_env :: "(string \<times> toml) list \<Rightarrow> deploy_env" where
  "host_env server =
     \<lparr>de_exec = host_exec, de_fault = (\<lambda>n. False), de_resolve = (\<lambda>fs p. p), de_unique = (\<lambda>n. []),
      de_time = (\<lambda>f n. []), de_copy_db = (\<lambda>c w. c), de_port_free = (\<lambda>_ act _. \<not> act),
      de_health = (\<lambda>_ act _ _. if act then Inr 200 else Inl os_error), de_answer = None, de_root = False, de_linux = True, de_modern = True,
      de_user = ''u'', de_python = ''p'', de_environ = [],
      de_toml = \<lparr>tl_load = Some (\<lambda>_. Some [(''server'', TTable server), (''network'', TTable [(''trusted_networks'', TArr [])])]),
        tl_json = (\<lambda>_. None), tl_str = (\<lambda>_. [])\<rparr>, de_detected = (''h'', [])\<rparr>"

definition host_doctor :: doctor_env where
  "host_doctor = \<lparr>dr_python = ''3.12'', dr_mode = (\<lambda>_ _. 384), dr_revision = (\<lambda>_ _. Inr (Some ''0001'')), dr_disk = (\<lambda>_ _. Inr (100, 50)),
     dr_percent = (\<lambda>_. ''50.0''), dr_oserror = []\<rparr>"

definition host_sys :: sys where
  "host_sys = \<lparr>s_files = host_files, s_active = True, s_tick = 0, s_backup = None, s_stopped = False, s_switched = False\<rparr>"

definition diagnosis :: "(string \<times> toml) list \<Rightarrow> (deploy_exn + int \<times> doctor_check list) \<times> sys" where
  "diagnosis server = doctor host_doctor (host_env server) host_paths host_sys"

lemma host_read_only: "\<forall>c \<in> doctor_commands (host_env server). read_only (host_env server) c"
  by (simp add: read_only_def host_env_def host_exec_def)

lemma host_status: "map_sum id (\<lambda>r. (fst r, length (snd r))) (fst (diagnosis [])) = Inr (0, 26)"
  by code_simp


text \<open>
  The binding is compared as a prefix: a configuration for port 808 is found to agree with a unit
  that starts port 8080, and the report stays clean.
\<close>

lemma port_prefix_accepted: "map_sum id fst (fst (diagnosis [(''port'', TInt 808)])) = Inr 0"
  by code_simp

text \<open>
  An origin on which \<open>urlsplit\<close> raises ends the doctor with an exception, and the process with
  status 1, the status that stands for a healthy installation with warnings.
\<close>

lemma crash_looks_like_warnings:
  "let E = host_env [(''trusted_origins'', TArr [TStr ''http://['' ])]
   in fst (doctor host_doctor E host_paths host_sys) = Inl (OtherDeploy ''ValueError'')
      \<and> fst (main host_doctor E host_paths Doctor host_sys) = 1"
  by code_simp

end
