(* ===== verification/Uninstall.thy ===== *)
theory Uninstall
  imports Deploy
begin

text \<open>
  What \<open>uninstall\<close> of \<open>scripts/machinedeck_deploy.py\<close> may touch and what a completed one has removed,
  whichever file operation fails.
\<close>

definition disable_args :: "string list" where
  "disable_args = [''systemctl'', ''--user'', ''disable'', ''--now'', service_name]"

definition owned_unit :: "install_paths \<Rightarrow> files \<Rightarrow> path \<Rightarrow> bool" where
  "owned_unit ip fs q \<longleftrightarrow> path_parent q = ip_user_unit_dir ip \<and> startswith ''machinedeck-'' (path_name q)
     \<and> path_name q \<notin> {service_name, ''machinedeck-phase0.service''} \<and> is_generated_application_unit fs q"

definition uninstall_scope :: "install_paths \<Rightarrow> bool \<Rightarrow> bool \<Rightarrow> files \<Rightarrow> path set" where
  "uninstall_scope ip purge managed fs =
     {p. p = ip_unit ip \<or> path_relative_to p (ip_share ip) \<or> (managed \<and> owned_unit ip fs p)
        \<or> (purge \<and> (path_relative_to p (ip_state ip) \<or> path_relative_to p (ip_config_dir ip)))}"

definition keeps :: "path set \<Rightarrow> files \<Rightarrow> 'a io \<Rightarrow> bool" where
  "keeps S fs m \<longleftrightarrow> (\<forall>s. (\<forall>p. p \<notin> S \<longrightarrow> fs_get (s_files s) p = fs_get fs p)
     \<longrightarrow> (\<forall>p. p \<notin> S \<longrightarrow> fs_get (s_files (snd (m s))) p = fs_get fs p))"

text \<open>Nothing is created or changed, only removed.\<close>

definition shrinks :: "'a io \<Rightarrow> bool" where
  "shrinks m \<longleftrightarrow> (\<forall>s p. fs_get (s_files (snd (m s))) p \<in> {None, fs_get (s_files s) p})"

named_theorems keeps_intro \<open>operations that stay in a scope, and that only remove\<close>

lemma ensure_framed [frame_intro]: "framed S (ensure_not_symlink p l)"
  unfolding ensure_not_symlink_def by (intro frame_intro)

lemma reject_framed [frame_intro]: "framed S (reject_root E)"
  unfolding reject_root_def by (intro frame_intro)

lemma keeps_framed [keeps_intro]: "framed S m \<Longrightarrow> keeps S fs m"
  by (simp add: keeps_def framed_def)

lemma keeps_bind [keeps_intro]: "keeps S fs m \<Longrightarrow> (\<And>x. keeps S fs (f x)) \<Longrightarrow> keeps S fs (io_bind m f)"
  unfolding keeps_def io_bind_def by (auto split: prod.splits sum.splits)

lemma keeps_seq [keeps_intro]: "(\<And>m. m \<in> set ms \<Longrightarrow> keeps S fs m) \<Longrightarrow> keeps S fs (io_seq ms)"
  by (induction ms) (auto intro: keeps_bind keeps_framed frame_intro)

lemma keeps_seq_but: "(\<And>m. m \<in> set ms \<Longrightarrow> m = n \<or> framed S m) \<Longrightarrow> keeps S fs n \<Longrightarrow> keeps S fs (io_seq ms)"
  by (rule keeps_seq) (auto intro: keeps_framed)

lemma keeps_seq_map:
  assumes "\<And>q. q \<in> set qs \<Longrightarrow> keeps S fs (f q)" "keeps S fs m"
  shows "keeps S fs (io_seq (map f qs @ [m]))"
  using assms by (intro keeps_seq) auto

lemma shrinks_framed: "framed {} m \<Longrightarrow> shrinks m"
  by (simp add: shrinks_def framed_def)

lemma shrinks_bind [keeps_intro]: "shrinks m \<Longrightarrow> (\<And>x. shrinks (f x)) \<Longrightarrow> shrinks (io_bind m f)"
  unfolding shrinks_def io_bind_def by (auto split: prod.splits sum.splits) (metis snd_conv)+

lemma shrinks_basic [keeps_intro]:
  "shrinks (io_ret x)" "shrinks (io_raise e)" "shrinks (io_get f)" "shrinks (ensure_not_symlink p l)" "shrinks (reject_root E)"
  "confined E c {} \<Longrightarrow> shrinks (run_process E b c)"
  by (rule shrinks_framed; auto intro: frame_intro)+

lemma shrinks_seq [keeps_intro]: "(\<And>m. m \<in> set ms \<Longrightarrow> shrinks m) \<Longrightarrow> shrinks (io_seq ms)"
  by (induction ms) (auto intro: keeps_intro frame_intro)

lemma shrinks_when [keeps_intro]: "(b \<Longrightarrow> shrinks m) \<Longrightarrow> shrinks (io_when b m)"
  by (auto simp: io_when_def intro: keeps_intro frame_intro)

lemma shrinks_sys_op: "shrinks (sys_op E ok (fs_del p))"
  by (simp add: shrinks_def sys_op_def)

lemma shrinks_files [keeps_intro]: "shrinks (unlink E p)" "shrinks (unlink_missing_ok E p)" "shrinks (remove_tree E p)"
  unfolding unlink_def unlink_missing_ok_def remove_tree_def
  by (auto intro!: shrinks_sys_op keeps_intro frame_intro)

lemma shrinks_managed:
  assumes "confined E (simple_command reload) {}" shows "shrinks (remove_managed E ip)"
  unfolding remove_managed_def remove_unit_def using assms
  by (auto intro!: keeps_intro frame_intro)

lemma shrinks_exists [keeps_intro]: "shrinks (remove_if_exists E p)"
  unfolding remove_if_exists_def by (intro keeps_intro)

lemma shrinks_uninstall:
  assumes "confined E (simple_command disable_args) {}" "confined E (simple_command reload) {}"
  shows "shrinks (uninstall E ip purge managed yes)"
  unfolding uninstall_def disable_args_def [symmetric] using assms shrinks_managed
  by (intro shrinks_seq) (auto intro!: keeps_intro)

text \<open>A managed unit that is removed was one of the generated units from the start.\<close>

lemma keeps_unit:
  assumes S: "\<And>q. owned_unit ip fs q \<Longrightarrow> q \<in> S" and q: "q \<in> set (unit_candidates ip fs1)"
  shows "keeps S fs (remove_unit E q)"
  unfolding keeps_def
proof (intro allI impI)
  fix s :: sys and p
  assume same: "\<forall>p. p \<notin> S \<longrightarrow> fs_get (s_files s) p = fs_get fs p" and p: "p \<notin> S"
  let ?b = "is_generated_application_unit (s_files s) q" and ?named = "path_name q \<notin> {service_name, ''machinedeck-phase0.service''}"
  let ?remove = "io_seq [ensure_not_symlink q ''managed application unit'', unlink E q]"
  have "framed {q} ?remove" by (auto intro!: frame_intro)
  then have rm: "r \<noteq> q \<Longrightarrow> fs_get (s_files (snd (?remove s))) r = fs_get (s_files s) r" for r by (simp add: framed_def)
  show "fs_get (s_files (snd (remove_unit E q s))) p = fs_get fs p"
  proof (cases "?named \<and> ?b")
    case True
    have "q \<in> S"
    proof (rule ccontr)
      assume "q \<notin> S"
      then have "is_generated_application_unit fs q" using True same by (simp add: is_generated_application_unit_def)
      then have "owned_unit ip fs q" using q True by (auto simp: owned_unit_def unit_candidates_def)
      with S \<open>q \<notin> S\<close> show False by blast
    qed
    then have "p \<noteq> q" using p by blast
    then show ?thesis using True rm [of p] same p by (simp add: remove_unit_def io_bind_def io_get_def io_when_def)
  next
    case False
    then show ?thesis using same p by (auto simp: remove_unit_def io_bind_def io_get_def io_when_def io_ret_def)
  qed
qed

lemma keeps_managed:
  assumes rel: "confined E (simple_command reload) {}" and S: "\<And>q. owned_unit ip fs q \<Longrightarrow> q \<in> S"
  shows "keeps S fs (remove_managed E ip)"
  unfolding remove_managed_def
proof (rule keeps_bind)
  show "keeps S fs (io_get s_files)" by (intro keeps_intro frame_intro)
  fix fs1
  have "confined E (simple_command reload) S" using rel by (auto simp: confined_def)
  then have "keeps S fs (io_bind (run_process E False (simple_command reload)) (\<lambda>_. io_ret ()))"
    by (intro keeps_intro frame_intro)
  then have "keeps S fs (io_seq (map (remove_unit E) (unit_candidates ip fs1) @ [io_bind (run_process E False (simple_command reload)) (\<lambda>_. io_ret ())]))"
    using keeps_unit S by (blast intro: keeps_seq_map)
  then show "keeps S fs (if \<not> p_exists E fs1 (ip_user_unit_dir ip) then io_ret () else io_seq
     (map (remove_unit E) (unit_candidates ip fs1) @ [io_bind (run_process E False (simple_command reload)) (\<lambda>_. io_ret ())]))"
    by (simp add: keeps_framed framed_ret del: io_seq.simps)
qed

lemma keeps_uninstall:
  fixes fs ip purge managed
  assumes dis: "confined E (simple_command disable_args) {}" and rel: "confined E (simple_command reload) {}"
  defines "S \<equiv> uninstall_scope ip purge managed fs"
  shows "keeps S fs (uninstall E ip purge managed yes)"
proof -
  have in_scope: "ip_unit ip \<in> S" "path_relative_to p (ip_share ip) \<Longrightarrow> p \<in> S" "managed \<Longrightarrow> owned_unit ip fs p \<Longrightarrow> p \<in> S"
    "purge \<Longrightarrow> path_relative_to p (ip_state ip) \<Longrightarrow> p \<in> S" "purge \<Longrightarrow> path_relative_to p (ip_config_dir ip) \<Longrightarrow> p \<in> S" for p
    by (simp_all add: S_def uninstall_scope_def)
  have conf: "confined E (simple_command disable_args) S" "confined E (simple_command reload) S"
    using dis rel by (auto simp: confined_def)
  have gone: "(\<And>q. path_relative_to q p \<Longrightarrow> q \<in> S) \<Longrightarrow> framed S (remove_if_exists E p)" for p
    unfolding remove_if_exists_def by (intro frame_intro)
  have managed: "keeps S fs (io_when managed (remove_managed E ip))"
    using keeps_managed [OF rel] in_scope(3) by (auto simp: io_when_def intro: keeps_intro frame_intro)
  show ?thesis
    unfolding uninstall_def disable_args_def [symmetric]
    using gone in_scope conf
    by (intro keeps_seq_but [OF _ managed]) (auto intro!: frame_intro)
qed

section \<open>A completed uninstall\<close>

lemma keepsD: "keeps S (s_files s) m \<Longrightarrow> m s = (r, t) \<Longrightarrow> p \<notin> S \<Longrightarrow> fs_get (s_files t) p = fs_get (s_files s) p"
  unfolding keeps_def by (metis snd_conv)

lemma shrinksD: "shrinks m \<Longrightarrow> m s = (r, t) \<Longrightarrow> fs_get (s_files t) p = None \<or> fs_get (s_files t) p = fs_get (s_files s) p"
  unfolding shrinks_def by (metis snd_conv insert_iff singleton_iff)

lemma sys_op_ok: "sys_op E ok f s = (Inr x, t) \<Longrightarrow> ok (s_files s) \<and> s_files t = f (s_files s)"
  by (auto simp: sys_op_def split: if_splits)

lemma deletes_ok:
  "io_seq (map (\<lambda>q. sys_op E (\<lambda>_. True) (fs_del q)) qs) s = (Inr x, t) \<Longrightarrow> fs_get (s_files t) p = (if p \<in> set qs then None else fs_get (s_files s) p)"
proof (induction qs arbitrary: s)
  case Nil
  then show ?case by simp
next
  case (Cons q qs)
  then obtain u where "sys_op E (\<lambda>_. True) (fs_del q) s = (Inr (), u)" and "io_seq (map (\<lambda>q. sys_op E (\<lambda>_. True) (fs_del q)) qs) u = (Inr x, t)"
    by auto
  then show ?case using Cons.IH sys_op_ok by fastforce
qed

lemma remove_tree_ok:
  assumes "remove_tree E d s = (Inr x, t)" "path_relative_to p d" shows "fs_get (s_files t) p = None"
proof -
  have "io_seq (map (\<lambda>q. sys_op E (\<lambda>_. True) (fs_del q)) (tree_entries (s_files s) d)) s = (Inr x, t)"
    using assms(1) by (auto simp: remove_tree_def split: if_splits)
  from deletes_ok [OF this] show ?thesis
    using assms(2) by (auto simp: tree_entries_set map_of_eq_None_iff)
qed

lemma remove_if_exists_ok:
  assumes run: "remove_if_exists E d s = (Inr x, t)" and no_link: "\<not> p_is_symlink (s_files s) d"
  shows "fs_get (s_files t) d = None" and "fs_get (s_files s) d = Some Dir \<Longrightarrow> path_relative_to p d \<Longrightarrow> fs_get (s_files t) p = None"
proof -
  have same: "p_exists E (s_files s) d \<longleftrightarrow> fs_get (s_files s) d \<noteq> None"
    using no_link by (auto simp: p_exists_def followed_def p_is_symlink_def split: option.splits node.splits)
  show "fs_get (s_files t) d = None"
    using run same remove_tree_ok [of E d s x t d] by (auto simp: remove_if_exists_def path_relative_to_def split: if_splits)
  show "fs_get (s_files t) p = None" if "fs_get (s_files s) d = Some Dir" "path_relative_to p d"
    using run same that remove_tree_ok [of E d s x t p] by (auto simp: remove_if_exists_def split: if_splits)
qed

lemma remove_if_exists_other:
  assumes run: "remove_if_exists E d s = (Inr x, t)" and no_link: "\<not> p_is_symlink (s_files s) d"
  shows "fs_get (s_files s) d \<noteq> Some Dir \<Longrightarrow> s_files t = s_files s"
    and "\<not> path_relative_to p d \<Longrightarrow> fs_get (s_files t) p = fs_get (s_files s) p"
proof -
  show "s_files t = s_files s" if "fs_get (s_files s) d \<noteq> Some Dir"
    using run that no_link by (auto simp: remove_if_exists_def remove_tree_def split: if_splits)
  have "framed {q. path_relative_to q d} (remove_if_exists E d)"
    unfolding remove_if_exists_def by (auto intro!: frame_intro)
  then show "\<not> path_relative_to p d \<Longrightarrow> fs_get (s_files t) p = fs_get (s_files s) p"
    using run framed_get by fastforce
qed

definition gone :: "files \<Rightarrow> files \<Rightarrow> path \<Rightarrow> bool" where
  "gone fs fs' d \<longleftrightarrow> fs_get fs' d = None \<and> (fs_get fs d = Some Dir \<longrightarrow> (\<forall>p. path_relative_to p d \<longrightarrow> fs_get fs' p = None))"

lemma when_fixed: "io_when b (io_raise e) s = (Inr y, t) \<longleftrightarrow> \<not> b \<and> t = s" "io_when False m s = (r, t) \<longleftrightarrow> r = Inr () \<and> t = s"
  by (auto simp: io_when_def)

lemma uninstalled:
  assumes dis: "confined E (simple_command disable_args) {}" and rel: "confined E (simple_command reload) {}"
    and run: "uninstall E ip False managed yes s = (Inr x, t)"
  shows "fs_get (s_files t) (ip_unit ip) = None" "fs_get (s_files s) (ip_unit ip) \<noteq> Some Dir" "gone (s_files s) (s_files t) (ip_share ip)"
    "\<not> p_is_symlink (s_files s) (ip_state ip)" "\<not> p_is_symlink (s_files s) (ip_config_dir ip)"
    "fs_get (s_files s) (ip_share ip) \<noteq> Some Dir \<Longrightarrow> p \<noteq> ip_unit ip \<Longrightarrow> \<not> owned_unit ip (s_files s) p
       \<Longrightarrow> fs_get (s_files t) p = fs_get (s_files s) p"
proof -
  obtain r1 s1 s2 r2 s3 s4 where
    links: "\<not> p_is_symlink (s_files s) (ip_share ip)" "\<not> p_is_symlink (s_files s) (ip_state ip)" "\<not> p_is_symlink (s_files s) (ip_config_dir ip)"
    and 1: "run_process E False (simple_command disable_args) s = (Inr r1, s1)" "unlink_missing_ok E (ip_unit ip) s1 = (Inr (), s2)"
      "run_process E False (simple_command reload) s2 = (Inr r2, s3)" "remove_if_exists E (ip_share ip) s3 = (Inr (), s4)"
      "io_when managed (remove_managed E ip) s4 = (Inr x, t)"
    using run unfolding uninstall_def disable_args_def [symmetric] reject_root_def ensure_not_symlink_def
    by (auto simp: when_fixed simp del: when_ok split: if_splits)
  have r: "fs_get (s_files s1) p = fs_get (s_files s) p" "fs_get (s_files s3) p = fs_get (s_files s2) p" for p
    using framed_get [OF framed_run [OF dis] _ 1(1)] framed_get [OF framed_run [OF rel] _ 1(3)] by simp_all
  have u: "fs_get (s_files s1) (ip_unit ip) \<noteq> Some Dir" "fs_get (s_files s2) p = (if p = ip_unit ip then None else fs_get (s_files s1) p)" for p
    using sys_op_ok [OF 1(2) [unfolded unlink_missing_ok_def]] by auto
  have later: "fs_get (s_files t) p = None" if "fs_get (s_files s4) p = None" for p
    using shrinksD [OF shrinks_when [OF shrinks_managed [OF rel]] 1(5), of p] that by auto
  have later3: "fs_get (s_files s4) p = None" if "fs_get (s_files s3) p = None" for p
    using shrinksD [OF shrinks_exists 1(4), of p] that by auto
  have no_link: "\<not> p_is_symlink (s_files s3) (ip_share ip)"
    using links(1) r u(2) by (auto simp: p_is_symlink_def)
  note share = remove_if_exists_ok [OF 1(4) no_link]
  show "gone (s_files s) (s_files t) (ip_share ip)"
  proof -
    have "ip_share ip \<noteq> ip_unit ip" if "fs_get (s_files s) (ip_share ip) = Some Dir" using that u(1) r by auto
    then have "fs_get (s_files s3) (ip_share ip) = Some Dir" if "fs_get (s_files s) (ip_share ip) = Some Dir" using that u r by simp
    then show ?thesis unfolding gone_def using share later by blast
  qed
  show "fs_get (s_files t) (ip_unit ip) = None" "fs_get (s_files s) (ip_unit ip) \<noteq> Some Dir"
    using later later3 u r by auto
  show "\<not> p_is_symlink (s_files s) (ip_state ip)" "\<not> p_is_symlink (s_files s) (ip_config_dir ip)"
    using links by auto
  show "fs_get (s_files t) p = fs_get (s_files s) p"
    if "fs_get (s_files s) (ip_share ip) \<noteq> Some Dir" "p \<noteq> ip_unit ip" "\<not> owned_unit ip (s_files s) p"
  proof -
    have "fs_get (s_files s3) (ip_share ip) \<noteq> Some Dir" using that(1) u r by auto
    then have s4: "s_files s4 = s_files s3"
      using 1(4) no_link by (auto simp: remove_if_exists_def remove_tree_def split: if_splits)
    let ?S = "{q. q = ip_unit ip \<or> owned_unit ip (s_files s) q}"
    have "keeps ?S (s_files s) (io_when managed (remove_managed E ip))"
      using keeps_managed [OF rel, of ip "s_files s" ?S] by (auto simp: io_when_def intro: keeps_intro frame_intro)
    moreover have "\<forall>q. q \<notin> ?S \<longrightarrow> fs_get (s_files s4) q = fs_get (s_files s) q" using s4 u r by auto
    ultimately show ?thesis using that 1(5) unfolding keeps_def by (metis (mono_tags, lifting) mem_Collect_eq snd_conv)
  qed
qed

lemma uninstall_purge:
  assumes "uninstall E ip True managed yes s = (Inr x, t)"
  shows "\<exists>u v. yes \<and> uninstall E ip False managed yes s = (Inr (), u) \<and> remove_if_exists E (ip_state ip) u = (Inr (), v)
    \<and> remove_if_exists E (ip_config_dir ip) v = (Inr (), t)"
  using assms unfolding uninstall_def
  by (auto simp: when_fixed io_when_def simp del: when_ok split: if_splits)

text \<open>A directory that is still a directory when its turn comes, or went with the share directory.\<close>

lemma purged:
  assumes dis: "confined E (simple_command disable_args) {}" and rel: "confined E (simple_command reload) {}"
    and run: "uninstall E ip False managed yes s = (Inr x, u)" and rm: "remove_if_exists E d v = (Inr y, w)"
    and between: "\<And>p. fs_get (s_files v) p = None \<or> fs_get (s_files v) p = fs_get (s_files u) p"
    and tree: "\<And>p. fs_get (s_files u) d = Some Dir \<Longrightarrow> fs_get (s_files v) d = None \<Longrightarrow> path_relative_to p d \<Longrightarrow> fs_get (s_files v) p = None"
    and no_link: "\<not> p_is_symlink (s_files s) d"
  shows "gone (s_files s) (s_files w) d"
proof -
  have "fs_get (s_files u) d = None \<or> fs_get (s_files u) d = fs_get (s_files s) d"
    by (rule shrinksD [OF shrinks_uninstall [OF dis rel] run])
  then have no_link': "\<not> p_is_symlink (s_files v) d"
    using between [of d] no_link by (auto simp: p_is_symlink_def)
  note rm_ok = remove_if_exists_ok [OF rm no_link']
  have below: "fs_get (s_files w) p = None" if dir: "fs_get (s_files s) d = Some Dir" and p: "path_relative_to p d" for p
  proof (cases "fs_get (s_files v) d = Some Dir")
    case True
    then show ?thesis using rm_ok(2) p by blast
  next
    case False
    have "fs_get (s_files v) p = None"
    proof (cases "fs_get (s_files u) d = Some Dir")
      case True
      then show ?thesis using tree p False between [of d] by auto
    next
      case no: False
      have "d \<in> uninstall_scope ip False managed (s_files s)"
        using keepsD [OF keeps_uninstall [OF dis rel] run] no dir by fastforce
      moreover have "d \<noteq> ip_unit ip" "\<not> owned_unit ip (s_files s) d"
        using uninstalled(2) [OF dis rel run] dir by (auto simp: owned_unit_def is_generated_application_unit_def)
      ultimately have "path_relative_to d (ip_share ip)" by (simp add: uninstall_scope_def)
      moreover have "fs_get (s_files s) (ip_share ip) = Some Dir"
        using uninstalled(6) [OF dis rel run, of d] no dir \<open>d \<noteq> ip_unit ip\<close> \<open>\<not> owned_unit ip (s_files s) d\<close> by auto
      moreover have "path_relative_to p (ip_share ip)" if "path_relative_to d (ip_share ip)"
        using that p path_relative_to_trans by blast
      ultimately have "fs_get (s_files u) p = None" using uninstalled(3) [OF dis rel run] by (simp add: gone_def)
      then show ?thesis using between [of p] by auto
    qed
    then show ?thesis using shrinksD [OF shrinks_exists rm, of p] by auto
  qed
  then show ?thesis unfolding gone_def using rm_ok(1) by blast
qed


text \<open>A host to purge.\<close>

definition purge_paths :: install_paths where
  "purge_paths = discover_paths path_of (path_of ''/h'')
     (map_of [(''HOME'', ''/h''), (''XDG_DATA_HOME'', ''/d''), (''XDG_STATE_HOME'', ''/t''), (''XDG_CONFIG_HOME'', ''/c'')])"

definition purge_files :: files where
  "purge_files = map (\<lambda>(s, n). (path_of s, n))
     [(''/d/machinedeck'', Dir), (''/d/machinedeck/current'', Link (path_of ''/d/machinedeck/releases/1'')),
      (''/d/machinedeck/releases'', Dir), (''/d/machinedeck/releases/1'', Dir), (''/t/machinedeck'', Dir),
      (''/t/machinedeck/machinedeck.db'', File ''db''), (''/c/machinedeck'', Dir), (''/c/machinedeck/config.toml'', File []),
      (''/c/systemd/user'', Dir), (''/c/systemd/user/machinedeck.service'', File ''unit''), (''/d/other'', File ''kept'')]"

definition purge_env :: "nat \<Rightarrow> deploy_env" where
  "purge_env bad =
     \<lparr>de_exec = (\<lambda>c fs act. (Exit \<lparr>co_status = 0, co_out = [], co_err = []\<rparr>, fs, False)), de_fault = (\<lambda>n. n = bad),
      de_resolve = (\<lambda>fs p. p), de_unique = (\<lambda>n. []), de_time = (\<lambda>f n. []), de_copy_db = (\<lambda>c w. c), de_port_free = (\<lambda>_ act _. \<not> act),
      de_health = (\<lambda>_ act _ _. Inr 200), de_answer = None, de_root = False, de_linux = True, de_modern = True,
      de_user = ''u'', de_python = ''p'', de_environ = [],
      de_toml = \<lparr>tl_load = None, tl_json = (\<lambda>_. None), tl_str = (\<lambda>_. [])\<rparr>, de_detected = (''h'', [])\<rparr>"

definition purge_sys :: sys where
  "purge_sys = \<lparr>s_files = purge_files, s_active = True, s_tick = 0, s_backup = None, s_stopped = False, s_switched = False\<rparr>"

definition demo_purge :: "(deploy_exn + unit) \<times> sys" where
  "demo_purge = uninstall (purge_env 1000) purge_paths True False True purge_sys"

lemma demo_purged: "fst demo_purge = Inr ()"
  by code_simp

lemma demo_share: "fs_get purge_files (ip_share purge_paths) = Some Dir" "fs_get purge_files (ip_state purge_paths) = Some Dir"
  "path_relative_to (database_path purge_paths) (ip_state purge_paths)"
  by code_simp+


end
