(* ===== verification/Schema.thy ===== *)
theory Schema
  imports Paths
begin

text \<open>
  The schema of the database, twice: as the declarations of \<open>database/models.py\<close> give it
  (\<open>create_schema\<close>) and as the migrations under \<open>alembic/versions\<close> build it; and \<open>build_engine\<close>. A
  schema is the list of its tables and of its indexes, each in the order of creation; a statement
  that the database refuses gives \<open>None\<close>. Alembic itself (which revision is recorded, the
  transaction) is left out: it applies the pending revisions in the order of \<open>down_revision\<close>.
\<close>

section \<open>Schemas\<close>

datatype col_type = VarChar nat | TextType | BoolType | IntType | JsonType | TimeType

record column =
  co_name :: string
  co_type :: col_type
  co_null :: bool

text \<open>A foreign key on one column, always \<open>ON DELETE CASCADE\<close>.\<close>

record table_def =
  tb_name :: string
  tb_columns :: "column list"
  tb_key :: string
  tb_unique :: "(string option \<times> string) list"
  tb_foreign :: "(string \<times> string \<times> string) list"

record index_def =
  ix_name :: string
  ix_table :: string
  ix_column :: string
  ix_unique :: bool

type_synonym schema = "table_def list \<times> index_def list"

datatype ddl = CreateTable table_def | CreateIndex index_def | DropIndex string | DropTable string

definition table_names :: "schema \<Rightarrow> string set" where
  "table_names s = tb_name ` set (fst s)"

definition index_names :: "schema \<Rightarrow> string set" where
  "index_names s = ix_name ` set (snd s)"

fun apply_ddl :: "ddl \<Rightarrow> schema \<Rightarrow> schema option" where
  "apply_ddl (CreateTable t) (ts, ixs) = (if tb_name t \<in> table_names (ts, ixs) then None else Some (ts @ [t], ixs))"
| "apply_ddl (CreateIndex i) (ts, ixs) =
     (if ix_name i \<in> index_names (ts, ixs) \<or> ix_table i \<notin> table_names (ts, ixs) then None else Some (ts, ixs @ [i]))"
| "apply_ddl (DropIndex n) (ts, ixs) =
     (if n \<notin> index_names (ts, ixs) then None else Some (ts, filter (\<lambda>i. ix_name i \<noteq> n) ixs))"
| "apply_ddl (DropTable n) (ts, ixs) =
     (if n \<notin> table_names (ts, ixs) then None
      else Some (filter (\<lambda>t. tb_name t \<noteq> n) ts, filter (\<lambda>i. ix_table i \<noteq> n) ixs))"

fun run_ddl :: "ddl list \<Rightarrow> schema \<Rightarrow> schema option" where
  "run_ddl [] s = Some s"
| "run_ddl (c # cs) s = Option.bind (apply_ddl c s) (run_ddl cs)"

section \<open>The migrations\<close>

definition req :: "string \<Rightarrow> col_type \<Rightarrow> column" where
  "req n t = \<lparr>co_name = n, co_type = t, co_null = False\<rparr>"

definition nullable :: "string \<Rightarrow> col_type \<Rightarrow> column" where
  "nullable n t = \<lparr>co_name = n, co_type = t, co_null = True\<rparr>"

definition create_index :: "string \<Rightarrow> string \<Rightarrow> string \<Rightarrow> bool \<Rightarrow> ddl" where
  "create_index n t c u = CreateIndex \<lparr>ix_name = n, ix_table = t, ix_column = c, ix_unique = u\<rparr>"

definition upgrade_0001 :: "ddl list" where
  "upgrade_0001 =
   [CreateTable \<lparr>tb_name = ''applications'',
      tb_columns = [req ''id'' (VarChar 64), req ''name'' (VarChar 200), req ''description'' TextType,
        req ''runtime_type'' (VarChar 32), req ''config_yaml'' TextType, req ''enabled'' BoolType,
        req ''created_at'' TimeType, req ''updated_at'' TimeType],
      tb_key = ''id'', tb_unique = [], tb_foreign = []\<rparr>,
    create_index ''ix_applications_name'' ''applications'' ''name'' False,
    create_index ''ix_applications_runtime_type'' ''applications'' ''runtime_type'' False,
    CreateTable \<lparr>tb_name = ''audit_events'',
      tb_columns = [req ''id'' (VarChar 36), req ''actor'' (VarChar 100), req ''action'' (VarChar 100),
        req ''target_type'' (VarChar 50), req ''target_id'' (VarChar 64), req ''result'' (VarChar 32),
        req ''details_json'' JsonType, req ''created_at'' TimeType],
      tb_key = ''id'', tb_unique = [], tb_foreign = []\<rparr>,
    create_index ''ix_audit_events_action'' ''audit_events'' ''action'' False,
    create_index ''ix_audit_events_target_id'' ''audit_events'' ''target_id'' False]"

definition downgrade_0001 :: "ddl list" where
  "downgrade_0001 = [DropIndex ''ix_audit_events_target_id'', DropIndex ''ix_audit_events_action'', DropTable ''audit_events'',
     DropIndex ''ix_applications_runtime_type'', DropIndex ''ix_applications_name'', DropTable ''applications'']"

definition upgrade_0002 :: "ddl list" where
  "upgrade_0002 =
   [CreateTable \<lparr>tb_name = ''application_instances'',
      tb_columns = [req ''id'' (VarChar 36), req ''application_id'' (VarChar 64), req ''status'' (VarChar 32),
        nullable ''runtime_identifier'' (VarChar 255), nullable ''started_at'' TimeType, nullable ''stopped_at'' TimeType,
        nullable ''exit_code'' IntType, nullable ''error_message'' TextType, nullable ''allocated_gpu'' IntType,
        req ''metadata_json'' JsonType, req ''created_at'' TimeType, req ''updated_at'' TimeType],
      tb_key = ''id'', tb_unique = [], tb_foreign = [(''application_id'', ''applications'', ''id'')]\<rparr>,
    create_index ''ix_application_instances_application_id'' ''application_instances'' ''application_id'' False,
    create_index ''ix_application_instances_status'' ''application_instances'' ''status'' False,
    CreateTable \<lparr>tb_name = ''executions'',
      tb_columns = [req ''id'' (VarChar 36), req ''application_id'' (VarChar 64), req ''action'' (VarChar 32),
        req ''status'' (VarChar 32), req ''requested_by'' (VarChar 100), req ''requested_at'' TimeType,
        nullable ''started_at'' TimeType, nullable ''finished_at'' TimeType, nullable ''exit_code'' IntType,
        nullable ''error_code'' (VarChar 100), nullable ''error_message'' TextType, nullable ''log_reference'' (VarChar 500)],
      tb_key = ''id'', tb_unique = [], tb_foreign = []\<rparr>,
    create_index ''ix_executions_action'' ''executions'' ''action'' False,
    create_index ''ix_executions_application_id'' ''executions'' ''application_id'' False,
    create_index ''ix_executions_status'' ''executions'' ''status'' False]"

definition downgrade_0002 :: "ddl list" where
  "downgrade_0002 = [DropIndex ''ix_executions_status'', DropIndex ''ix_executions_application_id'', DropIndex ''ix_executions_action'',
     DropTable ''executions'', DropIndex ''ix_application_instances_status'', DropIndex ''ix_application_instances_application_id'',
     DropTable ''application_instances'']"

definition upgrade_0003 :: "ddl list" where
  "upgrade_0003 =
   [CreateTable \<lparr>tb_name = ''administrators'',
      tb_columns = [req ''id'' (VarChar 36), req ''singleton_key'' IntType, req ''username'' (VarChar 64),
        req ''password_hash'' TextType, req ''created_at'' TimeType, req ''updated_at'' TimeType],
      tb_key = ''id'', tb_unique = [(Some ''uq_administrators_singleton'', ''singleton_key''), (None, ''username'')],
      tb_foreign = []\<rparr>,
    CreateTable \<lparr>tb_name = ''auth_sessions'',
      tb_columns = [req ''id'' (VarChar 36), req ''administrator_id'' (VarChar 36), req ''token_digest'' (VarChar 64),
        req ''csrf_digest'' (VarChar 64), req ''created_at'' TimeType, req ''expires_at'' TimeType, nullable ''revoked_at'' TimeType],
      tb_key = ''id'', tb_unique = [], tb_foreign = [(''administrator_id'', ''administrators'', ''id'')]\<rparr>,
    create_index ''ix_auth_sessions_administrator_id'' ''auth_sessions'' ''administrator_id'' False,
    create_index ''ix_auth_sessions_expires_at'' ''auth_sessions'' ''expires_at'' False,
    create_index ''ix_auth_sessions_token_digest'' ''auth_sessions'' ''token_digest'' True,
    CreateTable \<lparr>tb_name = ''login_failures'',
      tb_columns = [req ''id'' (VarChar 36), req ''remote_digest'' (VarChar 64), req ''attempted_at'' TimeType],
      tb_key = ''id'', tb_unique = [], tb_foreign = []\<rparr>,
    create_index ''ix_login_failures_attempted_at'' ''login_failures'' ''attempted_at'' False,
    create_index ''ix_login_failures_remote_digest'' ''login_failures'' ''remote_digest'' False]"

definition downgrade_0003 :: "ddl list" where
  "downgrade_0003 = [DropIndex ''ix_login_failures_remote_digest'', DropIndex ''ix_login_failures_attempted_at'', DropTable ''login_failures'',
     DropIndex ''ix_auth_sessions_token_digest'', DropIndex ''ix_auth_sessions_expires_at'', DropIndex ''ix_auth_sessions_administrator_id'',
     DropTable ''auth_sessions'', DropTable ''administrators'']"

text \<open>The chain of revisions; \<open>revisions_after\<close> are those after the recorded one.\<close>

record migration =
  mg_revision :: string
  mg_down :: "string option"
  mg_upgrade :: "ddl list"
  mg_downgrade :: "ddl list"

definition migrations :: "migration list" where
  "migrations =
    [\<lparr>mg_revision = ''0001'', mg_down = None, mg_upgrade = upgrade_0001, mg_downgrade = downgrade_0001\<rparr>,
     \<lparr>mg_revision = ''0002'', mg_down = Some ''0001'', mg_upgrade = upgrade_0002, mg_downgrade = downgrade_0002\<rparr>,
     \<lparr>mg_revision = ''0003'', mg_down = Some ''0002'', mg_upgrade = upgrade_0003, mg_downgrade = downgrade_0003\<rparr>]"

fun chained :: "string option \<Rightarrow> migration list \<Rightarrow> bool" where
  "chained d [] = True"
| "chained d (m # ms) = (mg_down m = d \<and> chained (Some (mg_revision m)) ms)"

definition revisions_after :: "string option \<Rightarrow> migration list" where
  "revisions_after v = (case v of None \<Rightarrow> migrations | Some r \<Rightarrow> drop 1 (dropWhile (\<lambda>m. mg_revision m \<noteq> r) migrations))"

definition upgrade_from :: "string option \<Rightarrow> schema \<Rightarrow> schema option" where
  "upgrade_from v s = run_ddl (concat (map mg_upgrade (revisions_after v))) s"

section \<open>The models\<close>

text \<open>
  A \<open>mapped_column\<close>: its type, \<open>nullable\<close> (which \<open>Mapped\<close> of an optional type implies), \<open>unique\<close>,
  \<open>index\<close> and its foreign key. \<open>unique\<close> with \<open>index\<close> makes one unique index, without it a constraint.
\<close>

record mapped =
  mc_column :: column
  mc_unique :: bool
  mc_index :: bool
  mc_foreign :: "(string \<times> string) option"

definition mapped_col :: "column \<Rightarrow> mapped" where
  "mapped_col c = \<lparr>mc_column = c, mc_unique = False, mc_index = False, mc_foreign = None\<rparr>"

definition indexed :: "mapped \<Rightarrow> mapped" where
  "indexed m = m\<lparr>mc_index := True\<rparr>"

definition uniquely :: "mapped \<Rightarrow> mapped" where
  "uniquely m = m\<lparr>mc_unique := True\<rparr>"

definition referring :: "string \<Rightarrow> string \<Rightarrow> mapped \<Rightarrow> mapped" where
  "referring t c m = m\<lparr>mc_foreign := Some (t, c)\<rparr>"

text \<open>A model class: table name, the constraints of \<open>__table_args__\<close>, and the columns, the key first.\<close>

type_synonym model = "string \<times> (string option \<times> string) list \<times> mapped list"

definition model_table :: "model \<Rightarrow> table_def" where
  "model_table mo = (case mo of (n, args, cs) \<Rightarrow>
     \<lparr>tb_name = n, tb_columns = map mc_column cs, tb_key = co_name (mc_column (hd cs)),
      tb_unique = args @ map (\<lambda>m. (None, co_name (mc_column m))) (filter (\<lambda>m. mc_unique m \<and> \<not> mc_index m) cs),
      tb_foreign = concat (map (\<lambda>m. case mc_foreign m of None \<Rightarrow> [] | Some (t, c) \<Rightarrow> [(co_name (mc_column m), t, c)]) cs)\<rparr>)"

definition model_indexes :: "model \<Rightarrow> index_def list" where
  "model_indexes mo = (case mo of (n, args, cs) \<Rightarrow>
     map (\<lambda>m. \<lparr>ix_name = ''ix_'' @ n @ ''_'' @ co_name (mc_column m), ix_table = n, ix_column = co_name (mc_column m),
        ix_unique = mc_unique m\<rparr>) (filter mc_index cs))"

definition models :: "model list" where
  "models =
   [(''applications'', [],
      [mapped_col (req ''id'' (VarChar 64)), indexed (mapped_col (req ''name'' (VarChar 200))), mapped_col (req ''description'' TextType),
       indexed (mapped_col (req ''runtime_type'' (VarChar 32))), mapped_col (req ''config_yaml'' TextType), mapped_col (req ''enabled'' BoolType),
       mapped_col (req ''created_at'' TimeType), mapped_col (req ''updated_at'' TimeType)]),
    (''audit_events'', [],
      [mapped_col (req ''id'' (VarChar 36)), mapped_col (req ''actor'' (VarChar 100)), indexed (mapped_col (req ''action'' (VarChar 100))),
       mapped_col (req ''target_type'' (VarChar 50)), indexed (mapped_col (req ''target_id'' (VarChar 64))), mapped_col (req ''result'' (VarChar 32)),
       mapped_col (req ''details_json'' JsonType), mapped_col (req ''created_at'' TimeType)]),
    (''application_instances'', [],
      [mapped_col (req ''id'' (VarChar 36)), indexed (referring ''applications'' ''id'' (mapped_col (req ''application_id'' (VarChar 64)))),
       indexed (mapped_col (req ''status'' (VarChar 32))), mapped_col (nullable ''runtime_identifier'' (VarChar 255)),
       mapped_col (nullable ''started_at'' TimeType), mapped_col (nullable ''stopped_at'' TimeType), mapped_col (nullable ''exit_code'' IntType),
       mapped_col (nullable ''error_message'' TextType), mapped_col (nullable ''allocated_gpu'' IntType), mapped_col (req ''metadata_json'' JsonType),
       mapped_col (req ''created_at'' TimeType), mapped_col (req ''updated_at'' TimeType)]),
    (''executions'', [],
      [mapped_col (req ''id'' (VarChar 36)), indexed (mapped_col (req ''application_id'' (VarChar 64))), indexed (mapped_col (req ''action'' (VarChar 32))),
       indexed (mapped_col (req ''status'' (VarChar 32))), mapped_col (req ''requested_by'' (VarChar 100)), mapped_col (req ''requested_at'' TimeType),
       mapped_col (nullable ''started_at'' TimeType), mapped_col (nullable ''finished_at'' TimeType), mapped_col (nullable ''exit_code'' IntType),
       mapped_col (nullable ''error_code'' (VarChar 100)), mapped_col (nullable ''error_message'' TextType), mapped_col (nullable ''log_reference'' (VarChar 500))]),
    (''administrators'', [(Some ''uq_administrators_singleton'', ''singleton_key'')],
      [mapped_col (req ''id'' (VarChar 36)), mapped_col (req ''singleton_key'' IntType), uniquely (mapped_col (req ''username'' (VarChar 64))),
       mapped_col (req ''password_hash'' TextType), mapped_col (req ''created_at'' TimeType), mapped_col (req ''updated_at'' TimeType)]),
    (''auth_sessions'', [],
      [mapped_col (req ''id'' (VarChar 36)), indexed (referring ''administrators'' ''id'' (mapped_col (req ''administrator_id'' (VarChar 36)))),
       indexed (uniquely (mapped_col (req ''token_digest'' (VarChar 64)))), mapped_col (req ''csrf_digest'' (VarChar 64)),
       mapped_col (req ''created_at'' TimeType), indexed (mapped_col (req ''expires_at'' TimeType)), mapped_col (nullable ''revoked_at'' TimeType)]),
    (''login_failures'', [],
      [mapped_col (req ''id'' (VarChar 36)), indexed (mapped_col (req ''remote_digest'' (VarChar 64))), indexed (mapped_col (req ''attempted_at'' TimeType))])]"

text \<open>\<open>Base.metadata.create_all\<close>: every table that is not there, with its indexes.\<close>

definition create_schema :: "schema \<Rightarrow> schema option" where
  "create_schema s = run_ddl (concat (map (\<lambda>mo. CreateTable (model_table mo) # map CreateIndex (model_indexes mo))
     (filter (\<lambda>mo. fst mo \<notin> table_names s) models))) s"

section \<open>The engine\<close>

record engine =
  en_mkdir :: "path option"
  en_same_thread :: "bool option"
  en_foreign_keys :: bool

text \<open>\<open>en_mkdir\<close>: the database file, whose parent is made; \<open>en_same_thread\<close>: the connection argument, if it is given.\<close>

definition build_engine :: "string \<Rightarrow> engine" where
  "build_engine url =
     \<lparr>en_mkdir = (if startswith ''sqlite:///'' url \<and> path_of (drop 10 url) \<noteq> path_of '':memory:''
        then Some (path_of (drop 10 url)) else None),
      en_same_thread = (if startswith ''sqlite'' url then Some False else None), en_foreign_keys = startswith ''sqlite'' url\<rparr>"

definition migration_url :: "string option \<Rightarrow> string option \<Rightarrow> string \<Rightarrow> string \<Rightarrow> string" where
  "migration_url env_url env_config settings_url ini_url =
     (case env_url of Some u \<Rightarrow> u
      | None \<Rightarrow> (case env_config of Some c \<Rightarrow> if c \<noteq> [] then settings_url else ini_url | None \<Rightarrow> ini_url))"

section \<open>Undoing a migration\<close>

fun creates :: "ddl \<Rightarrow> bool" where
  "creates (CreateTable t) = True"
| "creates (CreateIndex i) = True"
| "creates _ = False"

fun undo :: "ddl \<Rightarrow> ddl" where
  "undo (CreateTable t) = DropTable (tb_name t)"
| "undo (CreateIndex i) = DropIndex (ix_name i)"
| "undo c = c"

text \<open>Every index belongs to a table.\<close>

definition schema_ok :: "schema \<Rightarrow> bool" where
  "schema_ok s \<longleftrightarrow> ix_table ` set (snd s) \<subseteq> table_names s"

lemma filter_absent: "n \<notin> f ` set xs \<Longrightarrow> filter (\<lambda>x. f x \<noteq> n) xs = xs"
  by (auto intro!: filter_True)

lemma apply_undo:
  assumes c: "creates c" and ok: "schema_ok s" and a: "apply_ddl c s = Some s'"
  shows "apply_ddl (undo c) s' = Some s \<and> schema_ok s' \<and> set (fst s) \<subseteq> set (fst s')"
proof (cases c)
  case (CreateTable t)
  obtain ts ixs where s: "s = (ts, ixs)" by fastforce
  have n: "tb_name t \<notin> tb_name ` set ts" and s': "s' = (ts @ [t], ixs)"
    using a CreateTable s by (auto simp: table_names_def split: if_splits)
  moreover have "tb_name t \<notin> ix_table ` set ixs" using ok n s by (auto simp: schema_ok_def table_names_def)
  ultimately show ?thesis
    using ok CreateTable s by (auto simp: schema_ok_def table_names_def filter_absent)
next
  case (CreateIndex i)
  obtain ts ixs where s: "s = (ts, ixs)" by fastforce
  have n: "ix_name i \<notin> ix_name ` set ixs" and s': "s' = (ts, ixs @ [i])" and tb: "ix_table i \<in> tb_name ` set ts"
    using a CreateIndex s by (auto simp: index_names_def table_names_def split: if_splits)
  then show ?thesis
    using ok CreateIndex s by (auto simp: schema_ok_def table_names_def index_names_def filter_absent)
qed (use c in simp_all)

lemma run_ddl_append: "run_ddl (xs @ ys) s = Option.bind (run_ddl xs s) (run_ddl ys)"
  by (induction xs arbitrary: s) (simp_all split: Option.bind_splits)

lemma run_undo:
  assumes "list_all creates cs" "schema_ok s" "run_ddl cs s = Some s'"
  shows "run_ddl (rev (map undo cs)) s' = Some s \<and> set (fst s) \<subseteq> set (fst s')"
  using assms
proof (induction cs arbitrary: s)
  case (Cons c cs)
  obtain s1 where s1: "apply_ddl c s = Some s1" "run_ddl cs s1 = Some s'"
    using Cons.prems(3) by (auto split: Option.bind_splits)
  have u: "apply_ddl (undo c) s1 = Some s \<and> schema_ok s1 \<and> set (fst s) \<subseteq> set (fst s1)"
    by (rule apply_undo [OF _ Cons.prems(2) s1(1)]) (use Cons.prems(1) in simp)
  then have "run_ddl (rev (map undo cs)) s' = Some s1 \<and> set (fst s1) \<subseteq> set (fst s')"
    using Cons.IH s1(2) Cons.prems(1) by simp
  then show ?case using u by (auto simp: run_ddl_append)
qed simp

lemma migration_shape: "m \<in> set migrations \<Longrightarrow> list_all creates (mg_upgrade m) \<and> mg_downgrade m = rev (map undo (mg_upgrade m))"
  unfolding migrations_def
  by (auto simp: upgrade_0001_def downgrade_0001_def upgrade_0002_def downgrade_0002_def upgrade_0003_def downgrade_0003_def create_index_def)

text \<open>
  Property C24. Every migration only adds to the schema it finds, and its downgrade takes back
  exactly what its upgrade added: on any schema that accepts the upgrade, also one with tables and
  indexes of its own, the downgrade is accepted and gives that schema again.
\<close>

theorem downgrade_undoes_upgrade:
  assumes "m \<in> set migrations" "schema_ok s" "run_ddl (mg_upgrade m) s = Some s'"
  shows "run_ddl (mg_downgrade m) s' = Some s \<and> set (fst s) \<subseteq> set (fst s')"
  using run_undo [OF _ assms(2,3)] migration_shape [OF assms(1)] by simp

lemma empty_schema_ok: "schema_ok ([], [])"
  by (simp add: schema_ok_def)

theorem downgrade_undoes_upgrade_witness:
  "\<exists>m\<in>set migrations. \<exists>s'. run_ddl (mg_upgrade m) ([], []) = Some s' \<and> run_ddl (mg_downgrade m) s' = Some ([], [])
     \<and> length (fst s') = 2"
proof -
  let ?m = "hd migrations"
  have m: "?m \<in> set migrations" by (simp add: migrations_def)
  have "map_option (length \<circ> fst) (run_ddl (mg_upgrade ?m) ([], [])) = Some 2" by code_simp
  then obtain s' where s': "run_ddl (mg_upgrade ?m) ([], []) = Some s'" "length (fst s') = 2" by auto
  from downgrade_undoes_upgrade [OF m empty_schema_ok s'(1)] s' m show ?thesis by blast
qed

section \<open>The migrations against the models\<close>

text \<open>The schema of a database that the first \<open>k\<close> migrations have built, and the revision it records.\<close>

definition at_revision :: "nat \<Rightarrow> schema option" where
  "at_revision k = run_ddl (concat (map mg_upgrade (take k migrations))) ([], [])"

definition recorded_revision :: "nat \<Rightarrow> string option" where
  "recorded_revision k = (if k = 0 then None else Some (mg_revision (migrations ! (k - 1))))"

definition same_schema :: "schema \<Rightarrow> schema \<Rightarrow> bool" where
  "same_schema s s' \<longleftrightarrow> fst s = fst s' \<and> length (snd s) = length (snd s') \<and> set (snd s) = set (snd s')"

definition upgraded_right :: "nat \<Rightarrow> bool" where
  "upgraded_right k \<longleftrightarrow> (case at_revision k of None \<Rightarrow> False
     | Some s \<Rightarrow> (case upgrade_from (recorded_revision k) s of None \<Rightarrow> False
         | Some u \<Rightarrow> (case create_schema ([], []) of None \<Rightarrow> False
             | Some d \<Rightarrow> same_schema u d \<and> create_schema u = Some u)))"

lemma all_upgraded_right: "upgraded_right 0" "upgraded_right 1" "upgraded_right 2" "upgraded_right 3"
  by code_simp+

text \<open>
  Property C23. The migrations and the models agree: from an empty database, and from one that any of
  the earlier revisions has built, the pending migrations give the tables of the models - columns,
  types, nullability, keys, unique constraints and foreign keys - and exactly their indexes; the
  \<open>create_schema\<close> of a server started on it then changes nothing.
\<close>

theorem migrations_match_models:
  assumes "k \<le> length migrations"
  shows "chained None migrations \<and> (\<exists>s u d. at_revision k = Some s \<and> upgrade_from (recorded_revision k) s = Some u
    \<and> create_schema ([], []) = Some d \<and> same_schema u d \<and> create_schema u = Some u)"
proof -
  have "k = 0 \<or> k = 1 \<or> k = 2 \<or> k = 3" using assms by (auto simp: migrations_def)
  then have "upgraded_right k" using all_upgraded_right by auto
  moreover have "chained None migrations" by (simp add: migrations_def)
  ultimately show ?thesis by (auto simp: upgraded_right_def split: option.splits)
qed

theorem migrations_match_models_witness:
  "\<exists>s u. at_revision 1 = Some s \<and> upgrade_from (Some ''0001'') s = Some u \<and> create_schema u = Some u"
  using migrations_match_models [of 1] by (auto simp: recorded_revision_def migrations_def)

end
