(* ===== verification/Phase0.thy ===== *)
theory Phase0
  imports Manifest PortDiscovery "HOL-Library.Product_Lexorder"
begin

text \<open>
  The Phase 0 prototype (\<open>phase0/registry.py\<close>, \<open>service_manager.py\<close>, \<open>websocket_app.py\<close>, \<open>cli.py\<close>,
  \<open>ports.py\<close> and the permission probe): a read-only registry loaded from an operator's YAML file, the
  commands a lifecycle request runs, the HTTP handlers and the command line over them. A value that
  the YAML library returns is a \<open>yaml\<close>, its \<open>repr\<close> is the parameter \<open>rp\<close>; a process is what the host makes
  of an argument vector and a directory. The other probes are in \<open>Phase0Probes\<close>.
\<close>

section \<open>The registry\<close>

datatype yaml = YNull | YBool bool | YInt int | YStr string | YList "yaml list" | YMap "(string \<times> yaml) list" | YOther

datatype p0_error = RegistryErr string | NotRegistered string | ValueError0 string | Timeout0

record p0_app =
  pa_id :: string
  pa_name :: string
  pa_runtime :: string
  pa_unit :: "string option"
  pa_dir :: "path option"
  pa_compose :: "string option"

fun yaml_truthy :: "yaml \<Rightarrow> bool" where
  "yaml_truthy YNull = False"
| "yaml_truthy (YBool b) = b"
| "yaml_truthy (YInt n) = (n \<noteq> 0)"
| "yaml_truthy (YStr s) = (s \<noteq> [])"
| "yaml_truthy (YList vs) = (vs \<noteq> [])"
| "yaml_truthy (YMap kvs) = (kvs \<noteq> [])"
| "yaml_truthy YOther = True"

fun str_of :: "yaml option \<Rightarrow> string option" where
  "str_of (Some (YStr s)) = Some s"
| "str_of _ = None"

text \<open>\<open>UNIT_PATTERN\<close>.\<close>

definition unit_ok :: "string \<Rightarrow> bool" where
  "unit_ok u \<longleftrightarrow> startswith ''machinedeck-'' u \<and> endswith ''.service'' u \<and> 20 < length u \<and> app_id_ok (take (length u - 20) (drop 12 u))"

definition resolve_in :: "host_fs \<Rightarrow> path \<Rightarrow> string \<Rightarrow> path" where
  "resolve_in fs base v = fs_resolve fs (if path_is_absolute (path_of v) then path_of v else path_join base (path_of v))"

definition p0_roots :: "host_fs \<Rightarrow> path \<Rightarrow> yaml option \<Rightarrow> p0_error + path list" where
  "p0_roots fs base v = (case v of
     Some (YList (x # xs)) \<Rightarrow> res_list (map (\<lambda>y. case y of YStr s \<Rightarrow> Inr (resolve_in fs base s)
         | _ \<Rightarrow> Inl (RegistryErr ''allowed_roots entries must be strings'')) (x # xs))
   | _ \<Rightarrow> Inl (RegistryErr ''At least one allowed_root is required''))"

definition parse_compose :: "host_fs \<Rightarrow> path \<Rightarrow> path list \<Rightarrow> string \<Rightarrow> string \<Rightarrow> (string \<times> yaml) list \<Rightarrow> p0_error + p0_app" where
  "parse_compose fs base roots k name rt =
     (let bad = (\<lambda>t. Inl (RegistryErr (''Application '' @ k @ t))) in
      case (str_of (map_of rt ''project_directory''), str_of (Some (case map_of rt ''compose_file'' of Some v \<Rightarrow> v | None \<Rightarrow> YStr ''compose.yaml''))) of
        (Some dir, Some cf) \<Rightarrow>
          if path_name (path_of cf) \<noteq> cf \<or> cf \<in> {''.'', ''..''} then bad '' has an unsafe compose_file''
          else let project = resolve_in fs base dir
               in if \<not> under_roots project roots then bad '' project_directory is outside allowed roots''
                  else if \<not> fs_is_file fs (path_join project (path_of cf)) then bad '' Compose file does not exist''
                  else Inr \<lparr>pa_id = k, pa_name = name, pa_runtime = ''docker-compose'', pa_unit = None, pa_dir = Some project, pa_compose = Some cf\<rparr>
      | _ \<Rightarrow> bad '' has invalid Compose paths'')"

definition parse_systemd :: "string \<Rightarrow> string \<Rightarrow> (string \<times> yaml) list \<Rightarrow> p0_error + p0_app" where
  "parse_systemd k name rt = (case str_of (map_of rt ''unit'') of
     Some u \<Rightarrow> if unit_ok u
       then Inr \<lparr>pa_id = k, pa_name = name, pa_runtime = ''systemd-user'', pa_unit = Some u, pa_dir = None, pa_compose = None\<rparr>
       else Inl (RegistryErr (''Application '' @ k @ '' has an invalid or unsafe unit''))
   | None \<Rightarrow> Inl (RegistryErr (''Application '' @ k @ '' has an invalid or unsafe unit'')))"

definition or_null :: "yaml option \<Rightarrow> yaml" where
  "or_null v = (case v of None \<Rightarrow> YNull | Some x \<Rightarrow> x)"

definition parse_application :: "host_fs \<Rightarrow> (yaml \<Rightarrow> string) \<Rightarrow> path \<Rightarrow> path list \<Rightarrow> yaml \<Rightarrow> p0_error + p0_app" where
  "parse_application fs rp base roots entry = (case entry of
     YMap kvs \<Rightarrow>
       (case str_of (map_of kvs ''id'') of
          None \<Rightarrow> Inl (RegistryErr (''Invalid application id: '' @ rp (or_null (map_of kvs ''id''))))
        | Some k \<Rightarrow>
            if \<not> app_id_ok k then Inl (RegistryErr (''Invalid application id: '' @ rp (YStr k)))
            else (case str_of (map_of kvs ''name'') of
                None \<Rightarrow> Inl (RegistryErr (''Application '' @ k @ '' requires a name''))
              | Some name \<Rightarrow>
                  if py_strip name = [] then Inl (RegistryErr (''Application '' @ k @ '' requires a name''))
                  else (case map_of kvs ''runtime'' of
                      Some (YMap rt) \<Rightarrow>
                        if str_of (map_of rt ''type'') = Some ''systemd-user'' then parse_systemd k name rt
                        else if str_of (map_of rt ''type'') = Some ''docker-compose'' then parse_compose fs base roots k name rt
                        else Inl (RegistryErr (''Application '' @ k @ '' has unsupported runtime type: '' @ rp (or_null (map_of rt ''type''))))
                    | _ \<Rightarrow> Inl (RegistryErr (''Application '' @ k @ '' requires a runtime mapping'')))))
   | _ \<Rightarrow> Inl (RegistryErr ''Application entries must be mappings''))"

fun load_entries :: "(yaml \<Rightarrow> p0_error + p0_app) \<Rightarrow> yaml list \<Rightarrow> p0_app list \<Rightarrow> p0_error + p0_app list" where
  "load_entries parse [] apps = Inr apps"
| "load_entries parse (e # es) apps = (case parse e of
     Inl x \<Rightarrow> Inl x
   | Inr a \<Rightarrow> if pa_id a \<in> pa_id ` set apps then Inl (RegistryErr (''Duplicate application id: '' @ pa_id a))
              else load_entries parse es (apps @ [a]))"

definition load_registry :: "host_fs \<Rightarrow> (yaml \<Rightarrow> string) \<Rightarrow> path \<Rightarrow> yaml \<Rightarrow> p0_error + p0_app list" where
  "load_registry fs rp base raw = (case (if yaml_truthy raw then raw else YMap []) of
     YMap kvs \<Rightarrow>
       (case p0_roots fs base (map_of kvs ''allowed_roots'') of
          Inl e \<Rightarrow> Inl e
        | Inr roots \<Rightarrow>
            (case (case map_of kvs ''applications'' of None \<Rightarrow> YList [] | Some v \<Rightarrow> v) of
               YList es \<Rightarrow> load_entries (parse_application fs rp base roots) es []
             | _ \<Rightarrow> Inl (RegistryErr ''applications must be a list'')))
   | _ \<Rightarrow> Inl (RegistryErr ''Registry root must be a mapping''))"

definition registry_get :: "p0_app list \<Rightarrow> string \<Rightarrow> p0_error + p0_app" where
  "registry_get apps k =
     (if \<not> app_id_ok k then Inl (NotRegistered ''Application is not registered'')
      else case List.find (\<lambda>a. pa_id a = k) apps of
          None \<Rightarrow> Inl (NotRegistered (''Application is not registered: '' @ k)) | Some a \<Rightarrow> Inr a)"

section \<open>The managers\<close>

text \<open>What the host makes of a command: it cannot be started, it outlives its timeout and is killed, or it ends.\<close>

datatype spawned = NoSpawn string | TimedOut | Ended "int option" string

type_synonym 'w p0_host = "string list \<Rightarrow> path option \<Rightarrow> 'w \<Rightarrow> spawned \<times> 'w"

definition p0_run :: "'w p0_host \<Rightarrow> string list \<Rightarrow> path option \<Rightarrow> 'w \<Rightarrow> (p0_error + int \<times> string) \<times> 'w" where
  "p0_run h cmd cwd w = (case h cmd cwd w of
     (NoSpawn t, w1) \<Rightarrow> (Inr (127, t), w1)
   | (TimedOut, w1) \<Rightarrow> (Inl Timeout0, w1)
   | (Ended rc out, w1) \<Rightarrow> (Inr (case rc of None \<Rightarrow> 0 | Some n \<Rightarrow> n, py_strip out), w1))"

record p0_result =
  pr_app :: string
  pr_action :: string
  pr_succeeded :: bool
  pr_output :: string

definition unit_of_app :: "p0_app list \<Rightarrow> string \<Rightarrow> p0_error + string" where
  "unit_of_app apps k = (case registry_get apps k of
     Inl e \<Rightarrow> Inl e
   | Inr a \<Rightarrow> (case pa_unit a of
       Some u \<Rightarrow> if pa_runtime a = ''systemd-user'' then Inr u
                 else Inl (RegistryErr (''Application '' @ k @ '' is not a systemd-user application''))
     | None \<Rightarrow> Inl (RegistryErr (''Application '' @ k @ '' is not a systemd-user application''))))"

definition project_of_app :: "p0_app list \<Rightarrow> string \<Rightarrow> p0_error + path \<times> string" where
  "project_of_app apps k = (case registry_get apps k of
     Inl e \<Rightarrow> Inl e
   | Inr a \<Rightarrow> (case (pa_dir a, pa_compose a) of
       (Some d, Some cf) \<Rightarrow> if pa_runtime a = ''docker-compose'' then Inr (d, cf)
                 else Inl (RegistryErr (''Application '' @ k @ '' is not a Docker Compose application''))
     | _ \<Rightarrow> Inl (RegistryErr (''Application '' @ k @ '' is not a Docker Compose application''))))"

text \<open>The argument vectors; the actions are \<open>start\<close>, \<open>stop\<close>, \<open>restart\<close> and \<open>status\<close>.\<close>

definition systemd_command :: "string \<Rightarrow> string \<Rightarrow> string list" where
  "systemd_command u act = [''systemctl'', ''--user'', act, u]"

definition compose_command :: "string \<Rightarrow> string \<Rightarrow> string list" where
  "compose_command cf act = [''docker'', ''compose'', ''-f'', cf] @
     (if act = ''start'' then [''up'', ''-d''] else if act = ''stop'' then [''stop'']
      else if act = ''restart'' then [''restart''] else [''ps'', ''--format'', ''json''])"

definition systemd_logs_command :: "string \<Rightarrow> int \<Rightarrow> string list" where
  "systemd_logs_command u n = [''journalctl'', ''--user-unit'', u, ''--no-pager'', ''--lines'', int_str n]"

definition compose_logs_command :: "string \<Rightarrow> int \<Rightarrow> string list" where
  "compose_logs_command cf n = [''docker'', ''compose'', ''-f'', cf, ''logs'', ''--no-color'', ''--tail'', int_str n]"

definition finish_action :: "string \<Rightarrow> string \<Rightarrow> (p0_error + int \<times> string) \<times> 'w \<Rightarrow> (p0_error + p0_result) \<times> 'w" where
  "finish_action k act r = (case r of
     (Inl e, w) \<Rightarrow> (Inl e, w)
   | (Inr (rc, out), w) \<Rightarrow> (Inr \<lparr>pr_app = k, pr_action = act, pr_succeeded = (rc = 0), pr_output = out\<rparr>, w))"

definition p0_action :: "'w p0_host \<Rightarrow> p0_app list \<Rightarrow> string \<Rightarrow> string \<Rightarrow> 'w \<Rightarrow> (p0_error + p0_result) \<times> 'w" where
  "p0_action h apps act k w = (case registry_get apps k of
     Inl e \<Rightarrow> (Inl e, w)
   | Inr a \<Rightarrow>
       if pa_runtime a = ''systemd-user''
       then (case unit_of_app apps k of Inl e \<Rightarrow> (Inl e, w)
             | Inr u \<Rightarrow> finish_action k act (p0_run h (systemd_command u act) None w))
       else if pa_runtime a = ''docker-compose''
       then (case project_of_app apps k of Inl e \<Rightarrow> (Inl e, w)
             | Inr (d, cf) \<Rightarrow> finish_action k act (p0_run h (compose_command cf act) (Some d) w))
       else (Inl (RegistryErr (''No lifecycle adapter for '' @ pa_runtime a)), w))"

definition finish_logs :: "(p0_error + int \<times> string) \<times> 'w \<Rightarrow> (p0_error + string list) \<times> 'w" where
  "finish_logs r = (case r of (Inl e, w) \<Rightarrow> (Inl e, w) | (Inr (rc, out), w) \<Rightarrow> (Inr (splitlines out), w))"

definition p0_logs :: "'w p0_host \<Rightarrow> p0_app list \<Rightarrow> int \<Rightarrow> string \<Rightarrow> 'w \<Rightarrow> (p0_error + string list) \<times> 'w" where
  "p0_logs h apps n k w = (let bad = Inl (ValueError0 ''lines must be between 1 and 5000'') in
     case registry_get apps k of
     Inl e \<Rightarrow> (Inl e, w)
   | Inr a \<Rightarrow>
       if pa_runtime a = ''systemd-user''
       then (case unit_of_app apps k of Inl e \<Rightarrow> (Inl e, w)
             | Inr u \<Rightarrow> if \<not> (1 \<le> n \<and> n \<le> 5000) then (bad, w)
                        else finish_logs (p0_run h (systemd_logs_command u n) None w))
       else if pa_runtime a = ''docker-compose''
       then (case project_of_app apps k of Inl e \<Rightarrow> (Inl e, w)
             | Inr (d, cf) \<Rightarrow> if \<not> (1 \<le> n \<and> n \<le> 5000) then (bad, w)
                        else finish_logs (p0_run h (compose_logs_command cf n) (Some d) w))
       else (Inl (RegistryErr (''No lifecycle adapter for '' @ pa_runtime a)), w))"

section \<open>The handlers and the command line\<close>

fun p0_http :: "p0_error \<Rightarrow> int \<times> string" where
  "p0_http (NotRegistered t) = (404, t)"
| "p0_http (RegistryErr t) = (400, t)"
| "p0_http (ValueError0 t) = (400, t)"
| "p0_http Timeout0 = (500, ''Internal Server Error'')"

definition answer_of :: "(p0_error + 'a) \<times> 'w \<Rightarrow> ((int \<times> string) + 'a) \<times> 'w" where
  "answer_of r = (case r of (Inl e, w) \<Rightarrow> (Inl (p0_http e), w) | (Inr x, w) \<Rightarrow> (Inr x, w))"

definition p0_post :: "'w p0_host \<Rightarrow> p0_app list \<Rightarrow> string \<Rightarrow> string \<Rightarrow> string \<Rightarrow> 'w \<Rightarrow> ((int \<times> string) + p0_result) \<times> 'w" where
  "p0_post h apps act k body w =
     (if body \<noteq> [] then (Inl (400, ''Lifecycle requests do not accept commands, units, paths, or arguments''), w)
      else answer_of (p0_action h apps act k w))"

definition p0_status :: "'w p0_host \<Rightarrow> p0_app list \<Rightarrow> string \<Rightarrow> 'w \<Rightarrow> ((int \<times> string) + p0_result) \<times> 'w" where
  "p0_status h apps k w = answer_of (p0_action h apps ''status'' k w)"

text \<open>FastAPI answers 422 unless the query gives a number of lines between 1 and 5000.\<close>

definition p0_get_logs :: "'w p0_host \<Rightarrow> p0_app list \<Rightarrow> int option \<Rightarrow> string \<Rightarrow> 'w \<Rightarrow> ((int \<times> string) + string list) \<times> 'w" where
  "p0_get_logs h apps n k w =
     (case n of None \<Rightarrow> (Inl (422, []), w)
      | Some n \<Rightarrow> if \<not> (1 \<le> n \<and> n \<le> 5000) then (Inl (422, []), w) else answer_of (p0_logs h apps n k w))"

definition p0_list :: "p0_app list \<Rightarrow> (string \<times> string \<times> string) list" where
  "p0_list apps = map (\<lambda>a. (pa_id a, pa_name a, pa_runtime a)) apps"

text \<open>The exit status of \<open>app <id> <action>\<close>; an uncaught timeout ends the interpreter with 1.\<close>

definition p0_cli :: "'w p0_host \<Rightarrow> p0_error + p0_app list \<Rightarrow> string \<Rightarrow> string \<Rightarrow> int \<Rightarrow> 'w \<Rightarrow> int \<times> 'w" where
  "p0_cli h loaded k act n w = (let code = (\<lambda>e. if e = Timeout0 then 1 else 2) in
     case loaded of Inl e \<Rightarrow> (code e, w)
     | Inr apps \<Rightarrow>
         if act = ''logs'' then (case p0_logs h apps n k w of (Inl e, w1) \<Rightarrow> (code e, w1) | (Inr _, w1) \<Rightarrow> (0, w1))
         else (case p0_action h apps act k w of (Inl e, w1) \<Rightarrow> (code e, w1)
               | (Inr r, w1) \<Rightarrow> (if pr_succeeded r then 0 else 1, w1)))"

section \<open>The probes\<close>

record p0_probe =
  pb_name :: string
  pb_available :: bool
  pb_error :: "string option"
  pb_warnings :: "string list"

record p0_listener =
  li_address :: string
  li_port :: int
  li_proto :: transport
  li_pid :: "int option"

text \<open>The order of the protocols is that of their names, ''tcp'' before ''udp''.\<close>

instantiation transport :: linorder
begin

definition less_eq_transport :: "transport \<Rightarrow> transport \<Rightarrow> bool" where
  "less_eq_transport a b \<longleftrightarrow> a = Tcp \<or> b = Udp"

definition less_transport :: "transport \<Rightarrow> transport \<Rightarrow> bool" where
  "less_transport a b \<longleftrightarrow> a = Tcp \<and> b = Udp"

instance
proof
  fix x y z :: transport
  show "x < y \<longleftrightarrow> x \<le> y \<and> \<not> y \<le> x" "x \<le> x" "x \<le> y \<Longrightarrow> y \<le> z \<Longrightarrow> x \<le> z" "x \<le> y \<Longrightarrow> y \<le> x \<Longrightarrow> x = y"
    "x \<le> y \<or> y \<le> x"
    by (cases x; cases y; cases z; simp add: less_eq_transport_def less_transport_def)+
qed

end

definition listeners :: "connection list \<Rightarrow> p0_listener list" where
  "listeners cs = sort_key (\<lambda>l. (li_port l, li_proto l))
     (List.map_filter (\<lambda>c. if cn_stream c \<and> \<not> cn_listen c then None
        else map_option (\<lambda>(a, p). \<lparr>li_address = a, li_port = p, li_proto = (if cn_stream c then Tcp else Udp), li_pid = cn_pid c\<rparr>)
          (cn_laddr c)) cs)"

definition read_listening_ports :: "string + connection list \<Rightarrow> p0_probe \<times> p0_listener list" where
  "read_listening_ports src = (case src of
     Inr cs \<Rightarrow> (\<lparr>pb_name = ''listening_ports'', pb_available = True, pb_error = None, pb_warnings = []\<rparr>, listeners cs)
   | Inl e \<Rightarrow> (\<lparr>pb_name = ''listening_ports'', pb_available = False, pb_error = Some e, pb_warnings = []\<rparr>, []))"

definition permission_snapshot :: "(string \<Rightarrow> string option) \<Rightarrow> p0_probe \<times> (string \<times> string option) list" where
  "permission_snapshot which = (let paths = map (\<lambda>c. (c, which c)) [''systemctl'', ''journalctl'', ''docker'', ''nvidia-smi''];
        missing = map fst (filter (\<lambda>p. snd p = None) paths)
     in (\<lparr>pb_name = ''permissions'', pb_available = (missing = []), pb_error = None,
          pb_warnings = map (\<lambda>c. ''Command not found: '' @ c) missing\<rparr>, paths))"

section \<open>Nothing runs that the operator has not registered\<close>

definition app_safe :: "host_fs \<Rightarrow> path list \<Rightarrow> p0_app \<Rightarrow> bool" where
  "app_safe fs roots a \<longleftrightarrow> app_id_ok (pa_id a) \<and>
     ((pa_runtime a = ''systemd-user'' \<and> (\<exists>u. pa_unit a = Some u \<and> unit_ok u))
      \<or> (pa_runtime a = ''docker-compose'' \<and> (\<exists>d cf. pa_dir a = Some d \<and> pa_compose a = Some cf \<and> under_roots d roots
          \<and> path_name (path_of cf) = cf \<and> fs_is_file fs (path_join d (path_of cf)))))"

text \<open>\<open>cmd\<close> in \<open>dir\<close> is the command the entry \<open>a\<close> stands for: on its unit, or in its project.\<close>

definition registered_command ::
    "host_fs \<Rightarrow> path list \<Rightarrow> p0_app \<Rightarrow> (string \<Rightarrow> string list) \<Rightarrow> (string \<Rightarrow> string list) \<Rightarrow> string list \<Rightarrow> path option \<Rightarrow> bool"
where
  "registered_command fs roots a on_unit on_project cmd dir \<longleftrightarrow>
     (\<exists>u. pa_unit a = Some u \<and> unit_ok u \<and> cmd = on_unit u \<and> dir = None)
     \<or> (\<exists>d cf. pa_dir a = Some d \<and> pa_compose a = Some cf \<and> under_roots d roots \<and> path_name (path_of cf) = cf
          \<and> fs_is_file fs (path_join d (path_of cf)) \<and> cmd = on_project cf \<and> dir = Some d)"

lemma parse_systemd_safe: "parse_systemd k name rt = Inr a \<Longrightarrow> app_id_ok k \<Longrightarrow> app_safe fs roots a"
  by (auto simp: parse_systemd_def app_safe_def split: option.splits if_splits)

lemma parse_compose_safe: "parse_compose fs base roots k name rt = Inr a \<Longrightarrow> app_id_ok k \<Longrightarrow> app_safe fs roots a"
  unfolding parse_compose_def app_safe_def Let_def by (simp split: option.splits if_splits) auto

lemma parse_safe:
  assumes "parse_application fs rp base roots e = Inr a"
  shows "app_safe fs roots a"
proof -
  obtain kvs k name rt where p: "e = YMap kvs" "app_id_ok k" "map_of kvs ''runtime'' = Some (YMap rt)"
    and r: "parse_systemd k name rt = Inr a \<or> parse_compose fs base roots k name rt = Inr a"
    using assms unfolding parse_application_def by (simp split: yaml.splits option.splits if_splits) blast+
  then show ?thesis using parse_systemd_safe parse_compose_safe by blast
qed

lemma load_entries_safe:
  assumes "load_entries parse es apps = Inr res" "\<And>e a. parse e = Inr a \<Longrightarrow> P a" "\<forall>a\<in>set apps. P a" "distinct (map pa_id apps)"
  shows "(\<forall>a\<in>set res. P a) \<and> distinct (map pa_id res)"
  using assms(1,3,4)
proof (induction es arbitrary: apps)
  case (Cons e es)
  obtain a where a: "parse e = Inr a" "pa_id a \<notin> pa_id ` set apps" "load_entries parse es (apps @ [a]) = Inr res"
    using Cons.prems(1) by (auto split: sum.splits if_splits)
  show ?case
    by (rule Cons.IH [OF a(3)]) (use Cons.prems(2,3) a(2) assms(2) [OF a(1)] in auto)
qed simp

lemma load_safe:
  assumes "load_registry fs rp base raw = Inr apps"
  obtains roots kvs where "raw = YMap kvs" "p0_roots fs base (map_of kvs ''allowed_roots'') = Inr roots"
    "\<forall>a\<in>set apps. app_safe fs roots a" "distinct (map pa_id apps)"
proof -
  obtain kvs where raw: "(if yaml_truthy raw then raw else YMap []) = YMap kvs"
    using assms by (auto simp: load_registry_def split: yaml.splits)
  obtain roots es where r: "p0_roots fs base (map_of kvs ''allowed_roots'') = Inr roots"
    "load_entries (parse_application fs rp base roots) es [] = Inr apps"
    using assms raw by (auto simp: load_registry_def split: sum.splits yaml.splits)
  have "kvs \<noteq> []" using r(1) by (auto simp: p0_roots_def)
  then have "raw = YMap kvs" using raw by (auto split: if_splits)
  moreover have "(\<forall>a\<in>set apps. app_safe fs roots a) \<and> distinct (map pa_id apps)"
    by (rule load_entries_safe [OF r(2)]) (auto intro: parse_safe)
  ultimately show thesis using that r(1) by blast
qed

lemma get_member: "registry_get apps k = Inr a \<Longrightarrow> a \<in> set apps \<and> pa_id a = k"
  by (auto simp: registry_get_def dest: find_SomeD split: if_splits option.splits)

lemma get_error: "registry_get apps k = Inl e \<Longrightarrow> \<exists>t. e = NotRegistered t"
  by (auto simp: registry_get_def split: if_splits option.splits)

lemma registered_unit:
  assumes "registry_get apps k = Inr a" "app_safe fs roots a" "pa_runtime a = ''systemd-user''"
  obtains u where "unit_of_app apps k = Inr u" "registered_command fs roots a f g (f u) None"
  using assms by (auto simp: unit_of_app_def app_safe_def registered_command_def)

lemma registered_project:
  assumes "registry_get apps k = Inr a" "app_safe fs roots a" "pa_runtime a = ''docker-compose''"
  obtains d cf where "project_of_app apps k = Inr (d, cf)" "registered_command fs roots a f g (g cf) (Some d)"
  using assms by (auto simp: project_of_app_def app_safe_def registered_command_def)

lemma safe_runtime: "app_safe fs roots a \<Longrightarrow> pa_runtime a = ''systemd-user'' \<or> pa_runtime a = ''docker-compose''"
  by (auto simp: app_safe_def)

lemma action_runs:
  assumes "\<forall>a\<in>set apps. app_safe fs roots a"
  shows "(\<exists>t. p0_action h apps act k w = (Inl (NotRegistered t), w) \<and> (\<forall>a. registry_get apps k \<noteq> Inr a))
    \<or> (\<exists>a\<in>set apps. pa_id a = k \<and> (\<exists>cmd dir. registered_command fs roots a (\<lambda>u. systemd_command u act) (\<lambda>c. compose_command c act) cmd dir
         \<and> p0_action h apps act k w = finish_action k act (p0_run h cmd dir w)))"
proof (cases "registry_get apps k")
  case (Inl e)
  then show ?thesis using get_error [OF Inl] by (auto simp: p0_action_def)
next
  case (Inr a)
  have a: "a \<in> set apps" "pa_id a = k" "app_safe fs roots a" using get_member [OF Inr] assms by auto
  from safe_runtime [OF a(3)] show ?thesis
  proof
    assume rt: "pa_runtime a = ''systemd-user''"
    obtain u where "unit_of_app apps k = Inr u"
      "registered_command fs roots a (\<lambda>u. systemd_command u act) (\<lambda>c. compose_command c act) (systemd_command u act) None"
      by (rule registered_unit [OF Inr a(3) rt])
    then show ?thesis using a Inr rt by (auto simp: p0_action_def)
  next
    assume rt: "pa_runtime a = ''docker-compose''"
    obtain d cf where "project_of_app apps k = Inr (d, cf)"
      "registered_command fs roots a (\<lambda>u. systemd_command u act) (\<lambda>c. compose_command c act) (compose_command cf act) (Some d)"
      by (rule registered_project [OF Inr a(3) rt])
    then show ?thesis using a Inr rt by (auto simp: p0_action_def)
  qed
qed

lemma logs_run:
  assumes "\<forall>a\<in>set apps. app_safe fs roots a" "1 \<le> n" "n \<le> 5000"
  shows "(\<exists>t. p0_logs h apps n k w = (Inl (NotRegistered t), w) \<and> (\<forall>a. registry_get apps k \<noteq> Inr a))
    \<or> (\<exists>a\<in>set apps. pa_id a = k \<and> (\<exists>cmd dir. registered_command fs roots a (\<lambda>u. systemd_logs_command u n) (\<lambda>c. compose_logs_command c n) cmd dir
         \<and> p0_logs h apps n k w = finish_logs (p0_run h cmd dir w)))"
proof (cases "registry_get apps k")
  case (Inl e)
  then show ?thesis using get_error [OF Inl] by (auto simp: p0_logs_def)
next
  case (Inr a)
  have a: "a \<in> set apps" "pa_id a = k" "app_safe fs roots a" using get_member [OF Inr] assms by auto
  from safe_runtime [OF a(3)] show ?thesis
  proof
    assume rt: "pa_runtime a = ''systemd-user''"
    obtain u where "unit_of_app apps k = Inr u"
      "registered_command fs roots a (\<lambda>u. systemd_logs_command u n) (\<lambda>c. compose_logs_command c n) (systemd_logs_command u n) None"
      by (rule registered_unit [OF Inr a(3) rt])
    then show ?thesis using a Inr rt assms(2,3) by (auto simp: p0_logs_def)
  next
    assume rt: "pa_runtime a = ''docker-compose''"
    obtain d cf where "project_of_app apps k = Inr (d, cf)"
      "registered_command fs roots a (\<lambda>u. systemd_logs_command u n) (\<lambda>c. compose_logs_command c n) (compose_logs_command cf n) (Some d)"
      by (rule registered_project [OF Inr a(3) rt])
    then show ?thesis using a Inr rt assms(2,3) by (auto simp: p0_logs_def)
  qed
qed

text \<open>
  Property C25. A Phase 0 request never chooses what runs. With a registry that has loaded, a lifecycle
  request with a body, or for an id that is not registered, is refused and the host is untouched;
  any other runs exactly one command, that of the registry entry with this id: on its unit, whose name
  is a safe one, or on its Compose file in its project directory, which lies under a root the operator
  allowed and holds the file. A log request adds only its number of lines, between 1 and 5000.
\<close>

theorem only_registered_commands:
  assumes "load_registry fs rp base raw = Inr apps"
  shows "\<exists>roots kvs. raw = YMap kvs \<and> p0_roots fs base (map_of kvs ''allowed_roots'') = Inr roots \<and> distinct (map pa_id apps)
    \<and> ((\<exists>code t. p0_post h apps act k body w = (Inl (code, t), w) \<and> (code = 400 \<or> code = 404))
       \<or> (body = [] \<and> (\<exists>a cmd dir. a \<in> set apps \<and> pa_id a = k
            \<and> registered_command fs roots a (\<lambda>u. systemd_command u act) (\<lambda>c. compose_command c act) cmd dir
            \<and> p0_post h apps act k body w = answer_of (finish_action k act (p0_run h cmd dir w)))))
    \<and> ((\<exists>code t. p0_get_logs h apps n k w = (Inl (code, t), w) \<and> (code = 404 \<or> code = 422))
       \<or> (\<exists>i a cmd dir. n = Some i \<and> 1 \<le> i \<and> i \<le> 5000 \<and> a \<in> set apps \<and> pa_id a = k
            \<and> registered_command fs roots a (\<lambda>u. systemd_logs_command u i) (\<lambda>c. compose_logs_command c i) cmd dir
            \<and> p0_get_logs h apps n k w = answer_of (finish_logs (p0_run h cmd dir w))))"
proof -
  obtain roots kvs where r: "raw = YMap kvs" "p0_roots fs base (map_of kvs ''allowed_roots'') = Inr roots"
    "\<forall>a\<in>set apps. app_safe fs roots a" "distinct (map pa_id apps)" by (rule load_safe [OF assms])
  have post: "(\<exists>code t. p0_post h apps act k body w = (Inl (code, t), w) \<and> (code = 400 \<or> code = 404))
     \<or> (body = [] \<and> (\<exists>a cmd dir. a \<in> set apps \<and> pa_id a = k
          \<and> registered_command fs roots a (\<lambda>u. systemd_command u act) (\<lambda>c. compose_command c act) cmd dir
          \<and> p0_post h apps act k body w = answer_of (finish_action k act (p0_run h cmd dir w))))"
    using action_runs [OF r(3), of h act k w] by (cases "body = []") (force simp: p0_post_def answer_of_def)+
  have logs: "(\<exists>code t. p0_get_logs h apps n k w = (Inl (code, t), w) \<and> (code = 404 \<or> code = 422))
     \<or> (\<exists>i a cmd dir. n = Some i \<and> 1 \<le> i \<and> i \<le> 5000 \<and> a \<in> set apps \<and> pa_id a = k
          \<and> registered_command fs roots a (\<lambda>u. systemd_logs_command u i) (\<lambda>c. compose_logs_command c i) cmd dir
          \<and> p0_get_logs h apps n k w = answer_of (finish_logs (p0_run h cmd dir w)))"
  proof (cases "\<exists>i. n = Some i \<and> 1 \<le> i \<and> i \<le> 5000")
    case True
    then obtain i where i: "n = Some i" "1 \<le> i" "i \<le> 5000" by blast
    from logs_run [OF r(3) i(2,3), of h k w] show ?thesis using i by (force simp: p0_get_logs_def answer_of_def)
  next
    case False
    then show ?thesis by (auto simp: p0_get_logs_def split: option.splits)
  qed
  show ?thesis using r(1,2,4) post logs by (intro exI conjI)
qed

text \<open>An operator's file with a unit, and a host that notes what it was asked to run.\<close>

definition sample_raw :: yaml where
  "sample_raw = YMap [(''allowed_roots'', YList [YStr ''/srv'']), (''applications'', YList
     [YMap [(''id'', YStr ''llm''), (''name'', YStr ''LLM''), (''runtime'', YMap [(''type'', YStr ''systemd-user''), (''unit'', YStr ''machinedeck-llm.service'')])]])]"

definition noting :: "(string list \<times> path option) list p0_host" where
  "noting cmd d w = (Ended (Some 0) [], w @ [(cmd, d)])"

definition sample_apps :: "p0_app list" where
  "sample_apps = [\<lparr>pa_id = ''llm'', pa_name = ''LLM'', pa_runtime = ''systemd-user'', pa_unit = Some ''machinedeck-llm.service'',
     pa_dir = None, pa_compose = None\<rparr>]"

lemma sample_loaded: "load_registry plain_fs (\<lambda>_. []) (path_of ''/etc'') sample_raw = Inr sample_apps"
  by code_simp

lemma sample_started: "snd (p0_post noting sample_apps ''start'' ''llm'' [] [])
    = [([''systemctl'', ''--user'', ''start'', ''machinedeck-llm.service''], None)]"
  by code_simp

theorem only_registered_commands_witness:
  "\<exists>a\<in>set sample_apps. \<exists>roots cmd dir. registered_command plain_fs roots a (\<lambda>u. systemd_command u ''start'') (\<lambda>c. compose_command c ''start'') cmd dir
     \<and> p0_post noting sample_apps ''start'' ''llm'' [] [] = answer_of (finish_action ''llm'' ''start'' (p0_run noting cmd dir []))"
  using only_registered_commands [OF sample_loaded, of noting "''start''" "''llm''" "[]" "[]" None] sample_started by fastforce

end
