(* ===== verification/Phase0Probes.thy ===== *)
theory Phase0Probes
  imports Phase0 Complex_Main
begin

text \<open>
  The remaining probes of the Phase 0 prototype (\<open>phase0/gpu.py\<close>, \<open>docker_probe.py\<close>, \<open>system_metrics.py\<close>)
  and \<open>report.py\<close>, which runs them all. The libraries are parameters: every call gives a value or raises.
  Floats are rationals. A probe that gives up has no data.
\<close>

text \<open>\<open>NotSupported\<close> is a subclass of \<open>NVMLError\<close>; \<open>OsExc\<close> and \<open>RuntimeExc\<close> are OSError and RuntimeError.\<close>

datatype probe_exc = NvmlExc string | NotSupported string | OsExc string | RuntimeExc string | OtherExc0 string

fun exc_str :: "probe_exc \<Rightarrow> string" where
  "exc_str (NvmlExc t) = t"
| "exc_str (NotSupported t) = t"
| "exc_str (OsExc t) = t"
| "exc_str (RuntimeExc t) = t"
| "exc_str (OtherExc0 t) = t"

fun is_nvml :: "probe_exc \<Rightarrow> bool" where
  "is_nvml (NvmlExc t) = True"
| "is_nvml (NotSupported t) = True"
| "is_nvml _ = False"

fun is_host_exc :: "probe_exc \<Rightarrow> bool" where
  "is_host_exc (OsExc t) = True"
| "is_host_exc (RuntimeExc t) = True"
| "is_host_exc _ = False"

definition unavailable_probe :: "string \<Rightarrow> string \<Rightarrow> p0_probe" where
  "unavailable_probe n e = \<lparr>pb_name = n, pb_available = False, pb_error = Some e, pb_warnings = []\<rparr>"

definition available_probe :: "string \<Rightarrow> string list \<Rightarrow> p0_probe" where
  "available_probe n ws = \<lparr>pb_name = n, pb_available = True, pb_error = None, pb_warnings = ws\<rparr>"

section \<open>GPUs\<close>

record nvml0_device =
  n0_handle :: "probe_exc + unit"
  n0_memory :: "probe_exc + int \<times> int \<times> int"
  n0_util :: "probe_exc + int \<times> int"
  n0_running :: "probe_exc + (int \<times> int option) list"
  n0_name :: "probe_exc + string"
  n0_uuid :: "probe_exc + string"

record nvml0 =
  n0_import :: bool
  n0_init :: "probe_exc + unit"
  n0_version :: "probe_exc + string"
  n0_count :: "probe_exc + int"
  n0_device :: "nat \<Rightarrow> nvml0_device"
  n0_shutdown :: "probe_exc + unit"

record gpu0 =
  g0_index :: nat
  g0_name :: string
  g0_uuid :: string
  g0_memory :: "int \<times> int \<times> int"
  g0_util :: "int \<times> int"
  g0_processes :: "(int \<times> int option) list"

definition running_processes :: "nvml0_device \<Rightarrow> probe_exc + (int \<times> int option) list" where
  "running_processes d = (case n0_running d of Inl (NotSupported t) \<Rightarrow> Inr [] | r \<Rightarrow> r)"

definition read_device :: "nat \<Rightarrow> nvml0_device \<Rightarrow> probe_exc + gpu0" where
  "read_device i d =
     res_bind (n0_handle d) (\<lambda>_. res_bind (n0_memory d) (\<lambda>m. res_bind (n0_util d) (\<lambda>u.
     res_bind (running_processes d) (\<lambda>ps. res_bind (n0_name d) (\<lambda>n. res_bind (n0_uuid d) (\<lambda>k.
       Inr \<lparr>g0_index = i, g0_name = n, g0_uuid = k, g0_memory = m, g0_util = u, g0_processes = ps\<rparr>))))))"

definition query_gpus :: "nvml0 \<Rightarrow> probe_exc + string \<times> gpu0 list" where
  "query_gpus nv = res_bind (n0_version nv) (\<lambda>v. res_bind (n0_count nv) (\<lambda>n.
     res_bind (res_list (map (\<lambda>i. read_device i (n0_device nv i)) [0..<nat n])) (\<lambda>gs. Inr (v, gs))))"

definition gpu_warnings :: "gpu0 list \<Rightarrow> string list" where
  "gpu_warnings gs = (if length gs < 2
     then [''Phase 0 acceptance expects two GPUs; NVML reported '' @ int_str (int (length gs))] else [])"

text \<open>The answer, and whether \<open>nvmlShutdown\<close> was called; what it raises replaces the answer.\<close>

definition read_gpu_metrics :: "nvml0 \<Rightarrow> (probe_exc + p0_probe \<times> (string \<times> gpu0 list) option) \<times> bool" where
  "read_gpu_metrics nv =
     (let name = ''gpu_metrics'';
          caught = (\<lambda>e. if is_nvml e then Inr (unavailable_probe name (exc_str e), None) else Inl e) in
      if \<not> n0_import nv then (Inr (unavailable_probe name ''nvidia-ml-py is not installed'', None), False)
      else case n0_init nv of Inl e \<Rightarrow> (caught e, False)
        | Inr _ \<Rightarrow>
            let r = (case query_gpus nv of Inl e \<Rightarrow> caught e
                     | Inr (v, gs) \<Rightarrow> Inr (available_probe name (gpu_warnings gs), Some (v, gs)))
            in (case n0_shutdown nv of Inl e \<Rightarrow> (Inl e, True) | Inr _ \<Rightarrow> (r, True)))"

section \<open>Docker\<close>

record docker0 =
  d0_import :: bool
  d0_client :: "probe_exc + unit"
  d0_version :: "probe_exc + (string \<times> json) list"
  d0_containers :: "probe_exc + (string \<times> string \<times> string \<times> json) list"
  d0_close :: "probe_exc + unit"

text \<open>\<open>attrs.get(''NetworkSettings'', {}).get(''Ports'', {}) or {}\<close>; of what is no mapping \<open>get\<close> is an AttributeError.\<close>

definition attr_get :: "string \<Rightarrow> json \<Rightarrow> probe_exc + json" where
  "attr_get k j = (case j of JObj kvs \<Rightarrow> Inr (case map_of kvs k of Some v \<Rightarrow> v | None \<Rightarrow> JObj [])
     | _ \<Rightarrow> Inl (OtherExc0 ''AttributeError''))"

fun json_falsy :: "json \<Rightarrow> bool" where
  "json_falsy JNull = True"
| "json_falsy (JBool b) = (\<not> b)"
| "json_falsy (JInt n) = (n = 0)"
| "json_falsy (JStr s) = (s = [])"
| "json_falsy (JList xs) = (xs = [])"
| "json_falsy (JObj kvs) = (kvs = [])"

definition container_entry :: "string \<times> string \<times> string \<times> json \<Rightarrow> probe_exc + string \<times> string \<times> string \<times> json" where
  "container_entry c = (case c of (i, n, st, attrs) \<Rightarrow>
     res_bind (attr_get ''NetworkSettings'' attrs) (\<lambda>ns. res_bind (attr_get ''Ports'' ns) (\<lambda>p.
       Inr (i, n, st, if json_falsy p then JObj [] else p))))"

definition query_docker :: "docker0 \<Rightarrow> probe_exc + json option \<times> (string \<times> string \<times> string \<times> json) list" where
  "query_docker dk = res_bind (d0_client dk) (\<lambda>_.
     let r = res_bind (d0_version dk) (\<lambda>v. res_bind (d0_containers dk) (\<lambda>cs.
               res_bind (res_list (map container_entry cs)) (\<lambda>es. Inr (map_of v ''Version'', es))))
     in res_bind (d0_close dk) (\<lambda>_. r))"

definition read_docker_containers :: "docker0 \<Rightarrow> p0_probe \<times> (json option \<times> (string \<times> string \<times> string \<times> json) list) option" where
  "read_docker_containers dk =
     (if \<not> d0_import dk then (unavailable_probe ''docker'' ''docker SDK is not installed'', None)
      else case query_docker dk of Inl e \<Rightarrow> (unavailable_probe ''docker'' (exc_str e), None)
        | Inr x \<Rightarrow> (available_probe ''docker'' [], Some x))"

section \<open>The system and the report\<close>

record system0 =
  y0_memory :: "probe_exc + int \<times> int \<times> int \<times> rat"
  y0_disk :: "probe_exc + int \<times> int \<times> int \<times> rat"
  y0_cpu :: "probe_exc + rat"
  y0_logical :: "probe_exc + int option"
  y0_physical :: "probe_exc + int option"
  y0_load :: "probe_exc + rat list"

definition query_system :: "system0 \<Rightarrow> probe_exc + (rat \<times> int option \<times> int option \<times> rat list) \<times> (int \<times> int \<times> int \<times> rat) \<times> (int \<times> int \<times> int \<times> rat)" where
  "query_system sy =
     res_bind (y0_memory sy) (\<lambda>m. res_bind (y0_disk sy) (\<lambda>d. res_bind (y0_cpu sy) (\<lambda>c. res_bind (y0_logical sy) (\<lambda>l.
     res_bind (y0_physical sy) (\<lambda>p. res_bind (y0_load sy) (\<lambda>a. Inr ((c, l, p, a), m, d)))))))"

definition read_system_metrics :: "system0 \<Rightarrow> probe_exc + p0_probe \<times> ((rat \<times> int option \<times> int option \<times> rat list) \<times> (int \<times> int \<times> int \<times> rat) \<times> (int \<times> int \<times> int \<times> rat)) option" where
  "read_system_metrics sy = (case query_system sy of
     Inr x \<Rightarrow> Inr (available_probe ''system_metrics'' [], Some x)
   | Inl e \<Rightarrow> if is_host_exc e then Inr (unavailable_probe ''system_metrics'' (exc_str e), None) else Inl e)"

text \<open>The probes in the order of the report; the first exception that a probe lets through ends it.\<close>

definition collect_report :: "system0 \<Rightarrow> nvml0 \<Rightarrow> docker0 \<Rightarrow> string + connection list \<Rightarrow> (string \<Rightarrow> string option) \<Rightarrow> probe_exc + p0_probe list" where
  "collect_report sy nv dk ports which =
     res_bind (read_system_metrics sy) (\<lambda>s. res_bind (fst (read_gpu_metrics nv)) (\<lambda>g.
       Inr [fst s, fst g, fst (read_docker_containers dk), fst (read_listening_ports ports), fst (permission_snapshot which)]))"

section \<open>What a report is\<close>

lemma nvml_released: "snd (read_gpu_metrics nv) \<longleftrightarrow> n0_import nv \<and> is_ok (n0_init nv)"
  by (auto simp: read_gpu_metrics_def Let_def split: sum.splits)

lemma gpu_names: "fst (read_gpu_metrics nv) = Inr (p, d) \<Longrightarrow> pb_name p = ''gpu_metrics'' \<and> (pb_available p \<longleftrightarrow> d \<noteq> None)"
  by (auto simp: read_gpu_metrics_def Let_def unavailable_probe_def available_probe_def split: sum.splits if_splits)

lemma docker_names: "read_docker_containers dk = (p, d) \<Longrightarrow> pb_name p = ''docker'' \<and> (pb_available p \<longleftrightarrow> d \<noteq> None)"
  by (auto simp: read_docker_containers_def unavailable_probe_def available_probe_def split: sum.splits if_splits)

lemma system_names: "read_system_metrics sy = Inr (p, d) \<Longrightarrow> pb_name p = ''system_metrics'' \<and> (pb_available p \<longleftrightarrow> d \<noteq> None)"
  by (auto simp: read_system_metrics_def unavailable_probe_def available_probe_def split: sum.splits if_splits)

lemma port_names: "pb_name (fst (read_listening_ports src)) = ''listening_ports''"
  by (auto simp: read_listening_ports_def split: sum.splits)

lemma permission_names: "pb_name (fst (permission_snapshot which)) = ''permissions''"
  by (simp add: permission_snapshot_def Let_def)

text \<open>The names are the keys of the report, so no probe hides another.\<close>

lemma report_complete:
  assumes "collect_report sy nv dk ports which = Inr ps"
  shows "map pb_name ps = [''system_metrics'', ''gpu_metrics'', ''docker'', ''listening_ports'', ''permissions'']"
proof -
  obtain s g where s: "read_system_metrics sy = Inr s" "fst (read_gpu_metrics nv) = Inr g"
    and ps: "ps = [fst s, fst g, fst (read_docker_containers dk), fst (read_listening_ports ports), fst (permission_snapshot which)]"
    using assms by (auto simp: collect_report_def)
  have "pb_name (fst s) = ''system_metrics''" "pb_name (fst g) = ''gpu_metrics''" "pb_name (fst (read_docker_containers dk)) = ''docker''"
    using system_names [of sy "fst s" "snd s"] gpu_names [of nv "fst g" "snd g"]
      docker_names [of dk "fst (read_docker_containers dk)" "snd (read_docker_containers dk)"] s by simp_all
  then show ?thesis by (simp add: ps port_names permission_names)
qed

end
