(* ===== verification/Spec2Isabelle.thy ===== *)
theory Spec2Isabelle
  imports Settings LogStream Deployment ServerState Doctor Uninstall Schema Phase0Probes
begin

text \<open>
  A verification library for MachineDeck, a control panel for one Linux host. An operator registers
  applications (a manifest each), and MachineDeck starts, stops and watches them as systemd user units or
  Docker Compose projects, shows their ports, logs and the load of the host, and keeps an audit log. It is
  a FastAPI server over an SQLite database (\<open>backend/app\<close>) with one administrator, and an installer
  (\<open>scripts/machinedeck_deploy.py\<close>) that upgrades it, checks it and removes it.

  \<^bold>\<open>The parts and how they interact.\<close> A request first meets \<open>require_http_auth\<close>; its handler then calls
  the registry, the lifecycle service, the port service, the audit queries or the dashboard. They share the
  database, through one session per request. The lifecycle service decides with the state machine, asks the
  port service for conflicts, and drives a runtime adapter, which renders and installs a unit or runs Docker
  Compose. The log WebSocket reads the journal or the containers through a redacting filter. At its start the
  server reads its settings and reconciles the units. The installer builds a release, migrates the database
  and switches the running service, and undoes all of it when a step fails.

  \<^bold>\<open>The theories\<close> (each names the functions it models; paths are under \<open>backend/app\<close>):

  \<^item> Foundations. \<open>Prelude\<close> (results, search, the collections of lemmas), \<open>PyStr\<close>, \<open>Regex\<close>, \<open>Url\<close>, \<open>IpAddr\<close>
    and \<open>Paths\<close>: what the program uses of Python's \<open>str\<close>, \<open>re\<close>, \<open>urllib.parse\<close>, \<open>ipaddress\<close>, \<open>pathlib\<close>.
  \<^item> Settings. \<open>Config\<close> and \<open>Settings\<close> for \<open>config.py\<close>: every setting and its check.
  \<^item> Data. \<open>Status\<close> (\<open>schemas/lifecycle.py\<close>, \<open>orchestration/state_machine.py\<close>), \<open>Manifest\<close>
    (\<open>schemas/applications.py\<close>), \<open>Database\<close> (\<open>database/models.py\<close> as records, \<open>database/session.py\<close> as a
    store: the committed tables, the copy of the running session, and how many times the clock and the
    source of random values have been used), \<open>Schema\<close> (the schema of the models, the Alembic migrations).
  \<^item> Registry and lifecycle. \<open>Registry\<close> (\<open>services/applications.py\<close>), \<open>UserUnits\<close> and \<open>UnitManager\<close>
    (\<open>systemd/\<close>), \<open>RuntimeAdapter\<close> (\<open>adapters/runtime.py\<close>), \<open>PortDiscovery\<close> and \<open>Ports\<close>
    (\<open>orchestration/port_discovery.py\<close>, \<open>ports.py\<close>), \<open>Lifecycle\<close> (\<open>orchestration/lifecycle_service.py\<close>).
  \<^item> Access. \<open>Network\<close> and \<open>Auth\<close> (\<open>security/auth.py\<close>, \<open>api/auth.py\<close>): the client's address behind proxies,
    origins, the administrator, sessions, CSRF tokens, the throttle of failed logins.
  \<^item> Audit and logs. \<open>Redaction\<close> and \<open>AuditEvents\<close> (\<open>audit/\<close>, \<open>api/audit.py\<close>), \<open>LogSource\<close> and \<open>LogStream\<close>
    (\<open>logging/\<close>, \<open>api/log_websocket.py\<close>).
  \<^item> Dashboard. \<open>Collectors\<close> and \<open>Dashboard\<close> (\<open>dashboard/\<close>, \<open>api/dashboard.py\<close>).
  \<^item> The server. \<open>Server\<close> (\<open>main.py\<close>, \<open>api/applications.py\<close>, \<open>api/system.py\<close>) composes the handlers into one
    function of a request, and \<open>ServerState\<close> its runs, with logins, restarts and the host in between.
  \<^item> The installer. \<open>HostFs\<close> (a file tree in which any operation can fail, and a monad over it),
    \<open>DeployConfig\<close>, \<open>Deploy\<close>, \<open>Uninstall\<close> and \<open>Doctor\<close> for the commands of the script; \<open>Transaction\<close>,
    \<open>Rollback\<close> and \<open>Deployment\<close> for what an installation, its rollback and its success guarantee.
  \<^item> \<open>Phase0\<close> and \<open>Phase0Probes\<close> (\<open>phase0/\<close>): the earlier prototype that is still shipped, its registry file,
    the commands it runs and its report on the host.

  \<^bold>\<open>How the code is modelled.\<close> An object that is mutated is a record that operations return updated; an
  exception is the left of a sum, one constructor per class the callers distinguish; a handler's answer is its
  status code and detail, and an exception no handler names is a 500. What runs in the background
  (producers and consumers of the log stream, subscribers of the dashboard, the server as a whole) is an
  inductive step relation, and its properties hold for every interleaving. A loop over a file or a list is a
  \<open>fun\<close>; \<open>wait_for_websocket_session_end\<close>, which may poll for ever, is a \<open>partial_function (option)\<close> with a
  theorem that it returns. Integers of Python are \<open>int\<close>.

  \<^bold>\<open>What the lemmas show.\<close>
  \<^item> The server (\<open>ServerState\<close>, \<open>Server\<close>): in every reachable state the tables are in order, the audit log only
    grows, a revoked token is refused everywhere, and nothing happens without an authenticated request.
    Here two locales, \<open>api_closed\<close> and \<open>auth_closed\<close>, carry the frames of the two halves of the program.
  \<^item> The registry refines a finite map (locale \<open>map_simulation\<close>), locks active applications, and keeps its rows
    consistent with the manifests they store. Every table is an instance of the locale \<open>keyed_rows\<close>.
  \<^item> Units: what is rendered reads back as the manifest says, an install is complete or undone, a start is
    confirmed or undone. Lifecycle: every action leaves one execution and one audit event that agree with the
    state row, a refused action changes nothing, and one known gap (an exception of the adapter) is stated.
  \<^item> Ports: conflicts are exactly the occupied declared sockets, and a URL cannot leave its host and path.
  \<^item> Access: a client cannot forge its address, guessing is bounded, setup is local and once, logout is final.
  \<^item> Audit and logs: secrets are masked and details bounded, paging is complete, lines do not depend on how the
    pipe cuts them, every log line is delivered or counted as dropped, and a stream ends.
  \<^item> Dashboard: its counts agree with the list of applications, and a slow subscriber sees the newest snapshot.
  \<^item> Installer: a failed deployment whose handler completes is undone, a successful one runs the new release, a
    doctor that reports success has seen a consistent installation and changed nothing, and uninstall stays in
    its scope. Migrations agree with the models and can be taken back.

  \<^bold>\<open>Parameters and hypotheses.\<close> What is not under the repository is an argument of the definitions: the clock
  and the random source (\<open>sources\<close>; \<open>random_ok\<close>: neither repeats, the clock does not go back), hashing
  (\<open>crypto\<close>), YAML, JSON and TOML readers (\<open>codec\<close>, \<open>storable\<close>: a validated manifest is read back as it was
  written), the file system (\<open>host_fs\<close>, \<open>resolves\<close>: resolving twice is resolving once), the processes a
  command starts (\<open>runner\<close>, \<open>spawn\<close>, \<open>deploy_env\<close>), psutil, Docker and NVML (\<open>host_view\<close>, the probes), the
  decoding of requests by FastAPI (\<open>site\<close>). The theorems on the installer assume that its directories are laid
  out as \<open>layout\<close> says and lie apart (\<open>installation\<close>, \<open>separate\<close>), that external commands write only where they are
  documented to (\<open>commands_confined\<close>) and that \<open>systemctl\<close> stops and starts what it is told to
  (\<open>service_commands\<close>). Every theorem with such a hypothesis has a witness on concrete functions.

  \<^bold>\<open>Bounds and fuel.\<close> The queue of a log client and its history, the log lines cut at a maximal length, the one
  snapshot a dashboard queue holds, the limits of the audit redaction and the 64 KiB of a unit are those of the
  code. The health check of a deployment makes its 30 attempts, as a recursion on their number.
  \<open>collect_pages\<close> reads all pages of the audit log with fuel; the theorem asks for more fuel than there are
  matching events, which every page decreases. The matcher of \<open>Regex\<close> needs no fuel: the
  patterns of the program repeat single characters only.

  \<^bold>\<open>Simplifications.\<close> Strings are lists of characters up to U+00FF. Paths are lexical, with symbolic links inside the
  \<open>resolve\<close> that is a parameter. Floats of the dashboard are rationals. Operations on one application run
  under its lock, so one operation is one step; other sessions enter where the code can notice them (a unique
  key already taken), not between any two statements. Permission bits are read by the doctor, but the file tree
  of the installer has none. A \<open>send\<close> on a WebSocket does not fail half-way. A unit file write that fails in
  the middle is left out of the server's unit manager (the installer's file operations can all fail).

  \<^bold>\<open>Not modelled.\<close> The WebSocket of Phase 0, which sends its report every two seconds; \<open>cli.py\<close>, which only calls uvicorn or the installer; the constant security headers, the
  static files and the frontend; Alembic's environment beyond the choice of the URL; the argument parser and the
  printed output of the installer; field declarations that FastAPI enforces (\<open>schemas/auth.py\<close>); and the
  scripts \<open>scripts/validate-*.py\<close>, acceptance tests that drive a running installation.
\<close>

end
